(* ===== verification/GoStrings.thy ===== *)
theory GoStrings
  imports Prelude
begin

section \<open>Go strings: bytes, UTF-8 and the functions of package strings\<close>

text \<open>
  A Go string is a sequence of bytes, here a \<open>char list\<close>. This theory models what the
  program uses of the standard library on strings: decoding and encoding of UTF-8 (an
  invalid byte is the rune U+FFFD of width 1), \<open>unicode.IsSpace\<close>, \<open>strings.TrimSpace\<close>,
  \<open>TrimRightFunc\<close>, \<open>Fields\<close>, \<open>Cut\<close>, \<open>CutPrefix\<close>, \<open>Contains\<close>, \<open>Trim\<close> and the decimal
  form of integers.
\<close>

type_synonym rune = nat

definition byte_of :: "char \<Rightarrow> nat" where
  "byte_of c = of_char c"

definition rune_error :: rune where
  "rune_error = 65533"

definition newline :: char where "newline = CHR 0x0A"

subsection \<open>UTF-8\<close>

text \<open>\<open>utf8.DecodeRuneInString\<close>: the first rune and its width in bytes.\<close>

definition decode_rune :: "string \<Rightarrow> rune \<times> nat" where
  "decode_rune s = (case s of
     [] \<Rightarrow> (rune_error, 0)
   | c0 # r0 \<Rightarrow>
      (let b0 = byte_of c0 in
       if b0 < 128 then (b0, 1)
       else if b0 < 194 \<or> 244 < b0 then (rune_error, 1)
       else (case r0 of
          [] \<Rightarrow> (rune_error, 1)
        | c1 # r1 \<Rightarrow>
           (let b1 = byte_of c1;
                lo = (if b0 = 224 then 160 else if b0 = 240 then 144 else 128);
                hi = (if b0 = 237 then 159 else if b0 = 244 then 143 else 191) in
            if b1 < lo \<or> hi < b1 then (rune_error, 1)
            else if b0 < 224 then ((b0 - 192) * 64 + (b1 - 128), 2)
            else (case r1 of
               [] \<Rightarrow> (rune_error, 1)
             | c2 # r2 \<Rightarrow>
                (let b2 = byte_of c2 in
                 if b2 < 128 \<or> 191 < b2 then (rune_error, 1)
                 else if b0 < 240 then
                   ((b0 - 224) * 4096 + (b1 - 128) * 64 + (b2 - 128), 3)
                 else (case r2 of
                    [] \<Rightarrow> (rune_error, 1)
                  | c3 # r3 \<Rightarrow>
                     (let b3 = byte_of c3 in
                      if b3 < 128 \<or> 191 < b3 then (rune_error, 1)
                      else ((b0 - 240) * 262144 + (b1 - 128) * 4096
                              + (b2 - 128) * 64 + (b3 - 128), 4)))))))))"

lemma decode_rune_width_pos: "s \<noteq> [] \<Longrightarrow> 0 < snd (decode_rune s)"
  by (auto simp: decode_rune_def Let_def split: list.splits)

lemma decode_rune_width_le: "snd (decode_rune s) \<le> length s"
  by (auto simp: decode_rune_def Let_def split: list.splits)

lemma decode_rune_ascii: "byte_of c < 128 \<Longrightarrow> decode_rune (c # s) = (byte_of c, 1)"
  by (simp add: decode_rune_def Let_def)

text \<open>\<open>utf8.RuneStart\<close> and \<open>utf8.DecodeLastRuneInString\<close>.\<close>

definition rune_start :: "char \<Rightarrow> bool" where
  "rune_start c \<longleftrightarrow> byte_of c < 128 \<or> 192 \<le> byte_of c"

definition last_start :: "string \<Rightarrow> nat" where
  "last_start s =
     (let lim = length s - 4 in
      case find (\<lambda>i. rune_start (s ! i)) (rev [lim..<length s - 1]) of
        Some i \<Rightarrow> i
      | None \<Rightarrow> lim - 1)"

definition decode_last_rune :: "string \<Rightarrow> rune \<times> nat" where
  "decode_last_rune s =
     (if s = [] then (rune_error, 0)
      else if byte_of (last s) < 128 then (byte_of (last s), 1)
      else (let st = last_start s; (r, n) = decode_rune (drop st s) in
            if st + n \<noteq> length s then (rune_error, 1) else (r, n)))"

lemma last_start_less: "s \<noteq> [] \<Longrightarrow> last_start s < length s"
proof -
  assume "s \<noteq> []"
  then have pos: "0 < length s" by simp
  have "i < length s" if "find P (rev [lim..<length s - 1]) = Some i" for P lim i
  proof -
    from that have "i \<in> set (rev [lim..<length s - 1])"
      by (metis find_Some_iff nth_mem)
    then show ?thesis by auto
  qed
  then show ?thesis
    using pos by (auto simp: last_start_def Let_def split: option.splits)
qed

lemma decode_last_rune_width_pos: "s \<noteq> [] \<Longrightarrow> 0 < snd (decode_last_rune s)"
  using decode_rune_width_pos [of "drop (last_start s) s"] last_start_less [of s]
  by (auto simp: decode_last_rune_def Let_def split: prod.splits)

text \<open>\<open>utf8.AppendRune\<close>, which \<open>strings.Builder.WriteRune\<close> uses.\<close>

definition encode_rune :: "rune \<Rightarrow> string" where
  "encode_rune r0 =
     (let r = (if 1114111 < r0 \<or> (55296 \<le> r0 \<and> r0 \<le> 57343) then rune_error else r0) in
      if r < 128 then [char_of r]
      else if r < 2048 then [char_of (192 + r div 64), char_of (128 + r mod 64)]
      else if r < 65536 then
        [char_of (224 + r div 4096), char_of (128 + r div 64 mod 64), char_of (128 + r mod 64)]
      else
        [char_of (240 + r div 262144), char_of (128 + r div 4096 mod 64),
         char_of (128 + r div 64 mod 64), char_of (128 + r mod 64)])"

lemma encode_rune_ascii: "byte_of c < 128 \<Longrightarrow> encode_rune (byte_of c) = [c]"
  by (simp add: encode_rune_def byte_of_def Let_def)

text \<open>The runes of a string, as \<open>for _, r := range s\<close> visits them.\<close>

function runes :: "string \<Rightarrow> rune list" where
  "runes s = (if s = [] then [] else fst (decode_rune s) # runes (drop (snd (decode_rune s)) s))"
  by pat_completeness auto
termination
  by (relation "measure length") (auto simp: decode_rune_width_pos)

declare runes.simps [simp del]

lemma runes_Nil [simp]: "runes [] = []"
  by (simp add: runes.simps)

definition is_ascii :: "string \<Rightarrow> bool" where
  "is_ascii s \<longleftrightarrow> (\<forall>c \<in> set s. byte_of c < 128)"

lemma is_ascii_simps [simp]:
  "is_ascii []" "is_ascii (c # s) \<longleftrightarrow> byte_of c < 128 \<and> is_ascii s"
  "is_ascii (s @ t) \<longleftrightarrow> is_ascii s \<and> is_ascii t"
  by (auto simp: is_ascii_def)

lemma runes_ascii: "is_ascii s \<Longrightarrow> runes s = map byte_of s"
  by (induction s) (simp_all add: runes.simps [of "_ # _"] decode_rune_ascii)

subsection \<open>White space and trimming\<close>

text \<open>\<open>unicode.IsSpace\<close>.\<close>

definition is_space :: "rune \<Rightarrow> bool" where
  "is_space r \<longleftrightarrow>
     (9 \<le> r \<and> r \<le> 13) \<or> r = 32 \<or> r = 133 \<or> r = 160 \<or> r = 5760 \<or>
     (8192 \<le> r \<and> r \<le> 8202) \<or> r = 8232 \<or> r = 8233 \<or> r = 8239 \<or> r = 8287 \<or> r = 12288"

function trim_left_space :: "string \<Rightarrow> string" where
  "trim_left_space s =
     (if s = [] then []
      else if is_space (fst (decode_rune s)) then trim_left_space (drop (snd (decode_rune s)) s)
      else s)"
  by pat_completeness auto
termination
  by (relation "measure length") (auto simp: decode_rune_width_pos)

function trim_right_space :: "string \<Rightarrow> string" where
  "trim_right_space s =
     (if s = [] then []
      else if is_space (fst (decode_last_rune s))
        then trim_right_space (take (length s - snd (decode_last_rune s)) s)
      else s)"
  by pat_completeness auto
termination
  by (relation "measure length") (auto simp: decode_last_rune_width_pos)

declare trim_left_space.simps [simp del] trim_right_space.simps [simp del]

text \<open>\<open>strings.TrimSpace\<close>.\<close>

definition trim_space :: "string \<Rightarrow> string" where
  "trim_space s = trim_right_space (trim_left_space s)"

text \<open>A string that starts and ends with ASCII bytes other than white space.\<close>

definition solid :: "string \<Rightarrow> bool" where
  "solid s \<longleftrightarrow> s \<noteq> [] \<and> byte_of (hd s) < 128 \<and> \<not> is_space (byte_of (hd s))
     \<and> byte_of (last s) < 128 \<and> \<not> is_space (byte_of (last s))"

lemma trim_space_solid: "solid s \<Longrightarrow> trim_space s = s"
proof -
  assume s: "solid s"
  then obtain c r where cr: "s = c # r" by (cases s) (auto simp: solid_def)
  with s have "trim_left_space s = s"
    by (subst trim_left_space.simps) (simp add: solid_def decode_rune_ascii)
  moreover from s have "trim_right_space s = s"
    by (subst trim_right_space.simps) (simp add: solid_def decode_last_rune_def)
  ultimately show ?thesis by (simp add: trim_space_def)
qed

lemma trim_space_Nil [simp]: "trim_space [] = []"
  by (simp add: trim_space_def trim_left_space.simps trim_right_space.simps)

text \<open>A string of white space only trims to the empty string, and only such a string does.\<close>

lemma trim_left_space_suffix: "\<exists>p. s = p @ trim_left_space s"
proof (induction s rule: trim_left_space.induct)
  case (1 s)
  show ?case
  proof (cases "s = [] \<or> \<not> is_space (fst (decode_rune s))")
    case True
    then show ?thesis by (subst trim_left_space.simps) auto
  next
    case False
    with 1 obtain p where "drop (snd (decode_rune s)) s
        = p @ trim_left_space (drop (snd (decode_rune s)) s)" by blast
    moreover from False have "trim_left_space s = trim_left_space (drop (snd (decode_rune s)) s)"
      by (simp add: trim_left_space.simps [of s])
    ultimately show ?thesis by (metis append.assoc append_take_drop_id)
  qed
qed

lemma trim_right_space_prefix: "prefix (trim_right_space s) s"
proof (induction s rule: trim_right_space.induct)
  case (1 s)
  show ?case
  proof (cases "s = [] \<or> \<not> is_space (fst (decode_last_rune s))")
    case True
    then show ?thesis by (subst trim_right_space.simps) auto
  next
    case False
    with 1 have "prefix (trim_right_space (take (length s - snd (decode_last_rune s)) s))
        (take (length s - snd (decode_last_rune s)) s)" by blast
    with False show ?thesis
      by (subst trim_right_space.simps) (auto intro: prefix_order.trans take_is_prefix)
  qed
qed

lemma set_trim_space: "set (trim_space s) \<subseteq> set s"
proof -
  have "set (trim_right_space (trim_left_space s)) \<subseteq> set (trim_left_space s)"
    by (rule set_mono_prefix [OF trim_right_space_prefix])
  moreover have "set (trim_left_space s) \<subseteq> set s"
    using trim_left_space_suffix [of s] by (metis Un_upper2 set_append)
  ultimately show ?thesis by (auto simp: trim_space_def)
qed

lemma trim_right_space_first:
  "byte_of c < 128 \<Longrightarrow> \<not> is_space (byte_of c) \<Longrightarrow> trim_right_space (c # s) \<noteq> []"
proof (induction "length s" arbitrary: s rule: less_induct)
  case less
  show ?case
  proof (cases "is_space (fst (decode_last_rune (c # s)))")
    case False
    then show ?thesis by (subst trim_right_space.simps) simp
  next
    case True
    let ?n = "snd (decode_last_rune (c # s))"
    have "s \<noteq> []" using True less.prems by (auto simp: decode_last_rune_def)
    moreover have "decode_rune (c # s) = (byte_of c, 1)" using less.prems by (simp add: decode_rune_ascii)
    ultimately have "?n < length (c # s)"
      by (cases "last_start (c # s)") (auto simp: decode_last_rune_def Let_def split: prod.splits)
    then obtain m where "length (c # s) - ?n = Suc m" by (cases "length (c # s) - ?n") auto
    then have "trim_right_space (c # s) = trim_right_space (c # take m s)"
      using True by (simp add: trim_right_space.simps [of "c # s"])
    moreover have "length (take m s) < length s"
      using \<open>length (c # s) - ?n = Suc m\<close> decode_last_rune_width_pos [of "c # s"] by simp
    ultimately show ?thesis using less by simp
  qed
qed

lemma trim_space_ascii_first:
  "byte_of c < 128 \<Longrightarrow> \<not> is_space (byte_of c) \<Longrightarrow> trim_space (c # s) \<noteq> []"
  by (simp add: trim_space_def trim_left_space.simps [of "c # s"] decode_rune_ascii
      trim_right_space_first)

subsection \<open>Searching and cutting\<close>

text \<open>\<open>strings.CutPrefix\<close>: the rest after the prefix, or nothing.\<close>

definition cut_prefix :: "string \<Rightarrow> string \<Rightarrow> string option" where
  "cut_prefix p s = (if prefix p s then Some (drop (length p) s) else None)"

lemma cut_prefix_append [simp]: "cut_prefix p (p @ s) = Some s"
  by (simp add: cut_prefix_def)

lemma cut_prefix_Some: "cut_prefix p s = Some r \<longleftrightarrow> s = p @ r"
  by (auto simp: cut_prefix_def prefix_def)

text \<open>\<open>strings.Contains\<close>.\<close>

fun contains :: "string \<Rightarrow> string \<Rightarrow> bool" where
  "contains p [] \<longleftrightarrow> p = []"
| "contains p (c # s) \<longleftrightarrow> prefix p (c # s) \<or> contains p s"

lemma contains_iff: "contains p s \<longleftrightarrow> (\<exists>a b. s = a @ p @ b)"
proof (induction s)
  case (Cons c s)
  have "(\<exists>a b. c # s = a @ p @ b) \<longleftrightarrow> (\<exists>b. c # s = p @ b) \<or> (\<exists>a b. s = a @ p @ b)"
    by (metis append_Cons append_Nil list.inject neq_Nil_conv)
  with Cons show ?case by (simp add: prefix_def)
qed simp

text \<open>\<open>strings.Trim\<close> with a cutset of ASCII bytes, as the program uses it.\<close>

definition trim_cutset :: "char set \<Rightarrow> string \<Rightarrow> string" where
  "trim_cutset cs s = rev (dropWhile (\<lambda>c. c \<in> cs) (rev (dropWhile (\<lambda>c. c \<in> cs) s)))"

text \<open>\<open>strings.Cut\<close> with a separator of one byte.\<close>

fun cut_at :: "char \<Rightarrow> string \<Rightarrow> (string \<times> string) option" where
  "cut_at c [] = None"
| "cut_at c (x # xs) =
     (if x = c then Some ([], xs)
      else map_option (\<lambda>(a, b). (x # a, b)) (cut_at c xs))"

lemma cut_at_Some: "cut_at c s = Some (a, b) \<longleftrightarrow> s = a @ c # b \<and> c \<notin> set a"
proof (induction s arbitrary: a)
  case (Cons x s)
  then show ?case by (cases "x = c"; cases a) auto
qed simp

lemma cut_at_None: "cut_at c s = None \<longleftrightarrow> c \<notin> set s"
  by (induction s) auto

text \<open>\<open>strings.Fields\<close>: the maximal runs of runes that are not white space.\<close>

function fields_loop :: "string \<Rightarrow> string \<Rightarrow> string list" where
  "fields_loop cur s =
     (if s = [] then (if cur = [] then [] else [cur])
      else if is_space (fst (decode_rune s))
        then (if cur = [] then [] else [cur]) @ fields_loop [] (drop (snd (decode_rune s)) s)
      else fields_loop (cur @ take (snd (decode_rune s)) s) (drop (snd (decode_rune s)) s))"
  by pat_completeness auto
termination
  by (relation "measure (\<lambda>(_, s). length s)") (simp_all add: decode_rune_width_pos)

declare fields_loop.simps [simp del]

definition fields_of :: "string \<Rightarrow> string list" where
  "fields_of s = fields_loop [] s"

lemma fields_loop_end: "fields_loop cur [] = (if cur = [] then [] else [cur])"
  by (subst fields_loop.simps) simp

lemma fields_loop_space:
  "s \<noteq> [] \<Longrightarrow> is_space (fst (decode_rune s)) \<Longrightarrow>
    fields_loop cur s =
      (if cur = [] then [] else [cur]) @ fields_loop [] (drop (snd (decode_rune s)) s)"
  by (subst fields_loop.simps) simp

lemma fields_loop_word:
  "s \<noteq> [] \<Longrightarrow> \<not> is_space (fst (decode_rune s)) \<Longrightarrow>
    fields_loop cur s =
      fields_loop (cur @ take (snd (decode_rune s)) s) (drop (snd (decode_rune s)) s)"
  by (subst fields_loop.simps) simp

lemma fields_loop_not_Nil: "cur \<noteq> [] \<Longrightarrow> fields_loop cur s \<noteq> []"
proof (induction cur s rule: fields_loop.induct)
  case (1 cur s)
  consider "s = []" | "s \<noteq> []" "is_space (fst (decode_rune s))"
    | "s \<noteq> []" "\<not> is_space (fst (decode_rune s))" by blast
  then show ?case
  proof cases
    case 3
    with "1.IH"(2) "1.prems"
    have "fields_loop (cur @ take (snd (decode_rune s)) s) (drop (snd (decode_rune s)) s) \<noteq> []"
      by simp
    with fields_loop_word [OF 3] show ?thesis by simp
  qed (simp_all add: "1.prems" fields_loop_end fields_loop_space)
qed

lemma fields_loop_elems: "f \<in> set (fields_loop cur s) \<Longrightarrow> f \<noteq> []"
proof (induction cur s rule: fields_loop.induct)
  case (1 cur s)
  consider "s = []" | "s \<noteq> []" "is_space (fst (decode_rune s))"
    | "s \<noteq> []" "\<not> is_space (fst (decode_rune s))" by blast
  then show ?case
  proof cases
    case 1
    with "1.prems" show ?thesis by (simp add: fields_loop_end split: if_splits)
  next
    case 2
    from "1.prems" have "f \<in> set ((if cur = [] then [] else [cur]) @
        fields_loop [] (drop (snd (decode_rune s)) s))"
      unfolding fields_loop_space [OF 2] .
    with 2 "1.IH"(1) show ?thesis by (cases "cur = []") auto
  next
    case 3
    from "1.prems" have "f \<in> set (fields_loop (cur @ take (snd (decode_rune s)) s)
        (drop (snd (decode_rune s)) s))"
      unfolding fields_loop_word [OF 3] .
    with 3 "1.IH"(2) show ?thesis by simp
  qed
qed

text \<open>A string that does not trim to nothing has a field.\<close>

lemma fields_not_Nil_left: "trim_left_space s \<noteq> [] \<Longrightarrow> fields_loop [] s \<noteq> []"
proof (induction s rule: trim_left_space.induct)
  case (1 s)
  then have ne: "s \<noteq> []" by (metis trim_left_space.simps)
  show ?case
  proof (cases "is_space (fst (decode_rune s))")
    case True
    with ne have "trim_left_space s = trim_left_space (drop (snd (decode_rune s)) s)"
      by (subst trim_left_space.simps) simp
    with 1 True ne show ?thesis by (simp add: fields_loop_space)
  next
    case False
    with ne have "take (snd (decode_rune s)) s \<noteq> []"
      using decode_rune_width_pos [OF ne] by simp
    then show ?thesis
      using fields_loop_word [OF ne False, of "[]"] fields_loop_not_Nil by simp
  qed
qed

text \<open>Cutting a string short leaves its first rune alone or makes it invalid.\<close>

lemma decode_rune_prefix:
  "prefix (c # v) u \<Longrightarrow> decode_rune (c # v) = decode_rune u \<or> fst (decode_rune (c # v)) = rune_error"
proof -
  assume "prefix (c # v) u"
  then obtain w where u: "u = c # v @ w" by (auto simp: prefix_def)
  show ?thesis
  proof (cases v)
    case Nil
    then show ?thesis unfolding u by (simp add: decode_rune_def Let_def)
  next
    case v1: (Cons c1 v1)
    show ?thesis
    proof (cases v1)
      case Nil
      then show ?thesis unfolding u v1 by (simp add: decode_rune_def Let_def)
    next
      case v2: (Cons c2 v2)
      then show ?thesis unfolding u v1 v2 by (cases v2) (simp_all add: decode_rune_def Let_def)
    qed
  qed
qed

lemma trim_left_space_first:
  "trim_left_space s \<noteq> [] \<Longrightarrow> \<not> is_space (fst (decode_rune (trim_left_space s)))"
proof (induction s rule: trim_left_space.induct)
  case (1 s)
  show ?case
  proof (cases "s \<noteq> [] \<and> is_space (fst (decode_rune s))")
    case True
    then have "trim_left_space s = trim_left_space (drop (snd (decode_rune s)) s)"
      by (simp add: trim_left_space.simps [of s])
    with True 1 show ?thesis by simp
  next
    case False
    with "1.prems" show ?thesis by (metis trim_left_space.simps)
  qed
qed

lemma trim_space_first: "trim_space s \<noteq> [] \<Longrightarrow> \<not> is_space (fst (decode_rune (trim_space s)))"
proof -
  assume ne: "trim_space s \<noteq> []"
  then obtain c v where cv: "trim_space s = c # v" by (cases "trim_space s") auto
  have pre: "prefix (trim_space s) (trim_left_space s)"
    unfolding trim_space_def by (rule trim_right_space_prefix)
  with ne have "\<not> is_space (fst (decode_rune (trim_left_space s)))"
    by (intro trim_left_space_first) auto
  moreover have "\<not> is_space rune_error" by (simp add: is_space_def rune_error_def)
  ultimately show ?thesis
    using decode_rune_prefix [OF pre [unfolded cv]] unfolding cv by auto
qed

text \<open>The fields of a trimmed string: at least one, none empty.\<close>

lemma fields_of_trim_space:
  assumes "trim_space s \<noteq> []"
  shows "fields_of (trim_space s) \<noteq> []" "[] \<notin> set (fields_of (trim_space s))"
proof -
  have "trim_left_space (trim_space s) = trim_space s"
    using assms trim_space_first [OF assms] by (simp add: trim_left_space.simps [of "trim_space s"])
  then show "fields_of (trim_space s) \<noteq> []"
    using assms fields_not_Nil_left [of "trim_space s"] by (simp add: fields_of_def)
  show "[] \<notin> set (fields_of (trim_space s))"
    unfolding fields_of_def by (blast dest: fields_loop_elems)
qed

subsection \<open>Decimal numbers\<close>

text \<open>\<open>strconv.Itoa\<close> and the verb \<open>%d\<close>.\<close>

definition digit_char :: "nat \<Rightarrow> char" where
  "digit_char d = char_of (48 + d)"

fun show_nat :: "nat \<Rightarrow> string" where
  "show_nat n = (if n < 10 then [digit_char n] else show_nat (n div 10) @ [digit_char (n mod 10)])"

declare show_nat.simps [simp del]

definition show_int :: "int \<Rightarrow> string" where
  "show_int i = (if i < 0 then CHR ''-'' # show_nat (nat (- i)) else show_nat (nat i))"

lemma show_nat_not_Nil [simp]: "show_nat n \<noteq> []"
  by (subst show_nat.simps) simp

end
