(* ===== verification/PatchParse.thy ===== *)
theory PatchParse
  imports GoStrings
begin

section \<open>The patch format: parsing in internal/tools/apply\_patch\_format.go\<close>

text \<open>
  A patch is a list of hunks between two marker lines: add a file, delete a file, or update a
  file by chunks of context, removed and added lines. The theory models the parser line by line,
  errors with the line number they report, and shows that it always makes progress within the
  lines it has, that what it returns is never empty, and that it reads back every printed patch.
\<close>

definition begin_patch_marker :: string where "begin_patch_marker = ''*** Begin Patch''"
definition end_patch_marker :: string where "end_patch_marker = ''*** End Patch''"
definition add_file_marker :: string where "add_file_marker = ''*** Add File: ''"
definition delete_file_marker :: string where "delete_file_marker = ''*** Delete File: ''"
definition update_file_marker :: string where "update_file_marker = ''*** Update File: ''"
definition move_to_marker :: string where "move_to_marker = ''*** Move to: ''"
definition eof_marker :: string where "eof_marker = ''*** End of File''"
definition change_context_marker :: string where "change_context_marker = ''@@ ''"
definition empty_change_context_marker :: string where "empty_change_context_marker = ''@@''"

record update_file_chunk =
  change_context :: string
  old_lines :: "string list"
  new_lines :: "string list"
  end_of_file :: bool

datatype patch_hunk =
    AddFile string string                              \<comment> \<open>path and contents\<close>
  | DeleteFile string
  | UpdateFile string string "update_file_chunk list"  \<comment> \<open>path, new path or empty, chunks\<close>

fun source_path :: "patch_hunk \<Rightarrow> string" where
  "source_path (AddFile p c) = p"
| "source_path (DeleteFile p) = p"
| "source_path (UpdateFile p m cs) = p"

fun move_path :: "patch_hunk \<Rightarrow> string" where
  "move_path (AddFile p c) = []"
| "move_path (DeleteFile p) = []"
| "move_path (UpdateFile p m cs) = m"

text \<open>The errors, with the line number each message carries.\<close>

datatype patch_error =
    FirstLineInvalid
  | LastLineInvalid
  | NoFilesModified
  | NotAHunkHeader nat string
  | UpdateIsEmpty nat string
  | ChunkHasNoLines nat
  | ContextExpected nat string
  | UnexpectedLine nat string

definition check_patch_boundaries :: "string list \<Rightarrow> patch_error option" where
  "check_patch_boundaries ls =
     (if ls = [] then Some FirstLineInvalid
      else if trim_space (hd ls) \<noteq> begin_patch_marker then Some FirstLineInvalid
      else if trim_space (last ls) \<noteq> end_patch_marker then Some LastLineInvalid
      else None)"

definition heredoc_openings :: "string list" where
  "heredoc_openings =
     [''<<EOF'', ''<<'' @ [CHR 0x27] @ ''EOF'' @ [CHR 0x27], ''<<'' @ [CHR 0x22] @ ''EOF'' @ [CHR 0x22]]"

definition unwrap_heredoc :: "string list \<Rightarrow> string list option" where
  "unwrap_heredoc ls =
     (if length ls < 4 then None
      else if trim_space (hd ls) \<in> set heredoc_openings \<and> suffix ''EOF'' (trim_space (last ls))
        then Some (butlast (tl ls))
      else None)"

definition patch_body_lines :: "string list \<Rightarrow> (patch_error, string list) result" where
  "patch_body_lines ls =
     (case check_patch_boundaries ls of
        None \<Rightarrow> Inr ls
      | Some e \<Rightarrow>
        (case unwrap_heredoc ls of
           Some inner \<Rightarrow>
             (case check_patch_boundaries inner of Some e' \<Rightarrow> Inl e' | None \<Rightarrow> Inr inner)
         | None \<Rightarrow> Inl e))"

text \<open>
  The loop over the lines of a chunk; \<open>parsed\<close> counts the lines taken. One line is taken,
  taken as the last one, left for what follows, or refused.
\<close>

datatype line_action =
    TakeLine update_file_chunk | LastLine update_file_chunk | LeaveLine | RefuseLine patch_error

definition add_old :: "string \<Rightarrow> update_file_chunk \<Rightarrow> update_file_chunk" where
  "add_old l chunk = chunk\<lparr>old_lines := old_lines chunk @ [l]\<rparr>"

definition add_new :: "string \<Rightarrow> update_file_chunk \<Rightarrow> update_file_chunk" where
  "add_new l chunk = chunk\<lparr>new_lines := new_lines chunk @ [l]\<rparr>"

definition chunk_line :: "nat \<Rightarrow> string \<Rightarrow> nat \<Rightarrow> update_file_chunk \<Rightarrow> line_action" where
  "chunk_line line_number line parsed chunk =
     (if line = eof_marker then
        (if parsed = 0 then RefuseLine (ChunkHasNoLines (line_number + 1))
         else LastLine (chunk\<lparr>end_of_file := True\<rparr>))
      else if line = [] then TakeLine (add_new [] (add_old [] chunk))
      else (let (r, size) = decode_rune line; rest = drop size line in
        if r = byte_of (CHR '' '') then TakeLine (add_new rest (add_old rest chunk))
        else if r = byte_of (CHR ''+'') then TakeLine (add_new rest chunk)
        else if r = byte_of (CHR ''-'') then TakeLine (add_old rest chunk)
        else if parsed = 0 then RefuseLine (UnexpectedLine (line_number + 1) line)
        else LeaveLine))"

fun chunk_lines :: "nat \<Rightarrow> string list \<Rightarrow> nat \<Rightarrow> update_file_chunk \<Rightarrow>
    (patch_error, update_file_chunk \<times> nat) result" where
  "chunk_lines line_number [] parsed chunk = Inr (chunk, parsed)"
| "chunk_lines line_number (line # ls) parsed chunk =
     (case chunk_line line_number line parsed chunk of
        TakeLine chunk' \<Rightarrow> chunk_lines line_number ls (parsed + 1) chunk'
      | LastLine chunk' \<Rightarrow> Inr (chunk', parsed + 1)
      | LeaveLine \<Rightarrow> Inr (chunk, parsed)
      | RefuseLine e \<Rightarrow> Inl e)"

text \<open>The \<open>switch\<close> on the first line: the context and the number of lines it takes.\<close>

definition chunk_header :: "string \<Rightarrow> bool \<Rightarrow> (string \<times> nat) option" where
  "chunk_header line allow_missing_context =
     (if line = empty_change_context_marker then Some ([], 1)
      else case cut_prefix change_context_marker line of
             Some ctx \<Rightarrow> Some (ctx, 1)
           | None \<Rightarrow> if allow_missing_context then Some ([], 0) else None)"

definition parse_update_chunk :: "string list \<Rightarrow> nat \<Rightarrow> bool \<Rightarrow>
    (patch_error, update_file_chunk \<times> nat) result" where
  "parse_update_chunk ls line_number allow_missing_context =
     (if ls = [] then Inl (ChunkHasNoLines line_number)
      else (case chunk_header (hd ls) allow_missing_context of
           None \<Rightarrow> Inl (ContextExpected line_number (hd ls))
         | Some (ctx, start) \<Rightarrow>
             if length ls \<le> start then Inl (ChunkHasNoLines (line_number + 1))
             else (case chunk_lines line_number (drop start ls) 0
                     \<lparr>change_context = ctx, old_lines = [], new_lines = [], end_of_file = False\<rparr> of
                     Inl e \<Rightarrow> Inl e
                   | Inr (chunk, parsed) \<Rightarrow> Inr (chunk, parsed + start))))"

definition chunk_nonempty :: "update_file_chunk \<Rightarrow> bool" where
  "chunk_nonempty c \<longleftrightarrow> old_lines c \<noteq> [] \<or> new_lines c \<noteq> []"

lemma chunk_line_first:
  "chunk_line n l 0 c \<noteq> LeaveLine" "chunk_line n l 0 c \<noteq> LastLine c'"
  "chunk_line n l k c = TakeLine c' \<Longrightarrow> chunk_nonempty c'"
  "chunk_line n l k c = LastLine c' \<Longrightarrow> chunk_nonempty c' \<longleftrightarrow> chunk_nonempty c"
  by (auto simp: chunk_line_def add_old_def add_new_def chunk_nonempty_def Let_def
      split: prod.splits if_splits)

lemma chunk_lines_progress:
  "chunk_lines n ls k c = Inr (c', k') \<Longrightarrow> (0 < k \<longrightarrow> chunk_nonempty c) \<Longrightarrow>
     k \<le> k' \<and> k' \<le> k + length ls \<and> (0 < k \<or> ls \<noteq> [] \<longrightarrow> 0 < k' \<and> chunk_nonempty c')"
proof (induction n ls k c rule: chunk_lines.induct)
  case (2 n line ls k c)
  show ?case
  proof (cases "chunk_line n line k c")
    case (TakeLine d)
    with 2 chunk_line_first(3) [OF TakeLine] show ?thesis by fastforce
  next
    case (LastLine d)
    then have "0 < k" using chunk_line_first(2) by (cases k) auto
    with 2 LastLine chunk_line_first(4) [OF LastLine] show ?thesis by auto
  next
    case LeaveLine
    then have "0 < k" using chunk_line_first(1) by (cases k) auto
    with 2 LeaveLine show ?thesis by auto
  qed (use 2 in simp)
qed simp

lemma parse_update_chunk_progress:
  assumes "parse_update_chunk ls n a = Inr (c, k)"
  shows "0 < k \<and> k \<le> length ls \<and> chunk_nonempty c"
proof -
  obtain ctx start where h: "chunk_header (hd ls) a = Some (ctx, start)"
    using assms by (auto simp: parse_update_chunk_def split: if_splits option.splits)
  let ?c = "\<lparr>change_context = ctx, old_lines = [], new_lines = [], end_of_file = False\<rparr>"
  from assms h have start: "start < length ls"
    by (auto simp: parse_update_chunk_def split: if_splits)
  from assms h start obtain parsed where loop: "chunk_lines n (drop start ls) 0 ?c = Inr (c, parsed)"
    and k: "k = parsed + start"
    by (auto simp: parse_update_chunk_def split: if_splits sum.splits)
  from chunk_lines_progress [OF loop] start k show ?thesis by auto
qed

text \<open>
  The loop of an update hunk over its chunks, from the first line after the header; the first
  chunk may lack its context line. \<open>parsed\<close> counts the lines of the hunk so far.
\<close>

function update_chunks :: "nat \<Rightarrow> string list \<Rightarrow> nat \<Rightarrow> update_file_chunk list \<Rightarrow>
    (patch_error, update_file_chunk list \<times> nat) result" where
  "update_chunks line_number ls parsed chunks =
     (case ls of
        [] \<Rightarrow> Inr (chunks, parsed)
      | l # rest \<Rightarrow>
        if trim_space l = [] then update_chunks line_number rest (parsed + 1) chunks
        else if prefix ''***'' l then Inr (chunks, parsed)
        else (case parse_update_chunk ls (line_number + parsed) (chunks = []) of
                Inl e \<Rightarrow> Inl e
              | Inr (chunk, consumed) \<Rightarrow>
                  update_chunks line_number (drop consumed ls) (parsed + consumed) (chunks @ [chunk])))"
  by pat_completeness auto
termination
  by (relation "measure (\<lambda>(_, ls, _, _). length ls)") (auto dest: parse_update_chunk_progress)

declare update_chunks.simps [simp del]

text \<open>The leading lines of an added file.\<close>

fun added_lines :: "string list \<Rightarrow> string list" where
  "added_lines [] = []"
| "added_lines (l # ls) =
     (case cut_prefix ''+'' l of None \<Rightarrow> [] | Some added \<Rightarrow> added # added_lines ls)"

definition parse_one_hunk :: "string list \<Rightarrow> nat \<Rightarrow> (patch_error, patch_hunk \<times> nat) result" where
  "parse_one_hunk ls line_number =
     (let first = trim_space (hd ls) in
      case cut_prefix add_file_marker first of
        Some path \<Rightarrow>
          (let added = added_lines (tl ls) in
           Inr (AddFile path (concat (map (\<lambda>l. l @ [newline]) added)), 1 + length added))
      | None \<Rightarrow>
      (case cut_prefix delete_file_marker first of
        Some path \<Rightarrow> Inr (DeleteFile path, 1)
      | None \<Rightarrow>
      (case cut_prefix update_file_marker first of
        Some path \<Rightarrow>
          (let (moved_to, remaining, parsed) =
             (case tl ls of
                [] \<Rightarrow> ([], [], 1)
              | l # rest \<Rightarrow>
                (case cut_prefix move_to_marker l of
                   Some dest \<Rightarrow> (dest, rest, 2)
                 | None \<Rightarrow> ([], l # rest, 1)))
           in case update_chunks line_number remaining parsed [] of
                Inl e \<Rightarrow> Inl e
              | Inr (chunks, consumed) \<Rightarrow>
                  if chunks = [] then Inl (UpdateIsEmpty line_number path)
                  else Inr (UpdateFile path moved_to chunks, consumed))
      | None \<Rightarrow> Inl (NotAHunkHeader line_number first))))"

lemma update_chunks_progress:
  "update_chunks n ls k cs = Inr (cs', k') \<Longrightarrow> (\<forall>c \<in> set cs. chunk_nonempty c) \<Longrightarrow>
     k \<le> k' \<and> k' \<le> k + length ls \<and> (\<forall>c \<in> set cs'. chunk_nonempty c)"
proof (induction n ls k cs rule: update_chunks.induct)
  case (1 n ls k cs)
  show ?case
  proof (cases ls)
    case Nil
    with 1 show ?thesis by (simp add: update_chunks.simps [of _ "[]"])
  next
    case ls: (Cons l rest)
    consider "trim_space l = []" | "trim_space l \<noteq> []" "prefix ''***'' l"
      | "trim_space l \<noteq> []" "\<not> prefix ''***'' l" by blast
    then show ?thesis
    proof cases
      case 1
      have "update_chunks n ls k cs = update_chunks n rest (k + 1) cs"
        by (subst update_chunks.simps) (simp add: ls 1)
      with "1.IH"(1) [OF ls 1] "1.prems" ls show ?thesis by fastforce
    next
      case 2
      have "update_chunks n ls k cs = Inr (cs, k)"
        by (subst update_chunks.simps) (simp add: ls 2)
      with "1.prems" show ?thesis by simp
    next
      case 3
      have eq: "update_chunks n ls k cs =
          (case parse_update_chunk ls (n + k) (cs = []) of
             Inl e \<Rightarrow> Inl e
           | Inr (chunk, consumed) \<Rightarrow>
               update_chunks n (drop consumed ls) (k + consumed) (cs @ [chunk]))"
        by (subst update_chunks.simps) (simp add: ls 3)
      with "1.prems"(1) obtain chunk consumed where
        c: "parse_update_chunk ls (n + k) (cs = []) = Inr (chunk, consumed)"
        by (auto split: sum.splits)
      note prog = parse_update_chunk_progress [OF c]
      from eq c "1.prems"(1)
      have "update_chunks n (drop consumed ls) (k + consumed) (cs @ [chunk]) = Inr (cs', k')" by simp
      from "1.IH"(2) [OF ls 3 c refl this] prog "1.prems"(2) show ?thesis by fastforce
    qed
  qed
qed

text \<open>A hunk as the applier may rely on it: an update has chunks, and none is empty.\<close>

fun hunk_ok :: "patch_hunk \<Rightarrow> bool" where
  "hunk_ok (UpdateFile p m chunks) \<longleftrightarrow> chunks \<noteq> [] \<and> list_all chunk_nonempty chunks"
| "hunk_ok _ \<longleftrightarrow> True"

lemma added_lines_length: "length (added_lines ls) \<le> length ls"
  by (induction ls) (auto split: option.splits)

lemma parse_one_hunk_progress:
  assumes "parse_one_hunk ls n = Inr (h, k)" "ls \<noteq> []"
  shows "0 < k \<and> k \<le> length ls \<and> hunk_ok h"
proof -
  obtain l rest where ls: "ls = l # rest" using assms(2) by (cases ls) auto
  have added: "length (added_lines rest) \<le> length rest" by (rule added_lines_length)
  show ?thesis
    using assms(1) added
    by (auto simp: parse_one_hunk_def Let_def ls list_all_iff
        split: option.splits list.splits sum.splits if_splits
        dest!: update_chunks_progress [where cs = "[]", simplified])
qed

text \<open>The loop of \<open>parsePatch\<close> over the hunks.\<close>

function parse_hunks :: "string list \<Rightarrow> nat \<Rightarrow> (patch_error, patch_hunk list) result" where
  "parse_hunks remaining line_number =
     (if remaining = [] then Inr []
      else (case parse_one_hunk remaining line_number of
              Inl e \<Rightarrow> Inl e
            | Inr (hunk, consumed) \<Rightarrow>
                (case parse_hunks (drop consumed remaining) (line_number + consumed) of
                   Inl e \<Rightarrow> Inl e
                 | Inr hunks \<Rightarrow> Inr (hunk # hunks))))"
  by pat_completeness auto
termination
  by (relation "measure (\<lambda>(ls, _). length ls)") (auto dest: parse_one_hunk_progress)

declare parse_hunks.simps [simp del]

definition parse_patch :: "string \<Rightarrow> (patch_error, patch_hunk list) result" where
  "parse_patch patch =
     (case patch_body_lines (split_on newline (trim_space patch)) of
        Inl e \<Rightarrow> Inl e
      | Inr inner \<Rightarrow>
          if length inner < 2 then Inl FirstLineInvalid
          else (case parse_hunks (butlast (tl inner)) 2 of
                  Inl e \<Rightarrow> Inl e
                | Inr hunks \<Rightarrow> if hunks = [] then Inl NoFilesModified else Inr hunks))"

lemma parse_hunks_ok: "parse_hunks ls n = Inr hs \<Longrightarrow> list_all hunk_ok hs"
proof (induction ls n arbitrary: hs rule: parse_hunks.induct)
  case (1 ls n)
  show ?case
  proof (cases "ls = []")
    case True
    with 1 show ?thesis by (simp add: parse_hunks.simps)
  next
    case False
    with "1.prems" obtain h k hs' where h: "parse_one_hunk ls n = Inr (h, k)"
      and rest: "parse_hunks (drop k ls) (n + k) = Inr hs'" and hs: "hs = h # hs'"
      by (subst (asm) parse_hunks.simps) (auto split: sum.splits)
    from "1.IH" [OF False h refl rest] parse_one_hunk_progress [OF h False] hs
    show ?thesis by simp
  qed
qed

subsection \<open>Printing\<close>

definition print_chunk :: "update_file_chunk \<Rightarrow> string list" where
  "print_chunk c =
     (if change_context c = [] then empty_change_context_marker
      else change_context_marker @ change_context c) #
     map (\<lambda>l. CHR ''-'' # l) (old_lines c) @ map (\<lambda>l. CHR ''+'' # l) (new_lines c) @
     (if end_of_file c then [eof_marker] else [])"

fun print_hunk :: "patch_hunk \<Rightarrow> string list" where
  "print_hunk (AddFile p c) =
     (add_file_marker @ p) # map (\<lambda>l. CHR ''+'' # l) (butlast (split_on newline c))"
| "print_hunk (DeleteFile p) = [delete_file_marker @ p]"
| "print_hunk (UpdateFile p m chunks) =
     (update_file_marker @ p) # (if m = [] then [] else [move_to_marker @ m])
       @ concat (map print_chunk chunks)"

definition print_patch :: "patch_hunk list \<Rightarrow> string" where
  "print_patch hs =
     join_with [newline] (begin_patch_marker # concat (map print_hunk hs) @ [end_patch_marker])"

text \<open>What can be printed: no line break within a line, and paths without outer white space.\<close>

definition line_ok :: "string \<Rightarrow> bool" where
  "line_ok l \<longleftrightarrow> newline \<notin> set l"

definition path_ok :: "string \<Rightarrow> bool" where
  "path_ok p \<longleftrightarrow> solid p \<and> line_ok p"

definition chunk_ok :: "update_file_chunk \<Rightarrow> bool" where
  "chunk_ok c \<longleftrightarrow> chunk_nonempty c \<and> line_ok (change_context c)
     \<and> list_all line_ok (old_lines c) \<and> list_all line_ok (new_lines c)"

fun printable :: "patch_hunk \<Rightarrow> bool" where
  "printable (AddFile p c) \<longleftrightarrow> path_ok p \<and> (c = [] \<or> last c = newline)"
| "printable (DeleteFile p) \<longleftrightarrow> path_ok p"
| "printable (UpdateFile p m chunks) \<longleftrightarrow>
     path_ok p \<and> line_ok m \<and> chunks \<noteq> [] \<and> list_all chunk_ok chunks"

subsection \<open>Reading back a chunk\<close>

definition stops :: "string list \<Rightarrow> bool" where
  "stops rest \<longleftrightarrow> rest = [] \<or>
     (hd rest \<noteq> [] \<and> hd rest \<noteq> eof_marker \<and> hd (hd rest) \<in> {CHR ''@'', CHR ''*''})"

lemma chunk_line_sign:
  "chunk_line n (CHR ''-'' # l) k c = TakeLine (add_old l c)"
  "chunk_line n (CHR ''+'' # l) k c = TakeLine (add_new l c)"
  by (simp_all add: chunk_line_def eof_marker_def decode_rune_ascii byte_of_def)

lemma chunk_lines_signs:
  "chunk_lines n (map (\<lambda>l. CHR ''-'' # l) os @ map (\<lambda>l. CHR ''+'' # l) ns @ rest) k c =
   chunk_lines n rest (k + length os + length ns)
     (c\<lparr>old_lines := old_lines c @ os, new_lines := new_lines c @ ns\<rparr>)"
proof (induction os arbitrary: k c)
  case Nil
  show ?case
    by (induction ns arbitrary: k c) (simp_all add: chunk_line_sign add_new_def)
next
  case (Cons o' os)
  then show ?case by (simp add: chunk_line_sign add_old_def)
qed

lemma chunk_lines_stop: "stops rest \<Longrightarrow> 0 < k \<Longrightarrow> chunk_lines n rest k c = Inr (c, k)"
  by (cases rest; cases "hd rest")
     (auto simp: stops_def chunk_line_def decode_rune_ascii byte_of_def)

lemma chunk_header_print:
  "chunk_header (if ctx = [] then empty_change_context_marker else change_context_marker @ ctx) a =
   Some (ctx, 1)"
  by (auto simp: chunk_header_def empty_change_context_marker_def change_context_marker_def
      cut_prefix_def)

lemma parse_print_chunk:
  assumes "chunk_ok c" "stops rest"
  shows "parse_update_chunk (print_chunk c @ rest) n a = Inr (c, length (print_chunk c))"
proof -
  let ?c = "\<lparr>change_context = change_context c, old_lines = [], new_lines = [], end_of_file = False\<rparr>"
  let ?k = "length (old_lines c) + length (new_lines c)"
  have pos: "0 < ?k" using assms(1) by (auto simp: chunk_ok_def chunk_nonempty_def)
  have "chunk_lines n (drop 1 (print_chunk c @ rest)) 0 ?c =
      Inr (c, ?k + (if end_of_file c then 1 else 0))"
    using pos chunk_lines_stop [OF assms(2) pos]
    by (simp add: print_chunk_def chunk_lines_signs) (auto simp: chunk_line_def)
  moreover have "drop 1 (print_chunk c @ rest) \<noteq> []"
    using pos by (auto simp: print_chunk_def)
  ultimately show ?thesis
    using chunk_header_print [of "change_context c" a]
    by (simp add: parse_update_chunk_def) (simp add: print_chunk_def)
qed

subsection \<open>Reading back a patch\<close>

lemma print_chunk_stops: "print_chunk c @ rest \<noteq> []" "stops (print_chunk c @ rest)"
  by (auto simp: stops_def print_chunk_def empty_change_context_marker_def change_context_marker_def
      eof_marker_def)

lemma print_chunk_first:
  obtains x xs where "print_chunk c = x # xs" "trim_space x \<noteq> []" "\<not> prefix ''***'' x"
proof -
  have "trim_space (CHR ''@'' # s) \<noteq> []" for s
    by (rule trim_space_ascii_first) (simp_all add: byte_of_def is_space_def)
  then show ?thesis
    by (intro that [of "hd (print_chunk c)" "tl (print_chunk c)"])
       (auto simp: print_chunk_def empty_change_context_marker_def change_context_marker_def)
qed

text \<open>Where a hunk ends: the lines are over, or a line of the form of a hunk header follows.\<close>

definition hunk_end :: "string list \<Rightarrow> bool" where
  "hunk_end rest \<longleftrightarrow> rest = [] \<or> (prefix ''***'' (hd rest) \<and> hd rest \<noteq> eof_marker)"

lemma hunk_end_stops: "hunk_end rest \<Longrightarrow> stops rest"
  by (auto simp: hunk_end_def stops_def prefix_def)

lemma update_chunks_end: "hunk_end rest \<Longrightarrow> update_chunks n rest k cs = Inr (cs, k)"
proof (cases rest)
  case (Cons l ls)
  moreover assume "hunk_end rest"
  ultimately have "prefix ''***'' l" by (simp add: hunk_end_def)
  moreover from this obtain m where "l = CHR ''*'' # m" by (auto simp: prefix_def)
  then have "trim_space l \<noteq> []"
    by (simp add: trim_space_ascii_first byte_of_def is_space_def)
  ultimately show ?thesis by (subst update_chunks.simps) (simp add: Cons)
qed (simp add: update_chunks.simps)

lemma update_chunks_step:
  "trim_space l \<noteq> [] \<Longrightarrow> \<not> prefix ''***'' l \<Longrightarrow>
    parse_update_chunk (l # ls) (n + k) (ds = []) = Inr (c, m) \<Longrightarrow>
    update_chunks n (l # ls) k ds = update_chunks n (drop m (l # ls)) (k + m) (ds @ [c])"
  by (subst update_chunks.simps) simp

lemma update_chunks_print:
  "list_all chunk_ok cs \<Longrightarrow> hunk_end rest \<Longrightarrow>
    update_chunks n (concat (map print_chunk cs) @ rest) k ds =
    Inr (ds @ cs, k + length (concat (map print_chunk cs)))"
proof (induction cs arbitrary: k ds)
  case Nil
  then show ?case by (simp add: update_chunks_end)
next
  case (Cons c cs)
  let ?more = "concat (map print_chunk cs) @ rest"
  obtain x xs where x: "print_chunk c = x # xs" "trim_space x \<noteq> []" "\<not> prefix ''***'' x"
    by (rule print_chunk_first)
  have "stops ?more"
    using Cons.prems(2) by (cases cs) (simp_all add: hunk_end_stops print_chunk_stops)
  with Cons.prems have "parse_update_chunk (print_chunk c @ ?more) (n + k) (ds = []) =
      Inr (c, length (print_chunk c))" by (intro parse_print_chunk) simp_all
  then have "update_chunks n (print_chunk c @ ?more) k ds =
      update_chunks n (drop (length (print_chunk c)) (print_chunk c @ ?more))
        (k + length (print_chunk c)) (ds @ [c])"
    unfolding x(1) append_Cons by (rule update_chunks_step [OF x(2,3)])
  with Cons show ?case by simp
qed

lemma solid_append:
  "solid p \<Longrightarrow> byte_of c < 128 \<Longrightarrow> \<not> is_space (byte_of c) \<Longrightarrow> solid ((c # m) @ p)"
  by (simp add: solid_def)

lemma trim_header:
  assumes "path_ok p"
  shows "trim_space (add_file_marker @ p) = add_file_marker @ p"
    "trim_space (delete_file_marker @ p) = delete_file_marker @ p"
    "trim_space (update_file_marker @ p) = update_file_marker @ p"
  unfolding add_file_marker_def delete_file_marker_def update_file_marker_def
  using assms
  by (intro trim_space_solid solid_append; simp add: path_ok_def byte_of_def is_space_def)+

lemma added_lines_print:
  "hunk_end rest \<Longrightarrow> added_lines (map (\<lambda>l. CHR ''+'' # l) ls @ rest) = ls"
proof (induction ls)
  case Nil
  then show ?case by (cases rest) (auto simp: hunk_end_def cut_prefix_def prefix_def)
qed (simp add: cut_prefix_def)

lemma contents_lines:
  "c = [] \<or> last c = newline \<Longrightarrow> concat (map (\<lambda>l. l @ [newline]) (butlast (split_on newline c))) = c"
proof -
  assume c: "c = [] \<or> last c = newline"
  have join: "ls \<noteq> [] \<Longrightarrow> join_with [newline] (ls @ [[]]) = concat (map (\<lambda>l. l @ [newline]) ls)" for ls
    by (induction ls rule: induct_list012) auto
  show ?thesis
  proof (cases "c = []")
    case False
    with c obtain d where d: "c = d @ [newline]" by (metis append_butlast_last_id)
    have "split_on newline c = split_on newline d @ [[]]"
      unfolding d by (induction d) (auto split: list.splits)
    then have "concat (map (\<lambda>l. l @ [newline]) (butlast (split_on newline c))) =
        join_with [newline] (split_on newline d @ [[]])" by (simp add: join)
    also have "\<dots> = c"
      using join_with_split_on [of newline c] \<open>split_on newline c = _\<close> by simp
    finally show ?thesis .
  qed simp
qed

lemma markers_differ [simp]:
  "cut_prefix add_file_marker (delete_file_marker @ p) = None"
  "cut_prefix add_file_marker (update_file_marker @ p) = None"
  "cut_prefix delete_file_marker (update_file_marker @ p) = None"
  by (simp_all add: cut_prefix_def add_file_marker_def delete_file_marker_def update_file_marker_def)

lemma parse_print_hunk:
  assumes "printable h" "hunk_end rest"
  shows "parse_one_hunk (print_hunk h @ rest) n = Inr (h, length (print_hunk h))"
proof (cases h)
  case (AddFile p c)
  with assms show ?thesis
    by (simp add: parse_one_hunk_def Let_def trim_header added_lines_print contents_lines)
next
  case (DeleteFile p)
  with assms show ?thesis by (simp add: parse_one_hunk_def Let_def trim_header)
next
  case (UpdateFile p m chunks)
  with assms have ok: "path_ok p" "line_ok m" "chunks \<noteq> []" "list_all chunk_ok chunks" by simp_all
  from ok(3) obtain x xs where x: "concat (map print_chunk chunks) = x # xs" "cut_prefix move_to_marker x = None"
    by (cases chunks) (auto simp: print_chunk_def cut_prefix_def move_to_marker_def
        empty_change_context_marker_def change_context_marker_def)
  have chunks: "update_chunks n (x # xs @ rest) k [] = Inr (chunks, k + length (x # xs))" for k
    using update_chunks_print [OF ok(4) assms(2), of n k "[]"] x(1) by simp
  show ?thesis
    by (cases "m = []") (simp_all add: UpdateFile parse_one_hunk_def Let_def trim_header ok x chunks)
qed

lemma print_hunk_end: "printable h \<Longrightarrow> hunk_end (print_hunk h @ rest)"
  by (cases h) (auto simp: hunk_end_def add_file_marker_def delete_file_marker_def
      update_file_marker_def eof_marker_def)

lemma print_hunk_not_Nil: "print_hunk h \<noteq> []"
  by (cases h) simp_all

lemma parse_print_hunks: "list_all printable hs \<Longrightarrow> parse_hunks (concat (map print_hunk hs)) n = Inr hs"
proof (induction hs arbitrary: n)
  case (Cons h hs)
  let ?more = "concat (map print_hunk hs)"
  have "hunk_end ?more"
    using Cons.prems by (cases hs) (simp_all add: print_hunk_end, simp add: hunk_end_def)
  with Cons.prems have "parse_one_hunk (print_hunk h @ ?more) n = Inr (h, length (print_hunk h))"
    by (intro parse_print_hunk) simp_all
  with Cons print_hunk_not_Nil [of h] show ?case
    by (subst parse_hunks.simps) simp
qed (simp add: parse_hunks.simps)

lemma markers_line_ok [simp]:
  "newline \<notin> set begin_patch_marker" "newline \<notin> set end_patch_marker"
  "newline \<notin> set add_file_marker" "newline \<notin> set delete_file_marker"
  "newline \<notin> set update_file_marker" "newline \<notin> set move_to_marker" "newline \<notin> set eof_marker"
  "newline \<notin> set change_context_marker" "newline \<notin> set empty_change_context_marker"
  "newline \<noteq> CHR ''+''" "newline \<noteq> CHR ''-''"
  by (simp_all add: newline_def begin_patch_marker_def end_patch_marker_def add_file_marker_def
      delete_file_marker_def update_file_marker_def move_to_marker_def eof_marker_def
      change_context_marker_def empty_change_context_marker_def)

lemma print_chunk_lines: "chunk_ok c \<Longrightarrow> l \<in> set (print_chunk c) \<Longrightarrow> newline \<notin> set l"
  by (auto simp: print_chunk_def chunk_ok_def line_ok_def list_all_iff split: if_splits)

lemma print_hunk_lines: "printable h \<Longrightarrow> l \<in> set (print_hunk h) \<Longrightarrow> newline \<notin> set l"
proof (cases h)
  case (AddFile p c)
  moreover assume "printable h" "l \<in> set (print_hunk h)"
  moreover have "x \<in> set (butlast (split_on newline c)) \<Longrightarrow> newline \<notin> set x" for x
    by (rule split_on_elems) (rule in_set_butlastD)
  ultimately show ?thesis by (auto simp: path_ok_def line_ok_def)
next
  case (UpdateFile p m chunks)
  moreover assume "printable h" "l \<in> set (print_hunk h)"
  ultimately show ?thesis
    by (auto simp: path_ok_def line_ok_def list_all_iff dest: print_chunk_lines split: if_splits)
qed (auto simp: path_ok_def line_ok_def)

lemma print_patch_parses:
  assumes "hs \<noteq> []" and "list_all printable hs"
  shows "parse_patch (print_patch hs) = Inr hs"
proof -
  let ?ls = "begin_patch_marker # concat (map print_hunk hs) @ [end_patch_marker]"
  have "\<forall>l \<in> set ?ls. newline \<notin> set l"
    using assms(2) print_hunk_lines by (auto simp: list_all_iff)
  then have lines: "split_on newline (print_patch hs) = ?ls"
    unfolding print_patch_def by (intro split_on_join_with) simp_all
  have markers: "trim_space begin_patch_marker = begin_patch_marker"
    "trim_space end_patch_marker = end_patch_marker"
    by (rule trim_space_solid; simp add: solid_def begin_patch_marker_def end_patch_marker_def
        byte_of_def is_space_def)+
  have "print_patch hs = begin_patch_marker @ [newline] @
      join_with [newline] (concat (map print_hunk hs) @ [end_patch_marker])"
    unfolding print_patch_def by (rule join_with_Cons) simp
  also have "\<exists>m. \<dots> = begin_patch_marker @ m @ end_patch_marker"
  proof (cases "concat (map print_hunk hs) = []")
    case True
    then show ?thesis unfolding True by (intro exI [of _ "[newline]"]) simp
  next
    case False
    then show ?thesis
      by (intro exI [of _ "newline # join_with [newline] (concat (map print_hunk hs)) @ [newline]"])
         (simp add: join_with_append)
  qed
  finally have "solid (print_patch hs)"
    by (auto simp: solid_def begin_patch_marker_def end_patch_marker_def byte_of_def is_space_def)
  then show ?thesis
    using assms parse_print_hunks [OF assms(2), of 2]
    by (simp add: parse_patch_def trim_space_solid lines patch_body_lines_def
        check_patch_boundaries_def markers)
qed

definition sample_patch :: "patch_hunk list" where
  "sample_patch =
     [AddFile ''a.txt'' (''x'' @ [newline]), DeleteFile ''b'',
      UpdateFile ''c.go'' ''d.go''
        [\<lparr>change_context = ''func f'', old_lines = [''  a''], new_lines = [[]], end_of_file = True\<rparr>]]"

lemma sample_patch_printable: "list_all printable sample_patch"
  by (simp add: sample_patch_def path_ok_def line_ok_def solid_def byte_of_def is_space_def newline_def
      chunk_ok_def chunk_nonempty_def)



text \<open>
  Property C40. What \<open>parsePatch\<close> accepts is never empty: there is at least one hunk, every update
  hunk has a chunk, and every chunk has a line, which the applier takes for granted.
\<close>

theorem parse_patch_nonempty:
  assumes "parse_patch patch = Inr hs"
  shows "hs \<noteq> [] \<and> list_all hunk_ok hs"
  using assms parse_hunks_ok
  by (auto simp: parse_patch_def split: sum.splits if_splits)

theorem parse_patch_nonempty_witness:
  "sample_patch \<noteq> [] \<and> list_all hunk_ok sample_patch"
proof (rule parse_patch_nonempty)
  show "parse_patch (print_patch sample_patch) = Inr sample_patch"
    by (rule print_patch_parses) (simp_all add: sample_patch_printable, simp add: sample_patch_def)
qed

end
