(* ===== verification/PatchApply.thy ===== *)
theory PatchApply
  imports PatchParse
begin

section \<open>Applying chunks to a file: internal/tools/apply\_patch\_format.go\<close>

text \<open>
  An update hunk is applied in two steps: every chunk is searched in the original lines from
  where the previous one ended, which gives a replacement, and the replacements are carried out from
  the last to the first. The theory states what the search finds (the first position of the
  strictest of four comparisons that matches at all), and gives \<open>splice\<close>, a single pass from
  left to right, as the reference for carrying out replacements that are in order.
\<close>

subsection \<open>Searching lines\<close>

definition normalize_rune :: "rune \<Rightarrow> string" where
  "normalize_rune r =
     (if (8208 \<le> r \<and> r \<le> 8213) \<or> r = 8722 then ''-''
      else if 8216 \<le> r \<and> r \<le> 8219 then [CHR 0x27]
      else if 8220 \<le> r \<and> r \<le> 8223 then [CHR 0x22]
      else if r = 160 \<or> (8194 \<le> r \<and> r \<le> 8202) \<or> r = 8239 \<or> r = 8287 \<or> r = 12288 then '' ''
      else encode_rune r)"

definition normalize_patch_punctuation :: "string \<Rightarrow> string" where
  "normalize_patch_punctuation value = concat (map normalize_rune (runes (trim_space value)))"

text \<open>The four comparisons, in the order they are tried.\<close>

definition line_comparisons :: "(string \<Rightarrow> string \<Rightarrow> bool) list" where
  "line_comparisons =
     [\<lambda>l r. l = r,
      \<lambda>l r. trim_right_space l = trim_right_space r,
      \<lambda>l r. trim_space l = trim_space r,
      \<lambda>l r. normalize_patch_punctuation l = normalize_patch_punctuation r]"

definition window_matches ::
    "(string \<Rightarrow> string \<Rightarrow> bool) \<Rightarrow> string list \<Rightarrow> string list \<Rightarrow> nat \<Rightarrow> bool" where
  "window_matches eq ls pattern i = list_all2 eq (take (length pattern) (drop i ls)) pattern"

fun first_pass :: "('e \<Rightarrow> nat option) \<Rightarrow> 'e list \<Rightarrow> nat option" where
  "first_pass search [] = None"
| "first_pass search (e # es) =
     (case search e of Some i \<Rightarrow> Some i | None \<Rightarrow> first_pass search es)"

definition search_start :: "string list \<Rightarrow> string list \<Rightarrow> nat \<Rightarrow> bool \<Rightarrow> nat" where
  "search_start ls pattern start eof = (if eof then length ls - length pattern else start)"

definition seek_sequence :: "string list \<Rightarrow> string list \<Rightarrow> nat \<Rightarrow> bool \<Rightarrow> nat option" where
  "seek_sequence ls pattern start eof =
     (if pattern = [] then Some start
      else if length ls < length pattern then None
      else first_pass
        (\<lambda>eq. find (window_matches eq ls pattern)
           [search_start ls pattern start eof ..< length ls - length pattern + 1])
        line_comparisons)"

subsection \<open>Replacements\<close>

record replacement =
  rep_start :: nat
  rep_old_len :: nat
  rep_lines :: "string list"

datatype derive_error = ContextNotFound string string | LinesNotFound string "string list"

definition drop_blank_last :: "string list \<Rightarrow> string list" where
  "drop_blank_last ls = (if ls \<noteq> [] \<and> last ls = [] then butlast ls else ls)"

text \<open>One iteration of \<open>computeReplacements\<close>, with the line index it leaves.\<close>

definition chunk_replacement :: "string list \<Rightarrow> string \<Rightarrow> update_file_chunk \<Rightarrow> nat \<Rightarrow>
    (derive_error, replacement \<times> nat) result" where
  "chunk_replacement original path chunk line_index0 =
     (case (if change_context chunk = [] then Some line_index0
            else map_option Suc (seek_sequence original [change_context chunk] line_index0 False)) of
        None \<Rightarrow> Inl (ContextNotFound (change_context chunk) path)
      | Some line_index \<Rightarrow>
        if old_lines chunk = [] then
          (let insertion = (if original \<noteq> [] \<and> last original = [] then length original - 1
                            else length original)
           in Inr (\<lparr>rep_start = insertion, rep_old_len = 0, rep_lines = new_lines chunk\<rparr>, line_index))
        else
          (let found = (\<lambda>pattern new_slice start.
                 Inr (\<lparr>rep_start = start, rep_old_len = length pattern, rep_lines = new_slice\<rparr>,
                      start + length pattern));
               missing = Inl (LinesNotFound path (old_lines chunk))
           in case seek_sequence original (old_lines chunk) line_index (end_of_file chunk) of
                Some start \<Rightarrow> found (old_lines chunk) (new_lines chunk) start
              | None \<Rightarrow>
                if last (old_lines chunk) = [] then
                  (let pattern = butlast (old_lines chunk);
                       new_slice = drop_blank_last (new_lines chunk)
                   in case seek_sequence original pattern line_index (end_of_file chunk) of
                        Some start \<Rightarrow> found pattern new_slice start
                      | None \<Rightarrow> missing)
                else missing))"

fun compute_replacements :: "string list \<Rightarrow> string \<Rightarrow> nat \<Rightarrow> update_file_chunk list \<Rightarrow>
    (derive_error, replacement list) result" where
  "compute_replacements original path line_index [] = Inr []"
| "compute_replacements original path line_index (chunk # chunks) =
     (case chunk_replacement original path chunk line_index of
        Inl e \<Rightarrow> Inl e
      | Inr (r, line_index') \<Rightarrow>
          (case compute_replacements original path line_index' chunks of
             Inl e \<Rightarrow> Inl e | Inr rs \<Rightarrow> Inr (r # rs)))"

text \<open>
  The loop that removes lines one by one, and the insertion; \<open>updated[start:]\<close> panics when \<open>start\<close> is
  beyond the end, which is \<open>None\<close>.
\<close>

fun remove_lines :: "nat \<Rightarrow> nat \<Rightarrow> string list \<Rightarrow> string list" where
  "remove_lines 0 start updated = updated"
| "remove_lines (Suc n) start updated =
     remove_lines n start
       (if start < length updated then take start updated @ drop (start + 1) updated else updated)"

definition apply_replacement :: "replacement \<Rightarrow> string list \<Rightarrow> string list option" where
  "apply_replacement item ls =
     (let updated = remove_lines (rep_old_len item) (rep_start item) ls in
      if length updated < rep_start item then None
      else Some (take (rep_start item) updated @ rep_lines item @ drop (rep_start item) updated))"

definition apply_replacements :: "string list \<Rightarrow> replacement list \<Rightarrow> string list option" where
  "apply_replacements ls replacements = fold_option apply_replacement (rev replacements) ls"

definition end_with_blank :: "string list \<Rightarrow> string list" where
  "end_with_blank ls = (if ls = [] \<or> last ls \<noteq> [] then ls @ [[]] else ls)"

definition derive_updated_contents :: "string \<Rightarrow> string \<Rightarrow> update_file_chunk list \<Rightarrow>
    (derive_error, string) result option" where
  "derive_updated_contents path original chunks =
     (let original_lines = drop_blank_last (split_on newline original) in
      case compute_replacements original_lines path 0 chunks of
        Inl e \<Rightarrow> Some (Inl e)
      | Inr replacements \<Rightarrow>
          map_option (\<lambda>updated. Inr (join_with [newline] (end_with_blank updated)))
            (apply_replacements original_lines replacements))"

subsection \<open>What the search finds\<close>

lemma first_pass_Some:
  "first_pass search es = Some i \<Longrightarrow>
     \<exists>k < length es. search (es ! k) = Some i \<and> (\<forall>k' < k. search (es ! k') = None)"
proof (induction es)
  case (Cons e es)
  show ?case
  proof (cases "search e")
    case None
    with Cons obtain k where "k < length es" "search (es ! k) = Some i" "\<forall>k' < k. search (es ! k') = None"
      by auto
    with None show ?thesis
      by (intro exI [of _ "Suc k"]) (auto simp: nth_Cons split: nat.splits)
  next
    case (Some j)
    with Cons.prems show ?thesis by (intro exI [of _ 0]) simp
  qed
qed simp

lemma first_pass_None: "first_pass search es = None \<longleftrightarrow> (\<forall>e \<in> set es. search e = None)"
  by (induction es) (auto split: option.splits)

lemma seek_sequence_bounds:
  assumes "seek_sequence ls pattern start eof = Some i" "pattern \<noteq> []"
  shows "search_start ls pattern start eof \<le> i \<and> i + length pattern \<le> length ls"
proof -
  from assms have le: "length pattern \<le> length ls"
    by (auto simp: seek_sequence_def split: if_splits)
  from assms obtain eq where "find (window_matches eq ls pattern)
      [search_start ls pattern start eof ..< length ls - length pattern + 1] = Some i"
    by (auto simp: seek_sequence_def split: if_splits dest!: first_pass_Some)
  from find_upt_SomeD [OF this] le show ?thesis by auto
qed

lemma find_range_None: "find P [a..<b + 1] = None \<longleftrightarrow> (\<forall>j. a \<le> j \<and> j \<le> b \<longrightarrow> \<not> P j)"
  by (simp add: find_upt_None less_Suc_eq_le del: upt_Suc)

text \<open>
  What \<open>seekSequence\<close> finds for a nonempty pattern: a window of the lines that
  matches under one of the four comparisons, the first such window in the searched range, while no
  stricter comparison matches anywhere in the range; and it finds nothing only where no comparison matches anywhere.
\<close>

theorem seek_sequence_spec:
  assumes "pattern \<noteq> []" and "length pattern \<le> length ls"
  shows "let lo = search_start ls pattern start eof; hi = length ls - length pattern in
    case seek_sequence ls pattern start eof of
      Some i \<Rightarrow> lo \<le> i \<and> i \<le> hi \<and>
        (\<exists>k < 4. window_matches (line_comparisons ! k) ls pattern i \<and>
          (\<forall>j. lo \<le> j \<and> j < i \<longrightarrow> \<not> window_matches (line_comparisons ! k) ls pattern j) \<and>
          (\<forall>k' < k. \<forall>j. lo \<le> j \<and> j \<le> hi \<longrightarrow> \<not> window_matches (line_comparisons ! k') ls pattern j))
    | None \<Rightarrow> \<forall>k < 4. \<forall>j. lo \<le> j \<and> j \<le> hi \<longrightarrow> \<not> window_matches (line_comparisons ! k) ls pattern j"
proof -
  let ?lo = "search_start ls pattern start eof" and ?hi = "length ls - length pattern"
  let ?find = "\<lambda>eq. find (window_matches eq ls pattern) [?lo..<?hi + 1]"
  have len: "length line_comparisons = 4" by (simp add: line_comparisons_def)
  have seek: "seek_sequence ls pattern start eof = first_pass ?find line_comparisons"
    using assms(1,2) by (simp add: seek_sequence_def)
  show ?thesis
  proof (cases "seek_sequence ls pattern start eof")
    case None
    then have "\<forall>k < 4. ?find (line_comparisons ! k) = None"
      unfolding seek first_pass_None using len by (metis nth_mem)
    then show ?thesis using None unfolding find_range_None Let_def by simp
  next
    case (Some i)
    then obtain k where k: "k < 4" "?find (line_comparisons ! k) = Some i"
      "\<forall>k' < k. ?find (line_comparisons ! k') = None"
      using first_pass_Some [of ?find line_comparisons i] unfolding seek len by blast
    from find_upt_SomeD [OF k(2)] have "?lo \<le> i \<and> i \<le> ?hi"
      "window_matches (line_comparisons ! k) ls pattern i"
      "\<forall>j. ?lo \<le> j \<and> j < i \<longrightarrow> \<not> window_matches (line_comparisons ! k) ls pattern j" by simp_all
    with k(1) k(3) [unfolded find_range_None] Some show ?thesis
      unfolding Let_def by auto
  qed
qed

theorem seek_sequence_spec_witness:
  "seek_sequence [''a '', ''b'', ''a''] [''a''] 0 False = Some 2 \<and>
   (\<exists>k < 4. window_matches (line_comparisons ! k) [''a '', ''b'', ''a''] [''a''] 2)"
proof -
  have found: "seek_sequence [''a '', ''b'', ''a''] [''a''] 0 False = Some 2"
    by (simp add: seek_sequence_def search_start_def line_comparisons_def window_matches_def upt_rec)
  with seek_sequence_spec [of "[''a'']" "[''a '', ''b'', ''a'']" 0 False] show ?thesis
    by (auto simp: Let_def)
qed

subsection \<open>Replacements in order\<close>

fun ordered :: "nat \<Rightarrow> replacement list \<Rightarrow> nat \<Rightarrow> bool" where
  "ordered pos [] n \<longleftrightarrow> pos \<le> n"
| "ordered pos (r # rs) n \<longleftrightarrow>
     pos \<le> rep_start r \<and> ordered (rep_start r + rep_old_len r) rs n"

text \<open>The reference: copy up to the replacement, put the new lines, go on after the old ones.\<close>

fun splice :: "nat \<Rightarrow> string list \<Rightarrow> replacement list \<Rightarrow> string list" where
  "splice pos ls [] = drop pos ls"
| "splice pos ls (r # rs) =
     take (rep_start r - pos) (drop pos ls) @ rep_lines r @
     splice (rep_start r + rep_old_len r) ls rs"

lemma ordered_le: "ordered pos rs n \<Longrightarrow> pos \<le> n"
  by (induction pos rs n rule: ordered.induct) auto

lemma remove_lines_eq: "remove_lines n s xs = take s xs @ drop (s + n) xs"
proof (induction n s xs rule: remove_lines.induct)
  case (2 n s xs)
  then show ?case
    by (cases "s < length xs") (simp_all add: min_def add.commute)
qed simp

lemma apply_replacement_eq:
  "apply_replacement r xs =
     (if length xs < rep_start r then None
      else Some (take (rep_start r) xs @ rep_lines r @ drop (rep_start r + rep_old_len r) xs))"
  by (auto simp: apply_replacement_def remove_lines_eq Let_def min_def)

lemma apply_replacements_Nil: "apply_replacements ls [] = Some ls"
  by (simp add: apply_replacements_def)

lemma apply_replacements_Cons:
  "apply_replacements ls (r # rs) =
     (case apply_replacements ls rs of None \<Rightarrow> None | Some xs \<Rightarrow> apply_replacement r xs)"
  by (simp add: apply_replacements_def fold_option_append split: option.splits)

lemma apply_replacements_ordered:
  "ordered pos rs (length ls) \<Longrightarrow> apply_replacements ls rs = Some (take pos ls @ splice pos ls rs)"
proof (induction rs arbitrary: pos)
  case Nil
  then show ?case by (simp add: apply_replacements_def)
next
  case (Cons r rs)
  let ?s = "rep_start r" and ?e = "rep_start r + rep_old_len r"
  from Cons.prems have o: "pos \<le> ?s" "ordered ?e rs (length ls)" by simp_all
  then have e: "?e \<le> length ls" by (intro ordered_le)
  have "take pos ls @ take (?s - pos) (drop pos ls) = take ?s ls"
    using o(1) by (metis le_add_diff_inverse take_add)
  with Cons.IH [OF o(2)] e show ?case
    by (simp add: apply_replacements_Cons apply_replacement_eq min_def)
qed

text \<open>A chunk that says what it replaces and is not tied to the end of the file.\<close>

definition anchored :: "update_file_chunk \<Rightarrow> bool" where
  "anchored c \<longleftrightarrow> old_lines c \<noteq> [] \<and> \<not> end_of_file c"

lemma seek_after:
  assumes "seek_sequence ls pattern start False = Some i" "start \<le> length ls"
  shows "start \<le> i \<and> i + length pattern \<le> length ls"
  using assms seek_sequence_bounds [OF assms(1)]
  by (cases "pattern = []") (auto simp: seek_sequence_def search_start_def)

lemma chunk_replacement_after:
  assumes "chunk_replacement ls path c k = Inr (r, k')" "anchored c" "k \<le> length ls"
  shows "k \<le> rep_start r \<and> k' = rep_start r + rep_old_len r \<and> k' \<le> length ls"
proof -
  obtain m where m: "(if change_context c = [] then Some k
      else map_option Suc (seek_sequence ls [change_context c] k False)) = Some m"
    using assms(1) by (auto simp: chunk_replacement_def split: option.splits)
  then have km: "k \<le> m" "m \<le> length ls"
    using assms(3) seek_after [of ls "[change_context c]" k] by (fastforce split: if_splits)+
  have c: "old_lines c \<noteq> []" "\<not> end_of_file c" using assms(2) by (simp_all add: anchored_def)
  show ?thesis
  proof (cases "seek_sequence ls (old_lines c) m False")
    case (Some i)
    with assms(1) c seek_after [OF Some km(2)] km(1) show ?thesis
      unfolding chunk_replacement_def m by (auto simp: Let_def)
  next
    case None
    with assms(1) c obtain i where i: "seek_sequence ls (butlast (old_lines c)) m False = Some i"
      and r: "rep_start r = i" "rep_old_len r = length (butlast (old_lines c))"
        "k' = i + length (butlast (old_lines c))"
      unfolding chunk_replacement_def m by (auto simp: Let_def split: if_splits option.splits)
    from seek_after [OF i km(2)] km(1) r show ?thesis by simp
  qed
qed

lemma compute_replacements_ordered:
  "compute_replacements ls path k cs = Inr rs \<Longrightarrow> list_all anchored cs \<Longrightarrow> k \<le> length ls \<Longrightarrow>
     ordered k rs (length ls)"
proof (induction ls path k cs arbitrary: rs rule: compute_replacements.induct)
  case (2 ls path k c cs)
  then obtain r k' rs' where r: "chunk_replacement ls path c k = Inr (r, k')"
    and rs': "compute_replacements ls path k' cs = Inr rs'" "rs = r # rs'"
    by (auto split: sum.splits)
  from chunk_replacement_after [OF r] 2 have "k \<le> rep_start r" "k' = rep_start r + rep_old_len r"
    "k' \<le> length ls" by simp_all
  with 2 r rs' show ?case by auto
qed simp


definition change_of :: "string list \<Rightarrow> string list \<Rightarrow> update_file_chunk" where
  "change_of os ns = \<lparr>change_context = [], old_lines = os, new_lines = ns, end_of_file = False\<rparr>"

definition unlines :: "string list \<Rightarrow> string" where
  "unlines ls = join_with [newline] (end_with_blank ls)"

lemma split_lines:
  assumes "list_all line_ok ls" "ls = [] \<or> last ls \<noteq> []"
  shows "drop_blank_last (split_on newline (unlines ls)) = ls"
proof -
  have "split_on newline (join_with [newline] (ls @ [[]])) = ls @ [[]]"
    using assms(1) by (intro split_on_join_with) (auto simp: list_all_iff line_ok_def)
  with assms(2) show ?thesis by (simp add: unlines_def end_with_blank_def drop_blank_last_def)
qed

lemma window_at: "window_matches (=) (as @ bs @ cs) bs (length as)"
  by (simp add: window_matches_def list_all2_eq [symmetric])

lemma seek_exact:
  assumes "bs \<noteq> []" "\<forall>i < length as. \<not> window_matches (=) (as @ bs @ cs) bs i"
  shows "seek_sequence (as @ bs @ cs) bs 0 False = Some (length as)"
proof -
  let ?hi = "length (as @ bs @ cs) - length bs + 1"
  have "find (window_matches (=) (as @ bs @ cs) bs) [0..<?hi] = Some (length as)"
    using assms(2) window_at [of as bs cs]
    by (auto simp: find_Some_iff simp del: upt_Suc intro!: exI [of _ "length as"])
  then show ?thesis
    using assms(1) by (simp add: seek_sequence_def line_comparisons_def search_start_def del: upt_Suc)
qed

lemma derive_one_change:
  assumes "list_all line_ok (as @ os @ cs)" and "as @ os @ cs = [] \<or> last (as @ os @ cs) \<noteq> []"
    and "os \<noteq> []" and "\<forall>i < length as. \<not> window_matches (=) (as @ os @ cs) os i"
  shows "derive_updated_contents path (unlines (as @ os @ cs)) [change_of os ns] =
    Some (Inr (unlines (as @ ns @ cs)))"
proof -
  let ?r = "\<lparr>rep_start = length as, rep_old_len = length os, rep_lines = ns\<rparr>"
  have "compute_replacements (as @ os @ cs) path 0 [change_of os ns] = Inr [?r]"
    using assms(3) seek_exact [OF assms(3,4)]
    by (simp add: chunk_replacement_def change_of_def Let_def)
  moreover have "apply_replacements (as @ os @ cs) [?r] = Some (as @ ns @ cs)"
    by (simp add: apply_replacements_ordered [where pos = 0])
  ultimately show ?thesis
    unfolding derive_updated_contents_def split_lines [OF assms(1,2)] Let_def
    by (simp add: unlines_def del: compute_replacements.simps)
qed


text \<open>
  An update does what its text says: in a file of lines \<open>as @ os @ cs\<close> whose
  first occurrence of \<open>os\<close> is the one after \<open>as\<close>, a chunk that replaces
  \<open>os\<close> by \<open>ns\<close> gives the file of lines \<open>as @ ns @ cs\<close>.
\<close>

theorem update_replaces_block:
  assumes "list_all line_ok (as @ os @ cs)" and "as @ os @ cs = [] \<or> last (as @ os @ cs) \<noteq> []"
    and "os \<noteq> []" and "\<forall>i < length as. \<not> window_matches (=) (as @ os @ cs) os i"
  shows "derive_updated_contents path (unlines (as @ os @ cs)) [change_of os ns] =
    Some (Inr (unlines (as @ ns @ cs)))"
  using assms by (rule derive_one_change)

theorem update_replaces_block_witness:
  "derive_updated_contents ''f'' (unlines ([''a''] @ [''b''] @ [''c''])) [change_of [''b''] []] =
    Some (Inr (unlines ([''a''] @ [] @ [''c''])))"
  by (rule update_replaces_block) (simp_all add: line_ok_def newline_def window_matches_def)

text \<open>
  The replacements are never sorted, so an insertion at the end of the file
  followed by a chunk that removes lines makes the applier index beyond the shortened file: on the two lines
  \<open>a\<close>, \<open>b\<close>, adding a line and then removing both panics.
\<close>

theorem insertion_before_removal_panics:
  "derive_updated_contents path (unlines [''a'', ''b'']) [change_of [] [''x''], change_of [''a'', ''b''] []] = None"
proof -
  have lines: "drop_blank_last (split_on newline (unlines [''a'', ''b''])) = [''a'', ''b'']"
    by (subst split_lines) (simp_all add: line_ok_def newline_def)
  have "seek_sequence ([] @ [''a'', ''b''] @ []) [''a'', ''b''] 0 False = Some 0"
    by (subst seek_exact) simp_all
  then have rs: "compute_replacements [''a'', ''b''] path 0 [change_of [] [''x''], change_of [''a'', ''b''] []] =
      Inr [\<lparr>rep_start = 2, rep_old_len = 0, rep_lines = [''x'']\<rparr>,
           \<lparr>rep_start = 0, rep_old_len = 2, rep_lines = []\<rparr>]"
    by (simp add: chunk_replacement_def change_of_def Let_def)
  then show ?thesis
    unfolding derive_updated_contents_def lines Let_def rs
    by (simp add: apply_replacements_Cons apply_replacements_Nil apply_replacement_eq)
qed

end
