(* ===== verification/GoPaths.thy ===== *)
theory GoPaths
  imports GoStrings
begin

section \<open>Go paths: package path/filepath on Unix\<close>

text \<open>
  The lexical path functions the program uses (\<open>Clean\<close>, \<open>Join\<close>, \<open>IsAbs\<close>, \<open>Abs\<close>, \<open>Rel\<close>,
  \<open>Base\<close>, \<open>Dir\<close>, \<open>Ext\<close>), for a Unix separator. A cleaned path is its list of segments; the type
  \<open>apath\<close> of absolute cleaned paths is ordered by ``is an ancestor of'', which makes
  confinement below a root a statement of that order.
\<close>

definition is_abs :: "string \<Rightarrow> bool" where
  "is_abs p \<longleftrightarrow> prefix ''/'' p"

fun clean_segs :: "bool \<Rightarrow> string list \<Rightarrow> string list \<Rightarrow> string list" where
  "clean_segs rooted st [] = rev st"
| "clean_segs rooted st (c # cs) =
     (if c = [] \<or> c = ''.'' then clean_segs rooted st cs
      else if c = ''..'' then
        (case st of
           [] \<Rightarrow> clean_segs rooted (if rooted then [] else [''..'']) cs
         | d # ds \<Rightarrow> clean_segs rooted (if d = ''..'' then ''..'' # st else ds) cs)
      else clean_segs rooted (c # st) cs)"

definition segs :: "string \<Rightarrow> string list" where
  "segs p = clean_segs (is_abs p) [] (split_on (CHR ''/'') p)"

definition render_path :: "bool \<Rightarrow> string list \<Rightarrow> string" where
  "render_path rooted ss =
     (if rooted then ''/'' @ join_with ''/'' ss
      else if ss = [] then ''.'' else join_with ''/'' ss)"

definition clean :: "string \<Rightarrow> string" where
  "clean p = render_path (is_abs p) (segs p)"

definition join_path :: "string list \<Rightarrow> string" where
  "join_path elems =
     (let es = dropWhile (\<lambda>e. e = []) elems
      in if es = [] then [] else clean (join_with ''/'' es))"

text \<open>\<open>filepath.Abs\<close>, given the working directory of the process.\<close>

definition abs_path :: "string \<Rightarrow> string \<Rightarrow> string" where
  "abs_path wd p = (if is_abs p then clean p else join_path [wd, p])"

fun strip_common :: "string list \<Rightarrow> string list \<Rightarrow> string list \<times> string list" where
  "strip_common (b # bs) (t # ts) = (if b = t then strip_common bs ts else (b # bs, t # ts))"
| "strip_common bs ts = (bs, ts)"

definition rel :: "string \<Rightarrow> string \<Rightarrow> string option" where
  "rel base targ =
     (if clean targ = clean base then Some ''.''
      else if is_abs base \<noteq> is_abs targ then None
      else (let (br, tr) = strip_common (segs base) (segs targ) in
        if br \<noteq> [] \<and> hd br = ''..'' then None
        else Some (join_with ''/'' (replicate (length br) ''..'' @ tr))))"

definition base_name :: "string \<Rightarrow> string" where
  "base_name p =
     (if p = [] then ''.''
      else (let q = rev (dropWhile (\<lambda>c. c = CHR ''/'') (rev p)) in
        if q = [] then ''/'' else last (split_on (CHR ''/'') q)))"

definition dir_name :: "string \<Rightarrow> string" where
  "dir_name p = clean (rev (dropWhile (\<lambda>c. c \<noteq> CHR ''/'') (rev p)))"

definition path_ext :: "string \<Rightarrow> string" where
  "path_ext p =
     (let l = last (split_on (CHR ''/'') p) in
      if CHR ''.'' \<in> set l
      then CHR ''.'' # rev (takeWhile (\<lambda>c. c \<noteq> CHR ''.'') (rev l)) else [])"

subsection \<open>Segments of cleaned absolute paths\<close>

definition wf_seg :: "string \<Rightarrow> bool" where
  "wf_seg s \<longleftrightarrow> s \<noteq> [] \<and> s \<noteq> ''.'' \<and> s \<noteq> ''..'' \<and> CHR ''/'' \<notin> set s"

lemma wf_seg_free [simp]: "wf_seg s \<Longrightarrow> CHR ''/'' \<notin> set s"
  by (simp add: wf_seg_def)

lemma clean_segs_append:
  "clean_segs r st (xs @ ys) = clean_segs r (rev (clean_segs r st xs)) ys"
proof (induction xs arbitrary: st)
  case (Cons c xs)
  consider "c = [] \<or> c = ''.''" | "c = ''..''" | "c \<noteq> []" "c \<noteq> ''.''" "c \<noteq> ''..''" by blast
  then show ?case by cases (use Cons in \<open>cases st; simp\<close>)+
qed simp

lemma clean_segs_wf_rooted:
  "\<forall>s \<in> set st. wf_seg s \<Longrightarrow> \<forall>c \<in> set cs. CHR ''/'' \<notin> set c \<Longrightarrow>
     \<forall>s \<in> set (clean_segs True st cs). wf_seg s"
proof (induction cs arbitrary: st)
  case (Cons c cs)
  consider "c = [] \<or> c = ''.''" | "c = ''..''" | "c \<noteq> []" "c \<noteq> ''.''" "c \<noteq> ''..''" by blast
  then show ?case
  proof cases
    case 1
    with Cons show ?thesis by simp
  next
    case 2
    show ?thesis
    proof (cases st)
      case Nil
      with 2 Cons.IH [of "[]"] Cons.prems show ?thesis by simp
    next
      case (Cons d ds)
      with Cons.prems have "d \<noteq> ''..''" "\<forall>s \<in> set ds. wf_seg s" by (auto simp: wf_seg_def)
      with 2 Cons Cons.IH [of ds] Cons.prems show ?thesis by simp
    qed
  next
    case 3
    then have "clean_segs True st (c # cs) = clean_segs True (c # st) cs" by simp
    moreover from 3 Cons.prems(2) have "wf_seg c" by (simp add: wf_seg_def)
    with Cons.prems have "\<forall>s \<in> set (clean_segs True (c # st) cs). wf_seg s"
      by (intro Cons.IH) simp_all
    ultimately show ?thesis by (simp only:)
  qed
qed simp

lemma clean_segs_wf_id: "\<forall>c \<in> set cs. wf_seg c \<Longrightarrow> clean_segs r st cs = rev st @ cs"
  by (induction cs arbitrary: st) (auto simp: wf_seg_def)

lemma segs_wf: "is_abs p \<Longrightarrow> \<forall>s \<in> set (segs p). wf_seg s"
proof -
  assume "is_abs p"
  moreover have "\<forall>c \<in> set (split_on (CHR ''/'') p). CHR ''/'' \<notin> set c"
    by (blast dest: split_on_elems)
  ultimately show ?thesis
    unfolding segs_def using clean_segs_wf_rooted [of "[]"] by simp
qed

lemma is_abs_Cons [simp]: "is_abs (CHR ''/'' # p)"
  by (simp add: is_abs_def)

lemma is_abs_render [simp]: "is_abs (render_path True ss)"
  by (simp add: render_path_def)

lemma split_join_wf:
  "ss \<noteq> [] \<Longrightarrow> \<forall>s \<in> set ss. wf_seg s \<Longrightarrow> split_on (CHR ''/'') (join_with ''/'' ss) = ss"
  by (rule split_on_join_with) auto

lemma segs_render: "\<forall>s \<in> set ss. wf_seg s \<Longrightarrow> segs (render_path True ss) = ss"
  by (cases "ss = []")
     (simp_all add: segs_def render_path_def split_join_wf clean_segs_wf_id)

lemma clean_abs: "is_abs p \<Longrightarrow> clean p = render_path True (segs p)"
  by (simp add: clean_def)

lemma is_abs_clean [simp]: "is_abs p \<Longrightarrow> is_abs (clean p)"
  by (simp add: clean_abs)

lemma segs_clean [simp]: "is_abs p \<Longrightarrow> segs (clean p) = segs p"
  by (simp add: clean_abs segs_render segs_wf)

lemma clean_clean [simp]: "is_abs p \<Longrightarrow> clean (clean p) = clean p"
  by (subst clean_abs) (simp_all add: clean_abs [symmetric])

lemma render_inj:
  "\<forall>s \<in> set ss. wf_seg s \<Longrightarrow> \<forall>s \<in> set ts. wf_seg s \<Longrightarrow>
    render_path True ss = render_path True ts \<longleftrightarrow> ss = ts"
  by (metis segs_render)

text \<open>Joining below an absolute path runs the segments of the second part on top of the first.\<close>

lemma segs_slash:
  assumes "is_abs p"
  shows "segs (p @ ''/'' @ q) = clean_segs True (rev (segs p)) (split_on (CHR ''/'') q)"
proof -
  have abs: "is_abs (p @ ''/'' @ q)" using assms by (auto simp: is_abs_def prefix_def)
  have "split_on (CHR ''/'') (p @ ''/'' @ q) = split_on (CHR ''/'') p @ split_on (CHR ''/'') q"
  proof (induction p)
    case (Cons c p)
    then show ?case by (cases "split_on (CHR ''/'') p") auto
  qed simp
  then show ?thesis
    using abs assms by (simp add: segs_def clean_segs_append)
qed

lemma join_path_abs:
  "is_abs p \<Longrightarrow> join_path [p, q] =
     render_path True (clean_segs True (rev (segs p)) (split_on (CHR ''/'') q))"
proof -
  assume abs: "is_abs p"
  then have ne: "p \<noteq> []" by (auto simp: is_abs_def)
  from abs have "is_abs (p @ ''/'' @ q)" by (auto simp: is_abs_def prefix_def)
  with ne abs show ?thesis
    using segs_slash [OF abs, of q] by (simp add: join_path_def clean_abs)
qed

subsection \<open>Relative paths\<close>

lemma strip_common_prefix:
  "strip_common bs (bs @ ts) = ([], ts)"
  by (induction bs) auto

lemma strip_common_not_prefix:
  "\<not> prefix bs ts \<Longrightarrow> fst (strip_common bs ts) \<noteq> []"
  by (induction bs ts rule: strip_common.induct) auto

lemma strip_common_set: "set (fst (strip_common bs ts)) \<subseteq> set bs"
  by (induction bs ts rule: strip_common.induct) auto

lemma rel_below:
  assumes "is_abs b" "is_abs t" "segs t = segs b @ ts"
  shows "rel b t = Some (render_path False ts)"
proof (cases "ts = []")
  case True
  with assms show ?thesis by (simp add: rel_def clean_abs render_path_def)
next
  case False
  then have "clean t \<noteq> clean b"
    using assms render_inj [of "segs t" "segs b"] by (simp add: clean_abs segs_wf)
  with False assms show ?thesis
    by (simp add: rel_def strip_common_prefix render_path_def)
qed

lemma rel_outside:
  assumes "is_abs b" "is_abs t" "\<not> prefix (segs b) (segs t)"
  shows "\<exists>r. rel b t = Some r \<and> (r = ''..'' \<or> prefix ''../'' r)"
proof -
  obtain br tr where st: "strip_common (segs b) (segs t) = (br, tr)" by fastforce
  with strip_common_not_prefix [OF assms(3)] have br: "br \<noteq> []" by simp
  have "set br \<subseteq> set (segs b)" using strip_common_set [of "segs b" "segs t"] st by simp
  with br segs_wf [OF assms(1)] have "wf_seg (hd br)" by (metis hd_in_set subsetD)
  then have hd: "hd br \<noteq> ''..''" by (simp add: wf_seg_def)
  from assms(3) have "clean t \<noteq> clean b" using assms(1,2) by (metis segs_clean prefix_order.refl)
  then have "rel b t = Some (join_with ''/'' (replicate (length br) ''..'' @ tr))"
    using st hd assms by (simp add: rel_def)
  moreover from br obtain n where "length br = Suc n" by (cases br) auto
  then have "join_with ''/'' (replicate (length br) ''..'' @ tr) = ''..'' \<or>
      prefix ''../'' (join_with ''/'' (replicate (length br) ''..'' @ tr))"
    by (cases "replicate n ''..'' @ tr") auto
  ultimately show ?thesis by blast
qed

text \<open>
  The tests the program makes on a relative path, \<open>r == w || strings.HasPrefix(r, w + "/")\<close>,
  hold exactly when its first segment is \<open>w\<close>.
\<close>

definition first_seg_is :: "string \<Rightarrow> string \<Rightarrow> bool" where
  "first_seg_is w r \<longleftrightarrow> r = w \<or> prefix (w @ ''/'') r"

lemma first_seg_render:
  assumes ts: "\<forall>s \<in> set ts. wf_seg s" and w: "CHR ''/'' \<notin> set w" "w \<noteq> ''.''"
  shows "first_seg_is w (render_path False ts) \<longleftrightarrow> (ts \<noteq> [] \<and> hd ts = w)"
proof (cases ts)
  case Nil
  have "\<not> prefix (w @ ''/'') ''.''"
    using w by (cases w) (auto simp: prefix_Cons)
  with Nil w show ?thesis by (auto simp: first_seg_is_def render_path_def)
next
  case (Cons a as)
  have split: "split_on (CHR ''/'') (join_with ''/'' ts) = ts"
    using Cons ts by (intro split_join_wf) auto
  show ?thesis
  proof
    assume "first_seg_is w (render_path False ts)"
    then consider "join_with ''/'' ts = w" | x where "join_with ''/'' ts = w @ CHR ''/'' # x"
      using Cons by (auto simp: first_seg_is_def render_path_def prefix_def)
    then show "ts \<noteq> [] \<and> hd ts = w"
      using split w by cases (metis split_on_free list.sel(1) list.discI, metis split_on_append list.sel(1) list.discI)
  next
    assume "ts \<noteq> [] \<and> hd ts = w"
    with Cons show "first_seg_is w (render_path False ts)"
      by (cases as) (auto simp: first_seg_is_def render_path_def)
  qed
qed

lemma not_dotdot_render:
  "\<forall>s \<in> set ts. wf_seg s \<Longrightarrow> \<not> first_seg_is ''..'' (render_path False ts)"
  by (subst first_seg_render) (auto simp: wf_seg_def dest: hd_in_set)

subsection \<open>Absolute paths ordered by ancestry\<close>

datatype apath = APath (apath_segs: "string list")

instantiation apath :: order_bot
begin

definition less_eq_apath :: "apath \<Rightarrow> apath \<Rightarrow> bool" where
  "less_eq_apath p q \<longleftrightarrow> prefix (apath_segs p) (apath_segs q)"

definition less_apath :: "apath \<Rightarrow> apath \<Rightarrow> bool" where
  "less_apath p q \<longleftrightarrow> strict_prefix (apath_segs p) (apath_segs q)"

definition bot_apath :: apath where
  "bot_apath = APath []"

instance
proof
  fix p q r :: apath
  show "p < q \<longleftrightarrow> p \<le> q \<and> \<not> q \<le> p"
    by (simp add: less_eq_apath_def less_apath_def prefix_order.less_le_not_le)
  show "p \<le> p" by (simp add: less_eq_apath_def)
  show "p \<le> q \<Longrightarrow> q \<le> r \<Longrightarrow> p \<le> r"
    unfolding less_eq_apath_def by (rule prefix_order.trans)
  show "p \<le> q \<Longrightarrow> q \<le> p \<Longrightarrow> p = q"
    by (simp add: less_eq_apath_def apath.expand prefix_order.antisym)
  show "bot \<le> p" by (simp add: less_eq_apath_def bot_apath_def)
qed

end

definition apath_of :: "string \<Rightarrow> apath" where
  "apath_of p = APath (segs p)"

lemma apath_le_iff: "apath_of p \<le> apath_of q \<longleftrightarrow> prefix (segs p) (segs q)"
  by (simp add: less_eq_apath_def apath_of_def)

lemma apath_of_render: "\<forall>s \<in> set ss. wf_seg s \<Longrightarrow> apath_of (render_path True ss) = APath ss"
  by (simp add: apath_of_def segs_render)

text \<open>The parent directory, \<open>filepath.Dir\<close> on an absolute path.\<close>

definition parent :: "apath \<Rightarrow> apath" where
  "parent p = APath (butlast (apath_segs p))"

lemma parent_le: "parent p \<le> p"
  unfolding less_eq_apath_def parent_def by (simp add: prefixeq_butlast)

lemma le_parent: "q \<le> p \<Longrightarrow> q \<noteq> p \<Longrightarrow> q \<le> parent p"
  by (cases q; cases p) (auto simp: less_eq_apath_def parent_def prefix_def butlast_append)

lemma comparable_ancestors: "(q::apath) \<le> p \<Longrightarrow> r \<le> p \<Longrightarrow> q \<le> r \<or> r \<le> q"
  unfolding less_eq_apath_def by (rule prefix_same_cases)

end
