(* ===== verification/GoFiles.thy ===== *)
theory GoFiles
  imports GoPaths "HOL-Library.AList"
begin

section \<open>Files: what the program uses of package os\<close>

text \<open>
  A file system is a list of entries, one per existing absolute path, each a regular file with
  its bytes or a directory. The operations are those of package \<open>os\<close> that the program calls,
  with the errors of a Unix kernel: a missing entry, a directory where a file is meant, a file
  where a directory is meant, and a directory that is not empty. Symbolic links, permissions and
  device failures are not modelled. The \<open>frame_simps\<close> say that an operation changes no path
  but its own.
\<close>

datatype node = File string | Dir

datatype os_error = NotExist | IsDirectory | NotDirectory | NotEmpty | AlreadyExists

type_synonym fs = "(apath \<times> node) list"

abbreviation node_at :: "fs \<Rightarrow> apath \<Rightarrow> node option" where
  "node_at d p \<equiv> map_of d p"

text \<open>Path resolution: the first proper ancestor that is not a directory stops it.\<close>

definition ancestors :: "apath \<Rightarrow> apath list" where
  "ancestors p = map (\<lambda>n. APath (take n (apath_segs p))) [0..<length (apath_segs p)]"

fun blocked_in :: "fs \<Rightarrow> apath list \<Rightarrow> os_error option" where
  "blocked_in d [] = None"
| "blocked_in d (a # as) =
     (case node_at d a of
        None \<Rightarrow> Some NotExist
      | Some (File _) \<Rightarrow> Some NotDirectory
      | Some Dir \<Rightarrow> blocked_in d as)"

definition blocked :: "fs \<Rightarrow> apath \<Rightarrow> os_error option" where
  "blocked d p = blocked_in d (ancestors p)"

definition read_file :: "fs \<Rightarrow> apath \<Rightarrow> (os_error, string) result" where
  "read_file d p =
     (case blocked d p of Some e \<Rightarrow> Inl e
      | None \<Rightarrow>
        (case node_at d p of
           None \<Rightarrow> Inl NotExist
         | Some Dir \<Rightarrow> Inl IsDirectory
         | Some (File c) \<Rightarrow> Inr c))"

definition write_file :: "apath \<Rightarrow> string \<Rightarrow> fs \<Rightarrow> (os_error, fs) result" where
  "write_file p c d =
     (case blocked d p of Some e \<Rightarrow> Inl e
      | None \<Rightarrow>
        (if node_at d p = Some Dir then Inl IsDirectory else Inr (AList.update p (File c) d)))"

text \<open>Opening with \<open>O_CREATE|O_APPEND\<close> and writing.\<close>

definition append_file :: "apath \<Rightarrow> string \<Rightarrow> fs \<Rightarrow> (os_error, fs) result" where
  "append_file p c d =
     (case blocked d p of Some e \<Rightarrow> Inl e
      | None \<Rightarrow>
        (case node_at d p of
           Some Dir \<Rightarrow> Inl IsDirectory
         | Some (File old) \<Rightarrow> Inr (AList.update p (File (old @ c)) d)
         | None \<Rightarrow> Inr (AList.update p (File c) d)))"

definition remove_file :: "apath \<Rightarrow> fs \<Rightarrow> (os_error, fs) result" where
  "remove_file p d =
     (case blocked d p of Some e \<Rightarrow> Inl e
      | None \<Rightarrow>
        (case node_at d p of
           None \<Rightarrow> Inl NotExist
         | Some (File _) \<Rightarrow> Inr (AList.delete p d)
         | Some Dir \<Rightarrow>
             if list_ex (\<lambda>(q, _). p < q) d then Inl NotEmpty else Inr (AList.delete p d)))"

text \<open>\<open>os.Rename\<close> of a regular file.\<close>

definition rename_file :: "apath \<Rightarrow> apath \<Rightarrow> fs \<Rightarrow> (os_error, fs) result" where
  "rename_file p q d =
     (case read_file d p of
        Inl e \<Rightarrow> Inl e
      | Inr c \<Rightarrow> if p = q then Inr d else
         (case write_file q c d of Inl e \<Rightarrow> Inl e | Inr d' \<Rightarrow> Inr (AList.delete p d')))"

text \<open>\<open>os.MkdirAll\<close>: every missing ancestor is created, from the root down.\<close>

fun mkdir_list :: "apath list \<Rightarrow> fs \<Rightarrow> (os_error, fs) result" where
  "mkdir_list [] d = Inr d"
| "mkdir_list (a # as) d =
     (case node_at d a of
        Some (File _) \<Rightarrow> Inl NotDirectory
      | Some Dir \<Rightarrow> mkdir_list as d
      | None \<Rightarrow> mkdir_list as (AList.update a Dir d))"

definition mkdir_all :: "apath \<Rightarrow> fs \<Rightarrow> (os_error, fs) result" where
  "mkdir_all p d = mkdir_list (ancestors p @ [p]) d"

subsection \<open>Lemmas\<close>

lemma ancestors_less: "a \<in> set (ancestors p) \<Longrightarrow> a < p"
proof -
  assume "a \<in> set (ancestors p)"
  then obtain n where "n < length (apath_segs p)" "a = APath (take n (apath_segs p))"
    by (auto simp: ancestors_def)
  then show ?thesis
    by (simp add: less_apath_def strict_prefix_def take_is_prefix)
qed

lemma less_ancestor: "a < p \<Longrightarrow> a \<in> set (ancestors p)"
proof -
  assume "a < p"
  then obtain b bs where "apath_segs p = apath_segs a @ b # bs"
    unfolding less_apath_def by (rule strict_prefixE')
  then show ?thesis
    by (auto simp: ancestors_def image_iff apath.expand intro!: bexI [of _ "length (apath_segs a)"])
qed

lemma ancestors_le: "a \<in> set (ancestors p @ [p]) \<Longrightarrow> a \<le> p"
  by (auto dest: ancestors_less)

lemma write_file_frame [frame_simps]:
  "write_file p c d = Inr d' \<Longrightarrow> node_at d' q = (if q = p then Some (File c) else node_at d q)"
  by (auto simp: write_file_def update_conv' split: option.splits if_splits)

lemma append_file_frame [frame_simps]:
  "append_file p c d = Inr d' \<Longrightarrow> q \<noteq> p \<Longrightarrow> node_at d' q = node_at d q"
  by (auto simp: append_file_def update_conv' split: option.splits node.splits)

lemma remove_file_frame [frame_simps]:
  "remove_file p d = Inr d' \<Longrightarrow> node_at d' q = (if q = p then None else node_at d q)"
  by (auto simp: remove_file_def delete_conv' split: option.splits node.splits if_splits)

lemma blocked_in_None: "blocked_in d as = None \<longleftrightarrow> (\<forall>a \<in> set as. node_at d a = Some Dir)"
  by (induction as) (auto split: option.splits node.splits)

lemma blocked_None: "blocked d p = None \<longleftrightarrow> (\<forall>a \<in> set (ancestors p). node_at d a = Some Dir)"
  by (simp add: blocked_def blocked_in_None)

lemma mkdir_list_keeps_dir:
  "mkdir_list as d = Inr d' \<Longrightarrow> node_at d a = Some Dir \<Longrightarrow> node_at d' a = Some Dir"
  by (induction as arbitrary: d) (auto simp: update_conv' split: option.splits node.splits)

lemma mkdir_list_dirs:
  "mkdir_list as d = Inr d' \<Longrightarrow> a \<in> set as \<Longrightarrow> node_at d' a = Some Dir"
  by (induction as arbitrary: d)
     (auto simp: update_conv' split: option.splits node.splits intro: mkdir_list_keeps_dir)

lemma mkdir_list_frame:
  "mkdir_list as d = Inr d' \<Longrightarrow>
     node_at d' q = (if q \<in> set as \<and> node_at d q = None then Some Dir else node_at d q)"
  by (induction as arbitrary: d) (auto simp: update_conv' split: option.splits node.splits if_splits)

lemma mkdir_all_dir: "mkdir_all p d = Inr d' \<Longrightarrow> a \<in> set (ancestors p @ [p]) \<Longrightarrow> node_at d' a = Some Dir"
  unfolding mkdir_all_def by (rule mkdir_list_dirs)

lemma mkdir_all_frame [frame_simps]:
  "mkdir_all p d = Inr d' \<Longrightarrow>
     node_at d' q =
       (if q \<in> set (ancestors p @ [p]) \<and> node_at d q = None then Some Dir else node_at d q)"
  unfolding mkdir_all_def by (rule mkdir_list_frame)

lemma mkdir_all_keeps: "mkdir_all p d = Inr d' \<Longrightarrow> node_at d q \<noteq> None \<Longrightarrow> node_at d' q = node_at d q"
  by (simp add: mkdir_all_frame)

lemma ancestors_parent: "p \<noteq> APath [] \<Longrightarrow> ancestors p = ancestors (parent p) @ [parent p]"
proof -
  assume "p \<noteq> APath []"
  then obtain ss s where p: "p = APath (ss @ [s])" by (cases p) (metis rev_exhaust)
  then show ?thesis by (auto simp: ancestors_def parent_def)
qed

text \<open>After \<open>MkdirAll(Dir(p))\<close> a write to \<open>p\<close> fails only if \<open>p\<close> is a directory.\<close>

lemma write_after_mkdir:
  assumes "p \<noteq> APath []" "mkdir_all (parent p) d = Inr d'" "node_at d' p \<noteq> Some Dir"
  shows "write_file p c d' = Inr (AList.update p (File c) d')"
proof -
  have "blocked d' p = None"
    unfolding blocked_None ancestors_parent [OF assms(1)] using mkdir_all_dir [OF assms(2)] by blast
  with assms(3) show ?thesis by (simp add: write_file_def)
qed

lemma read_after_write: "write_file p c d = Inr d' \<Longrightarrow> read_file d' p = Inr c"
proof -
  assume w: "write_file p c d = Inr d'"
  then have d: "\<forall>a \<in> set (ancestors p). node_at d a = Some Dir"
    unfolding write_file_def blocked_None [symmetric] by (auto split: option.splits)
  have "node_at d' a = Some Dir" if "a \<in> set (ancestors p)" for a
    using that d ancestors_less [OF that] write_file_frame [OF w, of a] by auto
  then have "blocked d' p = None" by (simp add: blocked_None)
  with write_file_frame [OF w, of p] show ?thesis by (simp add: read_file_def)
qed

text \<open>A well-formed tree: the ancestors of an entry are directories.\<close>

definition fs_ok :: "fs \<Rightarrow> bool" where
  "fs_ok d \<longleftrightarrow> (\<forall>q a. node_at d q \<noteq> None \<longrightarrow> a \<in> set (ancestors q) \<longrightarrow> node_at d a = Some Dir)"

lemma read_file_Inr:
  "read_file d p = Inr c \<longleftrightarrow>
     (\<forall>a \<in> set (ancestors p). node_at d a = Some Dir) \<and> node_at d p = Some (File c)"
  unfolding blocked_None [symmetric] by (auto simp: read_file_def split: option.splits node.splits)

lemma read_after_rename:
  assumes "rename_file p q d = Inr d'" "read_file d p = Inr c"
  shows "read_file d' q = Inr c"
proof (cases "p = q")
  case True
  with assms show ?thesis by (simp add: rename_file_def)
next
  case False
  with assms obtain d1 where w: "write_file q c d = Inr d1" and d': "d' = AList.delete p d1"
    by (auto simp: rename_file_def split: sum.splits)
  have r: "read_file d1 q = Inr c" by (rule read_after_write [OF w])
  have "node_at d1 p = Some (File c)"
    using False assms(2) write_file_frame [OF w, of p] by (simp add: read_file_Inr)
  with r have "p \<notin> set (ancestors q)" by (auto simp: read_file_Inr)
  with r False show ?thesis by (auto simp: d' read_file_Inr delete_conv')
qed

end
