(* ===== verification/PatchFiles.thy ===== *)
theory PatchFiles
  imports PatchApply GoFiles
begin

section \<open>Applying a patch to the workspace: apply\_patch.go, joinUnderWorkspace\<close>

text \<open>
  A patch is applied hunk by hunk; every path it names is resolved by \<open>joinUnderWorkspace\<close>,
  which accepts a path exactly when it is lexically at or below the workspace root and not in the
  protected directories. The theory shows that, whatever the patch, no other path of the file
  system changes, also when a hunk fails half way.
\<close>

datatype hunk_error =
    EscapesWorkspace string
  | ProtectedPath string
  | CreateParents os_error
  | WriteFailed os_error
  | DeleteFailed os_error
  | ReadFailed os_error
  | DeriveFailed derive_error
  | RemoveOriginalFailed os_error

text \<open>The test \<open>relative == w || strings.HasPrefix(relative, w + "/")\<close> is \<open>first_seg_is\<close>.\<close>

definition join_under_workspace :: "string \<Rightarrow> string \<Rightarrow> string \<Rightarrow> string \<Rightarrow>
    (hunk_error, string) result" where
  "join_under_workspace wd root cwd name =
     (let path = (if is_abs name then name
                  else join_path [(if cwd = [] then root else cwd), name]);
          absolute = abs_path wd path
      in case rel root absolute of
           None \<Rightarrow> Inl (EscapesWorkspace name)
         | Some relative \<Rightarrow>
             if first_seg_is ''..'' relative then Inl (EscapesWorkspace name)
             else if list_ex (\<lambda>protected. first_seg_is protected relative) [''.git'', ''.codex'']
               then Inl (ProtectedPath relative)
             else Inr absolute)"

record affected_paths =
  aff_added :: "string list"
  aff_modified :: "string list"
  aff_deleted :: "string list"

definition no_paths :: affected_paths where
  "no_paths = \<lparr>aff_added = [], aff_modified = [], aff_deleted = []\<rparr>"

text \<open>
  One hunk: the error if any, and the state reached. \<open>None\<close> is the panic of
  \<open>applyReplacements\<close>.
\<close>

definition apply_hunk :: "string \<Rightarrow> string \<Rightarrow> string \<Rightarrow> patch_hunk \<Rightarrow> affected_paths \<times> fs \<Rightarrow>
    (hunk_error option \<times> affected_paths \<times> fs) option" where
  "apply_hunk wd root cwd hunk s =
     (let (aff, d) = s in
      case hunk of
        AddFile name contents \<Rightarrow>
          (case join_under_workspace wd root cwd name of
             Inl e \<Rightarrow> Some (Some e, aff, d)
           | Inr path \<Rightarrow>
             (case mkdir_all (parent (apath_of path)) d of
                Inl e \<Rightarrow> Some (Some (CreateParents e), aff, d)
              | Inr d1 \<Rightarrow>
                (case write_file (apath_of path) contents d1 of
                   Inl e \<Rightarrow> Some (Some (WriteFailed e), aff, d1)
                 | Inr d2 \<Rightarrow> Some (None, aff\<lparr>aff_added := aff_added aff @ [path]\<rparr>, d2))))
      | DeleteFile name \<Rightarrow>
          (case join_under_workspace wd root cwd name of
             Inl e \<Rightarrow> Some (Some e, aff, d)
           | Inr path \<Rightarrow>
             (case remove_file (apath_of path) d of
                Inl e \<Rightarrow> Some (Some (DeleteFailed e), aff, d)
              | Inr d1 \<Rightarrow> Some (None, aff\<lparr>aff_deleted := aff_deleted aff @ [path]\<rparr>, d1)))
      | UpdateFile name moved_to chunks \<Rightarrow>
          (case join_under_workspace wd root cwd name of
             Inl e \<Rightarrow> Some (Some e, aff, d)
           | Inr path \<Rightarrow>
             (case read_file d (apath_of path) of
                Inl e \<Rightarrow> Some (Some (ReadFailed e), aff, d)
              | Inr original \<Rightarrow>
                (case derive_updated_contents path original chunks of
                   None \<Rightarrow> None
                 | Some (Inl e) \<Rightarrow> Some (Some (DeriveFailed e), aff, d)
                 | Some (Inr contents) \<Rightarrow>
                   (let write = (\<lambda>dest d1.
                      case write_file (apath_of dest) contents d1 of
                        Inl e \<Rightarrow> Some (Some (WriteFailed e), aff, d1)
                      | Inr d2 \<Rightarrow>
                        (let done = aff\<lparr>aff_modified := aff_modified aff @ [dest]\<rparr> in
                         if dest = path then Some (None, done, d2)
                         else (case remove_file (apath_of path) d2 of
                                 Inl e \<Rightarrow> Some (Some (RemoveOriginalFailed e), aff, d2)
                               | Inr d3 \<Rightarrow> Some (None, done, d3))))
                    in if moved_to = [] then write path d
                       else (case join_under_workspace wd root cwd moved_to of
                               Inl e \<Rightarrow> Some (Some e, aff, d)
                             | Inr dest \<Rightarrow>
                               (case mkdir_all (parent (apath_of dest)) d of
                                  Inl e \<Rightarrow> Some (Some (CreateParents e), aff, d)
                                | Inr d1 \<Rightarrow> write dest d1)))))))"

fun apply_hunks :: "string \<Rightarrow> string \<Rightarrow> string \<Rightarrow> patch_hunk list \<Rightarrow> affected_paths \<times> fs \<Rightarrow>
    (hunk_error option \<times> affected_paths \<times> fs) option" where
  "apply_hunks wd root cwd [] s = Some (None, s)"
| "apply_hunks wd root cwd (h # hs) s =
     (case apply_hunk wd root cwd h s of
        None \<Rightarrow> None
      | Some (Some e, s') \<Rightarrow> Some (Some e, s')
      | Some (None, s') \<Rightarrow> apply_hunks wd root cwd hs s')"

definition summary_line :: "string \<Rightarrow> string \<Rightarrow> string" where
  "summary_line kind path = kind @ '' '' @ path @ [newline]"

definition format_patch_summary :: "affected_paths \<Rightarrow> string" where
  "format_patch_summary aff =
     ''Success. Updated the following files:'' @ [newline] @
     concat (map (summary_line ''A'') (aff_added aff)) @
     concat (map (summary_line ''M'') (aff_modified aff)) @
     concat (map (summary_line ''D'') (aff_deleted aff))"

subsection \<open>Which paths are accepted\<close>

definition child :: "apath \<Rightarrow> string \<Rightarrow> apath" where
  "child p s = APath (apath_segs p @ [s])"

text \<open>At or below the root, and not at or below one of the protected directories.\<close>

definition writable :: "apath \<Rightarrow> apath \<Rightarrow> bool" where
  "writable root p \<longleftrightarrow>
     root \<le> p \<and> \<not> child root ''.git'' \<le> p \<and> \<not> child root ''.codex'' \<le> p"

definition resolve_name :: "string \<Rightarrow> string \<Rightarrow> string \<Rightarrow> string \<Rightarrow> string" where
  "resolve_name wd root cwd name =
     abs_path wd (if is_abs name then name else join_path [(if cwd = [] then root else cwd), name])"

lemma is_abs_resolve: "is_abs wd \<Longrightarrow> is_abs (resolve_name wd root cwd name)"
  by (simp add: resolve_name_def abs_path_def join_path_abs)

lemma child_le_iff:
  "child root s \<le> p \<longleftrightarrow> (\<exists>ts. apath_segs p = apath_segs root @ s # ts)"
  by (auto simp: child_def less_eq_apath_def prefix_def)

lemma join_under_workspace_cases:
  assumes "is_abs wd" "is_abs root"
  shows "case join_under_workspace wd root cwd name of
      Inr path \<Rightarrow> path = resolve_name wd root cwd name \<and> writable (apath_of root) (apath_of path)
    | Inl e \<Rightarrow> \<not> writable (apath_of root) (apath_of (resolve_name wd root cwd name))"
proof -
  let ?a = "resolve_name wd root cwd name"
  have abs: "is_abs ?a" using assms(1) by (rule is_abs_resolve)
  have unfolded: "join_under_workspace wd root cwd name =
      (case rel root ?a of None \<Rightarrow> Inl (EscapesWorkspace name)
       | Some relative \<Rightarrow>
           if first_seg_is ''..'' relative then Inl (EscapesWorkspace name)
           else if list_ex (\<lambda>protected. first_seg_is protected relative) [''.git'', ''.codex'']
             then Inl (ProtectedPath relative) else Inr ?a)"
    unfolding join_under_workspace_def resolve_name_def Let_def ..
  show ?thesis
  proof (cases "prefix (segs root) (segs ?a)")
    case False
    then obtain r where "rel root ?a = Some r" "r = ''..'' \<or> prefix ''../'' r"
      using rel_outside [OF assms(2) abs] by blast
    then have "rel root ?a = Some r" "first_seg_is ''..'' r" by (auto simp: first_seg_is_def)
    with False show ?thesis by (simp add: unfolded writable_def apath_le_iff)
  next
    case True
    then obtain ts where ts: "segs ?a = segs root @ ts" by (auto simp: prefix_def)
    then have wf: "\<forall>s \<in> set ts. wf_seg s" using segs_wf [OF abs] by simp
    have "rel root ?a = Some (render_path False ts)" by (rule rel_below [OF assms(2) abs ts])
    moreover have "first_seg_is ''.git'' (render_path False ts) \<longleftrightarrow> (ts \<noteq> [] \<and> hd ts = ''.git'')"
      "first_seg_is ''.codex'' (render_path False ts) \<longleftrightarrow> (ts \<noteq> [] \<and> hd ts = ''.codex'')"
      by (rule first_seg_render [OF wf]; simp)+
    moreover have "child (apath_of root) s \<le> apath_of ?a \<longleftrightarrow> (ts \<noteq> [] \<and> hd ts = s)" for s
      by (cases ts) (auto simp: child_le_iff apath_of_def ts)
    ultimately show ?thesis
      using True not_dotdot_render [OF wf]
      by (auto simp: unfolded writable_def apath_le_iff)
  qed
qed

text \<open>
  Which paths a patch may name: for absolute roots, \<open>joinUnderWorkspace\<close> accepts a
  name exactly when it resolves at or below the workspace root and neither at nor below
  \<open>.git\<close> or \<open>.codex\<close> there, and then returns the resolved path.
\<close>

theorem join_under_workspace_exact:
  assumes "is_abs wd" and "is_abs root"
  shows "if writable (apath_of root) (apath_of (resolve_name wd root cwd name))
     then join_under_workspace wd root cwd name = Inr (resolve_name wd root cwd name)
     else (\<exists>e. join_under_workspace wd root cwd name = Inl e)"
  using join_under_workspace_cases [OF assms, of cwd name] by (auto split: sum.splits)

theorem join_under_workspace_exact_witness:
  "\<exists>e. join_under_workspace ''/'' ''/w'' ''/w/a'' ''../.git/config'' = Inl e"
proof -
  have "\<not> writable (apath_of ''/w'') (apath_of (resolve_name ''/'' ''/w'' ''/w/a'' ''../.git/config''))"
    by code_simp
  then show ?thesis
    using join_under_workspace_exact [of "''/''" "''/w''" "''/w/a''" "''../.git/config''"] by simp
qed

subsection \<open>No other path changes\<close>

text \<open>Two file systems that agree on every path the patch may not write.\<close>

definition same_outside :: "apath \<Rightarrow> fs \<Rightarrow> fs \<Rightarrow> bool" where
  "same_outside root d d' \<longleftrightarrow> (\<forall>q. \<not> writable root q \<longrightarrow> node_at d' q = node_at d q)"

definition root_ready :: "apath \<Rightarrow> fs \<Rightarrow> bool" where
  "root_ready root d \<longleftrightarrow> (\<forall>a \<in> set (ancestors root). node_at d a = Some Dir)"

lemma same_outside_refl [simp]: "same_outside root d d"
  by (simp add: same_outside_def)

lemma same_outside_trans: "same_outside root d1 d2 \<Longrightarrow> same_outside root d2 d3 \<Longrightarrow> same_outside root d1 d3"
  by (simp add: same_outside_def)

lemma same_outside_ready: "same_outside root d d' \<Longrightarrow> root_ready root d \<Longrightarrow> root_ready root d'"
proof -
  assume s: "same_outside root d d'" and r: "root_ready root d"
  have "\<not> writable root a" if "a \<in> set (ancestors root)" for a
    using ancestors_less [OF that] by (auto simp: writable_def)
  with s r show ?thesis by (auto simp: same_outside_def root_ready_def)
qed

lemma write_same_outside:
  "write_file p c d = Inr d' \<Longrightarrow> writable root p \<Longrightarrow> same_outside root d d'"
  by (auto simp: same_outside_def write_file_frame)

lemma remove_same_outside:
  "remove_file p d = Inr d' \<Longrightarrow> writable root p \<Longrightarrow> same_outside root d d'"
  by (auto simp: same_outside_def remove_file_frame)

text \<open>
  Creating the parent directories of a writable path only adds directories between the root and the path, which
  are writable themselves.
\<close>

lemma mkdir_same_outside:
  assumes "mkdir_all (parent p) d = Inr d'" "writable root p" "root_ready root d"
  shows "same_outside root d d'"
  unfolding same_outside_def
proof (intro allI impI)
  fix q
  assume q: "\<not> writable root q"
  show "node_at d' q = node_at d q"
  proof (cases "q \<in> set (ancestors (parent p) @ [parent p])")
    case True
    then have "q \<le> parent p" by (rule ancestors_le)
    then have qp: "q \<le> p" using parent_le order_trans by blast
    have "q < root"
    proof -
      from assms(2) have "root \<le> p" by (simp add: writable_def)
      with qp have "q \<le> root \<or> root \<le> q" by (rule comparable_ancestors)
      moreover have "\<not> root \<le> q"
      proof
        assume "root \<le> q"
        with q have "child root ''.git'' \<le> q \<or> child root ''.codex'' \<le> q"
          by (simp add: writable_def)
        with qp assms(2) show False by (auto simp: writable_def intro: order_trans)
      qed
      ultimately show ?thesis by auto
    qed
    then have "q \<in> set (ancestors root)" by (rule less_ancestor)
    with assms(3) have "node_at d q = Some Dir" by (simp add: root_ready_def)
    with mkdir_all_keeps [OF assms(1), of q] show ?thesis by simp
  next
    case False
    then show ?thesis by (simp add: mkdir_all_frame [OF assms(1)])
  qed
qed

lemma join_writable:
  "is_abs wd \<Longrightarrow> is_abs root \<Longrightarrow> join_under_workspace wd root cwd name = Inr path \<Longrightarrow>
    writable (apath_of root) (apath_of path)"
  using join_under_workspace_cases [of wd root cwd name] by auto

text \<open>The last step of an update: write the new contents, and remove the original if it moved.\<close>

lemma write_and_remove_outside:
  assumes "(case write_file q c d1 of
        Inl e \<Rightarrow> Some (Some (WriteFailed e), aff, d1)
      | Inr d2 \<Rightarrow>
          if same then Some (None, aff2, d2)
          else (case remove_file p d2 of
                  Inl e \<Rightarrow> Some (Some (RemoveOriginalFailed e), aff, d2)
                | Inr d3 \<Rightarrow> Some (None, aff2, d3))) = Some (e, aff', d')"
    and "writable root q" "writable root p"
  shows "same_outside root d1 d'"
  using assms
  by (auto split: sum.splits if_splits dest: write_same_outside remove_same_outside
      intro: same_outside_trans)

lemma apply_hunk_outside:
  assumes "is_abs wd" "is_abs root" "root_ready (apath_of root) d"
    and "apply_hunk wd root cwd h (aff, d) = Some (e, aff', d')"
  shows "same_outside (apath_of root) d d'"
proof (cases h)
  case (AddFile name c)
  show ?thesis
  proof (cases "join_under_workspace wd root cwd name")
    case (Inr path)
    note w = join_writable [OF assms(1,2) Inr]
    from assms(4) AddFile Inr show ?thesis
      by (auto simp: apply_hunk_def split: sum.splits
          dest: write_same_outside [OF _ w] mkdir_same_outside [OF _ w assms(3)]
          intro: same_outside_trans)
  qed (use assms(4) AddFile in \<open>auto simp: apply_hunk_def\<close>)
next
  case (DeleteFile name)
  show ?thesis
  proof (cases "join_under_workspace wd root cwd name")
    case (Inr path)
    note w = join_writable [OF assms(1,2) Inr]
    from assms(4) DeleteFile Inr show ?thesis
      by (auto simp: apply_hunk_def split: sum.splits dest: remove_same_outside [OF _ w])
  qed (use assms(4) DeleteFile in \<open>auto simp: apply_hunk_def\<close>)
next
  case (UpdateFile name m chunks)
  show ?thesis
  proof (cases "join_under_workspace wd root cwd name")
    case (Inr path)
    note w = join_writable [OF assms(1,2) Inr]
    show ?thesis
    proof (cases "m = []")
      case True
      with assms(4) UpdateFile Inr show ?thesis
        by (auto simp: apply_hunk_def Let_def split: sum.splits option.splits
            dest: write_same_outside [OF _ w])
    next
      case False
      show ?thesis
      proof (cases "join_under_workspace wd root cwd m")
        case (Inl e)
        with assms(4) UpdateFile Inr False show ?thesis
          by (auto simp: apply_hunk_def Let_def split: sum.splits option.splits)
      next
        case dest: (Inr dest)
        note wd = join_writable [OF assms(1,2) dest]
        show ?thesis
        proof (cases "mkdir_all (parent (apath_of dest)) d")
          case (Inl e)
          with assms(4) UpdateFile Inr False dest show ?thesis
            by (auto simp: apply_hunk_def Let_def split: sum.splits option.splits)
        next
          case d1: (Inr d1)
          have "same_outside (apath_of root) d d1"
            by (rule mkdir_same_outside [OF d1 wd assms(3)])
          moreover have "same_outside (apath_of root) d1 d' \<or> d' = d"
            using assms(4) UpdateFile Inr False dest d1
            by (auto simp: apply_hunk_def Let_def split: sum.splits option.splits if_splits
                dest: write_same_outside [OF _ wd] write_same_outside [OF _ w]
                  remove_same_outside [OF _ w]
                intro: same_outside_trans)
          ultimately show ?thesis by (auto intro: same_outside_trans)
        qed
      qed
    qed
  qed (use assms(4) UpdateFile in \<open>auto simp: apply_hunk_def\<close>)
qed

text \<open>
  Property C4. Confinement of a patch: whatever hunks it has and whether or not it fails half
  way, applying a patch changes no path outside the workspace root and none at or below
  the root's \<open>.git\<close> and \<open>.codex\<close>.
\<close>

theorem apply_hunks_confined:
  assumes "is_abs wd" and "is_abs root" and "root_ready (apath_of root) d"
    and "apply_hunks wd root cwd hs (aff, d) = Some (e, aff', d')"
  shows "same_outside (apath_of root) d d'"
  using assms(3,4)
proof (induction hs arbitrary: aff d)
  case (Cons h hs)
  from Cons.prems(2) obtain e1 aff1 d1 where
    h: "apply_hunk wd root cwd h (aff, d) = Some (e1, aff1, d1)"
    by (auto split: option.splits)
  note out = apply_hunk_outside [OF assms(1,2) Cons.prems(1) h]
  show ?case
  proof (cases e1)
    case None
    with Cons.prems(2) h have "apply_hunks wd root cwd hs (aff1, d1) = Some (e, aff', d')" by simp
    from Cons.IH [OF same_outside_ready [OF out Cons.prems(1)] this] out show ?thesis
      by (rule same_outside_trans [rotated])
  next
    case (Some x)
    with Cons.prems(2) h out show ?thesis by simp
  qed
qed simp

definition sample_tree :: fs where
  "sample_tree = [(APath [], Dir), (APath [''w''], Dir), (APath [''w'', ''b''], File ''old'')]"

theorem apply_hunks_confined_witness:
  "\<exists>e aff' d'. apply_hunks ''/'' ''/w'' ''/w'' [AddFile ''x/y'' ''c'', DeleteFile ''b'', DeleteFile ''../w'']
       (no_paths, sample_tree) = Some (e, aff', d') \<and> e \<noteq> None \<and> same_outside (apath_of ''/w'') sample_tree d'"
proof -
  have "case apply_hunks ''/'' ''/w'' ''/w'' [AddFile ''x/y'' ''c'', DeleteFile ''b'', DeleteFile ''../w'']
       (no_paths, sample_tree) of None \<Rightarrow> False | Some (e, _, _) \<Rightarrow> e = Some (DeleteFailed NotEmpty)"
    by code_simp
  then obtain e aff' d' where r: "apply_hunks ''/'' ''/w'' ''/w''
      [AddFile ''x/y'' ''c'', DeleteFile ''b'', DeleteFile ''../w''] (no_paths, sample_tree) = Some (e, aff', d')"
    and e: "e \<noteq> None"
    by (auto split: option.splits prod.splits)
  have "root_ready (apath_of ''/w'') sample_tree" unfolding root_ready_def by code_simp
  moreover have "is_abs ''/''" "is_abs ''/w''" by (simp_all add: is_abs_def)
  ultimately have "same_outside (apath_of ''/w'') sample_tree d'"
    using apply_hunks_confined [OF _ _ _ r] by blast
  with r e show ?thesis by blast
qed

subsection \<open>What a successful hunk does\<close>

text \<open>Resolved paths are clean, so that different paths name different entries.\<close>

lemma resolve_name_clean:
  assumes "is_abs wd"
  shows "resolve_name wd root cwd name = render_path True (segs (resolve_name wd root cwd name))"
proof -
  have "\<exists>p. is_abs p \<and> resolve_name wd root cwd name = clean p"
    unfolding resolve_name_def
  proof (cases "is_abs (if is_abs name then name else join_path [(if cwd = [] then root else cwd), name])")
    case True
    then show "\<exists>p. is_abs p \<and> abs_path wd (if is_abs name then name
        else join_path [(if cwd = [] then root else cwd), name]) = clean p"
      by (auto simp: abs_path_def)
  next
    case False
    let ?n = "if is_abs name then name else join_path [(if cwd = [] then root else cwd), name]"
    have "is_abs (wd @ ''/'' @ ?n)" "wd \<noteq> []" using assms by (auto simp: is_abs_def prefix_def)
    moreover have "join_path [wd, ?n] = clean (wd @ ''/'' @ ?n)"
      using \<open>wd \<noteq> []\<close> by (simp add: join_path_def)
    ultimately show "\<exists>p. is_abs p \<and> abs_path wd (if is_abs name then name
        else join_path [(if cwd = [] then root else cwd), name]) = clean p"
      using False by (auto simp: abs_path_def)
  qed
  then obtain p where "is_abs p" "resolve_name wd root cwd name = clean p" by blast
  then show ?thesis by (simp add: clean_abs [symmetric])
qed

lemma join_clean:
  "is_abs wd \<Longrightarrow> is_abs root \<Longrightarrow> join_under_workspace wd root cwd name = Inr path \<Longrightarrow>
    path = resolve_name wd root cwd name \<and> path = render_path True (segs path)"
  using join_under_workspace_cases [of wd root cwd name] resolve_name_clean [of wd root cwd name] by auto

lemma write_not_at_root: "write_file p c d = Inr d' \<Longrightarrow> \<forall>a \<in> set (ancestors p). node_at d a = Some Dir"
  unfolding write_file_def blocked_None [symmetric] by (auto split: option.splits)

lemma moved_file:
  assumes "write_file q c d1 = Inr d2" "remove_file p d2 = Inr d3" "p \<noteq> q" "node_at d1 p = Some (File old)"
  shows "read_file d3 q = Inr c \<and> node_at d3 p = None"
proof -
  have "p \<notin> set (ancestors q)"
    using write_not_at_root [OF assms(1)] assms(4) by auto
  with read_after_write [OF assms(1)] assms(3) show ?thesis
    by (auto simp: read_file_Inr remove_file_frame [OF assms(2)])
qed

definition hunk_effect :: "(string \<Rightarrow> string) \<Rightarrow> patch_hunk \<Rightarrow> fs \<Rightarrow> fs \<Rightarrow> bool" where
  "hunk_effect res h d d' =
     (case h of
        AddFile name contents \<Rightarrow> read_file d' (apath_of (res name)) = Inr contents
      | DeleteFile name \<Rightarrow> node_at d' (apath_of (res name)) = None
      | UpdateFile name m chunks \<Rightarrow>
          (case read_file d (apath_of (res name)) of
             Inl e \<Rightarrow> False
           | Inr original \<Rightarrow>
             (case derive_updated_contents (res name) original chunks of
                Some (Inr contents) \<Rightarrow>
                  (let dest = (if m = [] then res name else res m) in
                   read_file d' (apath_of dest) = Inr contents \<and>
                   (dest \<noteq> res name \<longrightarrow> node_at d' (apath_of (res name)) = None))
              | _ \<Rightarrow> False)))"

lemma update_effect:
  assumes "is_abs wd" "is_abs root"
    and "apply_hunk wd root cwd (UpdateFile name m chunks) (aff, d) = Some (None, aff', d')"
  shows "hunk_effect (resolve_name wd root cwd) (UpdateFile name m chunks) d d'"
proof -
  from assms(3) obtain path where j: "join_under_workspace wd root cwd name = Inr path"
    by (auto simp: apply_hunk_def split: sum.splits)
  note path = join_clean [OF assms(1,2) j]
  from assms(3) j obtain original where r: "read_file d (apath_of path) = Inr original"
    by (auto simp: apply_hunk_def split: sum.splits)
  from assms(3) j r obtain contents where c: "derive_updated_contents path original chunks = Some (Inr contents)"
    by (auto simp: apply_hunk_def split: sum.splits option.splits)
  show ?thesis
  proof (cases "m = []")
    case True
    with assms(3) j r c have "write_file (apath_of path) contents d = Inr d'"
      by (auto simp: apply_hunk_def Let_def split: sum.splits)
    from read_after_write [OF this] True r c path show ?thesis by (simp add: hunk_effect_def)
  next
    case False
    with assms(3) j r c obtain dest where jd: "join_under_workspace wd root cwd m = Inr dest"
      by (auto simp: apply_hunk_def Let_def split: sum.splits)
    note dest = join_clean [OF assms(1,2) jd]
    from assms(3) j r c False jd obtain d1 d2 where d1: "mkdir_all (parent (apath_of dest)) d = Inr d1"
      and d2: "write_file (apath_of dest) contents d1 = Inr d2"
      and d': "if dest = path then d' = d2 else remove_file (apath_of path) d2 = Inr d'"
      by (auto simp: apply_hunk_def Let_def split: sum.splits if_splits)
    show ?thesis
    proof (cases "dest = path")
      case True
      with d' read_after_write [OF d2] False r c path dest show ?thesis by (simp add: hunk_effect_def)
    next
      case ne: False
      have "apath_of path \<noteq> apath_of dest"
      proof
        assume "apath_of path = apath_of dest"
        then have "segs path = segs dest" by (simp add: apath_of_def)
        then show False using path dest ne by metis
      qed
      moreover have "node_at d1 (apath_of path) = Some (File original)"
        using r mkdir_all_keeps [OF d1, of "apath_of path"] by (simp add: read_file_Inr)
      ultimately have "read_file d' (apath_of dest) = Inr contents \<and> node_at d' (apath_of path) = None"
        using moved_file [OF d2] d' ne by simp
      with r c path dest False show ?thesis by (simp add: hunk_effect_def)
    qed
  qed
qed

text \<open>
  A hunk that succeeds does what it says: an added file can be read back with its
  contents, a deleted path is gone, an update leaves at its destination the contents derived from what
  the file held before, and a moved file is no longer at its old path.
\<close>

theorem apply_hunk_effect:
  assumes "is_abs wd" and "is_abs root"
    and "apply_hunk wd root cwd h (aff, d) = Some (None, aff', d')"
  shows "hunk_effect (resolve_name wd root cwd) h d d'"
proof (cases h)
  case (AddFile name c)
  from assms(3) AddFile obtain path d1 where j: "join_under_workspace wd root cwd name = Inr path"
    and w: "write_file (apath_of path) c d1 = Inr d'"
    by (auto simp: apply_hunk_def split: sum.splits)
  from join_clean [OF assms(1,2) j] read_after_write [OF w] AddFile show ?thesis
    by (simp add: hunk_effect_def)
next
  case (DeleteFile name)
  from assms(3) DeleteFile obtain path where j: "join_under_workspace wd root cwd name = Inr path"
    and w: "remove_file (apath_of path) d = Inr d'"
    by (auto simp: apply_hunk_def split: sum.splits)
  from join_clean [OF assms(1,2) j] remove_file_frame [OF w, of "apath_of path"] DeleteFile show ?thesis
    by (simp add: hunk_effect_def)
next
  case (UpdateFile name m chunks)
  with assms update_effect show ?thesis by simp
qed

theorem apply_hunk_effect_witness:
  "\<exists>aff' d'. apply_hunk ''/'' ''/w'' ''/w'' (AddFile ''x/y'' ''c'') (no_paths, sample_tree) =
      Some (None, aff', d') \<and>
    hunk_effect (resolve_name ''/'' ''/w'' ''/w'') (AddFile ''x/y'' ''c'') sample_tree d'"
proof -
  have "case apply_hunk ''/'' ''/w'' ''/w'' (AddFile ''x/y'' ''c'') (no_paths, sample_tree) of
      None \<Rightarrow> False | Some (e, _, _) \<Rightarrow> e = None"
    by code_simp
  then obtain aff' d' where r: "apply_hunk ''/'' ''/w'' ''/w'' (AddFile ''x/y'' ''c'')
      (no_paths, sample_tree) = Some (None, aff', d')"
    by (auto split: option.splits prod.splits)
  have "is_abs ''/''" "is_abs ''/w''" by (simp_all add: is_abs_def)
  from apply_hunk_effect [OF this r] r show ?thesis by blast
qed

end
