(* ===== verification/GoJson.thy ===== *)
theory GoJson
  imports GoStrings
begin

section \<open>JSON values and their decoding into structs: package encoding/json\<close>

text \<open>
  A JSON document as the program exchanges it, and the decoding of an object into the fields of
  a Go struct: keys match a field name exactly or up to case folding, unknown keys are ignored, a later
  occurrence overrides an earlier one, \<open>null\<close> leaves a scalar as it is, any other type
  mismatch is an error of the whole decoding. The text form of a document (its lexical
  syntax) is not part of this theory; where the program reads or writes text, its codec is a
  parameter.
\<close>

datatype json =
    JNull
  | JBool bool
  | JInt int
  | JFloat string
  | JStr string
  | JArr "json list"
  | JObj "(string \<times> json) list"

text \<open>The folding of key names: ASCII case, and the two letters that fold to ASCII.\<close>

definition lower_char :: "char \<Rightarrow> char" where
  "lower_char c = (let b = byte_of c in if 65 \<le> b \<and> b \<le> 90 then char_of (b + 32) else c)"

fun fold_name :: "string \<Rightarrow> string" where
  "fold_name [] = []"
| "fold_name (c # s) =
     (if byte_of c = 197 \<and> s \<noteq> [] \<and> byte_of (hd s) = 191 then CHR ''s'' # fold_name (tl s)
      else if byte_of c = 226 \<and> 2 \<le> length s \<and> byte_of (hd s) = 132 \<and> byte_of (s ! 1) = 170
        then CHR ''k'' # fold_name (drop 2 s)
      else lower_char c # fold_name s)"

definition key_matches :: "string \<Rightarrow> string \<Rightarrow> bool" where
  "key_matches name key \<longleftrightarrow> key = name \<or> fold_name key = fold_name name"

text \<open>
  The occurrences of a field, decoded in order. \<open>dec\<close> gets the value and what the field
  holds so far.
\<close>

definition json_field :: "(json \<Rightarrow> 'a \<Rightarrow> 'a option) \<Rightarrow> string \<Rightarrow> 'a \<Rightarrow> json \<Rightarrow> 'a option" where
  "json_field dec name zero v =
     (case v of
        JNull \<Rightarrow> Some zero
      | JObj kvs \<Rightarrow> fold_option dec (map snd (filter (\<lambda>(k, _). key_matches name k) kvs)) zero
      | _ \<Rightarrow> None)"

fun dec_string :: "json \<Rightarrow> string \<Rightarrow> string option" where
  "dec_string (JStr s) old = Some s"
| "dec_string JNull old = Some old"
| "dec_string _ old = None"

fun dec_bool :: "json \<Rightarrow> bool \<Rightarrow> bool option" where
  "dec_bool (JBool b) old = Some b"
| "dec_bool JNull old = Some old"
| "dec_bool _ old = None"

definition int64 :: "int \<Rightarrow> bool" where
  "int64 i \<longleftrightarrow> - (2 ^ 63) \<le> i \<and> i < 2 ^ 63"

text \<open>Two's complement arithmetic of \<open>int64\<close>: the value a result wraps to.\<close>

definition wrap64 :: "int \<Rightarrow> int" where
  "wrap64 i = (i + 2 ^ 63) mod 2 ^ 64 - 2 ^ 63"

lemma wrap64_range: "- (2 ^ 63) \<le> wrap64 i \<and> wrap64 i < 2 ^ 63"
proof -
  have "0 \<le> (i + 2 ^ 63) mod 2 ^ 64" "(i + 2 ^ 63) mod 2 ^ 64 < 2 ^ 64"
    by (rule pos_mod_sign pos_mod_bound; simp)+
  then show ?thesis by (simp add: wrap64_def)
qed

lemma wrap64_id [simp]: "int64 i \<Longrightarrow> wrap64 i = i"
  by (simp add: wrap64_def int64_def)

fun dec_int :: "json \<Rightarrow> int \<Rightarrow> int option" where
  "dec_int (JInt i) old = (if int64 i then Some i else None)"
| "dec_int JNull old = Some old"
| "dec_int _ old = None"

text \<open>A pointer to an integer: \<open>null\<close> sets it to nil.\<close>

fun dec_int_ptr :: "json \<Rightarrow> int option \<Rightarrow> int option option" where
  "dec_int_ptr (JInt i) old = (if int64 i then Some (Some i) else None)"
| "dec_int_ptr JNull old = Some None"
| "dec_int_ptr _ old = None"

text \<open>A slice: \<open>null\<close> sets it to nil, an array decodes its elements from their zero value.\<close>

fun dec_list :: "(json \<Rightarrow> 'a option) \<Rightarrow> json \<Rightarrow> 'a list \<Rightarrow> 'a list option" where
  "dec_list dec (JArr vs) old = those (map dec vs)"
| "dec_list dec JNull old = Some []"
| "dec_list dec _ old = None"

definition string_field :: "string \<Rightarrow> json \<Rightarrow> string option" where
  "string_field name v = json_field dec_string name [] v"

definition bool_field :: "string \<Rightarrow> json \<Rightarrow> bool option" where
  "bool_field name v = json_field dec_bool name False v"

definition int_field :: "string \<Rightarrow> json \<Rightarrow> int option" where
  "int_field name v = json_field dec_int name 0 v"

definition int_ptr_field :: "string \<Rightarrow> json \<Rightarrow> int option option" where
  "int_ptr_field name v = json_field dec_int_ptr name None v"

definition strings_field :: "string \<Rightarrow> json \<Rightarrow> string list option" where
  "strings_field name v = json_field (dec_list (\<lambda>x. dec_string x [])) name [] v"

lemma those_map_Some: "(\<And>x. x \<in> set xs \<Longrightarrow> f (g x) = Some x) \<Longrightarrow> those (map (f \<circ> g) xs) = Some xs"
  by (induction xs) auto

lemma key_matches_refl [simp]: "key_matches k k"
  by (simp add: key_matches_def)

text \<open>Names without capital letters fold to themselves, so no one of them matches another.\<close>

lemma key_matrix_of:
  assumes "map fold_name ks = ks"
  shows "\<forall>k \<in> set ks. \<forall>l \<in> set ks. key_matches k l \<longleftrightarrow> k = l"
proof -
  have "\<forall>x \<in> set ks. fold_name x = x" using assms by (metis map_idI map_eq_conv list.map_ident)
  then show ?thesis by (auto simp: key_matches_def)
qed

end
