(* ===== verification/Sandbox.thy ===== *)
theory Sandbox
  imports PatchFiles GoJson
begin

section \<open>The command sandbox: internal/tools/sandbox.go, exec\_params.go\<close>

text \<open>
  A command runs under the sandbox of the host: bubblewrap on Linux, Seatbelt on macOS. The
  theory models the command lines the program builds. For bubblewrap the arguments are read back as the
  mounts they ask for, later mounts over earlier ones, and the paths that end up
  writable are exactly the writable paths of the workspace, the notion that confines patches too.
\<close>

record sandbox_policy =
  sp_workspace_root :: string
  sp_working_directory :: string
  sp_workspace_write :: bool
  sp_network_access :: bool

record command =
  cmd_args :: "string list"
  cmd_dir :: string
  cmd_env :: "string list"

datatype host = Darwin | Linux | Windows | OtherHost string

definition protected_names :: "string list" where
  "protected_names = [''.git'', ''.codex'']"

text \<open>\<open>os.Stat\<close> succeeds.\<close>

definition path_exists :: "fs \<Rightarrow> string \<Rightarrow> bool" where
  "path_exists d p \<longleftrightarrow> node_at d (apath_of p) \<noteq> None \<and> blocked d (apath_of p) = None"

definition bool_int :: "bool \<Rightarrow> string" where
  "bool_int b = (if b then ''1'' else ''0'')"

definition sandbox_env :: "string \<Rightarrow> sandbox_policy \<Rightarrow> string list" where
  "sandbox_env search_path policy =
     [''PATH='' @ search_path,
      ''CODEX_SANDBOX_NETWORK_DISABLED='' @ bool_int (\<not> sp_network_access policy)]"

subsection \<open>Bubblewrap\<close>

definition bubblewrap_args :: "fs \<Rightarrow> sandbox_policy \<Rightarrow> string \<Rightarrow> string list" where
  "bubblewrap_args d policy cmd =
     [''--die-with-parent'', ''--new-session'', ''--ro-bind'', ''/'', ''/'', ''--proc'', ''/proc'',
      ''--dev'', ''/dev'', ''--chdir'', sp_working_directory policy] @
     (if sp_workspace_write policy then
        [''--bind'', sp_workspace_root policy, sp_workspace_root policy] @
        concat (map (\<lambda>protected.
            let path = join_path [sp_workspace_root policy, protected] in
            if path_exists d path then [''--ro-bind'', path, path] else []) protected_names)
      else []) @
     (if \<not> sp_network_access policy then [''--unshare-net''] else []) @
     [''/bin/sh'', ''-c'', cmd]"

definition bubblewrap_command ::
    "string option \<Rightarrow> string \<Rightarrow> fs \<Rightarrow> sandbox_policy \<Rightarrow> string \<Rightarrow> (string, command) result" where
  "bubblewrap_command look_path search_path d policy cmd =
     (case look_path of
        None \<Rightarrow> Inl ''Linux sandbox requires bubblewrap (bwrap)''
      | Some bwrap \<Rightarrow> Inr \<lparr>cmd_args = bwrap # bubblewrap_args d policy cmd,
          cmd_dir = sp_working_directory policy, cmd_env = sandbox_env search_path policy\<rparr>)"

subsection \<open>Seatbelt\<close>

text \<open>The profile; \<open>quote\<close> is the quoting of a string by the verb \<open>%q\<close>.\<close>

definition line :: "string \<Rightarrow> string" where
  "line s = newline # s"

definition seatbelt_write_rule :: "(string \<Rightarrow> string) \<Rightarrow> fs \<Rightarrow> string \<Rightarrow> string" where
  "seatbelt_write_rule quote d root =
     line (''(allow file-write* (subpath '' @ quote root @ ''))'') @
     concat (map (\<lambda>protected.
       let path = join_path [root, protected] in
       if path_exists d path then
         (if node_at d (apath_of path) = Some Dir
          then line (''(deny file-write* (subpath '' @ quote path @ ''))'')
          else line (''(deny file-write* (literal '' @ quote path @ ''))''))
       else []) protected_names)"

definition readable_dirs :: "string list" where
  "readable_dirs = [''/System'', ''/usr'', ''/bin'', ''/sbin'', ''/Library'', ''/opt/homebrew'', ''/usr/local'',
     ''/Applications/ChatGPT.app/Contents/Resources'', ''/Applications/Codex.app/Contents/Resources'']"

definition seatbelt_profile :: "(string \<Rightarrow> string) \<Rightarrow> fs \<Rightarrow> sandbox_policy \<Rightarrow> string" where
  "seatbelt_profile quote d policy =
     ''(version 1)'' @ line ''(deny default)'' @ line (''(import '' @ [CHR 0x22] @ ''system.sb'' @ [CHR 0x22] @ '')'') @
     line ''(allow process-exec)'' @ line ''(allow process-fork)'' @ line ''(allow signal (target self))'' @
     line ''(allow sysctl-read)'' @
     line (''(allow file-read*'' @
       concat (map (\<lambda>p. '' (subpath '' @ [CHR 0x22] @ p @ [CHR 0x22] @ '')'') readable_dirs) @
       '' (subpath '' @ quote (sp_workspace_root policy) @ ''))'') @
     (if sp_workspace_write policy then seatbelt_write_rule quote d (sp_workspace_root policy) else []) @
     (if sp_network_access policy then line ''(allow network*)'' else [])"

definition seatbelt_command :: "(string \<Rightarrow> string) \<Rightarrow> string \<Rightarrow> fs \<Rightarrow> sandbox_policy \<Rightarrow> string \<Rightarrow>
    (string, command) result" where
  "seatbelt_command quote search_path d policy cmd =
     (if \<not> path_exists d ''/usr/bin/sandbox-exec'' then Inl ''Seatbelt sandbox is unavailable''
      else Inr \<lparr>cmd_args = [''/usr/bin/sandbox-exec'', ''-p'', seatbelt_profile quote d policy,
                 ''/bin/zsh'', ''-c'', cmd],
             cmd_dir = sp_working_directory policy, cmd_env = sandbox_env search_path policy\<rparr>)"

subsection \<open>Choosing the backend\<close>

record host_env =
  he_host :: host
  he_bwrap :: "string option"
  he_search_path :: string
  he_quote :: "string \<Rightarrow> string"
  he_windows :: "sandbox_policy \<Rightarrow> string \<Rightarrow> (string, command) result"

definition backend_name :: "host \<Rightarrow> string" where
  "backend_name h =
     (case h of Darwin \<Rightarrow> ''macos-seatbelt'' | Linux \<Rightarrow> ''linux-bubblewrap''
      | Windows \<Rightarrow> ''windows-restricted-token'' | OtherHost p \<Rightarrow> ''unsupported-'' @ p)"

text \<open>\<open>he_windows\<close> stands for the restricted-token launcher, which calls the Windows API.\<close>

definition sandboxed_command :: "host_env \<Rightarrow> fs \<Rightarrow> sandbox_policy \<Rightarrow> string \<Rightarrow>
    (string, command \<times> string) result" where
  "sandboxed_command he d policy cmd =
     (case (case he_host he of
        Darwin \<Rightarrow> seatbelt_command (he_quote he) (he_search_path he) d policy cmd
      | Linux \<Rightarrow> bubblewrap_command (he_bwrap he) (he_search_path he) d policy cmd
      | Windows \<Rightarrow> he_windows he policy cmd
      | OtherHost p \<Rightarrow> Inl (''sandbox is required but unavailable on '' @ p)) of
        Inl e \<Rightarrow> Inl e
      | Inr c \<Rightarrow> Inr (c, backend_name (he_host he)))"

subsection \<open>Commands for the remote server\<close>

definition native_shell_argv :: "host \<Rightarrow> string \<Rightarrow> string list" where
  "native_shell_argv h cmd =
     (if h = Windows then [''cmd.exe'', ''/C'', cmd] else [''/bin/sh'', ''-c'', cmd])"

definition equal_fold :: "string \<Rightarrow> string \<Rightarrow> bool" where
  "equal_fold a b \<longleftrightarrow> fold_name a = fold_name b"

definition shell_command_from_argv :: "string list \<Rightarrow> string" where
  "shell_command_from_argv argv =
     (if 3 \<le> length argv \<and>
         (argv ! 0 = ''/bin/sh'' \<or> argv ! 0 = ''/bin/zsh'' \<or> equal_fold (base_name (argv ! 0)) ''cmd.exe'') \<and>
         (argv ! 1 = ''-c'' \<or> equal_fold (argv ! 1) ''/C'')
      then argv ! 2
      else join_with '' '' argv)"

record sandbox_intent =
  si_workspace_write :: bool
  si_network_access :: bool
  si_cwd :: string
  si_workspace_roots :: "string list"
  si_windows_sandbox_level :: string
  si_enforce_managed_network :: bool

record exec_params =
  xp_process_id :: string
  xp_command :: string
  xp_argv :: "string list"
  xp_cwd :: string
  xp_tty :: bool
  xp_sandbox :: "sandbox_intent option"

text \<open>The policy and command that \<open>CommandFromExecParams\<close> builds before it calls the sandbox.\<close>

definition policy_from_exec_params :: "exec_params \<Rightarrow> (string, sandbox_policy \<times> string) result" where
  "policy_from_exec_params params =
     (let cmd = (if xp_command params = [] then shell_command_from_argv (xp_argv params)
                 else xp_command params)
      in if cmd = [] then Inl ''command is required''
      else (let p0 = \<lparr>sp_workspace_root = [], sp_working_directory = xp_cwd params,
                       sp_workspace_write = False, sp_network_access = False\<rparr>;
                p1 = (case xp_sandbox params of
                        None \<Rightarrow> p0
                      | Some s \<Rightarrow>
                          p0\<lparr>sp_workspace_write := si_workspace_write s,
                             sp_network_access := si_network_access s,
                             sp_working_directory := (if si_cwd s = [] then xp_cwd params else si_cwd s),
                             sp_workspace_root := (case si_workspace_roots s of [] \<Rightarrow> [] | r # _ \<Rightarrow> r)\<rparr>);
                p2 = (if sp_working_directory p1 = []
                      then p1\<lparr>sp_working_directory := sp_workspace_root p1\<rparr> else p1)
            in Inr (p2, cmd)))"

definition command_from_exec_params :: "host_env \<Rightarrow> fs \<Rightarrow> exec_params \<Rightarrow> (string, command) result" where
  "command_from_exec_params he d params =
     (case policy_from_exec_params params of
        Inl e \<Rightarrow> Inl e
      | Inr (policy, cmd) \<Rightarrow>
          (case sandboxed_command he d policy cmd of Inl e \<Rightarrow> Inl e | Inr (c, _) \<Rightarrow> Inr c))"

subsection \<open>What a bubblewrap command line makes writable\<close>

datatype mount = ReadOnly | ReadWrite | Special

datatype bwrap_option = Mount mount apath | Flag string

text \<open>The options of an argument list up to the command, as bubblewrap documents them.\<close>

fun bwrap_options :: "string list \<Rightarrow> bwrap_option list" where
  "bwrap_options [] = []"
| "bwrap_options (a # as) =
     (if a = ''--ro-bind'' then
        (case as of src # dst # rest \<Rightarrow> Mount ReadOnly (apath_of dst) # bwrap_options rest | _ \<Rightarrow> [])
      else if a = ''--bind'' then
        (case as of src # dst # rest \<Rightarrow> Mount ReadWrite (apath_of dst) # bwrap_options rest | _ \<Rightarrow> [])
      else if a = ''--proc'' \<or> a = ''--dev'' then
        (case as of dst # rest \<Rightarrow> Mount Special (apath_of dst) # bwrap_options rest | _ \<Rightarrow> [])
      else if a = ''--chdir'' then (case as of dst # rest \<Rightarrow> bwrap_options rest | _ \<Rightarrow> [])
      else if prefix ''--'' a then Flag a # bwrap_options as
      else [])"

text \<open>The mount that holds at a path: the last one at the path or above it.\<close>

fun mount_at :: "bwrap_option list \<Rightarrow> apath \<Rightarrow> mount option" where
  "mount_at [] p = None"
| "mount_at (Flag f # opts) p = mount_at opts p"
| "mount_at (Mount m q # opts) p =
     (case mount_at opts p of Some m' \<Rightarrow> Some m' | None \<Rightarrow> if q \<le> p then Some m else None)"

text \<open>A protected directory that is there.\<close>

definition guarded :: "fs \<Rightarrow> string \<Rightarrow> string \<Rightarrow> bool" where
  "guarded d root s \<longleftrightarrow> path_exists d (join_path [root, s])"

definition protected_mounts :: "fs \<Rightarrow> string \<Rightarrow> bwrap_option list" where
  "protected_mounts d root =
     (if guarded d root ''.git'' then [Mount ReadOnly (apath_of (join_path [root, ''.git'']))] else []) @
     (if guarded d root ''.codex'' then [Mount ReadOnly (apath_of (join_path [root, ''.codex'']))] else [])"

lemma bubblewrap_options:
  "bwrap_options (bubblewrap_args d policy cmd) =
     [Flag ''--die-with-parent'', Flag ''--new-session'', Mount ReadOnly (apath_of ''/''),
      Mount Special (apath_of ''/proc''), Mount Special (apath_of ''/dev'')] @
     (if sp_workspace_write policy
      then Mount ReadWrite (apath_of (sp_workspace_root policy)) # protected_mounts d (sp_workspace_root policy)
      else []) @
     (if sp_network_access policy then [] else [Flag ''--unshare-net''])"
  by (simp add: bubblewrap_args_def protected_mounts_def protected_names_def guarded_def Let_def)

lemma join_child:
  assumes "is_abs root" "wf_seg s"
  shows "apath_of (join_path [root, s]) = child (apath_of root) s"
proof -
  have wf: "\<forall>x \<in> set (segs root @ [s]). wf_seg x" using segs_wf [OF assms(1)] assms(2) by simp
  have "split_on (CHR ''/'') s = [s]" using assms(2) by (intro split_on_free) (simp add: wf_seg_def)
  then have "clean_segs True (rev (segs root)) (split_on (CHR ''/'') s) = segs root @ [s]"
    using assms(2) by (simp add: wf_seg_def)
  then show ?thesis
    using segs_render [OF wf] by (simp add: join_path_abs [OF assms(1)] apath_of_def child_def)
qed

text \<open>
  Property C1. The Linux sandbox confines writes and the network: reading the command line back,
  a path is mounted writable exactly when the policy allows writing and the path is at or below the
  workspace root and not below a protected directory that exists, and the network is shared exactly when the policy
  allows it.
\<close>

theorem bubblewrap_confines:
  assumes "is_abs (sp_workspace_root policy)"
  shows "(mount_at (bwrap_options (bubblewrap_args d policy cmd)) p = Some ReadWrite \<longleftrightarrow>
      sp_workspace_write policy \<and> apath_of (sp_workspace_root policy) \<le> p \<and>
      (\<forall>s \<in> set protected_names. guarded d (sp_workspace_root policy) s \<longrightarrow>
         \<not> child (apath_of (sp_workspace_root policy)) s \<le> p)) \<and>
    (Flag ''--unshare-net'' \<notin> set (bwrap_options (bubblewrap_args d policy cmd)) \<longleftrightarrow>
      sp_network_access policy)"
proof -
  have "apath_of (join_path [sp_workspace_root policy, ''.git'']) = child (apath_of (sp_workspace_root policy)) ''.git''"
    "apath_of (join_path [sp_workspace_root policy, ''.codex'']) = child (apath_of (sp_workspace_root policy)) ''.codex''"
    by (rule join_child [OF assms]; simp add: wf_seg_def)+
  then show ?thesis
    unfolding bubblewrap_options protected_mounts_def protected_names_def
    by (auto split: option.splits)
qed

definition sample_policy :: sandbox_policy where
  "sample_policy = \<lparr>sp_workspace_root = ''/w'', sp_working_directory = ''/w'',
     sp_workspace_write = True, sp_network_access = False\<rparr>"

theorem bubblewrap_confines_witness:
  "mount_at (bwrap_options (bubblewrap_args [(APath [], Dir), (APath [''w''], Dir), (APath [''w'', ''.git''], Dir)]
      sample_policy ''ls'')) (APath [''w'', ''.git'', ''config'']) \<noteq> Some ReadWrite"
proof -
  have "guarded [(APath [], Dir), (APath [''w''], Dir), (APath [''w'', ''.git''], Dir)] ''/w'' ''.git''"
    "child (apath_of ''/w'') ''.git'' \<le> APath [''w'', ''.git'', ''config'']" by code_simp+
  then show ?thesis
    using bubblewrap_confines [of sample_policy "[(APath [], Dir), (APath [''w''], Dir), (APath [''w'', ''.git''], Dir)]"
        "''ls''" "APath [''w'', ''.git'', ''config'']"]
    by (simp add: sample_policy_def protected_names_def)
qed

end
