(* ===== verification/HeadTail.thy ===== *)
theory HeadTail
  imports GoStrings
begin

section \<open>Bounded output collection: internal/tools/head\_tail\_buffer.go\<close>

text \<open>
  The \<open>headTailBuffer\<close> keeps a stable prefix and the newest suffix of a byte stream and counts
  what it drops in between; the \<open>synchronizedBuffer\<close> of process\_manager.go holds one and
  hands it over on each poll. The locale \<open>stream_collector\<close> is the contract that the buffer
  gives its writers: its state depends on the bytes written only, never on how they were cut
  into chunks. The reference \<open>buffer_of\<close> says which state that is, and \<open>withLimit\<close> is shown
  to give the state a buffer of the smaller size would have collected.
\<close>

record head_tail_buffer =
  ht_max :: nat
  ht_head :: string
  ht_tail :: string
  ht_omitted :: nat

definition new_head_tail_buffer :: "int \<Rightarrow> head_tail_buffer" where
  "new_head_tail_buffer max_bytes =
     \<lparr>ht_max = nat (max max_bytes 0), ht_head = [], ht_tail = [], ht_omitted = 0\<rparr>"

definition push_chunk :: "string \<Rightarrow> head_tail_buffer \<Rightarrow> head_tail_buffer" where
  "push_chunk chunk b =
     (let head_budget = ht_max b div 2;
          tail_budget = ht_max b - head_budget;
          remaining_head = head_budget - length (ht_head b);
          head_length = min (length chunk) remaining_head;
          chunk1 = drop head_length chunk;
          remaining_tail = tail_budget - length (ht_tail b);
          excess = length chunk1 - remaining_tail;
          (tail1, chunk2) =
            (if excess < length (ht_tail b) then (drop excess (ht_tail b), chunk1)
             else ([], drop (excess - length (ht_tail b)) chunk1))
      in b\<lparr>ht_head := ht_head b @ take head_length chunk,
           ht_tail := tail1 @ chunk2,
           ht_omitted := ht_omitted b + excess\<rparr>)"

definition total_bytes :: "head_tail_buffer \<Rightarrow> nat" where
  "total_bytes b = length (ht_head b) + length (ht_tail b) + ht_omitted b"

definition omission_marker :: "nat \<Rightarrow> string" where
  "omission_marker n =
     [CHR 0x0A] @ ''... '' @ show_nat n @ '' bytes omitted ...'' @ [CHR 0x0A]"

definition bytes_with_omission_marker :: "head_tail_buffer \<Rightarrow> string" where
  "bytes_with_omission_marker b =
     (if ht_omitted b = 0 then ht_head b @ ht_tail b
      else ht_head b @ omission_marker (ht_omitted b) @ ht_tail b)"

definition with_limit :: "int \<Rightarrow> head_tail_buffer \<Rightarrow> head_tail_buffer" where
  "with_limit max_bytes b =
     (if int (length (ht_head b) + length (ht_tail b)) \<le> max_bytes then b
      else (let limited = push_chunk (ht_tail b)
                  (push_chunk (ht_head b) (new_head_tail_buffer max_bytes))
            in limited\<lparr>ht_omitted := ht_omitted limited + ht_omitted b\<rparr>))"

subsection \<open>The contract of a collector of byte chunks\<close>

locale stream_collector =
  fixes init :: 'b
    and push :: "string \<Rightarrow> 'b \<Rightarrow> 'b"
    and rep :: "string \<Rightarrow> 'b"
  assumes init_rep: "init = rep []"
    and push_rep: "push c (rep s) = rep (s @ c)"
begin

lemma fold_push_rep: "fold push cs (rep s) = rep (s @ concat cs)"
  by (induction cs arbitrary: s) (simp_all add: push_rep)

lemma fold_push_init: "fold push cs init = rep (concat cs)"
  by (simp add: init_rep fold_push_rep)

lemma chunking_irrelevant:
  "concat cs = concat ds \<Longrightarrow> fold push cs init = fold push ds init"
  by (simp add: fold_push_init)

end

subsection \<open>The reference state of a buffer\<close>

text \<open>
  The first half of the budget holds the first bytes of the stream, the rest of the budget the
  last bytes of what follows; everything between is counted.
\<close>

definition buffer_of :: "nat \<Rightarrow> string \<Rightarrow> head_tail_buffer" where
  "buffer_of m s =
     \<lparr>ht_max = m, ht_head = take (m div 2) s,
      ht_tail = last_n (m - m div 2) (drop (m div 2) s), ht_omitted = length s - m\<rparr>"

lemma buffer_of_sel [simp]:
  "ht_max (buffer_of m s) = m" "ht_head (buffer_of m s) = take (m div 2) s"
  "ht_tail (buffer_of m s) = last_n (m - m div 2) (drop (m div 2) s)"
  "ht_omitted (buffer_of m s) = length s - m"
  by (simp_all add: buffer_of_def)

lemma new_buffer_rep: "new_head_tail_buffer m = buffer_of (nat m) []"
  by (simp add: new_head_tail_buffer_def buffer_of_def)

text \<open>Appending to a tail of at most \<open>t\<close> bytes and dropping from the front.\<close>

lemma tail_push:
  assumes "length xs \<le> t" and e: "e = length ys - (t - length xs)"
  shows "(if e < length xs then drop e xs @ ys else drop (e - length xs) ys) = last_n t (xs @ ys)"
proof -
  have "e = length xs + length ys - t" using assms by simp
  then show ?thesis by (auto simp: last_n_def)
qed

lemma omitted_push:
  assumes "h \<le> m"
  shows "n - m + (c - (h - n) - (m - h - min (m - h) (n - h))) = n + c - (m::nat)"
proof -
  consider "n \<le> h" | "h < n" "n \<le> m" | "m < n" by linarith
  then show ?thesis using assms by cases simp_all
qed

lemma push_parts:
  shows "take h s @ take (min (length c) (h - min h (length s))) c = take h (s @ c)"
    and "drop (min (length c) (h - min h (length s))) c = drop (h - length s) c"
  by (cases "h \<le> length s"; simp add: min_def)+

lemma pair_if: "(case (if p then (a, b) else (c, d)) of (x, y) \<Rightarrow> f x y) = (if p then f a b else f c d)"
  by simp

lemma push_chunk_rep: "push_chunk c (buffer_of m s) = buffer_of m (s @ c)"
proof -
  define h t X Y where "h = m div 2" and "t = m - h"
    and "X = last_n t (drop h s)" and "Y = drop (h - length s) c"
  let ?e = "length Y - (t - length X)"
  have le: "h \<le> m" by (simp add: h_def)
  have X: "length X \<le> t" and lX: "length X = min t (length s - h)" by (simp_all add: X_def)
  have lY: "length Y = length c - (h - length s)" by (simp add: Y_def)
  have tail: "(if ?e < length X then drop ?e X @ Y else drop (?e - length X) Y)
      = last_n t (drop h (s @ c))"
    unfolding tail_push [OF X refl] unfolding X_def Y_def last_n_absorb drop_append ..
  have om: "length s - m + ?e = length (s @ c) - m"
    unfolding lX lY t_def length_append by (rule omitted_push [OF le])
  have "push_chunk c (buffer_of m s) =
      \<lparr>ht_max = m, ht_head = take h (s @ c),
       ht_tail = (if ?e < length X then drop ?e X @ Y else drop (?e - length X) Y),
       ht_omitted = length s - m + ?e\<rparr>"
    unfolding push_chunk_def Let_def buffer_of_sel h_def [symmetric] t_def [symmetric]
      X_def [symmetric] length_take min.commute [of _ h] push_parts
      Y_def [symmetric] pair_if
    by (simp add: buffer_of_def h_def)
  then show ?thesis
    unfolding tail om by (simp only: buffer_of_def h_def t_def)
qed

interpretation ht: stream_collector "new_head_tail_buffer m" push_chunk "buffer_of (nat m)"
  for m
  by unfold_locales (simp_all add: new_buffer_rep push_chunk_rep)

lemma total_bytes_buffer_of: "total_bytes (buffer_of m s) = length s"
  by (auto simp: total_bytes_def min_def)

lemma stored_buffer_of: "length s \<le> m \<Longrightarrow> take (m div 2) s @ last_n (m - m div 2) (drop (m div 2) s) = s"
  by simp

text \<open>What a smaller budget keeps of a larger buffer is what it keeps of the stream itself.\<close>

lemma buffer_of_shrink:
  assumes "l < min (length s) m"
  shows "let kept = take (m div 2) s @ last_n (m - m div 2) (drop (m div 2) s) in
     buffer_of l kept\<lparr>ht_omitted := (length kept - l) + (length s - m)\<rparr> = buffer_of l s"
proof (cases "length s \<le> m")
  case True
  then show ?thesis by (simp add: stored_buffer_of Let_def buffer_of_def)
next
  case False
  let ?T = "last_n (m - m div 2) (drop (m div 2) s)"
  let ?K = "take (m div 2) s @ ?T"
  have half: "l div 2 \<le> m div 2" "l - l div 2 \<le> m - m div 2" using assms by linarith+
  have lenK: "length ?K = m" using False by simp
  have head: "take (l div 2) ?K = take (l div 2) s"
    using half False by (simp add: min_def)
  have tail: "last_n (l - l div 2) (drop (l div 2) xs) = last_n (l - l div 2) xs"
    if "l \<le> length xs" for xs :: string
    using that by (intro last_n_drop) linarith
  have "m - m div 2 \<le> length s - m div 2" using False by simp
  with half(2) have fits: "l - l div 2 \<le> length s - m div 2" by (rule le_trans)
  have "last_n (l - l div 2) ?K = last_n (l - l div 2) ?T"
    using half fits by (intro last_n_append_le) simp
  also have "\<dots> = last_n (l - l div 2) (drop (m div 2) s)"
    using half by (simp add: last_n_last_n min_def)
  also have "\<dots> = last_n (l - l div 2) s"
    by (rule last_n_drop [OF fits])
  finally have same: "last_n (l - l div 2) ?K = last_n (l - l div 2) s" .
  have "l \<le> length ?K" unfolding lenK using assms by linarith
  moreover have "l \<le> length s" using assms by linarith
  ultimately have tails: "last_n (l - l div 2) (drop (l div 2) ?K) = last_n (l - l div 2) (drop (l div 2) s)"
    using same by (metis tail)
  have "(length ?K - l) + (length s - m) = length s - l"
    unfolding lenK using assms False by linarith
  then show ?thesis unfolding Let_def buffer_of_def head tails by simp
qed

lemma min_split: "h \<le> m \<Longrightarrow> min n h + min (m - h) (n - h) = min n (m::nat)"
  by linarith

lemma stored_bytes:
  "length (ht_head (buffer_of m s)) + length (ht_tail (buffer_of m s)) = min (length s) m"
  using min_split [of "m div 2" m "length s"] by simp

lemma with_limit_buffer_of:
  assumes "0 \<le> l"
  shows "with_limit l (buffer_of m s) =
     (if int (min (length s) m) \<le> l then buffer_of m s else buffer_of (nat l) s)"
proof (cases "int (min (length s) m) \<le> l")
  case True
  then show ?thesis unfolding with_limit_def stored_bytes by simp
next
  case False
  let ?H = "take (m div 2) s" and ?T = "last_n (m - m div 2) (drop (m div 2) s)"
  have pushed: "push_chunk ?T (push_chunk ?H (new_head_tail_buffer l)) = buffer_of (nat l) (?H @ ?T)"
    by (simp only: new_buffer_rep push_chunk_rep append_Nil)
  have over: "\<not> int (length ?H + length ?T) \<le> l"
    using False unfolding stored_bytes [symmetric] buffer_of_sel .
  have small: "nat l < min (length s) m" using False assms by linarith
  have "with_limit l (buffer_of m s) = buffer_of (nat l) (?H @ ?T)\<lparr>ht_omitted :=
      (length (?H @ ?T) - nat l) + (length s - m)\<rparr>"
    unfolding with_limit_def Let_def buffer_of_sel pushed if_not_P [OF over] ..
  also have "\<dots> = buffer_of (nat l) s"
    using buffer_of_shrink [OF small] unfolding Let_def .
  finally show ?thesis unfolding if_not_P [OF False] .
qed

text \<open>
  What a poll can show of a stream depends on the stream alone: however the output is cut into
  chunks, a buffer of \<open>m\<close> bytes that is then reduced to \<open>l\<close> bytes is the one that keeps the first
  half of the budget and the last bytes of what follows, and it counts every byte of the stream.
\<close>

theorem limited_buffer_of_stream:
  assumes "0 \<le> l"
  shows "with_limit l (fold push_chunk cs (new_head_tail_buffer (int m))) =
      (if int (min (length (concat cs)) m) \<le> l then buffer_of m (concat cs)
       else buffer_of (nat l) (concat cs)) \<and>
    total_bytes (with_limit l (fold push_chunk cs (new_head_tail_buffer (int m)))) = length (concat cs)"
  unfolding ht.fold_push_init by (simp add: with_limit_buffer_of [OF assms] total_bytes_buffer_of)

theorem limited_buffer_of_stream_witness:
  "with_limit 4 (fold push_chunk [''ab'', ''cdefg'', ''hi''] (new_head_tail_buffer (int 8))) =
    \<lparr>ht_max = 4, ht_head = ''ab'', ht_tail = ''hi'', ht_omitted = 5\<rparr>"
  using limited_buffer_of_stream [of 4 "[''ab'', ''cdefg'', ''hi'']" 8]
  by (simp add: buffer_of_def last_n_def)

subsection \<open>The buffer shared by a process and its poller\<close>

text \<open>\<open>synchronizedBuffer\<close>: nothing yet, or a buffer of \<open>unifiedExecOutputMaxBytes\<close>.\<close>

definition unified_exec_output_max_bytes :: int where
  "unified_exec_output_max_bytes = 2 ^ 20"

type_synonym sync_buffer = "head_tail_buffer option"

definition sync_write :: "string \<Rightarrow> sync_buffer \<Rightarrow> sync_buffer" where
  "sync_write bytes sb =
     (let b = (case sb of None \<Rightarrow> new_head_tail_buffer unified_exec_output_max_bytes
               | Some b \<Rightarrow> b)
      in Some (push_chunk bytes b))"

definition sync_drain :: "sync_buffer \<Rightarrow> head_tail_buffer \<times> sync_buffer" where
  "sync_drain sb =
     (case sb of
        None \<Rightarrow> (new_head_tail_buffer unified_exec_output_max_bytes, None)
      | Some b \<Rightarrow> (b, Some (new_head_tail_buffer unified_exec_output_max_bytes)))"

text \<open>The bytes written since the last drain determine the buffer.\<close>

definition sync_holds :: "sync_buffer \<Rightarrow> string \<Rightarrow> bool" where
  "sync_holds sb s \<longleftrightarrow>
     (sb = None \<and> s = []) \<or> sb = Some (buffer_of (nat unified_exec_output_max_bytes) s)"

lemma sync_holds_write [step_defs]: "sync_holds sb s \<Longrightarrow> sync_holds (sync_write c sb) (s @ c)"
  by (auto simp: sync_holds_def sync_write_def new_buffer_rep push_chunk_rep)

lemma sync_holds_drain:
  "sync_holds sb s \<Longrightarrow>
     fst (sync_drain sb) = buffer_of (nat unified_exec_output_max_bytes) s \<and>
     sync_holds (snd (sync_drain sb)) []"
  by (auto simp: sync_holds_def sync_drain_def new_buffer_rep)

lemma sync_holds_writes: "sync_holds sb s \<Longrightarrow> sync_holds (fold sync_write cs sb) (s @ concat cs)"
proof (induction cs arbitrary: sb s)
  case (Cons c cs)
  from Cons.IH [OF sync_holds_write [OF Cons.prems]] show ?case by simp
qed simp

end
