(* ===== verification/Protocol.thy ===== *)
theory Protocol
  imports GoJson
begin

section \<open>Conversation items and events: internal/protocol\<close>

text \<open>
  The items of a conversation and the events a Session publishes, with their constructors, and
  the JSON form of items in which the model API and the rollout exchange them. Marshalling leaves out empty
  fields; unmarshalling gives the same item back.
\<close>

subsection \<open>Items\<close>

record content_item =
  ci_type :: string
  ci_text :: string
  ci_image_url :: string

record response_item =
  ri_type :: string
  ri_id :: string
  ri_role :: string
  ri_content :: "content_item list"
  ri_call_id :: string
  ri_name :: string
  ri_arguments :: string
  ri_output :: string
  ri_summary :: "content_item list"
  ri_encrypted_content :: string

definition empty_item :: response_item where
  "empty_item = \<lparr>ri_type = [], ri_id = [], ri_role = [], ri_content = [], ri_call_id = [],
     ri_name = [], ri_arguments = [], ri_output = [], ri_summary = [], ri_encrypted_content = []\<rparr>"

definition new_function_call_output :: "string \<Rightarrow> string \<Rightarrow> response_item" where
  "new_function_call_output call_id output =
     empty_item\<lparr>ri_type := ''function_call_output'', ri_call_id := call_id, ri_output := output\<rparr>"

definition text_content :: "string \<Rightarrow> string \<Rightarrow> content_item" where
  "text_content kind text = \<lparr>ci_type = kind, ci_text = text, ci_image_url = []\<rparr>"

definition new_user_message_with_images :: "string \<Rightarrow> string list \<Rightarrow> response_item" where
  "new_user_message_with_images text image_urls =
     empty_item\<lparr>ri_type := ''message'', ri_role := ''user'',
       ri_content := (if text \<noteq> [] then [text_content ''input_text'' text] else []) @
         map (\<lambda>u. \<lparr>ci_type = ''input_image'', ci_text = [], ci_image_url = u\<rparr>) image_urls\<rparr>"

definition new_user_message :: "string \<Rightarrow> response_item" where
  "new_user_message text = new_user_message_with_images text []"

definition new_assistant_message :: "string \<Rightarrow> response_item" where
  "new_assistant_message text =
     empty_item\<lparr>ri_type := ''message'', ri_role := ''assistant'',
       ri_content := [text_content ''output_text'' text]\<rparr>"

definition new_developer_message :: "string \<Rightarrow> response_item" where
  "new_developer_message text =
     empty_item\<lparr>ri_type := ''message'', ri_role := ''developer'',
       ri_content := [text_content ''input_text'' text]\<rparr>"

definition item_text :: "response_item \<Rightarrow> string" where
  "item_text item = concat (map ci_text (ri_content item))"

lemma item_types [simp]:
  "ri_type (new_function_call_output c v) = ''function_call_output''"
  "ri_call_id (new_function_call_output c v) = c"
  "ri_output (new_function_call_output c v) = v"
  "ri_type (new_user_message_with_images t us) = ''message''"
  "ri_type (new_user_message t) = ''message''"
  "ri_type (new_assistant_message t) = ''message''"
  "ri_type (new_developer_message t) = ''message''"
  "ri_role (new_assistant_message t) = ''assistant''"
  "ri_role (new_user_message_with_images t us) = ''user''"
  "ri_role (new_user_message t) = ''user''"
  by (simp_all add: new_function_call_output_def new_user_message_with_images_def
      new_user_message_def new_assistant_message_def new_developer_message_def)

subsection \<open>JSON form of items\<close>

text \<open>\<open>omitempty\<close>.\<close>

definition opt_string :: "string \<Rightarrow> string \<Rightarrow> (string \<times> json) list" where
  "opt_string key v = (if v = [] then [] else [(key, JStr v)])"

definition opt_array :: "string \<Rightarrow> json list \<Rightarrow> (string \<times> json) list" where
  "opt_array key vs = (if vs = [] then [] else [(key, JArr vs)])"

definition content_json :: "content_item \<Rightarrow> json" where
  "content_json c = JObj ((''type'', JStr (ci_type c)) # opt_string ''text'' (ci_text c) @
     opt_string ''image_url'' (ci_image_url c))"

definition item_json :: "response_item \<Rightarrow> json" where
  "item_json i =
     (let common = (''type'', JStr (ri_type i)) # opt_string ''id'' (ri_id i) @
            opt_string ''role'' (ri_role i) @ opt_array ''content'' (map content_json (ri_content i)) @
            opt_string ''call_id'' (ri_call_id i) @ opt_string ''name'' (ri_name i) @
            opt_string ''arguments'' (ri_arguments i) @ opt_string ''output'' (ri_output i);
          summary = map content_json (ri_summary i);
          encrypted = opt_string ''encrypted_content'' (ri_encrypted_content i)
      in JObj (if ri_type i \<noteq> ''reasoning'' then common @ opt_array ''summary'' summary @ encrypted
               else common @ encrypted @ [(''summary'', JArr summary)]))"

definition content_of_json :: "json \<Rightarrow> content_item option" where
  "content_of_json v =
     (case (string_field ''type'' v, string_field ''text'' v, string_field ''image_url'' v) of
        (Some t, Some x, Some u) \<Rightarrow> Some \<lparr>ci_type = t, ci_text = x, ci_image_url = u\<rparr>
      | _ \<Rightarrow> None)"

definition contents_field :: "string \<Rightarrow> json \<Rightarrow> content_item list option" where
  "contents_field key v = json_field (dec_list content_of_json) key [] v"

definition item_of_json :: "json \<Rightarrow> response_item option" where
  "item_of_json v =
     (case (string_field ''type'' v, string_field ''id'' v, string_field ''role'' v,
            contents_field ''content'' v, string_field ''call_id'' v, string_field ''name'' v,
            string_field ''arguments'' v, string_field ''output'' v, contents_field ''summary'' v,
            string_field ''encrypted_content'' v) of
        (Some t, Some i, Some r, Some c, Some ci, Some n, Some a, Some out, Some s, Some e) \<Rightarrow>
          Some \<lparr>ri_type = t, ri_id = i, ri_role = r, ri_content = c, ri_call_id = ci, ri_name = n,
                ri_arguments = a, ri_output = out, ri_summary = s, ri_encrypted_content = e\<rparr>
      | _ \<Rightarrow> None)"

text \<open>The entries of an object that a field takes; no key of an item folds to another.\<close>

abbreviation hits :: "string \<Rightarrow> (string \<times> json) list \<Rightarrow> json list" where
  "hits name kvs \<equiv> map snd (filter (\<lambda>(k, _). key_matches name k) kvs)"

lemma hits_opt_string:
  "hits name (opt_string key v) = (if v \<noteq> [] \<and> key_matches name key then [JStr v] else [])"
  by (simp add: opt_string_def)

lemma hits_opt_array:
  "hits name (opt_array key vs) = (if vs \<noteq> [] \<and> key_matches name key then [JArr vs] else [])"
  by (simp add: opt_array_def)

definition item_keys :: "string list" where
  "item_keys = [''type'', ''id'', ''role'', ''content'', ''call_id'', ''name'', ''arguments'', ''output'',
     ''summary'', ''encrypted_content'', ''text'', ''image_url'']"

lemma fold_item_keys: "map fold_name item_keys = item_keys"
  by (simp add: item_keys_def lower_char_def byte_of_def)

lemma item_keys_match: "k \<in> set item_keys \<Longrightarrow> l \<in> set item_keys \<Longrightarrow> key_matches k l \<longleftrightarrow> k = l"
proof -
  have same: "fold_name x = x" if "x \<in> set item_keys" for x
    using fold_item_keys that by (metis map_idI map_eq_conv list.map_ident)
  assume "k \<in> set item_keys" "l \<in> set item_keys"
  then show ?thesis using same by (auto simp: key_matches_def)
qed

lemma string_field_hits: "string_field name (JObj kvs) = fold_option dec_string (hits name kvs) []"
  by (simp add: string_field_def json_field_def)

lemma contents_field_hits:
  "contents_field name (JObj kvs) = fold_option (dec_list content_of_json) (hits name kvs) []"
  by (simp add: contents_field_def json_field_def)

lemma key_matrix: "\<forall>k \<in> set item_keys. \<forall>l \<in> set item_keys. key_matches k l \<longleftrightarrow> k = l"
  using item_keys_match by blast

lemmas key_simps = key_matrix [unfolded item_keys_def, simplified]

lemma content_json_inverse: "content_of_json (content_json c) = Some c"
  by (simp add: content_of_json_def content_json_def string_field_hits hits_opt_string key_simps)

lemma contents_inverse: "those (map content_of_json (map content_json cs)) = Some cs"
  by (induction cs) (simp_all add: content_json_inverse)

definition item_common :: "response_item \<Rightarrow> (string \<times> json) list" where
  "item_common i = (''type'', JStr (ri_type i)) # opt_string ''id'' (ri_id i) @
     opt_string ''role'' (ri_role i) @ opt_array ''content'' (map content_json (ri_content i)) @
     opt_string ''call_id'' (ri_call_id i) @ opt_string ''name'' (ri_name i) @
     opt_string ''arguments'' (ri_arguments i) @ opt_string ''output'' (ri_output i)"

definition item_tail :: "response_item \<Rightarrow> (string \<times> json) list" where
  "item_tail i =
     (let summary = map content_json (ri_summary i);
          encrypted = opt_string ''encrypted_content'' (ri_encrypted_content i) in
      if ri_type i \<noteq> ''reasoning'' then opt_array ''summary'' summary @ encrypted
      else encrypted @ [(''summary'', JArr summary)])"

lemma item_json_entries: "item_json i = JObj (item_common i @ item_tail i)"
  by (simp add: item_json_def item_common_def item_tail_def Let_def)

lemma hits_common:
  "hits ''type'' (item_common i) = [JStr (ri_type i)]"
  "hits ''id'' (item_common i) = (if ri_id i = [] then [] else [JStr (ri_id i)])"
  "hits ''role'' (item_common i) = (if ri_role i = [] then [] else [JStr (ri_role i)])"
  "hits ''content'' (item_common i) =
     (if ri_content i = [] then [] else [JArr (map content_json (ri_content i))])"
  "hits ''call_id'' (item_common i) = (if ri_call_id i = [] then [] else [JStr (ri_call_id i)])"
  "hits ''name'' (item_common i) = (if ri_name i = [] then [] else [JStr (ri_name i)])"
  "hits ''arguments'' (item_common i) = (if ri_arguments i = [] then [] else [JStr (ri_arguments i)])"
  "hits ''output'' (item_common i) = (if ri_output i = [] then [] else [JStr (ri_output i)])"
  "hits ''summary'' (item_common i) = []"
  "hits ''encrypted_content'' (item_common i) = []"
  by (simp_all add: item_common_def hits_opt_string hits_opt_array key_simps)

lemma hits_tail:
  "k \<in> {''type'', ''id'', ''role'', ''content'', ''call_id'', ''name'', ''arguments'', ''output''} \<Longrightarrow>
    hits k (item_tail i) = []"
  "hits ''encrypted_content'' (item_tail i) =
     (if ri_encrypted_content i = [] then [] else [JStr (ri_encrypted_content i)])"
  "hits ''summary'' (item_tail i) = (if ri_summary i = [] \<and> ri_type i \<noteq> ''reasoning'' then []
     else [JArr (map content_json (ri_summary i))])"
  by (auto simp: item_tail_def Let_def opt_string_def opt_array_def key_simps)

lemma string_common:
  "string_field ''type'' (item_json i) = Some (ri_type i)"
  "string_field ''id'' (item_json i) = Some (ri_id i)"
  "string_field ''role'' (item_json i) = Some (ri_role i)"
  "string_field ''call_id'' (item_json i) = Some (ri_call_id i)"
  "string_field ''name'' (item_json i) = Some (ri_name i)"
  "string_field ''arguments'' (item_json i) = Some (ri_arguments i)"
  "string_field ''output'' (item_json i) = Some (ri_output i)"
  "string_field ''encrypted_content'' (item_json i) = Some (ri_encrypted_content i)"
  by (simp_all add: item_json_entries string_field_hits hits_common hits_tail)

lemma contents_common:
  "contents_field ''content'' (item_json i) = Some (ri_content i)"
  "contents_field ''summary'' (item_json i) = Some (ri_summary i)"
  by (simp_all add: item_json_entries contents_field_hits hits_common hits_tail contents_inverse
      del: map_map)

lemma item_json_decodes: "item_of_json (item_json i) = Some i"
  by (simp add: item_of_json_def string_common contents_common)

text \<open>
  Items survive their JSON form: decoding the marshalled form of any item gives the
  item back, the optional fields and the always-present summary of reasoning items included.
\<close>

theorem item_json_inverse: "item_of_json (item_json i) = Some i"
  by (rule item_json_decodes)

subsection \<open>Events\<close>

record approval_event =
  ae_call_id :: string
  ae_turn_id :: string
  ae_started_at_ms :: int
  ae_command :: "string list"
  ae_cwd :: string
  ae_reason :: string
  ae_available_decisions :: "string list"
  ae_proposed_prefix :: "string list"

record token_usage =
  tu_input :: int
  tu_cached_input :: int
  tu_cache_write_input :: int
  tu_output :: int
  tu_reasoning_output :: int
  tu_total :: int

definition no_usage :: token_usage where
  "no_usage = \<lparr>tu_input = 0, tu_cached_input = 0, tu_cache_write_input = 0, tu_output = 0,
     tu_reasoning_output = 0, tu_total = 0\<rparr>"

record turn_complete_event =
  tc_turn_id :: string
  tc_last_agent_message :: "string option"
  tc_error :: "string option"
  tc_started_at :: int
  tc_completed_at :: int
  tc_duration_ms :: int
  tc_time_to_first_token :: "int option"
  tc_usage :: "token_usage option"
  tc_response_id :: string

record turn_aborted_event =
  ta_turn_id :: string
  ta_reason :: string
  ta_started_at :: int
  ta_completed_at :: int
  ta_duration_ms :: int

record elicitation_field =
  ef_name :: string
  ef_type :: string
  ef_title :: string
  ef_description :: string

datatype event_msg =
    TurnStarted string int                       \<comment> \<open>turn, time\<close>
  | AgentMessageContentDelta string string       \<comment> \<open>turn, delta\<close>
  | ToolCallStarted string string string         \<comment> \<open>call, name, arguments\<close>
  | ToolCallCompleted string string string       \<comment> \<open>call, name, output\<close>
  | ExecCommandOutputDelta string string string  \<comment> \<open>call, stream, chunk\<close>
  | TerminalInteraction string string string     \<comment> \<open>call, process, stdin\<close>
  | ExecApprovalRequest approval_event
  | ContextCompaction string int int             \<comment> \<open>turn, tokens before and after\<close>
  | TurnComplete turn_complete_event
  | TurnAborted turn_aborted_event
  | ErrorEvent string
  | McpElicitationRequest string string string "elicitation_field list" json

definition new_exec_approval_request ::
    "string \<Rightarrow> string \<Rightarrow> string \<Rightarrow> string \<Rightarrow> string \<Rightarrow> string list \<Rightarrow> int \<Rightarrow> event_msg" where
  "new_exec_approval_request call_id turn_id command cwd reason proposed_prefix started_at_ms =
     ExecApprovalRequest \<lparr>ae_call_id = call_id, ae_turn_id = turn_id, ae_started_at_ms = started_at_ms,
       ae_command = [command], ae_cwd = cwd, ae_reason = reason,
       ae_available_decisions =
         (if proposed_prefix \<noteq> []
          then [''approved'', ''approved_for_session'', ''approved_with_amendment'', ''denied'']
          else [''approved'', ''denied'']),
       ae_proposed_prefix = proposed_prefix\<rparr>"

text \<open>\<open>TokenUsage.Add\<close> of model/client.go; the sums are 64-bit.\<close>

definition add_usage :: "token_usage \<Rightarrow> token_usage option \<Rightarrow> token_usage" where
  "add_usage u other =
     (case other of None \<Rightarrow> u
      | Some v \<Rightarrow>
         \<lparr>tu_input = wrap64 (tu_input u + tu_input v),
          tu_cached_input = wrap64 (tu_cached_input u + tu_cached_input v),
          tu_cache_write_input = wrap64 (tu_cache_write_input u + tu_cache_write_input v),
          tu_output = wrap64 (tu_output u + tu_output v),
          tu_reasoning_output = wrap64 (tu_reasoning_output u + tu_reasoning_output v),
          tu_total = wrap64 (tu_total u + tu_total v)\<rparr>)"

end
