(* ===== verification/ProcessManager.thy ===== *)
theory ProcessManager
  imports HeadTail Protocol "HOL-Library.AList"
begin

section \<open>Running commands: internal/tools/process\_manager.go\<close>

text \<open>
  The manager numbers the processes of a Session, collects their output and hands it out in
  polls. Process objects are shared between the manager and the goroutines that feed them, so they live in a store
  keyed by their number; the manager's own map is the list of numbers it still knows.
  What the operating system does between two operations (output, exit) is a list of
  \<open>world\<close> events; what the operations do to it is returned as \<open>os_action\<close>s.
\<close>

definition exec_output_delta_max_bytes :: nat where "exec_output_delta_max_bytes = 8192"
definition max_exec_output_deltas_per_call :: nat where "max_exec_output_deltas_per_call = 10000"
definition default_output_bytes :: int where "default_output_bytes = 40960"
definition max_output_bytes :: int where "max_output_bytes = unified_exec_output_max_bytes"

text \<open>Times in nanoseconds, as \<open>time.Duration\<close>.\<close>

definition millisecond :: int where "millisecond = 1000000"
definition second :: int where "second = 1000000000"
definition min_yield_time :: int where "min_yield_time = 250 * millisecond"
definition max_yield_time :: int where "max_yield_time = 30 * second"
definition empty_poll_minimum :: int where "empty_poll_minimum = 5 * second"

definition clamp_yield :: "int \<Rightarrow> bool \<Rightarrow> int" where
  "clamp_yield milliseconds empty_poll =
     (let yield = wrap64 (milliseconds * millisecond) in
      if yield \<le> 0 then (if empty_poll then empty_poll_minimum else 10 * second)
      else (let minimum = (if empty_poll then empty_poll_minimum else min_yield_time) in
        if yield < minimum then minimum
        else if max_yield_time < yield then max_yield_time
        else yield))"

text \<open>The output limit of \<open>exec_command\<close> and \<open>write_stdin\<close>, with the multiplication of a 64-bit \<open>int\<close>.\<close>

definition output_limit :: "int \<Rightarrow> int" where
  "output_limit max_output_tokens =
     (if 0 < max_output_tokens then min (wrap64 (max_output_tokens * 4)) max_output_bytes
      else default_output_bytes)"

subsection \<open>A process\<close>

record managed_process =
  mp_remote :: "string option"
  mp_tty :: bool
  mp_policy_rule :: string
  mp_call_id :: string
  mp_emits :: bool
  mp_output :: sync_buffer
  mp_done :: bool
  mp_exit_code :: int
  mp_emitted_deltas :: nat

definition new_process :: "string option \<Rightarrow> bool \<Rightarrow> string \<Rightarrow> string \<Rightarrow> bool \<Rightarrow> managed_process" where
  "new_process remote tty policy_rule call_id emits =
     \<lparr>mp_remote = remote, mp_tty = tty, mp_policy_rule = policy_rule, mp_call_id = call_id,
      mp_emits = emits, mp_output = None, mp_done = False, mp_exit_code = 0, mp_emitted_deltas = 0\<rparr>"

text \<open>The loop of \<open>emitOutputDeltas\<close>: the events, and the count it leaves.\<close>

function output_deltas :: "string \<Rightarrow> string \<Rightarrow> nat \<Rightarrow> string \<Rightarrow> event_msg list \<times> nat" where
  "output_deltas call_id stream emitted data =
     (if data = [] \<or> max_exec_output_deltas_per_call \<le> emitted then ([], emitted)
      else (let len = min (length data) exec_output_delta_max_bytes;
                (events, emitted') = output_deltas call_id stream (emitted + 1) (drop len data)
            in (ExecCommandOutputDelta call_id stream (take len data) # events, emitted')))"
  by pat_completeness auto
termination
  by (relation "measure (\<lambda>(_, _, _, data). length data)")
     (auto simp: exec_output_delta_max_bytes_def)

declare output_deltas.simps [simp del]

definition emit_output_deltas :: "string \<Rightarrow> string \<Rightarrow> managed_process \<Rightarrow> managed_process \<times> event_msg list" where
  "emit_output_deltas stream data p =
     (if \<not> mp_emits p then (p, [])
      else (let (events, emitted) = output_deltas (mp_call_id p) stream (mp_emitted_deltas p) data
            in (p\<lparr>mp_emitted_deltas := emitted\<rparr>, events)))"

text \<open>\<open>processOutputWriter.Write\<close>.\<close>

definition write_output :: "string \<Rightarrow> string \<Rightarrow> managed_process \<Rightarrow> managed_process \<times> event_msg list" where
  "write_output stream data p =
     (let p1 = p\<lparr>mp_output := sync_write data (mp_output p)\<rparr> in
      if data = [] then (p1, []) else emit_output_deltas stream data p1)"

subsection \<open>The result of a poll\<close>

definition esc :: char where "esc = CHR 0x1B"

text \<open>The matches of the pattern of ANSI control sequences are removed, from left to right.\<close>

definition in_range :: "nat \<Rightarrow> nat \<Rightarrow> char \<Rightarrow> bool" where
  "in_range lo hi c \<longleftrightarrow> lo \<le> byte_of c \<and> byte_of c \<le> hi"

definition ansi_rest :: "string \<Rightarrow> string option" where
  "ansi_rest s =
     (case s of
        CHR ''['' # body \<Rightarrow>
          (case dropWhile (in_range 32 47) (dropWhile (in_range 48 63) body) of
             c # rest \<Rightarrow> if in_range 64 126 c then Some rest else None
           | [] \<Rightarrow> None)
      | _ \<Rightarrow> None)"

lemma ansi_rest_length: "ansi_rest s = Some r \<Longrightarrow> length r < length s"
proof -
  assume a: "ansi_rest s = Some r"
  then obtain body c where s: "s = CHR ''['' # body"
    and d: "dropWhile (in_range 32 47) (dropWhile (in_range 48 63) body) = c # r"
    by (auto simp: ansi_rest_def split: list.splits char.splits bool.splits if_splits)
  have "length (dropWhile (in_range 32 47) (dropWhile (in_range 48 63) body)) \<le> length body"
    by (metis length_dropWhile_le le_trans)
  with d s show ?thesis by simp
qed

function strip_ansi :: "string \<Rightarrow> string" where
  "strip_ansi [] = []"
| "strip_ansi (c # s) =
     (if c = esc then (case ansi_rest s of Some r \<Rightarrow> strip_ansi r | None \<Rightarrow> c # strip_ansi s)
      else c # strip_ansi s)"
  by pat_completeness auto
termination
  by (relation "measure length") (auto dest: ansi_rest_length)

fun crlf_to_lf :: "string \<Rightarrow> string" where
  "crlf_to_lf [] = []"
| "crlf_to_lf (c # s) =
     (if c = CHR 0x0D \<and> s \<noteq> [] \<and> hd s = newline then newline # crlf_to_lf (tl s)
      else c # crlf_to_lf s)"

record exec_result =
  er_chunk_id :: string
  er_session_id :: "int option"
  er_exit_code :: "int option"
  er_output :: string
  er_original_token_count :: nat
  er_output_omitted_bytes :: nat
  er_tty :: bool
  er_policy_rule :: string

definition approx_tokens_from_byte_count :: "nat \<Rightarrow> nat" where
  "approx_tokens_from_byte_count bytes = (bytes + 3) div 4"

text \<open>The chunk identifier comes from the random number generator of the system.\<close>

definition process_result :: "string \<Rightarrow> int \<Rightarrow> int \<Rightarrow> bool \<Rightarrow> managed_process \<Rightarrow>
    exec_result \<times> managed_process" where
  "process_result chunk_id pid limit running p =
     (let (drained, out) = sync_drain (mp_output p);
          collected = with_limit limit drained;
          text0 = bytes_with_omission_marker collected;
          txt = (if mp_tty p then strip_ansi (crlf_to_lf text0) else text0)
      in (\<lparr>er_chunk_id = chunk_id,
           er_session_id = (if running then Some pid else None),
           er_exit_code = (if running then None else Some (mp_exit_code p)),
           er_output = txt,
           er_original_token_count = approx_tokens_from_byte_count (total_bytes collected),
           er_output_omitted_bytes = ht_omitted collected,
           er_tty = mp_tty p, er_policy_rule = mp_policy_rule p\<rparr>,
          p\<lparr>mp_output := out\<rparr>))"

text \<open>The JSON document of a result; the wall time is measured, so a parameter.\<close>

definition exec_result_json :: "json \<Rightarrow> exec_result \<Rightarrow> json" where
  "exec_result_json wall_time r =
     JObj ([(''chunk_id'', JStr (er_chunk_id r))] @
       (case er_session_id r of Some i \<Rightarrow> [(''session_id'', JInt i)] | None \<Rightarrow> []) @
       (case er_exit_code r of Some i \<Rightarrow> [(''exit_code'', JInt i)] | None \<Rightarrow> []) @
       [(''wall_time_seconds'', wall_time), (''output'', JStr (er_output r)),
        (''original_token_count'', JInt (int (er_original_token_count r)))] @
       (if er_output_omitted_bytes r = 0 then []
        else [(''output_omitted_bytes'', JInt (int (er_output_omitted_bytes r)))]) @
       (if er_tty r then [(''tty'', JBool True)] else []) @
       opt_string ''policy_rule'' (er_policy_rule r))"

subsection \<open>The manager\<close>

record process_manager =
  pm_next_id :: int
  pm_store :: "(int \<times> managed_process) list"
  pm_registered :: "int list"

definition new_process_manager :: process_manager where
  "new_process_manager = \<lparr>pm_next_id = 1000, pm_store = [], pm_registered = []\<rparr>"

datatype os_action =
    StdinWrite int string
  | SignalInterrupt int
  | RemoteKill string
  | KillProcess int
  | CloseTerminal int

record poll_result =
  pr_output :: string
  pr_running :: bool
  pr_exit_code :: "int option"

text \<open>
  What happens to a process outside the operations: a pipe or terminal delivers output, the process exits,
  a poll of the remote server returns.
\<close>

datatype world =
    Wrote int string string
  | Exited int int
  | RemotePolled int "(string, poll_result) result"

definition put_process :: "int \<Rightarrow> managed_process \<Rightarrow> process_manager \<Rightarrow> process_manager" where
  "put_process pid p pm = pm\<lparr>pm_store := AList.update pid p (pm_store pm)\<rparr>"

text \<open>One round of \<open>pollRemote\<close>; the loop ends when the process is done.\<close>

definition poll_remote :: "(string, poll_result) result \<Rightarrow> managed_process \<Rightarrow> managed_process \<times> event_msg list" where
  "poll_remote polled p =
     (case polled of
        Inl err \<Rightarrow> (p\<lparr>mp_exit_code := -1, mp_output := sync_write err (mp_output p), mp_done := True\<rparr>, [])
      | Inr r \<Rightarrow>
        (let (p1, events) = (if pr_output r \<noteq> [] then write_output ''stdout'' (pr_output r) p else (p, [])) in
         if pr_running r then (p1, events)
         else (p1\<lparr>mp_exit_code := (case pr_exit_code r of Some c \<Rightarrow> c | None \<Rightarrow> mp_exit_code p1),
                  mp_done := True\<rparr>, events)))"

definition pm_world :: "world \<Rightarrow> process_manager \<Rightarrow> process_manager \<times> event_msg list" where
  "pm_world w pm =
     (case w of
        Wrote pid stream data \<Rightarrow>
          (case map_of (pm_store pm) pid of
             None \<Rightarrow> (pm, [])
           | Some p \<Rightarrow> (let (p', events) = write_output stream data p in (put_process pid p' pm, events)))
      | Exited pid code \<Rightarrow>
          (case map_of (pm_store pm) pid of
             None \<Rightarrow> (pm, [])
           | Some p \<Rightarrow> (put_process pid (p\<lparr>mp_exit_code := code, mp_done := True\<rparr>) pm, []))
      | RemotePolled pid polled \<Rightarrow>
          (case map_of (pm_store pm) pid of
             None \<Rightarrow> (pm, [])
           | Some p \<Rightarrow>
               if mp_done p then (pm, [])
               else (let (p', events) = poll_remote polled p in (put_process pid p' pm, events))))"

fun pm_worlds :: "world list \<Rightarrow> process_manager \<Rightarrow> process_manager \<times> event_msg list" where
  "pm_worlds [] pm = (pm, [])"
| "pm_worlds (w # ws) pm =
     (let (pm1, e1) = pm_world w pm; (pm2, e2) = pm_worlds ws pm1 in (pm2, e1 @ e2))"

definition pm_remove :: "int \<Rightarrow> process_manager \<Rightarrow> process_manager" where
  "pm_remove pid pm = pm\<lparr>pm_registered := filter (\<lambda>k. k \<noteq> pid) (pm_registered pm)\<rparr>"

definition pm_register :: "managed_process \<Rightarrow> process_manager \<Rightarrow> process_manager" where
  "pm_register p pm =
     pm\<lparr>pm_next_id := pm_next_id pm + 1, pm_store := AList.update (pm_next_id pm) p (pm_store pm),
        pm_registered := pm_registered pm @ [pm_next_id pm]\<rparr>"

text \<open>The tail that \<open>start\<close>, \<open>startRemote\<close> and \<open>writeStdin\<close> share.\<close>

definition pm_collect :: "string \<Rightarrow> int \<Rightarrow> int \<Rightarrow> bool \<Rightarrow> managed_process \<Rightarrow> process_manager \<Rightarrow>
    exec_result \<times> process_manager" where
  "pm_collect chunk_id pid limit finished p pm =
     (let (r, p') = process_result chunk_id pid limit (\<not> finished) p;
          pm1 = put_process pid p' pm
      in (r, if finished then pm_remove pid pm1 else pm1))"

text \<open>
  \<open>start\<close> and \<open>startRemote\<close>: \<open>launch_error\<close> is what starting the command on the host or the server
  reports, \<open>ws\<close> what happens while waiting, \<open>timer_first\<close> whether the timer wins the \<open>select\<close>.
\<close>

definition pm_start :: "string option \<Rightarrow> managed_process \<Rightarrow> world list \<Rightarrow> bool \<Rightarrow> string \<Rightarrow> int \<Rightarrow>
    process_manager \<Rightarrow> (string, exec_result) result \<times> process_manager \<times> event_msg list" where
  "pm_start launch_error process ws timer_first chunk_id limit pm =
     (case launch_error of
        Some e \<Rightarrow> (Inl e, pm, [])
      | None \<Rightarrow>
        (let pid = pm_next_id pm;
             (pm1, events) = pm_worlds ws (pm_register process pm)
         in case map_of (pm_store pm1) pid of
              None \<Rightarrow> (Inl [], pm1, events)
            | Some p \<Rightarrow>
                (let (r, pm2) = pm_collect chunk_id pid limit (mp_done p \<and> \<not> timer_first) p pm1
                 in (Inr r, pm2, events))))"

definition etx :: char where "etx = CHR 0x03"

definition stdin_action :: "int \<Rightarrow> string \<Rightarrow> managed_process \<Rightarrow> os_action list" where
  "stdin_action pid chars p =
     (if chars = [] then []
      else if chars = [etx] then
        (if mp_tty p then [StdinWrite pid [etx]]
         else (case mp_remote p of Some rid \<Rightarrow> [RemoteKill rid] | None \<Rightarrow> [SignalInterrupt pid]))
      else [StdinWrite pid chars])"

text \<open>\<open>io_error\<close> is the error of that action, \<open>cancelled\<close> whether the context ends the wait.\<close>

definition pm_write_stdin :: "int \<Rightarrow> string \<Rightarrow> string option \<Rightarrow> world list \<Rightarrow> bool \<Rightarrow> string \<Rightarrow> int \<Rightarrow> bool \<Rightarrow>
    process_manager \<Rightarrow>
    (string, exec_result) result \<times> process_manager \<times> os_action list \<times> event_msg list" where
  "pm_write_stdin pid chars io_error ws cancelled chunk_id limit emits pm =
     (case (if pid \<in> set (pm_registered pm) then map_of (pm_store pm) pid else None) of
        None \<Rightarrow> (Inl (''unknown session_id '' @ show_int pid), pm, [], [])
      | Some p0 \<Rightarrow>
        (let actions = stdin_action pid chars p0 in
         case (if actions = [] then None else io_error) of
           Some e \<Rightarrow> (Inl e, pm, actions, [])
         | None \<Rightarrow>
           (let (pm1, events) = pm_worlds ws pm in
            if cancelled then (Inl ''context canceled'', pm1, actions, events)
            else (case map_of (pm_store pm1) pid of
                    None \<Rightarrow> (Inl [], pm1, actions, events)
                  | Some p \<Rightarrow>
                    (let finished = mp_done p;
                         (r, pm2) = pm_collect chunk_id pid limit finished p pm1;
                         note = (if emits \<and> (chars \<noteq> [] \<or> \<not> finished)
                                 then [TerminalInteraction (mp_call_id p) (show_int pid) chars] else [])
                     in (Inr r, pm2, actions, events @ note))))))"

definition close_action :: "int \<Rightarrow> managed_process \<Rightarrow> os_action list" where
  "close_action pid p =
     (case mp_remote p of
        Some rid \<Rightarrow> [RemoteKill rid]
      | None \<Rightarrow> KillProcess pid # (if mp_tty p then [CloseTerminal pid] else []))"

definition pm_close :: "process_manager \<Rightarrow> process_manager \<times> os_action list" where
  "pm_close pm =
     (pm\<lparr>pm_registered := []\<rparr>,
      concat (map (\<lambda>pid. case map_of (pm_store pm) pid of Some p \<Rightarrow> close_action pid p | None \<Rightarrow> [])
        (pm_registered pm)))"

subsection \<open>Times and limits\<close>

text \<open>
  However long a call asks to wait, overflow of the 64-bit duration included, the wait
  is between 250 milliseconds and 30 seconds, at least 5 seconds for an empty poll; and for a request
  within 292 years it is the requested time clamped to that range.
\<close>

theorem clamp_yield_range:
  "let lo = (if empty_poll then empty_poll_minimum else min_yield_time);
       y = clamp_yield ms empty_poll in
   lo \<le> y \<and> y \<le> max_yield_time \<and>
   (0 < ms \<and> int64 (ms * millisecond) \<longrightarrow> y = max lo (min max_yield_time (ms * millisecond)))"
proof -
  have pos: "0 < ms * millisecond" if "0 < ms" using that by (simp add: millisecond_def)
  show ?thesis
    using pos
    by (auto simp: clamp_yield_def Let_def min_yield_time_def max_yield_time_def
        empty_poll_minimum_def second_def millisecond_def)
qed

theorem clamp_yield_range_witness: "clamp_yield 400 False = 400 * millisecond"
  using clamp_yield_range [of False 400]
  by (simp add: Let_def int64_def min_yield_time_def max_yield_time_def second_def millisecond_def)

text \<open>
  The output limit is never above one mebibyte, but the multiplication by four
  wraps: a budget of \<open>2 ^ 61\<close> tokens gives a negative limit, under which a poll shows none of
  the output, only the count of what it leaves out.
\<close>

theorem output_limit_overflow:
  "output_limit n \<le> max_output_bytes \<and> output_limit (2 ^ 61) < 0 \<and>
   bytes_with_omission_marker (with_limit (output_limit (2 ^ 61)) (buffer_of (2 ^ 20) ''output'')) =
     omission_marker 6"
proof -
  have limit: "output_limit (2 ^ 61) = - (2 ^ 63)"
    by (simp add: output_limit_def wrap64_def max_output_bytes_def unified_exec_output_max_bytes_def)
  have "new_head_tail_buffer (- (2 ^ 63)) = buffer_of 0 []"
    by (simp add: new_head_tail_buffer_def buffer_of_def)
  then have "with_limit (- (2 ^ 63)) (buffer_of (2 ^ 20) ''output'') =
      buffer_of 0 ''output''"
    by (simp add: with_limit_def push_chunk_rep Let_def)
  moreover have "bytes_with_omission_marker (buffer_of 0 ''output'') = omission_marker 6"
    by (simp add: bytes_with_omission_marker_def eval_nat_numeral)
  ultimately show ?thesis
    unfolding limit
    by (simp add: output_limit_def max_output_bytes_def unified_exec_output_max_bytes_def
        default_output_bytes_def)
qed

subsection \<open>Deltas\<close>

definition delta_chunk :: "event_msg \<Rightarrow> string" where
  "delta_chunk e = (case e of ExecCommandOutputDelta _ _ c \<Rightarrow> c | _ \<Rightarrow> [])"

lemma delta_chunk_simp [simp]: "delta_chunk (ExecCommandOutputDelta i st c) = c"
  by (simp add: delta_chunk_def)

text \<open>
  The output deltas of a call: never more than 10000, each a nonempty chunk of at
  most 8192 bytes, together a prefix of the data, and all of it while the cap is not reached.
\<close>

theorem output_deltas_bounded:
  assumes "output_deltas call_id stream emitted data = (events, emitted')"
    and "emitted \<le> max_exec_output_deltas_per_call"
  shows "emitted' = emitted + length events \<and> emitted' \<le> max_exec_output_deltas_per_call \<and>
    (\<forall>e \<in> set events. \<exists>c. e = ExecCommandOutputDelta call_id stream c \<and> c \<noteq> [] \<and> length c \<le> 8192) \<and>
    prefix (concat (map delta_chunk events)) data \<and>
    (emitted' < max_exec_output_deltas_per_call \<longrightarrow> concat (map delta_chunk events) = data)"
  using assms
proof (induction call_id stream emitted data arbitrary: events emitted' rule: output_deltas.induct)
  case (1 call_id stream emitted data)
  show ?case
  proof (cases "data = [] \<or> max_exec_output_deltas_per_call \<le> emitted")
    case True
    with 1 show ?thesis by (auto simp: output_deltas.simps [of _ _ _ data])
  next
    case False
    let ?len = "min (length data) exec_output_delta_max_bytes"
    obtain es n where rec: "output_deltas call_id stream (emitted + 1) (drop ?len data) = (es, n)"
      by fastforce
    with False "1.prems"(1) have ev: "events = ExecCommandOutputDelta call_id stream (take ?len data) # es"
      "emitted' = n" by (simp_all add: output_deltas.simps [of _ _ _ data])
    from False have le: "emitted + 1 \<le> max_exec_output_deltas_per_call" by simp
    note IH = "1.IH" [OF False refl rec le]
    have split: "data = take ?len data @ drop ?len data" by simp
    have chunk: "take ?len data \<noteq> []" "length (take ?len data) \<le> 8192"
      using False by (simp_all add: exec_output_delta_max_bytes_def)
    have "prefix (take ?len data @ concat (map delta_chunk es)) data"
      using IH by (metis same_prefix_prefix append_take_drop_id)
    then have "prefix (concat (map delta_chunk events)) data"
      by (simp add: ev)
    moreover have "concat (map delta_chunk events) = data" if "emitted' < max_exec_output_deltas_per_call"
      using IH that by (simp add: ev)
    ultimately show ?thesis using IH chunk by (auto simp: ev)
  qed
qed

theorem output_deltas_bounded_witness:
  "prefix (concat (map delta_chunk (fst (output_deltas ''c'' ''stdout'' 9999 ''abc'')))) ''abc''"
  using output_deltas_bounded [of "''c''" "''stdout''" 9999 "''abc''" "fst (output_deltas ''c'' ''stdout'' 9999 ''abc'')"
      "snd (output_deltas ''c'' ''stdout'' 9999 ''abc'')"]
  by (simp add: max_exec_output_deltas_per_call_def)

subsection \<open>Polls hand out the output once\<close>

definition writes :: "(string \<times> string) list \<Rightarrow> managed_process \<Rightarrow> managed_process" where
  "writes ws p = fold (\<lambda>(stream, data) p. fst (write_output stream data p)) ws p"

lemma write_output_frame [frame_simps]:
  "mp_output (fst (write_output stream data p)) = sync_write data (mp_output p)"
  "mp_tty (fst (write_output stream data p)) = mp_tty p"
  "mp_done (fst (write_output stream data p)) = mp_done p"
  "mp_exit_code (fst (write_output stream data p)) = mp_exit_code p"
  "mp_remote (fst (write_output stream data p)) = mp_remote p"
  by (auto simp: write_output_def emit_output_deltas_def Let_def split: prod.splits)

lemma writes_output: "mp_output (writes ws p) = fold sync_write (map snd ws) (mp_output p)"
  and writes_tty [frame_simps]: "mp_tty (writes ws p) = mp_tty p"
  by (induction ws arbitrary: p) (auto simp: writes_def frame_simps)

lemma shown_buffer:
  assumes "0 \<le> l"
  shows "bytes_with_omission_marker (with_limit l (buffer_of m s)) =
      bytes_with_omission_marker (buffer_of (min (nat l) m) s)"
    and "ht_omitted (with_limit l (buffer_of m s)) = length s - min (nat l) m"
    and "total_bytes (with_limit l (buffer_of m s)) = length s"
proof -
  consider "m \<le> nat l" | "nat l < m" "length s \<le> nat l" | "nat l < m" "nat l < length s" by linarith
  then have "bytes_with_omission_marker (with_limit l (buffer_of m s)) =
      bytes_with_omission_marker (buffer_of (min (nat l) m) s) \<and>
      ht_omitted (with_limit l (buffer_of m s)) = length s - min (nat l) m \<and>
      total_bytes (with_limit l (buffer_of m s)) = length s"
  proof cases
    case 1
    then have le: "int (min (length s) m) \<le> l" using assms by linarith
    with 1 show ?thesis unfolding with_limit_buffer_of [OF assms] by (simp add: total_bytes_buffer_of)
  next
    case 2
    then have le: "int (min (length s) m) \<le> l" "length s \<le> m" using assms by linarith+
    with 2 show ?thesis
      unfolding with_limit_buffer_of [OF assms]
      by (simp add: total_bytes_buffer_of bytes_with_omission_marker_def)
  next
    case 3
    then have "\<not> int (min (length s) m) \<le> l" using assms by linarith
    with 3 show ?thesis unfolding with_limit_buffer_of [OF assms] by (simp add: total_bytes_buffer_of)
  qed
  then show "bytes_with_omission_marker (with_limit l (buffer_of m s)) =
      bytes_with_omission_marker (buffer_of (min (nat l) m) s)"
    and "ht_omitted (with_limit l (buffer_of m s)) = length s - min (nat l) m"
    and "total_bytes (with_limit l (buffer_of m s)) = length s" by blast+
qed

lemma shown_all: "length s \<le> m \<Longrightarrow> bytes_with_omission_marker (buffer_of m s) = s"
  by (simp add: bytes_with_omission_marker_def)



subsection \<open>The state machine of the manager\<close>

inductive pm_reach :: "process_manager \<Rightarrow> bool" where
  init: "pm_reach new_process_manager"
| start: "pm_reach pm \<Longrightarrow> pm_start le p ws timer_first chunk_id limit pm = (r, pm', ev) \<Longrightarrow> pm_reach pm'"
| stdin: "pm_reach pm \<Longrightarrow>
    pm_write_stdin pid chars io ws cancelled chunk_id limit emits pm = (r, pm', acts, ev) \<Longrightarrow> pm_reach pm'"
| outside: "pm_reach pm \<Longrightarrow> pm_world w pm = (pm', ev) \<Longrightarrow> pm_reach pm'"
| close: "pm_reach pm \<Longrightarrow> pm_close pm = (pm', acts) \<Longrightarrow> pm_reach pm'"

definition pm_ok :: "process_manager \<Rightarrow> bool" where
  "pm_ok pm \<longleftrightarrow> distinct (pm_registered pm) \<and> 1000 \<le> pm_next_id pm \<and>
     set (pm_registered pm) \<subseteq> dom (map_of (pm_store pm)) \<and>
     (\<forall>pid \<in> dom (map_of (pm_store pm)). 1000 \<le> pid \<and> pid < pm_next_id pm)"

text \<open>What a world event may change: the processes in the store, never who is in it.\<close>

definition same_ids :: "process_manager \<Rightarrow> process_manager \<Rightarrow> bool" where
  "same_ids pm pm' \<longleftrightarrow> pm_next_id pm' = pm_next_id pm \<and> pm_registered pm' = pm_registered pm \<and>
     dom (map_of (pm_store pm')) = dom (map_of (pm_store pm))"

lemma same_ids_refl [simp]: "same_ids pm pm"
  by (simp add: same_ids_def)

lemma same_ids_trans: "same_ids a b \<Longrightarrow> same_ids b c \<Longrightarrow> same_ids a c"
  by (simp add: same_ids_def)

lemma same_ids_put: "map_of (pm_store pm) pid = Some q \<Longrightarrow> same_ids pm (put_process pid p pm)"
  by (auto simp: same_ids_def put_process_def update_conv')

lemma pm_world_ids [frame_simps]: "same_ids pm (fst (pm_world w pm))"
  by (auto simp: pm_world_def same_ids_put Let_def split: world.splits option.splits prod.splits)

lemma pm_worlds_ids [frame_simps]: "same_ids pm (fst (pm_worlds ws pm))"
proof (induction ws arbitrary: pm)
  case (Cons w ws)
  obtain pm1 e1 where w: "pm_world w pm = (pm1, e1)" by fastforce
  have "same_ids pm pm1" using pm_world_ids [of pm w] by (simp add: w)
  with Cons [of pm1] show ?case by (auto simp: w split: prod.splits intro: same_ids_trans)
qed simp

lemma same_ids_ok: "same_ids pm pm' \<Longrightarrow> pm_ok pm \<Longrightarrow> pm_ok pm'"
  by (simp add: same_ids_def pm_ok_def)

lemma pm_register_ok: "pm_ok pm \<Longrightarrow> pm_ok (pm_register p pm)"
  by (auto simp: pm_ok_def pm_register_def update_conv' split: if_splits)
     (fastforce simp: dom_def)+

lemma pm_remove_ok: "pm_ok pm \<Longrightarrow> pm_ok (pm_remove pid pm)"
  by (auto simp: pm_ok_def pm_remove_def)

lemma pm_collect_ok:
  assumes "pm_ok pm" "map_of (pm_store pm) pid = Some q" "pm_collect c pid l fin p pm = (r, pm')"
  shows "pm_ok pm'"
proof -
  obtain r' p' where "process_result c pid l (\<not> fin) p = (r', p')" by fastforce
  with assms show ?thesis
    by (auto simp: pm_collect_def Let_def intro!: pm_remove_ok same_ids_ok [OF same_ids_put])
qed

lemma pm_start_ok: "pm_ok pm \<Longrightarrow> pm_start le p ws t c l pm = (r, pm', ev) \<Longrightarrow> pm_ok pm'"
proof (cases le)
  case None
  moreover assume ok: "pm_ok pm" and s: "pm_start le p ws t c l pm = (r, pm', ev)"
  obtain pm1 e1 where w: "pm_worlds ws (pm_register p pm) = (pm1, e1)" by fastforce
  have "pm_ok pm1"
    using same_ids_ok [OF pm_worlds_ids [of "pm_register p pm" ws]] pm_register_ok [OF ok] by (simp add: w)
  with None s show ?thesis
    by (auto simp: pm_start_def Let_def w split: option.splits prod.splits intro: pm_collect_ok)
qed (simp add: pm_start_def)

lemma pm_write_stdin_ok:
  "pm_ok pm \<Longrightarrow> pm_write_stdin pid ch io ws ca c l em pm = (r, pm', acts, ev) \<Longrightarrow> pm_ok pm'"
proof -
  assume ok: "pm_ok pm" and s: "pm_write_stdin pid ch io ws ca c l em pm = (r, pm', acts, ev)"
  obtain pm1 e1 where w: "pm_worlds ws pm = (pm1, e1)" by fastforce
  have ok1: "pm_ok pm1" using same_ids_ok [OF pm_worlds_ids [of pm ws] ok] by (simp add: w)
  show ?thesis
  proof (cases "map_of (pm_store pm1) pid")
    case None
    with s ok ok1 show ?thesis
      by (auto simp: pm_write_stdin_def Let_def w split: option.splits if_splits prod.splits)
  next
    case (Some q)
    obtain r1 pm2 where c: "pm_collect c pid l (mp_done q) q pm1 = (r1, pm2)" by fastforce
    from pm_collect_ok [OF ok1 Some c] s ok ok1 Some show ?thesis
      by (auto simp: pm_write_stdin_def Let_def w c split: option.splits if_splits)
  qed
qed

lemma pm_reach_ok: "pm_reach pm \<Longrightarrow> pm_ok pm"
proof (induction rule: pm_reach.induct)
  case init
  show ?case by (simp add: pm_ok_def new_process_manager_def)
next
  case (outside pm w pm' ev)
  then show ?case using same_ids_ok [OF pm_world_ids [of pm w]] by simp
next
  case (close pm pm' acts)
  then show ?case by (auto simp: pm_ok_def pm_close_def)
qed (auto intro: pm_start_ok pm_write_stdin_ok)

text \<open>
  Session numbers are never reused: in every reachable state of the manager a new process gets the
  next number, which no process ever had, numbers start at 1000, and the call reports this number exactly when the
  process is still running, in which case the manager knows it.
\<close>

theorem start_session_id_fresh:
  assumes "pm_reach pm" and "pm_start None p ws timer_first chunk_id limit pm = (Inr r, pm', ev)"
  shows "1000 \<le> pm_next_id pm \<and> map_of (pm_store pm) (pm_next_id pm) = None \<and>
    pm_next_id pm' = pm_next_id pm + 1 \<and>
    (er_session_id r = Some (pm_next_id pm) \<and> er_exit_code r = None \<and> pm_next_id pm \<in> set (pm_registered pm') \<or>
     er_session_id r = None \<and> er_exit_code r \<noteq> None \<and> pm_next_id pm \<notin> set (pm_registered pm'))"
proof -
  note ok = pm_reach_ok [OF assms(1)]
  let ?i = "pm_next_id pm"
  obtain pm1 e1 where w: "pm_worlds ws (pm_register p pm) = (pm1, e1)" by fastforce
  have ids: "same_ids (pm_register p pm) pm1" using pm_worlds_ids [of "pm_register p pm" ws] by (simp add: w)
  from assms(2) obtain q where q: "map_of (pm_store pm1) ?i = Some q"
    by (auto simp: pm_start_def Let_def w split: option.splits)
  obtain r1 q' where pr: "process_result chunk_id ?i limit (\<not> (mp_done q \<and> \<not> timer_first)) q = (r1, q')"
    by fastforce
  from assms(2) q pr have r: "r = r1" and pm': "pm' = (if mp_done q \<and> \<not> timer_first
      then pm_remove ?i (put_process ?i q' pm1) else put_process ?i q' pm1)"
    by (auto simp: pm_start_def Let_def w pm_collect_def split: if_splits)
  have reg: "pm_registered pm1 = pm_registered pm @ [?i]" "pm_next_id pm1 = ?i + 1"
    using ids by (simp_all add: same_ids_def pm_register_def)
  have "er_session_id r1 = (if mp_done q \<and> \<not> timer_first then None else Some ?i)"
    "er_exit_code r1 = (if mp_done q \<and> \<not> timer_first then Some (mp_exit_code q) else None)"
    using pr by (auto simp: process_result_def Let_def split: prod.splits)
  moreover have "map_of (pm_store pm) ?i = None" "1000 \<le> ?i"
    using ok by (fastforce simp: pm_ok_def)+
  ultimately show ?thesis
    using reg by (auto simp: r pm' pm_remove_def put_process_def)
qed

theorem start_session_id_fresh_witness:
  "\<exists>r pm' ev. pm_start None (new_process None False [] ''call'' False) [] False ''id'' 1024 new_process_manager
      = (Inr r, pm', ev) \<and> er_session_id r = Some 1000"
proof -
  let ?p = "new_process None False [] ''call'' False"
  obtain r q where r: "process_result ''id'' 1000 1024 True ?p = (r, q)" by fastforce
  then have running: "er_session_id r = Some 1000"
    by (auto simp: process_result_def Let_def split: prod.splits)
  have "\<exists>pm'. pm_start None ?p [] False ''id'' 1024 new_process_manager = (Inr r, pm', [])"
    using r by (simp add: pm_start_def pm_register_def new_process_manager_def pm_collect_def)
       (simp add: new_process_def)
  then obtain pm' where s: "pm_start None ?p [] False ''id'' 1024 new_process_manager = (Inr r, pm', [])"
    by blast
  with start_session_id_fresh [OF pm_reach.init s] running show ?thesis by blast
qed

subsection \<open>A finished process is reported once\<close>

lemma pm_start_state:
  assumes "pm_start le p ws t c l pm = (r, pm', ev)"
  shows "pm' = pm \<or> (\<exists>pm1 e. pm_worlds ws (pm_register p pm) = (pm1, e) \<and>
    (pm' = pm1 \<or> (\<exists>fin q r1. pm_collect c (pm_next_id pm) l fin q pm1 = (r1, pm'))))"
proof -
  obtain pm1 e where w: "pm_worlds ws (pm_register p pm) = (pm1, e)" by fastforce
  show ?thesis
  proof (cases "le \<noteq> None \<or> map_of (pm_store pm1) (pm_next_id pm) = None")
    case True
    with assms w show ?thesis by (auto simp: pm_start_def Let_def split: option.splits)
  next
    case False
    with assms w show ?thesis by (auto simp: pm_start_def Let_def split: prod.splits)
  qed
qed

lemma pm_write_stdin_state:
  assumes "pm_write_stdin k ch io ws ca c l em pm = (r, pm', acts, ev)"
  shows "pm' = pm \<or> (\<exists>pm1 e. pm_worlds ws pm = (pm1, e) \<and>
    (pm' = pm1 \<or> (\<exists>fin q r1. pm_collect c k l fin q pm1 = (r1, pm'))))"
proof -
  obtain pm1 e where w: "pm_worlds ws pm = (pm1, e)" by fastforce
  show ?thesis
  proof (cases "map_of (pm_store pm1) k")
    case None
    with assms w show ?thesis
      by (auto simp: pm_write_stdin_def Let_def split: option.splits if_splits)
  next
    case (Some q)
    obtain r1 pm2 where c: "pm_collect c k l (mp_done q) q pm1 = (r1, pm2)" by fastforce
    with assms w Some show ?thesis
      by (auto simp: pm_write_stdin_def Let_def split: option.splits if_splits)
  qed
qed

lemma unregistered_stays:
  assumes "pid \<notin> set (pm_registered pm)" "pid < pm_next_id pm"
  shows "pm_start le p ws t c l pm = (r, pm', ev) \<Longrightarrow> pid \<notin> set (pm_registered pm') \<and> pid < pm_next_id pm'"
    and "pm_write_stdin k ch io ws ca c l em pm = (r, pm', acts, ev) \<Longrightarrow>
      pid \<notin> set (pm_registered pm') \<and> pid < pm_next_id pm'"
    and "pm_world w pm = (pm', ev) \<Longrightarrow> pid \<notin> set (pm_registered pm') \<and> pid < pm_next_id pm'"
    and "pm_close pm = (pm', acts) \<Longrightarrow> pid \<notin> set (pm_registered pm') \<and> pid < pm_next_id pm'"
proof -
  have collect: "pid \<notin> set (pm_registered x) \<Longrightarrow> pid < pm_next_id x \<Longrightarrow> pm_collect c k l fin q x = (r1, y) \<Longrightarrow>
      pid \<notin> set (pm_registered y) \<and> pid < pm_next_id y" for c k l fin q x r1 y
    by (auto simp: pm_collect_def Let_def put_process_def pm_remove_def split: prod.splits if_splits)
  have worlds: "pid \<notin> set (pm_registered x) \<Longrightarrow> pid < pm_next_id x \<Longrightarrow> pm_worlds ws x = (y, e) \<Longrightarrow>
      pid \<notin> set (pm_registered y) \<and> pid < pm_next_id y" for x y ws e
    using pm_worlds_ids [of x ws] by (simp add: same_ids_def)
  have reg: "pid \<notin> set (pm_registered (pm_register p pm)) \<and> pid < pm_next_id (pm_register p pm)"
    using assms by (simp add: pm_register_def)
  show "pm_start le p ws t c l pm = (r, pm', ev) \<Longrightarrow> pid \<notin> set (pm_registered pm') \<and> pid < pm_next_id pm'"
    using assms reg worlds collect by (blast dest: pm_start_state)
  show "pm_write_stdin k ch io ws ca c l em pm = (r, pm', acts, ev) \<Longrightarrow>
      pid \<notin> set (pm_registered pm') \<and> pid < pm_next_id pm'"
    using assms worlds collect by (blast dest: pm_write_stdin_state)
  show "pm_world w pm = (pm', ev) \<Longrightarrow> pid \<notin> set (pm_registered pm') \<and> pid < pm_next_id pm'"
    using assms pm_world_ids [of pm w] by (simp add: same_ids_def)
  show "pm_close pm = (pm', acts) \<Longrightarrow> pid \<notin> set (pm_registered pm') \<and> pid < pm_next_id pm'"
    using assms by (auto simp: pm_close_def)
qed

text \<open>Later states of the manager.\<close>

inductive pm_later :: "process_manager \<Rightarrow> process_manager \<Rightarrow> bool" where
  now: "pm_later pm pm"
| start: "pm_later pm a \<Longrightarrow> pm_start le p ws timer_first chunk_id limit a = (r, b, ev) \<Longrightarrow> pm_later pm b"
| stdin: "pm_later pm a \<Longrightarrow>
    pm_write_stdin pid chars io ws cancelled chunk_id limit emits a = (r, b, acts, ev) \<Longrightarrow> pm_later pm b"
| outside: "pm_later pm a \<Longrightarrow> pm_world w a = (b, ev) \<Longrightarrow> pm_later pm b"
| close: "pm_later pm a \<Longrightarrow> pm_close a = (b, acts) \<Longrightarrow> pm_later pm b"

lemma later_unregistered:
  "pm_later pm pm' \<Longrightarrow> pid \<notin> set (pm_registered pm) \<Longrightarrow> pid < pm_next_id pm \<Longrightarrow>
    pid \<notin> set (pm_registered pm') \<and> pid < pm_next_id pm'"
  by (induction rule: pm_later.induct) (blast dest: unregistered_stays)+



end
