(* ===== verification/History.thy ===== *)
theory History
  imports Protocol
begin

section \<open>Conversation history: internal/session/history.go\<close>

text \<open>
  The history holds the items the model has seen, oldest first. Before a request it is
  normalised, without changing what is stored: the Responses API wants an output for every
  function call and a call for every output.
\<close>

definition recordable :: "response_item \<Rightarrow> bool" where
  "recordable item \<longleftrightarrow>
     ri_type item \<in> {''message'', ''reasoning'', ''function_call'', ''function_call_output''}"

type_synonym history = "response_item list"

definition record_items :: "response_item list \<Rightarrow> history \<Rightarrow> history" where
  "record_items items h = h @ filter recordable items"

definition restore :: "response_item list \<Rightarrow> history \<Rightarrow> history" where
  "restore items h = filter recordable items"

definition replace_history :: "response_item list \<Rightarrow> history \<Rightarrow> history" where
  "replace_history items h = restore items h"

definition is_call :: "response_item \<Rightarrow> bool" where
  "is_call item \<longleftrightarrow> ri_type item = ''function_call''"

definition is_output :: "response_item \<Rightarrow> bool" where
  "is_output item \<longleftrightarrow> ri_type item = ''function_call_output''"

definition call_ids :: "response_item list \<Rightarrow> string list" where
  "call_ids items = map ri_call_id (filter (\<lambda>i. is_call i \<and> ri_call_id i \<noteq> []) items)"

definition output_ids :: "response_item list \<Rightarrow> string list" where
  "output_ids items = map ri_call_id (filter (\<lambda>i. is_output i \<and> ri_call_id i \<noteq> []) items)"

definition aborted :: "string \<Rightarrow> response_item" where
  "aborted cid = new_function_call_output cid ''aborted''"

fun normalize_loop :: "string list \<Rightarrow> string list \<Rightarrow> response_item list \<Rightarrow> response_item list" where
  "normalize_loop calls outputs [] = []"
| "normalize_loop calls outputs (item # items) =
     (if is_output item \<and> ri_call_id item \<notin> set calls then normalize_loop calls outputs items
      else item # (if is_call item \<and> ri_call_id item \<notin> set outputs then [aborted (ri_call_id item)] else [])
             @ normalize_loop calls outputs items)"

definition normalize_for_prompt :: "response_item list \<Rightarrow> response_item list" where
  "normalize_for_prompt items = normalize_loop (call_ids items) (output_ids items) items"

definition for_prompt :: "history \<Rightarrow> response_item list" where
  "for_prompt h = normalize_for_prompt h"

text \<open>\<open>render\<close> is the marshalling of a document to text.\<close>

definition estimated_tokens :: "(json \<Rightarrow> string) \<Rightarrow> history \<Rightarrow> nat" where
  "estimated_tokens render h = (length (render (JArr (map item_json h))) + 3) div 4"

subsection \<open>What normalising keeps and adds\<close>

lemma call_not_output [simp]: "is_call i \<Longrightarrow> \<not> is_output i"
  by (simp add: is_call_def is_output_def)

lemma aborted_simps [simp]:
  "is_output (aborted c)" "\<not> is_call (aborted c)" "ri_call_id (aborted c) = c"
  by (simp_all add: aborted_def is_output_def is_call_def)

text \<open>All items but the outputs are kept, in order.\<close>

lemma normalize_keeps:
  "filter (\<lambda>i. \<not> is_output i) (normalize_loop cs os items) = filter (\<lambda>i. \<not> is_output i) items"
  by (induction items) auto

lemma normalize_item:
  "i \<in> set (normalize_loop cs os items) \<longleftrightarrow>
     (i \<in> set items \<and> \<not> (is_output i \<and> ri_call_id i \<notin> set cs)) \<or>
     (\<exists>c \<in> set items. is_call c \<and> ri_call_id c \<notin> set os \<and> i = aborted (ri_call_id c))"
  by (induction items) (auto split: if_splits)

lemma call_ids_set: "cid \<in> set (call_ids items) \<longleftrightarrow> (\<exists>c \<in> set items. is_call c \<and> ri_call_id c = cid \<and> cid \<noteq> [])"
  by (auto simp: call_ids_def)

lemma output_ids_set:
  "cid \<in> set (output_ids items) \<longleftrightarrow> (\<exists>c \<in> set items. is_output c \<and> ri_call_id c = cid \<and> cid \<noteq> [])"
  by (auto simp: output_ids_def)

lemma call_ids_normalize: "call_ids (normalize_loop cs os items) = call_ids items"
proof -
  have same: "filter (\<lambda>i. is_call i \<and> ri_call_id i \<noteq> []) xs =
      filter (\<lambda>i. is_call i \<and> ri_call_id i \<noteq> []) (filter (\<lambda>i. \<not> is_output i) xs)" for xs
    by (induction xs) auto
  show ?thesis
    unfolding call_ids_def
    by (subst same, subst (2) same) (simp only: normalize_keeps)
qed

text \<open>Calls and outputs belong together.\<close>

definition paired :: "response_item list \<Rightarrow> bool" where
  "paired items \<longleftrightarrow>
     (\<forall>c \<in> set items. is_call c \<longrightarrow> (\<exists>v \<in> set items. is_output v \<and> ri_call_id v = ri_call_id c)) \<and>
     (\<forall>v \<in> set items. is_output v \<longrightarrow> (\<exists>c \<in> set items. is_call c \<and> ri_call_id c = ri_call_id v))"

lemma normalize_paired: "paired (normalize_for_prompt items)"
  unfolding paired_def
proof (intro conjI ballI impI)
  fix c
  assume "c \<in> set (normalize_for_prompt items)" "is_call c"
  then have c: "c \<in> set items" by (auto simp: normalize_for_prompt_def normalize_item)
  show "\<exists>v \<in> set (normalize_for_prompt items). is_output v \<and> ri_call_id v = ri_call_id c"
  proof (cases "ri_call_id c \<in> set (output_ids items)")
    case True
    then obtain v where v: "v \<in> set items" "is_output v" "ri_call_id v = ri_call_id c" "ri_call_id c \<noteq> []"
      by (auto simp: output_ids_set)
    then have "ri_call_id v \<in> set (call_ids items)"
      using c \<open>is_call c\<close> by (auto simp: call_ids_set)
    with v show ?thesis by (auto simp: normalize_for_prompt_def normalize_item intro!: bexI [of _ v])
  next
    case False
    with c \<open>is_call c\<close> show ?thesis
      by (intro bexI [of _ "aborted (ri_call_id c)"]) (auto simp: normalize_for_prompt_def normalize_item)
  qed
next
  fix v
  assume "v \<in> set (normalize_for_prompt items)" "is_output v"
  then consider "v \<in> set items" "ri_call_id v \<in> set (call_ids items)"
    | c where "c \<in> set items" "is_call c" "v = aborted (ri_call_id c)"
    by (auto simp: normalize_for_prompt_def normalize_item)
  then show "\<exists>c \<in> set (normalize_for_prompt items). is_call c \<and> ri_call_id c = ri_call_id v"
  proof cases
    case 1
    then obtain c where "c \<in> set items" "is_call c" "ri_call_id c = ri_call_id v" by (auto simp: call_ids_set)
    then show ?thesis by (intro bexI [of _ c]) (auto simp: normalize_for_prompt_def normalize_item)
  next
    case 2
    then show ?thesis by (intro bexI [of _ c]) (auto simp: normalize_for_prompt_def normalize_item)
  qed
qed

text \<open>On items that already are paired, by calls with an identifier, nothing changes.\<close>

lemma normalize_loop_id:
  "\<forall>i \<in> set items. (is_output i \<longrightarrow> ri_call_id i \<in> set cs) \<and> (is_call i \<longrightarrow> ri_call_id i \<in> set os) \<Longrightarrow>
    normalize_loop cs os items = items"
  by (induction items) auto

definition calls_named :: "response_item list \<Rightarrow> bool" where
  "calls_named items \<longleftrightarrow> (\<forall>c \<in> set items. is_call c \<longrightarrow> ri_call_id c \<noteq> [])"

lemma normalize_paired_id:
  assumes "paired items" "calls_named items"
  shows "normalize_for_prompt items = items"
  unfolding normalize_for_prompt_def
proof (rule normalize_loop_id, intro ballI conjI impI)
  fix i
  assume i: "i \<in> set items"
  show "ri_call_id i \<in> set (call_ids items)" if "is_output i"
    using that i assms unfolding paired_def calls_named_def call_ids_set by metis
  show "ri_call_id i \<in> set (output_ids items)" if "is_call i"
    using that i assms unfolding paired_def calls_named_def output_ids_set by metis
qed

lemma calls_named_normalize: "calls_named items \<Longrightarrow> calls_named (normalize_for_prompt items)"
  by (auto simp: calls_named_def normalize_for_prompt_def normalize_item)

text \<open>
  Property C26. What the model is sent is well formed: every function call has an output with its identifier and every
  output a call, all other items are those of the history in the same order, the only added items are \<open>aborted\<close>
  outputs of calls that had none, and, where every call has an identifier, normalising again changes nothing.
\<close>

theorem prompt_is_paired:
  "paired (for_prompt h) \<and>
   filter (\<lambda>i. \<not> is_output i) (for_prompt h) = filter (\<lambda>i. \<not> is_output i) h \<and>
   (\<forall>i \<in> set (for_prompt h). i \<in> set h \<or>
      (\<exists>c \<in> set h. is_call c \<and> ri_call_id c \<notin> set (output_ids h) \<and> i = aborted (ri_call_id c))) \<and>
   (calls_named h \<longrightarrow> normalize_for_prompt (for_prompt h) = for_prompt h)"
proof -
  have "paired (for_prompt h)" unfolding for_prompt_def by (rule normalize_paired)
  moreover have "calls_named h \<longrightarrow> normalize_for_prompt (for_prompt h) = for_prompt h"
    using normalize_paired calls_named_normalize unfolding for_prompt_def
    by (blast intro: normalize_paired_id)
  ultimately show ?thesis
    by (auto simp: for_prompt_def normalize_for_prompt_def normalize_keeps normalize_item)
qed

definition sample_call :: response_item where
  "sample_call = empty_item\<lparr>ri_type := ''function_call'', ri_call_id := ''c1'', ri_name := ''echo''\<rparr>"

theorem prompt_is_paired_witness:
  "normalize_for_prompt (for_prompt [sample_call]) = for_prompt [sample_call] \<and>
   for_prompt [sample_call] = [sample_call, aborted ''c1'']"
proof -
  have "calls_named [sample_call]" by (simp add: calls_named_def sample_call_def)
  moreover have "for_prompt [sample_call] = [sample_call, aborted ''c1'']"
    by (simp add: for_prompt_def normalize_for_prompt_def sample_call_def call_ids_def output_ids_def
        is_call_def is_output_def empty_item_def)
  ultimately show ?thesis using prompt_is_paired [of "[sample_call]"] by blast
qed

text \<open>
  A call that arrives without an identifier loses its error: the error output is recorded
  under the name \<open>invalid_function_call\<close>, no call has that identifier, so the prompt leaves it out, and the model sees
  only an \<open>aborted\<close> output with an empty identifier.
\<close>

theorem unnamed_call_loses_error:
  "let call = empty_item\<lparr>ri_type := ''function_call'', ri_name := n, ri_arguments := a\<rparr>;
       error = new_function_call_output ''invalid_function_call'' message in
   for_prompt (record_items [error] (record_items [call] [])) = [call, aborted []]"
  by (simp add: for_prompt_def normalize_for_prompt_def record_items_def recordable_def call_ids_def
      output_ids_def is_call_def is_output_def empty_item_def)

end
