(* ===== verification/Rollout.thy ===== *)
theory Rollout
  imports History GoFiles
begin

section \<open>The rollout: internal/session/rollout.go\<close>

text \<open>
  A Session appends one line of JSON per item to its rollout file and is resumed by replaying it.
  The recorder is modelled on the file system; \<open>render\<close> and \<open>parse\<close> are the text codec of JSON documents and the
  times are those of the clock, so parameters. The main theorem is that replaying gives back the
  live history, for every sequence of recorded items, compactions and events.
\<close>

record rollout_line =
  rl_timestamp :: string
  rl_ordinal :: int
  rl_type :: string
  rl_payload :: "json option"

definition line_json :: "rollout_line \<Rightarrow> json" where
  "line_json l = JObj ([(''timestamp'', JStr (rl_timestamp l)), (''ordinal'', JInt (rl_ordinal l)),
     (''type'', JStr (rl_type l))] @
     (case rl_payload l of Some p \<Rightarrow> [(''payload'', p)] | None \<Rightarrow> []))"

text \<open>A \<open>json.RawMessage\<close> keeps the value as it is, and \<open>uint64\<close> refuses negative numbers.\<close>

definition dec_raw :: "json \<Rightarrow> json option \<Rightarrow> json option option" where
  "dec_raw v old = Some (Some v)"

definition dec_uint64 :: "json \<Rightarrow> int \<Rightarrow> int option" where
  "dec_uint64 v old = (case v of JInt i \<Rightarrow> if 0 \<le> i \<and> i < 2 ^ 64 then Some i else None
     | JNull \<Rightarrow> Some old | _ \<Rightarrow> None)"

definition line_of_json :: "json \<Rightarrow> rollout_line option" where
  "line_of_json v =
     (case (string_field ''timestamp'' v, json_field dec_uint64 ''ordinal'' 0 v, string_field ''type'' v,
            json_field dec_raw ''payload'' None v) of
        (Some t, Some i, Some k, Some p) \<Rightarrow>
          Some \<lparr>rl_timestamp = t, rl_ordinal = i, rl_type = k, rl_payload = p\<rparr>
      | _ \<Rightarrow> None)"

record compacted_item =
  co_message :: string
  co_replacement_history :: "response_item list"
  co_estimated_tokens :: int

definition compacted_json :: "compacted_item \<Rightarrow> json" where
  "compacted_json c = JObj [(''message'', JStr (co_message c)),
     (''replacement_history'', JArr (map item_json (co_replacement_history c))),
     (''estimated_tokens'', JInt (co_estimated_tokens c))]"

definition compacted_of_json :: "json \<Rightarrow> compacted_item option" where
  "compacted_of_json v =
     (case (string_field ''message'' v, json_field (dec_list item_of_json) ''replacement_history'' [] v,
            int_field ''estimated_tokens'' v) of
        (Some m, Some h, Some t) \<Rightarrow>
          Some \<lparr>co_message = m, co_replacement_history = h, co_estimated_tokens = t\<rparr>
      | _ \<Rightarrow> None)"

subsection \<open>Reading lines\<close>

definition max_line_bytes :: nat where "max_line_bytes = 4 * 1024 * 1024"

text \<open>
  \<open>bufio.Scanner\<close> with its buffer limit: the lines, without a final empty one, each without its
  carriage return; a line that does not fit in the buffer stops the scan with an error.
\<close>

definition drop_cr :: "string \<Rightarrow> string" where
  "drop_cr l = (if l \<noteq> [] \<and> last l = CHR 0x0D then butlast l else l)"

definition text_lines :: "string \<Rightarrow> string list" where
  "text_lines s = (let ls = split_on newline s in if last ls = [] then butlast ls else ls)"

definition scan_lines :: "string \<Rightarrow> string list \<times> bool" where
  "scan_lines s =
     (let ls = text_lines s; fit = takeWhile (\<lambda>l. length l < max_line_bytes) ls
      in (map drop_cr fit, fit \<noteq> ls))"

subsection \<open>Replaying\<close>

datatype rollout_error =
    OpenRollout os_error
  | DecodeLine int            \<comment> \<open>the next ordinal\<close>
  | DecodeItem int            \<comment> \<open>the ordinal of the line\<close>
  | LineTooLong
  | CreateRolloutDirectory os_error
  | ForkHasHistory
  | RecorderFailed

definition replay_line :: "rollout_line \<Rightarrow> response_item list \<times> int \<Rightarrow>
    (rollout_error, response_item list \<times> int) result" where
  "replay_line l st =
     (let (items, next) = st;
          next' = (if next \<le> rl_ordinal l then (rl_ordinal l + 1) mod 2 ^ 64 else next) in
      case rl_payload l of
        None \<Rightarrow> Inr (items, next')
      | Some p \<Rightarrow>
        if rl_type l = ''response_item'' then
          (case item_of_json p of
             None \<Rightarrow> Inl (DecodeItem (rl_ordinal l))
           | Some item \<Rightarrow> Inr (items @ [item], next'))
        else if rl_type l = ''compacted'' then
          (case compacted_of_json p of
             None \<Rightarrow> Inl (DecodeItem (rl_ordinal l))
           | Some c \<Rightarrow> Inr (co_replacement_history c, next'))
        else Inr (items, next'))"

fun replay_texts :: "(string \<Rightarrow> json option) \<Rightarrow> string list \<Rightarrow> response_item list \<times> int \<Rightarrow>
    (rollout_error, response_item list \<times> int) result" where
  "replay_texts parse [] st = Inr st"
| "replay_texts parse (t # ts) st =
     (case Option.bind (parse t) line_of_json of
        None \<Rightarrow> Inl (DecodeLine (snd st))
      | Some l \<Rightarrow> (case replay_line l st of Inl e \<Rightarrow> Inl e | Inr st' \<Rightarrow> replay_texts parse ts st'))"

text \<open>\<open>ReadRollout\<close>.\<close>

definition read_rollout :: "(string \<Rightarrow> json option) \<Rightarrow> fs \<Rightarrow> apath \<Rightarrow>
    (rollout_error, response_item list \<times> int) result" where
  "read_rollout parse d path =
     (case read_file d path of
        Inl e \<Rightarrow> if e = NotExist then Inr ([], 0) else Inl (OpenRollout e)
      | Inr text \<Rightarrow>
        (let (ts, too_long) = scan_lines text in
         case replay_texts parse ts ([], 0) of
           Inl e \<Rightarrow> Inl e
         | Inr st \<Rightarrow> if too_long then Inl LineTooLong else Inr st))"

subsection \<open>Recording\<close>

record rollout_recorder =
  rr_path :: string
  rr_ordinal :: int
  rr_open :: bool
  rr_failed :: bool

text \<open>
  \<open>recordItem\<close>; the file is open for appending, and a write after \<open>close\<close> fails and is remembered.
\<close>

definition record_item :: "(json \<Rightarrow> string) \<Rightarrow> string \<Rightarrow> string \<Rightarrow> json \<Rightarrow> rollout_recorder \<times> fs \<Rightarrow>
    rollout_recorder \<times> fs" where
  "record_item render now item_type payload s =
     (let (rr, d) = s in
      if rr_failed rr then (rr, d)
      else if \<not> rr_open rr then (rr\<lparr>rr_failed := True\<rparr>, d)
      else (let l = \<lparr>rl_timestamp = now, rl_ordinal = rr_ordinal rr, rl_type = item_type,
                     rl_payload = Some payload\<rparr>
            in case append_file (apath_of (rr_path rr)) (render (line_json l) @ [newline]) d of
                 Inl e \<Rightarrow> (rr\<lparr>rr_failed := True\<rparr>, d)
               | Inr d' \<Rightarrow> (rr\<lparr>rr_ordinal := (rr_ordinal rr + 1) mod 2 ^ 64\<rparr>, d')))"

definition record_response_items :: "(json \<Rightarrow> string) \<Rightarrow> string \<Rightarrow> response_item list \<Rightarrow>
    rollout_recorder \<times> fs \<Rightarrow> rollout_recorder \<times> fs" where
  "record_response_items render now items s =
     fold (\<lambda>i. record_item render now ''response_item'' (item_json i)) items s"

definition record_compacted :: "(json \<Rightarrow> string) \<Rightarrow> string \<Rightarrow> string \<Rightarrow> response_item list \<Rightarrow> int \<Rightarrow>
    rollout_recorder \<times> fs \<Rightarrow> rollout_recorder \<times> fs" where
  "record_compacted render now message h tokens s =
     record_item render now ''compacted''
       (compacted_json \<lparr>co_message = message, co_replacement_history = h, co_estimated_tokens = tokens\<rparr>) s"

definition trim_suffix :: "string \<Rightarrow> string \<Rightarrow> string" where
  "trim_suffix suf s = (if suffix suf s then take (length s - length suf) s else s)"

definition record_session_meta :: "(json \<Rightarrow> string) \<Rightarrow> string \<Rightarrow> string \<Rightarrow>
    rollout_recorder \<times> fs \<Rightarrow> rollout_recorder \<times> fs" where
  "record_session_meta render now workspace_root s =
     (if rr_ordinal (fst s) \<noteq> 0 then s
      else (let path = rr_path (fst s) in
        record_item render now ''session_meta''
          (JObj [(''id'', JStr (trim_suffix (path_ext path) (base_name path))), (''started_at'', JStr now),
             (''cwd'', JStr workspace_root), (''source'', JStr ''lob_codex''),
             (''model_provider'', JStr ''openai'')]) s))"

definition record_turn_context :: "(json \<Rightarrow> string) \<Rightarrow> string \<Rightarrow> string \<Rightarrow> string \<Rightarrow>
    rollout_recorder \<times> fs \<Rightarrow> rollout_recorder \<times> fs" where
  "record_turn_context render now turn_id workspace_root s =
     record_item render now ''turn_context''
       (JObj [(''turn_id'', JStr turn_id), (''cwd'', JStr workspace_root),
          (''approval_policy'', JStr ''on-request''), (''sandbox_policy'', JStr ''workspace-write''),
          (''collaboration_mode'', JStr ''default'')]) s"

text \<open>\<open>recordEvent\<close>; \<open>event_json\<close> is the marshalling of an event.\<close>

definition transient :: "event_msg \<Rightarrow> bool" where
  "transient e = (case e of AgentMessageContentDelta _ _ \<Rightarrow> True | ExecCommandOutputDelta _ _ _ \<Rightarrow> True
     | _ \<Rightarrow> False)"

definition record_event :: "(json \<Rightarrow> string) \<Rightarrow> (event_msg \<Rightarrow> json) \<Rightarrow> string \<Rightarrow> event_msg \<Rightarrow>
    rollout_recorder \<times> fs \<Rightarrow> rollout_recorder \<times> fs" where
  "record_event render event_json now e s =
     (if transient e then s else record_item render now ''event_msg'' (event_json e) s)"

definition close_recorder :: "rollout_recorder \<Rightarrow> rollout_recorder" where
  "close_recorder rr = rr\<lparr>rr_open := False\<rparr>"

definition open_rollout :: "(string \<Rightarrow> json option) \<Rightarrow> string \<Rightarrow> fs \<Rightarrow>
    (rollout_error, rollout_recorder \<times> response_item list) result \<times> fs" where
  "open_rollout parse path d =
     (case read_rollout parse d (apath_of path) of
        Inl e \<Rightarrow> (Inl e, d)
      | Inr (items, next) \<Rightarrow>
        (case mkdir_all (apath_of (dir_name path)) d of
           Inl e \<Rightarrow> (Inl (CreateRolloutDirectory e), d)
         | Inr d1 \<Rightarrow>
           (case append_file (apath_of path) [] d1 of
              Inl e \<Rightarrow> (Inl (OpenRollout e), d1)
            | Inr d2 \<Rightarrow>
                (Inr (\<lparr>rr_path = path, rr_ordinal = next, rr_open = True, rr_failed = False\<rparr>, items), d2))))"

text \<open>\<open>WriteRollout\<close>, which creates the rollout of a fork.\<close>

definition write_rollout :: "(json \<Rightarrow> string) \<Rightarrow> (string \<Rightarrow> json option) \<Rightarrow> string \<Rightarrow> string \<Rightarrow> string \<Rightarrow>
    response_item list \<Rightarrow> fs \<Rightarrow> rollout_error option \<times> fs" where
  "write_rollout render parse now path workspace_root items d =
     (case open_rollout parse path d of
        (Inl e, d') \<Rightarrow> (Some e, d')
      | (Inr (rr, existing), d') \<Rightarrow>
          if existing \<noteq> [] then (Some ForkHasHistory, d')
          else (case record_response_items render now items
                  (record_session_meta render now workspace_root (rr, d')) of
                  (rr', d'') \<Rightarrow> (if rr_failed rr' then Some RecorderFailed else None, d'')))"

subsection \<open>Appending a line and reading it back\<close>

text \<open>What the text codec guarantees of a document that is written: one line that reads back, within the limit of the reader.\<close>

definition good_text :: "(json \<Rightarrow> string) \<Rightarrow> (string \<Rightarrow> json option) \<Rightarrow> json \<Rightarrow> bool" where
  "good_text render parse j \<longleftrightarrow>
     parse (render j) = Some j \<and> newline \<notin> set (render j) \<and> render j \<noteq> [] \<and>
     last (render j) \<noteq> CHR 0x0D \<and> length (render j) < max_line_bytes"

definition ends_line :: "string \<Rightarrow> bool" where
  "ends_line s \<longleftrightarrow> s = [] \<or> last s = newline"

lemma split_on_snoc: "split_on c (s @ [c]) = split_on c s @ [[]]"
  by (induction s) (auto split: list.splits)

lemma split_on_line: "split_on c (s @ c # r) = split_on c s @ split_on c r"
proof (induction s)
  case (Cons x s)
  then show ?case by (cases "split_on c s") auto
qed simp

lemma text_lines_append:
  assumes "ends_line s" "newline \<notin> set r"
  shows "text_lines (s @ r @ [newline]) = text_lines s @ [r]"
proof (cases "s = []")
  case True
  have "split_on newline (r @ [newline]) = [r, []]"
    using assms(2) split_on_append [of newline r "[]"] by simp
  then show ?thesis by (simp add: text_lines_def True)
next
  case False
  with assms(1) obtain t where t: "s = t @ [newline]" by (metis append_butlast_last_id ends_line_def)
  have "split_on newline (s @ r @ [newline]) = split_on newline t @ [r, []]"
    using assms(2) split_on_line [of newline t "r @ [newline]"] split_on_append [of newline r "[]"]
    by (simp add: t)
  moreover have "split_on newline s = split_on newline t @ [[]]" by (simp add: t split_on_snoc)
  ultimately show ?thesis by (simp add: text_lines_def butlast_append)
qed

lemma scan_lines_append:
  assumes "ends_line s" "good_text render parse j" "scan_lines s = (ts, False)"
  shows "scan_lines (s @ render j @ [newline]) = (ts @ [render j], False)"
proof -
  let ?fits = "\<lambda>l. length l < max_line_bytes"
  have g: "newline \<notin> set (render j)" "render j \<noteq> []" "last (render j) \<noteq> CHR 0x0D" "?fits (render j)"
    using assms(2) by (auto simp: good_text_def)
  have fit: "takeWhile ?fits (text_lines s) = text_lines s"
    using assms(3) by (auto simp: scan_lines_def Let_def)
  have ts: "ts = map drop_cr (text_lines s)"
    using assms(3) unfolding scan_lines_def Let_def fit by simp
  from fit have all: "\<forall>l \<in> set (text_lines s). ?fits l" unfolding takeWhile_eq_all_conv .
  have fit': "takeWhile ?fits (text_lines s @ [render j]) = text_lines s @ [render j]"
    unfolding takeWhile_eq_all_conv using all g(4) by simp
  have "drop_cr (render j) = render j" using g by (simp add: drop_cr_def)
  then show ?thesis
    unfolding scan_lines_def Let_def text_lines_append [OF assms(1) g(1)] fit' ts by simp
qed

lemma scan_lines_long:
  assumes "ends_line s" "newline \<notin> set r" "max_line_bytes \<le> length r" "scan_lines s = (ts, False)"
  shows "scan_lines (s @ r @ [newline]) = (ts, True)"
proof -
  let ?fits = "\<lambda>l. length l < max_line_bytes"
  have fit: "takeWhile ?fits (text_lines s) = text_lines s"
    using assms(4) by (auto simp: scan_lines_def Let_def)
  have ts: "ts = map drop_cr (text_lines s)"
    using assms(4) unfolding scan_lines_def Let_def fit by simp
  from fit have "\<forall>l \<in> set (text_lines s). ?fits l" unfolding takeWhile_eq_all_conv .
  then have "takeWhile ?fits (text_lines s @ [r]) = text_lines s"
    using assms(3) by (simp add: takeWhile_append2)
  then show ?thesis
    unfolding scan_lines_def Let_def text_lines_append [OF assms(1,2)] ts by simp
qed

lemma replay_texts_append:
  "replay_texts parse (ts @ us) st =
     (case replay_texts parse ts st of Inl e \<Rightarrow> Inl e | Inr st' \<Rightarrow> replay_texts parse us st')"
  by (induction ts arbitrary: st) (auto split: option.splits sum.splits)

definition line_keys :: "string list" where
  "line_keys = [''timestamp'', ''ordinal'', ''type'', ''payload'', ''message'', ''replacement_history'',
     ''estimated_tokens'']"

lemma fold_line_keys: "map fold_name line_keys = line_keys"
  by (simp add: line_keys_def lower_char_def byte_of_def)

lemma line_key_matrix: "\<forall>k \<in> set line_keys. \<forall>l \<in> set line_keys. key_matches k l \<longleftrightarrow> k = l"
proof -
  have "\<forall>x \<in> set line_keys. fold_name x = x"
    using fold_line_keys by (metis map_idI map_eq_conv list.map_ident)
  then show ?thesis by (auto simp: key_matches_def)
qed

lemmas line_key_simps = line_key_matrix [unfolded line_keys_def, simplified]

lemma line_json_inverse:
  "0 \<le> rl_ordinal l \<Longrightarrow> rl_ordinal l < 2 ^ 64 \<Longrightarrow> line_of_json (line_json l) = Some l"
  by (cases "rl_payload l")
     (simp_all add: line_of_json_def line_json_def string_field_def json_field_def line_key_simps
       dec_uint64_def dec_raw_def)

lemma items_json_inverse: "those (map item_of_json (map item_json is)) = Some is"
  by (induction "is") (simp_all add: item_json_decodes)

lemma compacted_json_inverse: "int64 (co_estimated_tokens c) \<Longrightarrow> compacted_of_json (compacted_json c) = Some c"
  by (simp add: compacted_of_json_def compacted_json_def string_field_def int_field_def json_field_def
      line_key_simps items_json_inverse del: map_map)

subsection \<open>The live history and the file agree\<close>

definition rollout_holds :: "(string \<Rightarrow> json option) \<Rightarrow> rollout_recorder \<Rightarrow> fs \<Rightarrow> history \<Rightarrow> bool" where
  "rollout_holds parse rr d h \<longleftrightarrow> rr_open rr \<and> \<not> rr_failed rr \<and> 0 \<le> rr_ordinal rr \<and> rr_ordinal rr < 2 ^ 64 \<and>
     (\<exists>text ts items. read_file d (apath_of (rr_path rr)) = Inr text \<and> ends_line text \<and>
        scan_lines text = (ts, False) \<and> replay_texts parse ts ([], 0) = Inr (items, rr_ordinal rr) \<and>
        filter recordable items = h)"

lemma append_reads:
  "read_file d p = Inr t \<Longrightarrow>
    \<exists>d'. append_file p c d = Inr d' \<and> read_file d' p = Inr (t @ c)"
proof -
  assume r: "read_file d p = Inr t"
  then have dirs: "\<forall>a \<in> set (ancestors p). node_at d a = Some Dir" and f: "node_at d p = Some (File t)"
    by (auto simp: read_file_Inr)
  have "p \<notin> set (ancestors p)" using ancestors_less by auto
  moreover have "blocked d p = None" using dirs by (simp add: blocked_None)
  ultimately show ?thesis
    using dirs f by (auto simp: append_file_def read_file_Inr update_conv')
qed

text \<open>One recorded line: the replay of the file takes one more step.\<close>

lemma record_item_holds:
  assumes "rollout_holds parse rr d h"
    and "good_text render parse (line_json \<lparr>rl_timestamp = now, rl_ordinal = rr_ordinal rr,
           rl_type = kind, rl_payload = Some p\<rparr>)"
    and "\<And>items. filter recordable items = h \<Longrightarrow>
      \<exists>items'. replay_line \<lparr>rl_timestamp = now, rl_ordinal = rr_ordinal rr, rl_type = kind, rl_payload = Some p\<rparr>
          (items, rr_ordinal rr) = Inr (items', (rr_ordinal rr + 1) mod 2 ^ 64) \<and> filter recordable items' = h'"
    and "record_item render now kind p (rr, d) = (rr', d')"
  shows "rollout_holds parse rr' d' h' \<and> rr_path rr' = rr_path rr"
proof -
  let ?l = "\<lparr>rl_timestamp = now, rl_ordinal = rr_ordinal rr, rl_type = kind, rl_payload = Some p\<rparr>"
  let ?path = "apath_of (rr_path rr)"
  from assms(1) obtain t ts items where rr: "rr_open rr" "\<not> rr_failed rr" "0 \<le> rr_ordinal rr" "rr_ordinal rr < 2 ^ 64"
    and t: "read_file d ?path = Inr t" "ends_line t" "scan_lines t = (ts, False)"
    and replay: "replay_texts parse ts ([], 0) = Inr (items, rr_ordinal rr)" "filter recordable items = h"
    by (auto simp: rollout_holds_def)
  let ?new = "render (line_json ?l) @ [newline]"
  obtain d1 where d1: "append_file ?path ?new d = Inr d1" "read_file d1 ?path = Inr (t @ ?new)"
    using append_reads [OF t(1)] by blast
  with assms(4) rr have out: "d' = d1" "rr' = rr\<lparr>rr_ordinal := (rr_ordinal rr + 1) mod 2 ^ 64\<rparr>"
    by (auto simp: record_item_def Let_def)
  obtain items' where step: "replay_line ?l (items, rr_ordinal rr) = Inr (items', (rr_ordinal rr + 1) mod 2 ^ 64)"
    "filter recordable items' = h'"
    using assms(3) [OF replay(2)] by blast
  have "parse (render (line_json ?l)) = Some (line_json ?l)" using assms(2) by (simp add: good_text_def)
  then have "replay_texts parse (ts @ [render (line_json ?l)]) ([], 0) =
      Inr (items', (rr_ordinal rr + 1) mod 2 ^ 64)"
    using replay step(1) rr by (simp add: replay_texts_append line_json_inverse)
  moreover have "scan_lines (t @ ?new) = (ts @ [render (line_json ?l)], False)"
    by (rule scan_lines_append [OF t(2) assms(2) t(3)])
  moreover have "ends_line (t @ ?new)" by (simp add: ends_line_def)
  ultimately show ?thesis
    using d1 rr step(2) by (auto simp: rollout_holds_def out)
qed

lemma record_item_ordinal:
  "rollout_holds parse rr d h \<Longrightarrow> record_item render now kind p (rr, d) = (rr', d') \<Longrightarrow>
    rr_ordinal rr' = (rr_ordinal rr + 1) mod 2 ^ 64"
proof -
  assume h: "rollout_holds parse rr d h" and r: "record_item render now kind p (rr, d) = (rr', d')"
  let ?l = "\<lparr>rl_timestamp = now, rl_ordinal = rr_ordinal rr, rl_type = kind, rl_payload = Some p\<rparr>"
  from h obtain t where "read_file d (apath_of (rr_path rr)) = Inr t" by (auto simp: rollout_holds_def)
  from append_reads [OF this, of "render (line_json ?l) @ [newline]"] h r show ?thesis
    by (auto simp: record_item_def Let_def rollout_holds_def)
qed

text \<open>What a Session records.\<close>

datatype recorded =
    RecItems "response_item list"
  | RecCompacted string "response_item list" int
  | RecEvent event_msg
  | RecTurnContext string

text \<open>The operation on the recorder, and what happens to the live history beside it.\<close>

fun do_record :: "(json \<Rightarrow> string) \<Rightarrow> (event_msg \<Rightarrow> json) \<Rightarrow> string \<Rightarrow> string \<Rightarrow> recorded \<Rightarrow>
    rollout_recorder \<times> fs \<Rightarrow> rollout_recorder \<times> fs" where
  "do_record render ej root now (RecItems items) s = record_response_items render now items s"
| "do_record render ej root now (RecCompacted m r t) s = record_compacted render now m r t s"
| "do_record render ej root now (RecEvent e) s = record_event render ej now e s"
| "do_record render ej root now (RecTurnContext tid) s = record_turn_context render now tid root s"

fun live_history :: "recorded \<Rightarrow> history \<Rightarrow> history" where
  "live_history (RecItems items) h = record_items items h"
| "live_history (RecCompacted m r t) h = replace_history r h"
| "live_history _ h = h"

text \<open>The documents an operation writes, by type and payload.\<close>

fun payloads :: "(event_msg \<Rightarrow> json) \<Rightarrow> string \<Rightarrow> recorded \<Rightarrow> (string \<times> json) list" where
  "payloads ej root (RecItems items) = map (\<lambda>i. (''response_item'', item_json i)) items"
| "payloads ej root (RecCompacted m r t) = [(''compacted'', compacted_json
     \<lparr>co_message = m, co_replacement_history = r, co_estimated_tokens = t\<rparr>)]"
| "payloads ej root (RecEvent e) = (if transient e then [] else [(''event_msg'', ej e)])"
| "payloads ej root (RecTurnContext tid) = [(''turn_context'',
     JObj [(''turn_id'', JStr tid), (''cwd'', JStr root),
       (''approval_policy'', JStr ''on-request''), (''sandbox_policy'', JStr ''workspace-write''),
       (''collaboration_mode'', JStr ''default'')])]"

lemma do_record_payloads:
  "do_record render ej root now op s = fold (\<lambda>(k, p). record_item render now k p) (payloads ej root op) s"
  by (cases op) (simp_all add: record_response_items_def record_compacted_def record_event_def
      record_turn_context_def fold_map comp_def)

text \<open>The lines that a list of payloads becomes, numbered from \<open>n\<close>.\<close>

fun stamp :: "string \<Rightarrow> int \<Rightarrow> (string \<times> json) list \<Rightarrow> rollout_line list" where
  "stamp now n [] = []"
| "stamp now n ((k, p) # ps) =
     \<lparr>rl_timestamp = now, rl_ordinal = n, rl_type = k, rl_payload = Some p\<rparr> #
     stamp now ((n + 1) mod 2 ^ 64) ps"

definition payload_history :: "string \<times> json \<Rightarrow> history \<Rightarrow> history" where
  "payload_history kp h =
     (if fst kp = ''response_item'' then
        (case item_of_json (snd kp) of Some i \<Rightarrow> record_items [i] h | None \<Rightarrow> h)
      else if fst kp = ''compacted'' then
        (case compacted_of_json (snd kp) of Some c \<Rightarrow> restore (co_replacement_history c) h | None \<Rightarrow> h)
      else h)"

definition decodable :: "string \<times> json \<Rightarrow> bool" where
  "decodable kp \<longleftrightarrow> (fst kp = ''response_item'' \<longrightarrow> item_of_json (snd kp) \<noteq> None) \<and>
     (fst kp = ''compacted'' \<longrightarrow> compacted_of_json (snd kp) \<noteq> None)"

lemma replay_payload:
  assumes "decodable (k, p)" "filter recordable items = h"
  shows "\<exists>items'. replay_line \<lparr>rl_timestamp = now, rl_ordinal = n, rl_type = k, rl_payload = Some p\<rparr> (items, n) =
      Inr (items', (n + 1) mod 2 ^ 64) \<and> filter recordable items' = payload_history (k, p) h"
proof -
  consider (item) i where "k = ''response_item''" "item_of_json p = Some i"
    | (compacted) c where "k = ''compacted''" "compacted_of_json p = Some c"
    | (other) "k \<noteq> ''response_item''" "k \<noteq> ''compacted''"
    using assms(1) unfolding decodable_def by auto
  then show ?thesis
  proof cases
    case item
    with assms(2) show ?thesis by (simp add: replay_line_def payload_history_def record_items_def)
  next
    case compacted
    then show ?thesis by (simp add: replay_line_def payload_history_def restore_def)
  next
    case other
    with assms(2) show ?thesis by (simp add: replay_line_def payload_history_def)
  qed
qed

lemma record_payloads_holds:
  "rollout_holds parse rr d h \<Longrightarrow> \<forall>l \<in> set (stamp now (rr_ordinal rr) ps). good_text render parse (line_json l) \<Longrightarrow>
    list_all decodable ps \<Longrightarrow> fold (\<lambda>(k, p). record_item render now k p) ps (rr, d) = (rr', d') \<Longrightarrow>
    rollout_holds parse rr' d' (fold payload_history ps h) \<and> rr_path rr' = rr_path rr"
proof (induction ps arbitrary: rr d h)
  case (Cons kp ps)
  obtain k p where kp: "kp = (k, p)" by fastforce
  obtain rr1 d1 where r: "record_item render now k p (rr, d) = (rr1, d1)" by fastforce
  have "rollout_holds parse rr1 d1 (payload_history (k, p) h) \<and> rr_path rr1 = rr_path rr"
    using Cons.prems by (intro record_item_holds [OF Cons.prems(1) _ _ r] replay_payload) (simp_all add: kp)
  moreover have "rr_ordinal rr1 = (rr_ordinal rr + 1) mod 2 ^ 64"
    by (rule record_item_ordinal [OF Cons.prems(1) r])
  ultimately show ?case
    using Cons.IH [of rr1 d1 "payload_history (k, p) h"] Cons.prems by (simp add: kp r)
qed simp

fun op_ok :: "recorded \<Rightarrow> bool" where
  "op_ok (RecCompacted m r t) \<longleftrightarrow> int64 t"
| "op_ok _ \<longleftrightarrow> True"

lemma payloads_decodable: "op_ok op \<Longrightarrow> list_all decodable (payloads ej root op)"
  by (cases op) (auto simp: decodable_def item_json_decodes compacted_json_inverse list_all_iff)

lemma live_history_payloads: "op_ok op \<Longrightarrow> live_history op h = fold payload_history (payloads ej root op) h"
proof (cases op)
  case (RecItems items)
  have "fold payload_history (map (\<lambda>i. (''response_item'', item_json i)) items) h = record_items items h"
    by (induction items arbitrary: h)
       (simp_all add: record_items_def payload_history_def item_json_decodes)
  with RecItems show ?thesis by simp
qed (auto simp: payload_history_def compacted_json_inverse replace_history_def restore_def)

text \<open>A run of operations, each at its time: the lines written and the history kept beside it.\<close>

fun written :: "(event_msg \<Rightarrow> json) \<Rightarrow> string \<Rightarrow> (string \<times> recorded) list \<Rightarrow> int \<Rightarrow> rollout_line list" where
  "written ej root [] n = []"
| "written ej root ((now, op) # ops) n =
     stamp now n (payloads ej root op) @
     written ej root ops (fold (\<lambda>_ m. (m + 1) mod 2 ^ 64) (payloads ej root op) n)"

definition run_records :: "(json \<Rightarrow> string) \<Rightarrow> (event_msg \<Rightarrow> json) \<Rightarrow> string \<Rightarrow> (string \<times> recorded) list \<Rightarrow>
    rollout_recorder \<times> fs \<Rightarrow> rollout_recorder \<times> fs" where
  "run_records render ej root ops s = fold (\<lambda>(now, op). do_record render ej root now op) ops s"

definition run_history :: "(string \<times> recorded) list \<Rightarrow> history \<Rightarrow> history" where
  "run_history ops h = fold (\<lambda>(_, op). live_history op) ops h"

lemma record_payloads_ordinal:
  "rollout_holds parse rr d h \<Longrightarrow> \<forall>l \<in> set (stamp now (rr_ordinal rr) ps). good_text render parse (line_json l) \<Longrightarrow>
    list_all decodable ps \<Longrightarrow> fold (\<lambda>(k, p). record_item render now k p) ps (rr, d) = (rr', d') \<Longrightarrow>
    rr_ordinal rr' = fold (\<lambda>_ m. (m + 1) mod 2 ^ 64) ps (rr_ordinal rr)"
proof (induction ps arbitrary: rr d h)
  case (Cons kp ps)
  obtain k p where kp: "kp = (k, p)" by fastforce
  obtain rr1 d1 where r: "record_item render now k p (rr, d) = (rr1, d1)" by fastforce
  have "rollout_holds parse rr1 d1 (payload_history (k, p) h)"
    using record_payloads_holds [of parse rr d h now "[kp]" render rr1 d1] Cons.prems
    by (simp add: kp r)
  moreover have "rr_ordinal rr1 = (rr_ordinal rr + 1) mod 2 ^ 64"
    by (rule record_item_ordinal [OF Cons.prems(1) r])
  ultimately show ?case
    using Cons.IH [of rr1 d1 "payload_history (k, p) h"] Cons.prems by (simp add: kp r)
qed simp

lemma run_records_holds:
  "rollout_holds parse rr d h \<Longrightarrow> \<forall>l \<in> set (written ej root ops (rr_ordinal rr)). good_text render parse (line_json l) \<Longrightarrow>
    \<forall>(now, op) \<in> set ops. op_ok op \<Longrightarrow> run_records render ej root ops (rr, d) = (rr', d') \<Longrightarrow>
    rollout_holds parse rr' d' (run_history ops h) \<and> rr_path rr' = rr_path rr"
proof (induction ops arbitrary: rr d h)
  case (Cons o' ops)
  obtain now op where o': "o' = (now, op)" by fastforce
  obtain rr1 d1 where r: "fold (\<lambda>(k, p). record_item render now k p) (payloads ej root op) (rr, d) = (rr1, d1)"
    by fastforce
  have ok: "op_ok op" using Cons.prems(3) by (simp add: o')
  have good: "\<forall>l \<in> set (stamp now (rr_ordinal rr) (payloads ej root op)). good_text render parse (line_json l)"
    using Cons.prems(2) by (simp add: o')
  note dec = payloads_decodable [OF ok]
  have "rollout_holds parse rr1 d1 (live_history op h) \<and> rr_path rr1 = rr_path rr"
    using record_payloads_holds [OF Cons.prems(1) good dec r] live_history_payloads [OF ok] by metis
  moreover have "rr_ordinal rr1 = fold (\<lambda>_ m. (m + 1) mod 2 ^ 64) (payloads ej root op) (rr_ordinal rr)"
    by (rule record_payloads_ordinal [OF Cons.prems(1) good dec r])
  ultimately show ?case
    using Cons.IH [of rr1 d1 "live_history op h"] Cons.prems
    by (simp add: o' run_records_def run_history_def do_record_payloads r)
qed (simp add: run_records_def run_history_def)

lemma rollout_holds_read:
  "rollout_holds parse rr d h \<Longrightarrow>
    \<exists>items. read_rollout parse d (apath_of (rr_path rr)) = Inr (items, rr_ordinal rr) \<and> restore items g = h"
  by (auto simp: rollout_holds_def read_rollout_def restore_def)

lemma replay_line_range: "replay_line l (items, n) = Inr (items', n') \<Longrightarrow> 0 \<le> n \<Longrightarrow> n < 2 ^ 64 \<Longrightarrow> 0 \<le> n' \<and> n' < 2 ^ 64"
  by (auto simp: replay_line_def Let_def split: option.splits if_splits)

lemma replay_texts_range:
  "replay_texts parse ts (items, n) = Inr (items', n') \<Longrightarrow> 0 \<le> n \<Longrightarrow> n < 2 ^ 64 \<Longrightarrow> 0 \<le> n' \<and> n' < 2 ^ 64"
proof (induction ts arbitrary: items n)
  case (Cons t ts)
  then obtain l items1 n1 where "replay_line l (items, n) = Inr (items1, n1)"
    "replay_texts parse ts (items1, n1) = Inr (items', n')"
    by (auto split: option.splits sum.splits)
  with Cons replay_line_range show ?case by metis
qed simp

text \<open>Opening a rollout whose file is missing or ends with a line break.\<close>

lemma open_rollout_holds_at:
  assumes "open_rollout parse path d = (Inr (rr, items), d')"
    and "\<forall>t. read_file d (apath_of path) = Inr t \<longrightarrow> ends_line t"
    and "node_at d (apath_of path) \<noteq> None \<Longrightarrow> blocked d (apath_of path) = None"
  shows "rollout_holds parse rr d' (restore items []) \<and> rr_path rr = path"
proof -
  let ?p = "apath_of path"
  from assms(1) obtain n d1 where r: "read_rollout parse d ?p = Inr (items, n)"
    and d1: "mkdir_all (apath_of (dir_name path)) d = Inr d1" and d': "append_file ?p [] d1 = Inr d'"
    and rr: "rr = \<lparr>rr_path = path, rr_ordinal = n, rr_open = True, rr_failed = False\<rparr>"
    by (auto simp: open_rollout_def split: sum.splits)
  from d' have dirs: "\<forall>a \<in> set (ancestors ?p). node_at d1 a = Some Dir" and nd: "node_at d1 ?p \<noteq> Some Dir"
    unfolding append_file_def blocked_None [symmetric] by (auto split: option.splits node.splits)
  have "\<exists>t ts. read_file d' ?p = Inr t \<and> ends_line t \<and> scan_lines t = (ts, False) \<and>
      replay_texts parse ts ([], 0) = Inr (items, n)"
  proof (cases "read_file d ?p")
    case (Inr t)
    then have "node_at d1 ?p = Some (File t)"
      using mkdir_all_keeps [OF d1, of ?p] by (simp add: read_file_Inr)
    with dirs have "read_file d1 ?p = Inr t" by (simp add: read_file_Inr)
    with append_reads [of d1 ?p t "[]"] d' have "read_file d' ?p = Inr t" by simp
    with Inr r assms(2) show ?thesis
      by (auto simp: read_rollout_def Let_def split: prod.splits sum.splits if_splits)
  next
    case (Inl e)
    with r have e: "e = NotExist" "items = []" "n = 0" by (auto simp: read_rollout_def split: if_splits)
    show ?thesis
    proof (cases "node_at d1 ?p")
      case None
      then have "d' = AList.update ?p (File []) d1"
        using d' by (auto simp: append_file_def split: option.splits)
      moreover have "?p \<notin> set (ancestors ?p)" using ancestors_less by auto
      ultimately have "read_file d' ?p = Inr []" using dirs by (auto simp: read_file_Inr update_conv')
      then show ?thesis by (auto simp: e ends_line_def scan_lines_def text_lines_def)
    next
      case (Some x)
      then have "node_at d ?p = Some x"
        using mkdir_all_frame [OF d1, of ?p] nd by (auto split: if_splits)
      moreover from this assms(3) have "blocked d ?p = None" by simp
      ultimately show ?thesis using Inl e nd Some by (cases x) (auto simp: read_file_def)
    qed
  qed
  moreover from this have "0 \<le> n \<and> n < 2 ^ 64" using replay_texts_range by fastforce
  ultimately show ?thesis by (auto simp: rollout_holds_def rr restore_def)
qed

lemma open_rollout_holds:
  assumes "open_rollout parse path d = (Inr (rr, items), d')"
    and "\<forall>t. read_file d (apath_of path) = Inr t \<longrightarrow> ends_line t" and "fs_ok d"
  shows "rollout_holds parse rr d' (restore items []) \<and> rr_path rr = path"
  using open_rollout_holds_at [OF assms(1,2)] assms(3) by (auto simp: fs_ok_def blocked_None)

text \<open>A rollout that is written at once.\<close>

definition session_meta :: "string \<Rightarrow> string \<Rightarrow> string \<Rightarrow> string \<times> json" where
  "session_meta now path workspace_root = (''session_meta'',
     JObj [(''id'', JStr (trim_suffix (path_ext path) (base_name path))), (''started_at'', JStr now),
       (''cwd'', JStr workspace_root), (''source'', JStr ''lob_codex''), (''model_provider'', JStr ''openai'')])"

definition fork_lines :: "string \<Rightarrow> string \<Rightarrow> string \<Rightarrow> response_item list \<Rightarrow> rollout_line list" where
  "fork_lines now path workspace_root items =
     stamp now 0 (session_meta now path workspace_root # map (\<lambda>i. (''response_item'', item_json i)) items)"

lemma write_rollout_reads:
  assumes "write_rollout render parse now path workspace_root items d = (None, d')" "node_at d (apath_of path) = None"
    and "list_all (\<lambda>l. good_text render parse (line_json l)) (fork_lines now path workspace_root items)"
    and "read_file d (apath_of path) = Inl NotExist"
  shows "\<exists>items' n. read_rollout parse d' (apath_of path) = Inr (items', n) \<and> restore items' [] = restore items []"
proof -
  let ?ps = "session_meta now path workspace_root # map (\<lambda>i. (''response_item'', item_json i)) items"
  from assms(1) obtain rr d1 where o': "open_rollout parse path d = (Inr (rr, []), d1)"
    by (auto simp: write_rollout_def split: prod.splits sum.splits if_splits)
  have n: "rr_ordinal rr = 0" using o' assms(4) by (auto simp: open_rollout_def read_rollout_def split: sum.splits)
  have "rollout_holds parse rr d1 (restore [] []) \<and> rr_path rr = path"
    by (rule open_rollout_holds_at [OF o']) (simp_all add: assms(2,4))
  then have h: "rollout_holds parse rr d1 []" and path: "rr_path rr = path" by (simp_all add: restore_def)
  obtain rr' d2 where f: "fold (\<lambda>(k, p). record_item render now k p) ?ps (rr, d1) = (rr', d2)" by fastforce
  have "d2 = d'"
    using assms(1) f n path by (simp add: write_rollout_def o' record_response_items_def record_session_meta_def session_meta_def
        fold_map comp_def Let_def split: prod.splits if_splits)
  moreover have "list_all decodable ?ps" by (auto simp: decodable_def session_meta_def item_json_decodes list_all_iff)
  then have "rollout_holds parse rr' d2 (fold payload_history ?ps []) \<and> rr_path rr' = rr_path rr"
    using record_payloads_holds [OF h _ _ f] assms(3) by (simp add: fork_lines_def n list_all_iff)
  moreover have "fold payload_history ?ps [] = record_items items []"
    using live_history_payloads [of "RecItems items" "[]" "\<lambda>_. JNull" "[]"] by (simp add: payload_history_def session_meta_def)
  ultimately show ?thesis
    using rollout_holds_read [of parse rr' d' "record_items items []" "[]"] by (auto simp: path restore_def record_items_def)
qed

text \<open>
  Property C6. Resuming restores the conversation: open a rollout that is missing or complete, record any
  sequence of items, compactions, events and turn contexts, and read the file again: the replay gives the history that was
  live at the end, and the ordinal at which the next session goes on.
\<close>

theorem resume_restores_history:
  assumes "open_rollout parse path d = (Inr (rr, items0), da)"
    and "\<forall>t. read_file d (apath_of path) = Inr t \<longrightarrow> ends_line t" and "fs_ok d"
    and "\<forall>l \<in> set (written ej root ops (rr_ordinal rr)). good_text render parse (line_json l)"
    and "\<forall>(now, op) \<in> set ops. op_ok op"
    and "run_records render ej root ops (rr, da) = (rr', d')"
  shows "\<exists>items. read_rollout parse d' (apath_of path) = Inr (items, rr_ordinal rr') \<and>
    restore items [] = run_history ops (restore items0 [])"
proof -
  from open_rollout_holds [OF assms(1,2,3)]
  have h: "rollout_holds parse rr da (restore items0 [])" and path: "rr_path rr = path" by auto
  from run_records_holds [OF h assms(4,5,6)]
  have "rollout_holds parse rr' d' (run_history ops (restore items0 []))" "rr_path rr' = path"
    by (simp_all add: path)
  with rollout_holds_read [of parse rr' d'] show ?thesis by metis
qed

definition sample_line :: "int \<Rightarrow> string \<Rightarrow> json \<Rightarrow> json" where
  "sample_line n k p = line_json \<lparr>rl_timestamp = ''t'', rl_ordinal = n, rl_type = k, rl_payload = Some p\<rparr>"

definition sample_ops :: "(string \<times> recorded) list" where
  "sample_ops = [(''t'', RecItems [new_assistant_message ''hi'']),
     (''t'', RecCompacted ''sum'' [new_user_message ''go on''] 7)]"

definition sample_first :: json where
  "sample_first = sample_line 0 ''response_item'' (item_json (new_assistant_message ''hi''))"

definition sample_second :: json where
  "sample_second = sample_line 1 ''compacted'' (compacted_json \<lparr>co_message = ''sum'',
     co_replacement_history = [new_user_message ''go on''], co_estimated_tokens = 7\<rparr>)"

definition sample_render :: "json \<Rightarrow> string" where
  "sample_render j = (if j = sample_first then ''A'' else ''B'')"

definition sample_parser :: "string \<Rightarrow> json option" where
  "sample_parser s = Some (if s = ''A'' then sample_first else sample_second)"

lemma sample_good: "j = sample_first \<or> j = sample_second \<Longrightarrow> good_text sample_render sample_parser j"
  by (auto simp: good_text_def sample_render_def sample_parser_def newline_def max_line_bytes_def
      sample_first_def sample_second_def sample_line_def line_json_def)

lemma sample_open:
  "open_rollout sample_parser ''/r'' [(APath [], Dir)] =
     (Inr (\<lparr>rr_path = ''/r'', rr_ordinal = 0, rr_open = True, rr_failed = False\<rparr>, []),
      [(APath [], Dir), (APath [''r''], File [])])"
  by code_simp

definition sample_run :: "rollout_recorder \<times> fs" where
  "sample_run = run_records sample_render (\<lambda>_. JNull) ''/'' sample_ops
     (\<lparr>rr_path = ''/r'', rr_ordinal = 0, rr_open = True, rr_failed = False\<rparr>,
      [(APath [], Dir), (APath [''r''], File [])])"

lemma sample_run_ordinal: "rr_ordinal (fst sample_run) = 2"
  by code_simp

theorem resume_restores_history_witness:
  "\<exists>items. read_rollout sample_parser (snd sample_run) (apath_of ''/r'') = Inr (items, 2) \<and>
     restore items [] = [new_user_message ''go on'']"
proof -
  have fresh: "\<forall>t. read_file [(APath [], Dir)] (apath_of ''/r'') = Inr t \<longrightarrow> ends_line t"
    by (simp add: read_file_Inr apath_of_def segs_def)
  have ok: "fs_ok [(APath [], Dir)]" by (auto simp: fs_ok_def ancestors_def split: if_splits)
  have written: "\<forall>l \<in> set (written (\<lambda>_. JNull) ''/'' sample_ops 0). good_text sample_render sample_parser (line_json l)"
    by (simp add: sample_ops_def sample_good [unfolded sample_first_def sample_second_def sample_line_def])
  obtain rr' d2 where run: "sample_run = (rr', d2)" by fastforce
  have hist: "run_history sample_ops (restore [] []) = [new_user_message ''go on'']"
    by (simp add: sample_ops_def run_history_def replace_history_def restore_def recordable_def
        new_user_message_def new_user_message_with_images_def)
  show ?thesis
    using resume_restores_history [OF sample_open fresh ok, where ej = "\<lambda>_. JNull" and root = "''/''"
        and ops = sample_ops and render = sample_render and rr' = rr' and d' = d2]
      written run sample_run_ordinal hist
    by (simp add: sample_run_def) (simp add: sample_ops_def int64_def)
qed

text \<open>
  A line of 4 MiB or more, such as a message with a pasted image, is written without an error, and
  from then on the rollout cannot be read: the thread cannot be resumed.
\<close>

theorem long_line_blocks_resume:
  assumes "rollout_holds parse rr d h"
    and "newline \<notin> set (render (line_json \<lparr>rl_timestamp = now, rl_ordinal = rr_ordinal rr,
           rl_type = kind, rl_payload = Some p\<rparr>))"
    and "max_line_bytes \<le> length (render (line_json \<lparr>rl_timestamp = now, rl_ordinal = rr_ordinal rr,
           rl_type = kind, rl_payload = Some p\<rparr>))"
    and "record_item render now kind p (rr, d) = (rr', d')"
  shows "\<not> rr_failed rr' \<and> read_rollout parse d' (apath_of (rr_path rr)) = Inl LineTooLong"
proof -
  let ?r = "render (line_json \<lparr>rl_timestamp = now, rl_ordinal = rr_ordinal rr, rl_type = kind,
    rl_payload = Some p\<rparr>)"
  from assms(1) obtain t ts items where t: "read_file d (apath_of (rr_path rr)) = Inr t" "ends_line t"
    and ts: "scan_lines t = (ts, False)" and rep: "replay_texts parse ts ([], 0) = Inr (items, rr_ordinal rr)"
    and ok: "rr_open rr" "\<not> rr_failed rr"
    by (auto simp: rollout_holds_def)
  from append_reads [OF t(1), of "?r @ [newline]"] obtain d1 where
    d1: "append_file (apath_of (rr_path rr)) (?r @ [newline]) d = Inr d1"
    and read: "read_file d1 (apath_of (rr_path rr)) = Inr (t @ ?r @ [newline])" by auto
  have "scan_lines (t @ ?r @ [newline]) = (ts, True)"
    by (rule scan_lines_long [OF t(2) assms(2,3) ts])
  with d1 read rep ok assms(4) show ?thesis
    by (auto simp: record_item_def Let_def read_rollout_def)
qed

lemma empty_rollout_holds:
  "rollout_holds parse \<lparr>rr_path = ''/r'', rr_ordinal = 0, rr_open = True, rr_failed = False\<rparr>
     [(APath [], Dir), (APath [''r''], File [])] []"
proof -
  have "read_file [(APath [], Dir), (APath [''r''], File [])] (apath_of ''/r'') = Inr []" by code_simp
  moreover have "scan_lines [] = ([], False)" by (simp add: scan_lines_def text_lines_def)
  ultimately show ?thesis by (auto simp: rollout_holds_def ends_line_def)
qed

theorem long_line_blocks_resume_witness:
  "read_rollout sample_parser (snd (record_item (\<lambda>_. replicate max_line_bytes CHR ''x'') ''t'' ''event_msg'' JNull
       (\<lparr>rr_path = ''/r'', rr_ordinal = 0, rr_open = True, rr_failed = False\<rparr>,
        [(APath [], Dir), (APath [''r''], File [])]))) (apath_of ''/r'') = Inl LineTooLong"
  using long_line_blocks_resume [OF empty_rollout_holds _ _ surjective_pairing,
      of "\<lambda>_. replicate max_line_bytes CHR ''x''" "''t''" "''event_msg''" JNull sample_parser]
  by (simp add: newline_def)

end
