(* ===== verification/EventJson.thy ===== *)
theory EventJson
  imports Protocol "HOL-Library.Word" "HOL-Library.Monad_Syntax"
begin

section \<open>The JSON form of events: internal/protocol/event.go\<close>

text \<open>
  Events go to clients and into the rollout as JSON: an object with the type and the one pointer
  of the union that is set. Reading it back fills a struct that may have any of the pointers set, so the
  decoded form is a record of options. Bytes of command output travel in base64.
\<close>

subsection \<open>Base64\<close>

definition b64_alphabet :: string where
  "b64_alphabet = ''ABCDEFGHIJKLMNOPQRSTUVWXYZabcdefghijklmnopqrstuvwxyz0123456789+/''"

definition b64_char :: "nat \<Rightarrow> char" where
  "b64_char n = b64_alphabet ! (n mod 64)"

fun base64 :: "string \<Rightarrow> string" where
  "base64 [] = []"
| "base64 [a] = (let v = byte_of a * 65536 in [b64_char (v div 262144), b64_char (v div 4096), CHR ''='', CHR ''=''])"
| "base64 [a, b] = (let v = byte_of a * 65536 + byte_of b * 256 in
     [b64_char (v div 262144), b64_char (v div 4096), b64_char (v div 64), CHR ''=''])"
| "base64 (a # b # c # s) = (let v = byte_of a * 65536 + byte_of b * 256 + byte_of c in
     [b64_char (v div 262144), b64_char (v div 4096), b64_char (v div 64), b64_char v] @ base64 s)"

definition b64_value :: "char \<Rightarrow> nat option" where
  "b64_value c = (let n = length (takeWhile (\<lambda>x. x \<noteq> c) b64_alphabet) in if n < 64 then Some n else None)"

text \<open>The decoder of a JSON byte slice: line breaks are skipped, the padding is required.\<close>

fun unbase64_quads :: "string \<Rightarrow> string option" where
  "unbase64_quads [] = Some []"
| "unbase64_quads (p # q # r # t # s) =
     (case (b64_value p, b64_value q) of
        (Some a, Some b) \<Rightarrow>
          (if t = CHR ''='' \<and> r = CHR ''='' then
             (if s = [] then Some [char_of ((a * 64 + b) div 16)] else None)
           else case b64_value r of None \<Rightarrow> None
             | Some c \<Rightarrow>
               (if t = CHR ''='' then
                  (if s = [] then Some [char_of ((a * 64 + b) div 16), char_of (((a * 64 + b) * 64 + c) div 4)] else None)
                else case b64_value t of None \<Rightarrow> None
                  | Some d \<Rightarrow>
                    (let v = ((a * 64 + b) * 64 + c) * 64 + d in
                     map_option (\<lambda>u. char_of (v div 65536) # char_of (v div 256) # char_of v # u)
                       (unbase64_quads s))))
      | _ \<Rightarrow> None)"
| "unbase64_quads _ = None"

definition unbase64 :: "string \<Rightarrow> string option" where
  "unbase64 s = unbase64_quads (filter (\<lambda>c. c \<noteq> newline \<and> c \<noteq> CHR 0x0D) s)"

lemma b64_values: "list_all (\<lambda>n. b64_value (b64_char n) = Some n) [0..<64]"
  by code_simp

lemma b64_value_char [simp]: "b64_value (b64_char n) = Some (n mod 64)"
proof -
  have "n mod 64 < 64" by simp
  with b64_values have "b64_value (b64_char (n mod 64)) = Some (n mod 64)" by (simp add: list_all_iff)
  then show ?thesis by (simp add: b64_char_def)
qed

lemma b64_plain: "list_all (\<lambda>c. c \<noteq> CHR ''='' \<and> c \<noteq> newline \<and> c \<noteq> CHR 0x0D) b64_alphabet"
  by code_simp

lemma b64_char_plain [simp]: "b64_char n \<noteq> CHR ''=''" "b64_char n \<noteq> newline" "b64_char n \<noteq> CHR 0x0D"
proof -
  have "b64_char n \<in> set b64_alphabet"
    unfolding b64_char_def by (rule nth_mem) (simp add: b64_alphabet_def)
  with b64_plain show "b64_char n \<noteq> CHR ''=''" "b64_char n \<noteq> newline" "b64_char n \<noteq> CHR 0x0D"
    by (auto simp: list_all_iff)
qed

lemma byte_bound [simp]: "byte_of c < 256"
  by (simp add: byte_of_def)

lemma char_of_byte [simp]: "char_of (byte_of c) = c"
  by (simp add: byte_of_def)

text \<open>The digits to the base of 64 of 24 bits, read from the front.\<close>

lemma digits64:
  fixes v :: nat
  assumes "v < 16777216"
  shows "v div 262144 mod 64 * 64 + v div 4096 mod 64 = v div 4096"
    and "v div 4096 * 64 + v div 64 mod 64 = v div 64"
    and "v div 64 * 64 + v mod 64 = v"
proof -
  have d: "v div 4096 = v div 64 div 64" "v div 262144 = v div 4096 div 64"
    by (simp_all flip: div_mult2_eq)
  have "v div 262144 < 64" using assms by simp
  then have "v div 262144 mod 64 = v div 4096 div 64" by (simp add: d(2))
  then show "v div 262144 mod 64 * 64 + v div 4096 mod 64 = v div 4096" by (simp add: d(2))
  show "v div 4096 * 64 + v div 64 mod 64 = v div 64" unfolding d(1) by simp
  show "v div 64 * 64 + v mod 64 = v" by simp
qed

lemma bytes_of_24:
  fixes a b c :: nat
  assumes "a < 256" "b < 256" "c < 256"
  shows "a * 65536 + b * 256 + c < 16777216"
    and "(a * 65536 + b * 256 + c) div 65536 = a"
    and "(a * 65536 + b * 256 + c) div 256 = a * 256 + b"
    and "(a * 65536 + b * 256 + c) mod 256 = c"
proof -
  show "a * 65536 + b * 256 + c < 16777216" using assms by simp
  have e: "a * 65536 + b * 256 + c = (a * 256 + b) * 256 + c" by simp
  show d: "(a * 65536 + b * 256 + c) div 256 = a * 256 + b" unfolding e using assms(3) by simp
  show "(a * 65536 + b * 256 + c) mod 256 = c" unfolding e using assms(3) by (simp only: mod_mult_self3 mod_less)
  have "(a * 65536 + b * 256 + c) div 65536 = (a * 65536 + b * 256 + c) div 256 div 256"
    by (simp flip: div_mult2_eq)
  then show "(a * 65536 + b * 256 + c) div 65536 = a" unfolding d using assms(2) by simp
qed

lemma char_of_congruent: "n mod 256 = byte_of c \<Longrightarrow> char_of n = c"
  using char_of_mod_256 [of n] by simp

lemma unbase64_base64_quads: "unbase64_quads (base64 s) = Some s"
proof (induction s rule: base64.induct)
  case (2 a)
  let ?v = "byte_of a * 65536 + 0 * 256 + 0"
  have v: "?v < 16777216" "?v div 65536 = byte_of a"
    using bytes_of_24 [of "byte_of a" 0 0] by (simp_all del: add_0_right mult_zero_left)
  have "?v div 4096 div 16 = ?v div 65536" by (simp only: flip: div_mult2_eq) simp
  then have "(?v div 262144 mod 64 * 64 + ?v div 4096 mod 64) div 16 = byte_of a"
    unfolding digits64(1) [OF v(1)] v(2) .
  moreover have "byte_of a div 4 mod 64 = byte_of a div 4" using byte_bound [of a] by (intro mod_less) linarith
  ultimately show ?case by (simp add: Let_def)
next
  case (3 a b)
  let ?v = "byte_of a * 65536 + byte_of b * 256 + 0"
  note v = bytes_of_24 [of "byte_of a" "byte_of b" 0, simplified]
  have "?v div 4096 div 16 = ?v div 65536" "?v div 64 div 4 = ?v div 256"
    by (simp_all only: flip: div_mult2_eq) simp_all
  then have "?v div 4096 div 16 = byte_of a" "?v div 64 div 4 = byte_of a * 256 + byte_of b"
    using v by simp_all
  moreover have "char_of (256 * byte_of a + byte_of b) = b" by (rule char_of_congruent) simp
  ultimately show ?case using digits64 [OF v(1)] by (simp add: Let_def)
next
  case (4 a b c s)
  let ?v = "byte_of a * 65536 + byte_of b * 256 + byte_of c"
  note v = bytes_of_24 [OF byte_bound [of a] byte_bound [of b] byte_bound [of c]]
  have "char_of (byte_of a * 256 + byte_of b) = b" by (rule char_of_congruent) simp
  moreover have "char_of ?v = c" by (rule char_of_congruent [OF v(4)])
  ultimately show ?case
    using 4 digits64 [OF v(1)] v(2,3) by (simp add: Let_def)
qed simp_all

lemma equals_not_break [simp]: "CHR ''='' \<noteq> newline"
  by (simp add: newline_def)

lemma base64_no_breaks: "filter (\<lambda>c. c \<noteq> newline \<and> c \<noteq> CHR 0x0D) (base64 s) = base64 s"
  by (induction s rule: base64.induct) (simp_all add: Let_def)

lemma unbase64_base64: "unbase64 (base64 s) = Some s"
  by (simp add: unbase64_def base64_no_breaks unbase64_base64_quads)

subsection \<open>Marshalling\<close>

text \<open>The type of a message, which is also the name of the pointer that is set.\<close>

definition event_type :: "event_msg \<Rightarrow> string" where
  "event_type m =
     (case m of
        TurnStarted _ _ \<Rightarrow> ''turn_started''
      | AgentMessageContentDelta _ _ \<Rightarrow> ''agent_message_content_delta''
      | ToolCallStarted _ _ _ \<Rightarrow> ''tool_call_started''
      | ToolCallCompleted _ _ _ \<Rightarrow> ''tool_call_completed''
      | ExecCommandOutputDelta _ _ _ \<Rightarrow> ''exec_command_output_delta''
      | TerminalInteraction _ _ _ \<Rightarrow> ''terminal_interaction''
      | ExecApprovalRequest _ \<Rightarrow> ''exec_approval_request''
      | ContextCompaction _ _ _ \<Rightarrow> ''context_compaction''
      | TurnComplete _ \<Rightarrow> ''turn_complete''
      | TurnAborted _ \<Rightarrow> ''turn_aborted''
      | ErrorEvent _ \<Rightarrow> ''error''
      | McpElicitationRequest _ _ _ _ _ \<Rightarrow> ''mcp_elicitation_request'')"

definition str_entry :: "string \<Rightarrow> string \<Rightarrow> string \<times> json" where
  "str_entry k v = (k, JStr v)"

definition int_entry :: "string \<Rightarrow> int \<Rightarrow> string \<times> json" where
  "int_entry k v = (k, JInt v)"

definition opt_entry :: "string \<Rightarrow> ('a \<Rightarrow> json) \<Rightarrow> 'a option \<Rightarrow> (string \<times> json) list" where
  "opt_entry k f v = (case v of None \<Rightarrow> [] | Some x \<Rightarrow> [(k, f x)])"

definition error_json :: "string \<Rightarrow> json" where
  "error_json m = JObj [str_entry ''message'' m]"

definition usage_json :: "token_usage \<Rightarrow> json" where
  "usage_json u = JObj [int_entry ''input_tokens'' (tu_input u), int_entry ''cached_input_tokens'' (tu_cached_input u),
     int_entry ''cache_write_input_tokens'' (tu_cache_write_input u), int_entry ''output_tokens'' (tu_output u),
     int_entry ''reasoning_output_tokens'' (tu_reasoning_output u), int_entry ''total_tokens'' (tu_total u)]"

definition complete_json :: "turn_complete_event \<Rightarrow> json" where
  "complete_json c = JObj (str_entry ''turn_id'' (tc_turn_id c) #
     opt_entry ''last_agent_message'' JStr (tc_last_agent_message c) @
     opt_entry ''error'' error_json (tc_error c) @
     [int_entry ''started_at'' (tc_started_at c), int_entry ''completed_at'' (tc_completed_at c),
      int_entry ''duration_ms'' (tc_duration_ms c)] @
     opt_entry ''time_to_first_token_ms'' JInt (tc_time_to_first_token c) @
     opt_entry ''usage'' usage_json (tc_usage c) @ opt_string ''response_id'' (tc_response_id c))"

definition aborted_json :: "turn_aborted_event \<Rightarrow> json" where
  "aborted_json a = JObj [str_entry ''turn_id'' (ta_turn_id a), str_entry ''reason'' (ta_reason a),
     int_entry ''started_at'' (ta_started_at a), int_entry ''completed_at'' (ta_completed_at a),
     int_entry ''duration_ms'' (ta_duration_ms a)]"

definition approval_json :: "approval_event \<Rightarrow> json" where
  "approval_json a = JObj ([str_entry ''call_id'' (ae_call_id a), str_entry ''turn_id'' (ae_turn_id a),
     int_entry ''started_at_ms'' (ae_started_at_ms a), (''command'', JArr (map JStr (ae_command a))),
     str_entry ''cwd'' (ae_cwd a)] @ opt_string ''reason'' (ae_reason a) @
     [(''available_decisions'', JArr (map JStr (ae_available_decisions a)))] @
     opt_array ''proposed_prefix_rule'' (map JStr (ae_proposed_prefix a)))"

definition elicitation_field_json :: "elicitation_field \<Rightarrow> json" where
  "elicitation_field_json f = JObj ([str_entry ''name'' (ef_name f), str_entry ''type'' (ef_type f)] @
     opt_string ''title'' (ef_title f) @ opt_string ''description'' (ef_description f))"

text \<open>A schema is an object, and left out if it is empty or nil.\<close>

definition opt_object :: "string \<Rightarrow> json \<Rightarrow> (string \<times> json) list" where
  "opt_object k v = (case v of JObj (kv # kvs) \<Rightarrow> [(k, v)] | _ \<Rightarrow> [])"

definition event_payload_json :: "event_msg \<Rightarrow> json" where
  "event_payload_json m =
     (case m of
        TurnStarted t at \<Rightarrow> JObj [str_entry ''turn_id'' t, int_entry ''started_at'' at]
      | AgentMessageContentDelta t delta \<Rightarrow> JObj [str_entry ''turn_id'' t, str_entry ''delta'' delta]
      | ToolCallStarted c n a \<Rightarrow>
          JObj [str_entry ''call_id'' c, str_entry ''name'' n, str_entry ''arguments'' a]
      | ToolCallCompleted c n out \<Rightarrow>
          JObj [str_entry ''call_id'' c, str_entry ''name'' n, str_entry ''output'' out]
      | ExecCommandOutputDelta c stream chunk \<Rightarrow>
          JObj [str_entry ''call_id'' c, str_entry ''stream'' stream, str_entry ''chunk'' (base64 chunk)]
      | TerminalInteraction c process stdin \<Rightarrow>
          JObj [str_entry ''call_id'' c, str_entry ''process_id'' process, str_entry ''stdin'' stdin]
      | ExecApprovalRequest a \<Rightarrow> approval_json a
      | ContextCompaction t before after \<Rightarrow>
          JObj [str_entry ''turn_id'' t, int_entry ''before_tokens'' before, int_entry ''after_tokens'' after]
      | TurnComplete c \<Rightarrow> complete_json c
      | TurnAborted a \<Rightarrow> aborted_json a
      | ErrorEvent message \<Rightarrow> error_json message
      | McpElicitationRequest i server message fs schema \<Rightarrow>
          JObj ([str_entry ''elicitation_id'' i, str_entry ''server'' server, str_entry ''message'' message] @
            opt_array ''fields'' (map elicitation_field_json fs) @ opt_object ''schema'' schema))"

definition event_json :: "event_msg \<Rightarrow> json" where
  "event_json m = JObj [(''type'', JStr (event_type m)), (event_type m, event_payload_json m)]"

subsection \<open>Unmarshalling\<close>

text \<open>A pointer: \<open>null\<close> clears it, and any other value is decoded into what it points to.\<close>

definition dec_ptr :: "('a \<Rightarrow> json \<Rightarrow> 'a option) \<Rightarrow> 'a \<Rightarrow> json \<Rightarrow> 'a option \<Rightarrow> 'a option option" where
  "dec_ptr dec zero j old =
     (if j = JNull then Some None
      else map_option Some (dec (case old of None \<Rightarrow> zero | Some x \<Rightarrow> x) j))"

definition ptr_field :: "('a \<Rightarrow> json \<Rightarrow> 'a option) \<Rightarrow> 'a \<Rightarrow> string \<Rightarrow> json \<Rightarrow> 'a option option" where
  "ptr_field dec zero name v = json_field (dec_ptr dec zero) name None v"

definition dec_byte :: "json \<Rightarrow> char option" where
  "dec_byte v = (case v of JInt i \<Rightarrow> if 0 \<le> i \<and> i < 256 then Some (char_of (nat i)) else None
     | JNull \<Rightarrow> Some (CHR 0x00) | _ \<Rightarrow> None)"

fun dec_bytes :: "json \<Rightarrow> string \<Rightarrow> string option" where
  "dec_bytes (JStr s) old = unbase64 s"
| "dec_bytes (JArr vs) old = those (map dec_byte vs)"
| "dec_bytes JNull old = Some []"
| "dec_bytes _ old = None"

fun dec_object :: "json \<Rightarrow> json \<Rightarrow> json option" where
  "dec_object (JObj kvs) old = Some (JObj ((case old of JObj o' \<Rightarrow> o' | _ \<Rightarrow> []) @ kvs))"
| "dec_object JNull old = Some JNull"
| "dec_object _ old = None"

definition dec_strings :: "json \<Rightarrow> string list \<Rightarrow> string list option" where
  "dec_strings = dec_list (\<lambda>v. dec_string v [])"

definition error_of :: "string \<Rightarrow> json \<Rightarrow> string option" where
  "error_of old j = json_field dec_string ''message'' old j"

definition usage_of :: "token_usage \<Rightarrow> json \<Rightarrow> token_usage option" where
  "usage_of u j = do {
     i \<leftarrow> json_field dec_int ''input_tokens'' (tu_input u) j;
     ci \<leftarrow> json_field dec_int ''cached_input_tokens'' (tu_cached_input u) j;
     cw \<leftarrow> json_field dec_int ''cache_write_input_tokens'' (tu_cache_write_input u) j;
     out \<leftarrow> json_field dec_int ''output_tokens'' (tu_output u) j;
     ro \<leftarrow> json_field dec_int ''reasoning_output_tokens'' (tu_reasoning_output u) j;
     tot \<leftarrow> json_field dec_int ''total_tokens'' (tu_total u) j;
     Some \<lparr>tu_input = i, tu_cached_input = ci, tu_cache_write_input = cw, tu_output = out,
       tu_reasoning_output = ro, tu_total = tot\<rparr> }"

definition complete_of :: "turn_complete_event \<Rightarrow> json \<Rightarrow> turn_complete_event option" where
  "complete_of c j = do {
     t \<leftarrow> json_field dec_string ''turn_id'' (tc_turn_id c) j;
     l \<leftarrow> json_field (dec_ptr (\<lambda>_ v. dec_string v []) []) ''last_agent_message'' (tc_last_agent_message c) j;
     e \<leftarrow> json_field (dec_ptr error_of []) ''error'' (tc_error c) j;
     sa \<leftarrow> json_field dec_int ''started_at'' (tc_started_at c) j;
     ca \<leftarrow> json_field dec_int ''completed_at'' (tc_completed_at c) j;
     du \<leftarrow> json_field dec_int ''duration_ms'' (tc_duration_ms c) j;
     ft \<leftarrow> json_field dec_int_ptr ''time_to_first_token_ms'' (tc_time_to_first_token c) j;
     u \<leftarrow> json_field (dec_ptr usage_of no_usage) ''usage'' (tc_usage c) j;
     r \<leftarrow> json_field dec_string ''response_id'' (tc_response_id c) j;
     Some \<lparr>tc_turn_id = t, tc_last_agent_message = l, tc_error = e, tc_started_at = sa, tc_completed_at = ca,
       tc_duration_ms = du, tc_time_to_first_token = ft, tc_usage = u, tc_response_id = r\<rparr> }"

definition no_complete :: turn_complete_event where
  "no_complete = \<lparr>tc_turn_id = [], tc_last_agent_message = None, tc_error = None, tc_started_at = 0,
     tc_completed_at = 0, tc_duration_ms = 0, tc_time_to_first_token = None, tc_usage = None, tc_response_id = []\<rparr>"

definition aborted_of :: "turn_aborted_event \<Rightarrow> json \<Rightarrow> turn_aborted_event option" where
  "aborted_of a j = do {
     t \<leftarrow> json_field dec_string ''turn_id'' (ta_turn_id a) j;
     r \<leftarrow> json_field dec_string ''reason'' (ta_reason a) j;
     sa \<leftarrow> json_field dec_int ''started_at'' (ta_started_at a) j;
     ca \<leftarrow> json_field dec_int ''completed_at'' (ta_completed_at a) j;
     du \<leftarrow> json_field dec_int ''duration_ms'' (ta_duration_ms a) j;
     Some \<lparr>ta_turn_id = t, ta_reason = r, ta_started_at = sa, ta_completed_at = ca, ta_duration_ms = du\<rparr> }"

definition no_aborted :: turn_aborted_event where
  "no_aborted = \<lparr>ta_turn_id = [], ta_reason = [], ta_started_at = 0, ta_completed_at = 0, ta_duration_ms = 0\<rparr>"

definition approval_of :: "approval_event \<Rightarrow> json \<Rightarrow> approval_event option" where
  "approval_of a j = do {
     c \<leftarrow> json_field dec_string ''call_id'' (ae_call_id a) j;
     t \<leftarrow> json_field dec_string ''turn_id'' (ae_turn_id a) j;
     sa \<leftarrow> json_field dec_int ''started_at_ms'' (ae_started_at_ms a) j;
     cmd \<leftarrow> json_field dec_strings ''command'' (ae_command a) j;
     w \<leftarrow> json_field dec_string ''cwd'' (ae_cwd a) j;
     r \<leftarrow> json_field dec_string ''reason'' (ae_reason a) j;
     ds \<leftarrow> json_field dec_strings ''available_decisions'' (ae_available_decisions a) j;
     pp \<leftarrow> json_field dec_strings ''proposed_prefix_rule'' (ae_proposed_prefix a) j;
     Some \<lparr>ae_call_id = c, ae_turn_id = t, ae_started_at_ms = sa, ae_command = cmd, ae_cwd = w, ae_reason = r,
       ae_available_decisions = ds, ae_proposed_prefix = pp\<rparr> }"

definition no_approval :: approval_event where
  "no_approval = \<lparr>ae_call_id = [], ae_turn_id = [], ae_started_at_ms = 0, ae_command = [], ae_cwd = [],
     ae_reason = [], ae_available_decisions = [], ae_proposed_prefix = []\<rparr>"

definition elicitation_field_of :: "json \<Rightarrow> elicitation_field option" where
  "elicitation_field_of j = do {
     n \<leftarrow> string_field ''name'' j; t \<leftarrow> string_field ''type'' j; ti \<leftarrow> string_field ''title'' j;
     d \<leftarrow> string_field ''description'' j;
     Some \<lparr>ef_name = n, ef_type = t, ef_title = ti, ef_description = d\<rparr> }"

text \<open>Structs of two or three texts, of a text and a number, of a text and two numbers.\<close>

definition texts2_of :: "string \<Rightarrow> string \<Rightarrow> string \<times> string \<Rightarrow> json \<Rightarrow> (string \<times> string) option" where
  "texts2_of k l s j = do {
     a \<leftarrow> json_field dec_string k (fst s) j; b \<leftarrow> json_field dec_string l (snd s) j; Some (a, b) }"

definition texts3_of :: "string \<Rightarrow> string \<Rightarrow> string \<Rightarrow> string \<times> string \<times> string \<Rightarrow> json \<Rightarrow>
    (string \<times> string \<times> string) option" where
  "texts3_of k l m s j = do {
     a \<leftarrow> json_field dec_string k (fst s) j; b \<leftarrow> json_field dec_string l (fst (snd s)) j;
     c \<leftarrow> json_field dec_string m (snd (snd s)) j; Some (a, b, c) }"

definition turn_started_of :: "string \<times> int \<Rightarrow> json \<Rightarrow> (string \<times> int) option" where
  "turn_started_of s j = do {
     t \<leftarrow> json_field dec_string ''turn_id'' (fst s) j; a \<leftarrow> json_field dec_int ''started_at'' (snd s) j;
     Some (t, a) }"

definition output_delta_of :: "string \<times> string \<times> string \<Rightarrow> json \<Rightarrow> (string \<times> string \<times> string) option" where
  "output_delta_of s j = do {
     c \<leftarrow> json_field dec_string ''call_id'' (fst s) j; st \<leftarrow> json_field dec_string ''stream'' (fst (snd s)) j;
     b \<leftarrow> json_field dec_bytes ''chunk'' (snd (snd s)) j; Some (c, st, b) }"

definition compaction_of :: "string \<times> int \<times> int \<Rightarrow> json \<Rightarrow> (string \<times> int \<times> int) option" where
  "compaction_of s j = do {
     t \<leftarrow> json_field dec_string ''turn_id'' (fst s) j;
     b \<leftarrow> json_field dec_int ''before_tokens'' (fst (snd s)) j;
     a \<leftarrow> json_field dec_int ''after_tokens'' (snd (snd s)) j; Some (t, b, a) }"

type_synonym elicitation = "string \<times> string \<times> string \<times> elicitation_field list \<times> json"

definition elicitation_of :: "elicitation \<Rightarrow> json \<Rightarrow> elicitation option" where
  "elicitation_of s j = (case s of (i, sv, m, fs, sc) \<Rightarrow> do {
     i' \<leftarrow> json_field dec_string ''elicitation_id'' i j; sv' \<leftarrow> json_field dec_string ''server'' sv j;
     m' \<leftarrow> json_field dec_string ''message'' m j;
     fs' \<leftarrow> json_field (dec_list elicitation_field_of) ''fields'' fs j;
     sc' \<leftarrow> json_field dec_object ''schema'' sc j; Some (i', sv', m', fs', sc') })"

text \<open>\<open>EventMsg\<close> as a struct of pointers.\<close>

record event_fields =
  ev_type :: string
  ev_turn_started :: "(string \<times> int) option"
  ev_content_delta :: "(string \<times> string) option"
  ev_call_started :: "(string \<times> string \<times> string) option"
  ev_call_completed :: "(string \<times> string \<times> string) option"
  ev_output_delta :: "(string \<times> string \<times> string) option"
  ev_interaction :: "(string \<times> string \<times> string) option"
  ev_approval :: "approval_event option"
  ev_compaction :: "(string \<times> int \<times> int) option"
  ev_complete :: "turn_complete_event option"
  ev_aborted :: "turn_aborted_event option"
  ev_error :: "string option"
  ev_elicitation :: "elicitation option"

definition event_of_json :: "json \<Rightarrow> event_fields option" where
  "event_of_json j = do {
     t \<leftarrow> string_field ''type'' j;
     st \<leftarrow> ptr_field turn_started_of ([], 0) ''turn_started'' j;
     cd \<leftarrow> ptr_field (texts2_of ''turn_id'' ''delta'') ([], []) ''agent_message_content_delta'' j;
     cs \<leftarrow> ptr_field (texts3_of ''call_id'' ''name'' ''arguments'') ([], [], []) ''tool_call_started'' j;
     cc \<leftarrow> ptr_field (texts3_of ''call_id'' ''name'' ''output'') ([], [], []) ''tool_call_completed'' j;
     od \<leftarrow> ptr_field output_delta_of ([], [], []) ''exec_command_output_delta'' j;
     ti \<leftarrow> ptr_field (texts3_of ''call_id'' ''process_id'' ''stdin'') ([], [], []) ''terminal_interaction'' j;
     ap \<leftarrow> ptr_field approval_of no_approval ''exec_approval_request'' j;
     co \<leftarrow> ptr_field compaction_of ([], 0, 0) ''context_compaction'' j;
     tc \<leftarrow> ptr_field complete_of no_complete ''turn_complete'' j;
     ta \<leftarrow> ptr_field aborted_of no_aborted ''turn_aborted'' j;
     er \<leftarrow> ptr_field error_of [] ''error'' j;
     el \<leftarrow> ptr_field elicitation_of ([], [], [], [], JNull) ''mcp_elicitation_request'' j;
     Some \<lparr>ev_type = t, ev_turn_started = st, ev_content_delta = cd, ev_call_started = cs,
       ev_call_completed = cc, ev_output_delta = od, ev_interaction = ti, ev_approval = ap,
       ev_compaction = co, ev_complete = tc, ev_aborted = ta, ev_error = er, ev_elicitation = el\<rparr> }"

subsection \<open>Events survive their JSON form\<close>

text \<open>The struct an event is.\<close>

definition no_fields :: event_fields where
  "no_fields = \<lparr>ev_type = [], ev_turn_started = None, ev_content_delta = None, ev_call_started = None,
     ev_call_completed = None, ev_output_delta = None, ev_interaction = None, ev_approval = None,
     ev_compaction = None, ev_complete = None, ev_aborted = None, ev_error = None, ev_elicitation = None\<rparr>"

definition event_fields_of :: "event_msg \<Rightarrow> event_fields" where
  "event_fields_of m =
     (let f = no_fields\<lparr>ev_type := event_type m\<rparr> in
      case m of
        TurnStarted t at \<Rightarrow> f\<lparr>ev_turn_started := Some (t, at)\<rparr>
      | AgentMessageContentDelta t delta \<Rightarrow> f\<lparr>ev_content_delta := Some (t, delta)\<rparr>
      | ToolCallStarted c n a \<Rightarrow> f\<lparr>ev_call_started := Some (c, n, a)\<rparr>
      | ToolCallCompleted c n out \<Rightarrow> f\<lparr>ev_call_completed := Some (c, n, out)\<rparr>
      | ExecCommandOutputDelta c stream chunk \<Rightarrow> f\<lparr>ev_output_delta := Some (c, stream, chunk)\<rparr>
      | TerminalInteraction c process stdin \<Rightarrow> f\<lparr>ev_interaction := Some (c, process, stdin)\<rparr>
      | ExecApprovalRequest a \<Rightarrow> f\<lparr>ev_approval := Some a\<rparr>
      | ContextCompaction t before after \<Rightarrow> f\<lparr>ev_compaction := Some (t, before, after)\<rparr>
      | TurnComplete c \<Rightarrow> f\<lparr>ev_complete := Some c\<rparr>
      | TurnAborted a \<Rightarrow> f\<lparr>ev_aborted := Some a\<rparr>
      | ErrorEvent message \<Rightarrow> f\<lparr>ev_error := Some message\<rparr>
      | McpElicitationRequest i server message fs schema \<Rightarrow>
          f\<lparr>ev_elicitation := Some (i, server, message, fs, schema)\<rparr>)"

text \<open>The numbers of an event fit 64 bits, and a schema is nil or a nonempty object.\<close>

definition usage_ok :: "token_usage \<Rightarrow> bool" where
  "usage_ok u \<longleftrightarrow> list_all int64 [tu_input u, tu_cached_input u, tu_cache_write_input u, tu_output u,
     tu_reasoning_output u, tu_total u]"

definition event_ok :: "event_msg \<Rightarrow> bool" where
  "event_ok m =
     (case m of
        TurnStarted t at \<Rightarrow> int64 at
      | ExecApprovalRequest a \<Rightarrow> int64 (ae_started_at_ms a)
      | ContextCompaction t before after \<Rightarrow> int64 before \<and> int64 after
      | TurnComplete c \<Rightarrow> list_all int64 [tc_started_at c, tc_completed_at c, tc_duration_ms c] \<and>
          pred_option int64 (tc_time_to_first_token c) \<and> pred_option usage_ok (tc_usage c)
      | TurnAborted a \<Rightarrow> list_all int64 [ta_started_at a, ta_completed_at a, ta_duration_ms a]
      | McpElicitationRequest i server message fs schema \<Rightarrow>
          (case schema of JNull \<Rightarrow> True | JObj kvs \<Rightarrow> kvs \<noteq> [] | _ \<Rightarrow> False)
      | _ \<Rightarrow> True)"

text \<open>No name of a field folds to another one of its struct.\<close>

lemma fold_usage_keys: "map fold_name [''input_tokens'', ''cached_input_tokens'', ''cache_write_input_tokens'', ''output_tokens'', ''reasoning_output_tokens'', ''total_tokens''] = [''input_tokens'', ''cached_input_tokens'', ''cache_write_input_tokens'', ''output_tokens'', ''reasoning_output_tokens'', ''total_tokens'']"
  by code_simp

lemmas usage_keys_match = key_matrix_of [OF fold_usage_keys, simplified]

lemma fold_complete_keys: "map fold_name [''turn_id'', ''last_agent_message'', ''error'', ''started_at'', ''completed_at'', ''duration_ms'', ''time_to_first_token_ms'', ''usage'', ''response_id''] = [''turn_id'', ''last_agent_message'', ''error'', ''started_at'', ''completed_at'', ''duration_ms'', ''time_to_first_token_ms'', ''usage'', ''response_id'']"
  by code_simp

lemmas complete_keys_match = key_matrix_of [OF fold_complete_keys, simplified]

lemma fold_aborted_keys: "map fold_name [''turn_id'', ''reason'', ''started_at'', ''completed_at'', ''duration_ms''] = [''turn_id'', ''reason'', ''started_at'', ''completed_at'', ''duration_ms'']"
  by code_simp

lemmas aborted_keys_match = key_matrix_of [OF fold_aborted_keys, simplified]

lemma fold_approval_keys: "map fold_name [''call_id'', ''turn_id'', ''started_at_ms'', ''command'', ''cwd'', ''reason'', ''available_decisions'', ''proposed_prefix_rule''] = [''call_id'', ''turn_id'', ''started_at_ms'', ''command'', ''cwd'', ''reason'', ''available_decisions'', ''proposed_prefix_rule'']"
  by code_simp

lemmas approval_keys_match = key_matrix_of [OF fold_approval_keys, simplified]

lemma fold_elicitation_keys: "map fold_name [''name'', ''type'', ''title'', ''description'', ''elicitation_id'', ''server'', ''message'', ''fields'', ''schema''] = [''name'', ''type'', ''title'', ''description'', ''elicitation_id'', ''server'', ''message'', ''fields'', ''schema'']"
  by code_simp

lemmas elicitation_keys_match = key_matrix_of [OF fold_elicitation_keys, simplified]

lemma fold_call_keys: "map fold_name [''call_id'', ''name'', ''arguments'', ''output'', ''process_id'', ''stdin'', ''stream'', ''chunk''] = [''call_id'', ''name'', ''arguments'', ''output'', ''process_id'', ''stdin'', ''stream'', ''chunk'']"
  by code_simp

lemmas call_keys_match = key_matrix_of [OF fold_call_keys, simplified]

lemma fold_delta_keys: "map fold_name [''turn_id'', ''delta'', ''started_at'', ''before_tokens'', ''after_tokens''] = [''turn_id'', ''delta'', ''started_at'', ''before_tokens'', ''after_tokens'']"
  by code_simp

lemmas delta_keys_match = key_matrix_of [OF fold_delta_keys, simplified]

lemmas event_keys_match = usage_keys_match complete_keys_match aborted_keys_match approval_keys_match
  elicitation_keys_match call_keys_match delta_keys_match

lemma event_field_hits: "json_field dec name old (JObj kvs) = fold_option dec (hits name kvs) old"
  by (simp add: json_field_def)

lemma hits_opt_entry:
  "hits name (opt_entry k f v) = (if key_matches name k then (case v of None \<Rightarrow> [] | Some x \<Rightarrow> [f x]) else [])"
  by (simp add: opt_entry_def split: option.splits)

lemma hits_opt_object:
  "hits name (opt_object k v) = (if key_matches name k then map snd (opt_object k v) else [])"
  by (simp add: opt_object_def split: json.splits list.splits)

lemmas event_hits = event_field_hits hits_opt_string hits_opt_array hits_opt_entry hits_opt_object
  string_field_def str_entry_def int_entry_def dec_ptr_def event_keys_match

lemma texts_inverse: "those (map (\<lambda>v. dec_string v []) (map JStr xs)) = Some xs"
  by (induction xs) simp_all

lemma usage_inverse: "usage_ok u \<Longrightarrow> usage_of z (usage_json u) = Some u"
  by (simp add: usage_of_def usage_json_def event_hits usage_ok_def)

lemma aborted_inverse: "list_all int64 [ta_started_at a, ta_completed_at a, ta_duration_ms a] \<Longrightarrow>
    aborted_of z (aborted_json a) = Some a"
  by (simp add: aborted_of_def aborted_json_def event_hits)

lemma approval_inverse: "int64 (ae_started_at_ms a) \<Longrightarrow> approval_of no_approval (approval_json a) = Some a"
  by (simp add: approval_of_def approval_json_def event_hits dec_strings_def texts_inverse no_approval_def
      del: map_map)

lemma error_inverse: "error_of z (error_json m) = Some m"
  by (simp add: error_of_def error_json_def event_hits)

lemma error_json_not_null: "error_json m \<noteq> JNull"
  by (simp add: error_json_def)

lemma usage_json_not_null: "usage_json u \<noteq> JNull"
  by (simp add: usage_json_def)

lemma fold_opt:
  "fold_option d (case v of None \<Rightarrow> [] | Some x \<Rightarrow> [f x]) old = (case v of None \<Rightarrow> Some old | Some x \<Rightarrow> d (f x) old)"
  by (auto split: option.splits)

lemma complete_entries:
  "json_field d ''turn_id'' x (complete_json c) = d (JStr (tc_turn_id c)) x"
  "json_field d ''last_agent_message'' x (complete_json c) =
     (case tc_last_agent_message c of None \<Rightarrow> Some x | Some v \<Rightarrow> d (JStr v) x)"
  "json_field d ''error'' x (complete_json c) = (case tc_error c of None \<Rightarrow> Some x | Some v \<Rightarrow> d (error_json v) x)"
  "json_field d ''started_at'' x (complete_json c) = d (JInt (tc_started_at c)) x"
  "json_field d ''completed_at'' x (complete_json c) = d (JInt (tc_completed_at c)) x"
  "json_field d ''duration_ms'' x (complete_json c) = d (JInt (tc_duration_ms c)) x"
  "json_field d ''time_to_first_token_ms'' x (complete_json c) =
     (case tc_time_to_first_token c of None \<Rightarrow> Some x | Some v \<Rightarrow> d (JInt v) x)"
  "json_field d ''usage'' x (complete_json c) = (case tc_usage c of None \<Rightarrow> Some x | Some v \<Rightarrow> d (usage_json v) x)"
  "json_field d ''response_id'' x (complete_json c) =
     (if tc_response_id c = [] then Some x else d (JStr (tc_response_id c)) x)"
  by (simp_all add: complete_json_def event_hits fold_opt split: option.splits)

lemma complete_inverse:
  assumes "list_all int64 [tc_started_at c, tc_completed_at c, tc_duration_ms c]"
    "pred_option int64 (tc_time_to_first_token c)" "pred_option usage_ok (tc_usage c)"
  shows "complete_of no_complete (complete_json c) = Some c"
proof -
  have "(case tc_last_agent_message c of None \<Rightarrow> Some None
      | Some v \<Rightarrow> dec_ptr (\<lambda>_ v. dec_string v []) [] (JStr v) None) = Some (tc_last_agent_message c)"
    "(case tc_error c of None \<Rightarrow> Some None | Some v \<Rightarrow> dec_ptr error_of [] (error_json v) None) = Some (tc_error c)"
    "(case tc_time_to_first_token c of None \<Rightarrow> Some None | Some v \<Rightarrow> dec_int_ptr (JInt v) None) =
      Some (tc_time_to_first_token c)"
    "(case tc_usage c of None \<Rightarrow> Some None | Some v \<Rightarrow> dec_ptr usage_of no_usage (usage_json v) None) = Some (tc_usage c)"
    using assms(2,3)
    by (auto simp: dec_ptr_def error_json_not_null usage_json_not_null error_inverse usage_inverse split: option.splits)
  with assms(1) show ?thesis
    by (simp add: complete_of_def complete_entries no_complete_def)
qed

lemma elicitation_field_inverse: "elicitation_field_of (elicitation_field_json f) = Some f"
  by (simp add: elicitation_field_of_def elicitation_field_json_def event_hits)

lemma elicitation_fields_inverse: "those (map elicitation_field_of (map elicitation_field_json fs)) = Some fs"
  by (induction fs) (simp_all add: elicitation_field_inverse)

lemma elicitation_inverse:
  assumes "event_ok (McpElicitationRequest i server message fs schema)"
  shows "elicitation_of ([], [], [], [], JNull) (event_payload_json (McpElicitationRequest i server message fs schema)) =
    Some (i, server, message, fs, schema)"
proof (cases schema)
  case (JObj kvs)
  with assms obtain kv r where "schema = JObj (kv # r)" by (cases kvs) (auto simp: event_ok_def)
  then show ?thesis
    by (simp add: elicitation_of_def event_payload_json_def event_hits elicitation_fields_inverse opt_object_def
        del: map_map)
qed (use assms in \<open>simp_all add: event_ok_def elicitation_of_def event_payload_json_def event_hits
    elicitation_fields_inverse opt_object_def del: map_map\<close>)

text \<open>What is decoded from the payload of an event, for the pointer of its type.\<close>

lemma payload_inverse:
  "event_ok (TurnStarted t at) \<Longrightarrow> turn_started_of ([], 0) (event_payload_json (TurnStarted t at)) = Some (t, at)"
  "texts2_of ''turn_id'' ''delta'' ([], []) (event_payload_json (AgentMessageContentDelta t d)) = Some (t, d)"
  "texts3_of ''call_id'' ''name'' ''arguments'' ([], [], []) (event_payload_json (ToolCallStarted c n a)) = Some (c, n, a)"
  "texts3_of ''call_id'' ''name'' ''output'' ([], [], []) (event_payload_json (ToolCallCompleted c n out)) = Some (c, n, out)"
  "output_delta_of ([], [], []) (event_payload_json (ExecCommandOutputDelta c s b)) = Some (c, s, b)"
  "texts3_of ''call_id'' ''process_id'' ''stdin'' ([], [], []) (event_payload_json (TerminalInteraction c p i)) = Some (c, p, i)"
  "event_ok (ContextCompaction t before after) \<Longrightarrow>
     compaction_of ([], 0, 0) (event_payload_json (ContextCompaction t before after)) = Some (t, before, after)"
  by (simp_all add: event_payload_json_def event_ok_def turn_started_of_def texts2_of_def texts3_of_def
      output_delta_of_def compaction_of_def event_hits unbase64_base64)

lemma payload_not_null [simp]: "event_payload_json m \<noteq> JNull"
  by (cases m) (simp_all add: event_payload_json_def approval_json_def complete_json_def aborted_json_def
      error_json_def)

definition pointer_names :: "string list" where
  "pointer_names = [''type'', ''turn_started'', ''agent_message_content_delta'', ''tool_call_started'', ''tool_call_completed'', ''exec_command_output_delta'', ''terminal_interaction'', ''exec_approval_request'', ''context_compaction'', ''turn_complete'', ''turn_aborted'', ''error'', ''mcp_elicitation_request'']"

lemma fold_pointer_names: "map fold_name pointer_names = pointer_names"
  by code_simp

lemma event_type_name: "event_type m \<in> set pointer_names" "event_type m \<noteq> ''type''"
  by (cases m; simp add: event_type_def pointer_names_def)+

lemma ptr_field_event:
  assumes "k \<in> set pointer_names" "k \<noteq> ''type''"
  shows "ptr_field dec z k (event_json m) =
      (if k = event_type m then map_option Some (dec z (event_payload_json m)) else Some None)"
proof -
  have "''type'' \<in> set pointer_names" by (simp add: pointer_names_def)
  with key_matrix_of [OF fold_pointer_names] assms(1) event_type_name(1) [of m]
  have "key_matches k ''type'' \<longleftrightarrow> k = ''type''" "key_matches k (event_type m) \<longleftrightarrow> k = event_type m" by blast+
  with assms(2) show ?thesis
    by (simp add: ptr_field_def event_json_def event_field_hits dec_ptr_def split: option.splits)
qed

lemma event_type_string: "string_field ''type'' (event_json m) = Some (event_type m)"
proof -
  have "''type'' \<in> set pointer_names" by (simp add: pointer_names_def)
  with key_matrix_of [OF fold_pointer_names] event_type_name [of m]
  have "key_matches ''type'' (event_type m) \<longleftrightarrow> False" by metis
  then show ?thesis by (simp add: string_field_def event_json_def event_field_hits)
qed

lemma pointer_names:
  "list_all (\<lambda>k. k \<in> set pointer_names \<and> k \<noteq> ''type'') (tl pointer_names)"
  by code_simp

lemma ptr_fields_event: "list_all (\<lambda>k. ptr_field dec z k (event_json m) =
      (if k = event_type m then map_option Some (dec z (event_payload_json m)) else Some None)) (tl pointer_names)"
  by (rule list.pred_mono_strong [OF pointer_names], elim conjE, rule ptr_field_event)

lemmas event_pointers = ptr_fields_event [unfolded pointer_names_def list.sel list.pred_inject simp_thms]

lemmas event_decoding = event_of_json_def event_type_string event_pointers event_type_def
  event_fields_of_def no_fields_def Let_def

lemma event_json_decodes: "event_ok m \<Longrightarrow> event_of_json (event_json m) = Some (event_fields_of m)"
proof (cases m)
  case (TurnStarted t at)
  then show "event_ok m \<Longrightarrow> ?thesis" by (simp add: event_decoding payload_inverse)
next
  case (AgentMessageContentDelta t d)
  then show "event_ok m \<Longrightarrow> ?thesis" by (simp add: event_decoding payload_inverse)
next
  case (ToolCallStarted c n a)
  then show "event_ok m \<Longrightarrow> ?thesis" by (simp add: event_decoding payload_inverse)
next
  case (ToolCallCompleted c n out)
  then show "event_ok m \<Longrightarrow> ?thesis" by (simp add: event_decoding payload_inverse)
next
  case (ExecCommandOutputDelta c s b)
  then show "event_ok m \<Longrightarrow> ?thesis" by (simp add: event_decoding payload_inverse)
next
  case (TerminalInteraction c p i)
  then show "event_ok m \<Longrightarrow> ?thesis" by (simp add: event_decoding payload_inverse)
next
  case (ExecApprovalRequest a)
  then show "event_ok m \<Longrightarrow> ?thesis"
    by (simp add: event_decoding event_payload_json_def event_ok_def approval_inverse)
next
  case (ContextCompaction t before after)
  then show "event_ok m \<Longrightarrow> ?thesis" by (simp add: event_decoding payload_inverse)
next
  case (TurnComplete c)
  then show "event_ok m \<Longrightarrow> ?thesis"
    by (simp add: event_decoding event_payload_json_def event_ok_def complete_inverse)
next
  case (TurnAborted a)
  then show "event_ok m \<Longrightarrow> ?thesis"
    by (simp add: event_decoding event_payload_json_def event_ok_def aborted_inverse)
next
  case (ErrorEvent message)
  then show "event_ok m \<Longrightarrow> ?thesis" by (simp add: event_decoding event_payload_json_def error_inverse)
next
  case (McpElicitationRequest i server message fs schema)
  then show "event_ok m \<Longrightarrow> ?thesis" by (simp add: event_decoding elicitation_inverse)
qed

end
