(* ===== verification/RolloutViews.thy ===== *)
theory RolloutViews
  imports Rollout EventJson "HOL-Library.Signed_Division"
begin

section \<open>What clients read from a rollout: internal/session/rollout.go\<close>

text \<open>
  Beside resuming, three readers use the rollout file: a page of stored events behind a
  cursor, the list of turns with their items, and the flow of runtime nodes with its summary. The
  lemmas follow the lines of the file, as the recorder of theory Rollout writes them; a cursor
  hands out every event once.
\<close>

subsection \<open>Stored events\<close>

record stored_event =
  se_ordinal :: int
  se_timestamp :: string
  se_type :: string
  se_payload :: "json option"

definition stored_of :: "rollout_line \<Rightarrow> stored_event" where
  "stored_of l = \<lparr>se_ordinal = rl_ordinal l, se_timestamp = rl_timestamp l, se_type = rl_type l,
     se_payload = rl_payload l\<rparr>"

definition decode_line :: "(string \<Rightarrow> json option) \<Rightarrow> string \<Rightarrow> rollout_line option" where
  "decode_line parse t = Option.bind (parse t) line_of_json"

text \<open>The loop: the events so far and the next cursor; a line that does not decode drops the events.\<close>

fun events_loop :: "(string \<Rightarrow> json option) \<Rightarrow> int \<Rightarrow> string list \<Rightarrow> stored_event list \<times> int \<Rightarrow>
    (stored_event list \<times> int) \<times> rollout_error option" where
  "events_loop parse from [] s = (s, None)"
| "events_loop parse from (t # ts) s =
     (case decode_line parse t of
        None \<Rightarrow> (([], snd s), Some (DecodeLine (snd s)))
      | Some l \<Rightarrow>
          events_loop parse from ts
            (if rl_ordinal l < from then s
             else (fst s @ [stored_of l],
                   if snd s \<le> rl_ordinal l then (rl_ordinal l + 1) mod 2 ^ 64 else snd s)))"

definition read_rollout_events :: "(string \<Rightarrow> json option) \<Rightarrow> fs \<Rightarrow> apath \<Rightarrow> int \<Rightarrow>
    (stored_event list \<times> int) \<times> rollout_error option" where
  "read_rollout_events parse d path from =
     (case read_file d path of
        Inl e \<Rightarrow> (([], from), if e = NotExist then None else Some (OpenRollout e))
      | Inr text \<Rightarrow>
        (let (ts, too_long) = scan_lines text in
         case events_loop parse from ts ([], from) of
           (s, Some e) \<Rightarrow> (s, Some e)
         | (s, None) \<Rightarrow> (s, if too_long then Some LineTooLong else None)))"

subsection \<open>Stored turns\<close>

record stored_turn =
  sn_id :: string
  sn_status :: string
  sn_items :: "response_item list"
  sn_started_at :: int
  sn_completed_at :: int
  sn_error :: "string option"
  sn_usage :: "token_usage option"
  sn_last_agent_message :: "string option"
  sn_response_id :: string

definition new_stored_turn :: "string \<Rightarrow> int \<Rightarrow> stored_turn" where
  "new_stored_turn t at = \<lparr>sn_id = t, sn_status = ''inProgress'', sn_items = [], sn_started_at = at,
     sn_completed_at = 0, sn_error = None, sn_usage = None, sn_last_agent_message = None, sn_response_id = []\<rparr>"

definition complete_stored_turn :: "turn_complete_event \<Rightarrow> stored_turn \<Rightarrow> stored_turn" where
  "complete_stored_turn c t = t\<lparr>sn_status := (if tc_error c = None then ''completed'' else ''failed''),
     sn_completed_at := tc_completed_at c, sn_error := tc_error c, sn_usage := tc_usage c,
     sn_last_agent_message := tc_last_agent_message c, sn_response_id := tc_response_id c\<rparr>"

definition abort_stored_turn :: "turn_aborted_event \<Rightarrow> stored_turn \<Rightarrow> stored_turn" where
  "abort_stored_turn a t = t\<lparr>sn_status := ''interrupted'', sn_completed_at := ta_completed_at a\<rparr>"

text \<open>\<open>current\<close> is the last turn of the list, once there is one.\<close>

definition change_last :: "('a \<Rightarrow> 'a) \<Rightarrow> 'a list \<Rightarrow> 'a list" where
  "change_last f xs = (if xs = [] then [] else butlast xs @ [f (last xs)])"

definition turns_event :: "event_fields \<Rightarrow> stored_turn list \<Rightarrow> stored_turn list" where
  "turns_event m turns =
     (let turns1 = (case ev_turn_started m of None \<Rightarrow> turns | Some (t, at) \<Rightarrow> turns @ [new_stored_turn t at]);
          turns2 = (case ev_complete m of None \<Rightarrow> turns1 | Some c \<Rightarrow> change_last (complete_stored_turn c) turns1)
      in case ev_aborted m of None \<Rightarrow> turns2 | Some a \<Rightarrow> change_last (abort_stored_turn a) turns2)"

definition turns_step :: "stored_event \<Rightarrow> stored_turn list \<Rightarrow> stored_turn list" where
  "turns_step e turns =
     (if se_type e = ''event_msg'' then
        (case Option.bind (se_payload e) event_of_json of
           None \<Rightarrow> turns
         | Some m \<Rightarrow> turns_event m turns)
      else if se_type e = ''response_item'' then
        (case Option.bind (se_payload e) item_of_json of
           None \<Rightarrow> turns
         | Some i \<Rightarrow> change_last (\<lambda>t. t\<lparr>sn_items := sn_items t @ [i]\<rparr>) turns)
      else turns)"

definition read_rollout_turns :: "(string \<Rightarrow> json option) \<Rightarrow> fs \<Rightarrow> apath \<Rightarrow>
    (rollout_error, stored_turn list) result" where
  "read_rollout_turns parse d path =
     (case read_rollout_events parse d path 0 of
        (_, Some e) \<Rightarrow> Inl e
      | ((events, _), None) \<Rightarrow> Inr (fold turns_step events []))"

subsection \<open>The flow of a rollout\<close>

record flow_event =
  fe_ordinal :: int
  fe_timestamp :: string
  fe_kind :: string
  fe_title :: string
  fe_detail :: string
  fe_turn :: int
  fe_step :: int
  fe_call_id :: string
  fe_name :: string

record flow_summary =
  fy_turns :: int
  fy_model_calls :: int
  fy_tool_calls :: int
  fy_input_tokens :: int
  fy_output_tokens :: int
  fy_duration_ms :: int
  fy_usage_exact :: bool

definition no_flow :: flow_summary where
  "no_flow = \<lparr>fy_turns = 0, fy_model_calls = 0, fy_tool_calls = 0, fy_input_tokens = 0, fy_output_tokens = 0,
     fy_duration_ms = 0, fy_usage_exact = False\<rparr>"

definition estimate_tokens :: "string \<Rightarrow> int" where
  "estimate_tokens text = (if text = [] then 0 else (int (length text) + 3) div 4)"

text \<open>The titles are in Chinese; their bytes are spelled out where the code has them.\<close>

definition utf8 :: "nat list \<Rightarrow> string" where
  "utf8 bs = map char_of bs"

definition images_label :: string where
  "images_label = utf8 [32, 229, 188, 160, 229, 155, 190, 231, 137, 135]"

definition middle_dot :: string where
  "middle_dot = utf8 [32, 194, 183, 32]"

definition summarize_message :: "response_item \<Rightarrow> string" where
  "summarize_message item =
     (let images = length (filter (\<lambda>c. ci_type c = ''input_image'') (ri_content item));
          text = item_text item in
      if images = 0 then text
      else if text = [] then show_nat images @ images_label
      else text @ middle_dot @ show_nat images @ images_label)"

definition title_turn :: string where
  "title_turn = ''Turn '' @ utf8 [229, 188, 128, 229, 167, 139]"

definition title_output :: string where
  "title_output = utf8 [230, 168, 161, 229, 158, 139, 232, 190, 147, 229, 135, 186] @ middle_dot @ ''Turn '' @
     utf8 [229, 174, 140, 230, 136, 144]"

definition title_call :: string where
  "title_call = utf8 [230, 168, 161, 229, 158, 139, 232, 191, 148, 229, 155, 158, 229, 183, 165, 229, 133, 183, 232, 176, 131, 231, 148, 168]"

definition title_result :: string where
  "title_result = utf8 [229, 183, 165, 229, 133, 183, 230, 137, 167, 232, 161, 140, 231, 187, 147, 230, 158, 156]"

text \<open>The variables of the loop; the times are nanoseconds, \<open>None\<close> is the zero time.\<close>

record flow_state =
  fl_events :: "flow_event list"
  fl_summary :: flow_summary
  fl_turn :: int
  fl_step :: int
  fl_exact :: bool
  fl_first :: "int option"
  fl_last :: "int option"

definition flow_start :: flow_state where
  "flow_start = \<lparr>fl_events = [], fl_summary = no_flow, fl_turn = 0, fl_step = 0, fl_exact = False,
     fl_first = None, fl_last = None\<rparr>"

definition flow_complete :: "turn_complete_event \<Rightarrow> flow_state \<Rightarrow> flow_state" where
  "flow_complete c s =
     (let y = (fl_summary s)\<lparr>fy_duration_ms := wrap64 (fy_duration_ms (fl_summary s) + tc_duration_ms c)\<rparr> in
      case tc_usage c of
        None \<Rightarrow> s\<lparr>fl_summary := y\<rparr>
      | Some u \<Rightarrow>
          if 0 < tu_total u then
            (let y1 = (if fl_exact s then y else y\<lparr>fy_input_tokens := 0, fy_output_tokens := 0\<rparr>)
             in s\<lparr>fl_exact := True,
                  fl_summary := y1\<lparr>fy_input_tokens := wrap64 (fy_input_tokens y1 + tu_input u),
                    fy_output_tokens := wrap64 (fy_output_tokens y1 + tu_output u)\<rparr>\<rparr>)
          else s\<lparr>fl_summary := y\<rparr>)"

definition add_input :: "string \<Rightarrow> flow_state \<Rightarrow> flow_state" where
  "add_input text s = (if fl_exact s then s else s\<lparr>fl_summary := (fl_summary s)
     \<lparr>fy_input_tokens := wrap64 (fy_input_tokens (fl_summary s) + estimate_tokens text)\<rparr>\<rparr>)"

definition add_output :: "string \<Rightarrow> flow_state \<Rightarrow> flow_state" where
  "add_output text s = (if fl_exact s then s else s\<lparr>fl_summary := (fl_summary s)
     \<lparr>fy_output_tokens := wrap64 (fy_output_tokens (fl_summary s) + estimate_tokens text)\<rparr>\<rparr>)"

definition flow_node :: "rollout_line \<Rightarrow> string \<Rightarrow> string \<Rightarrow> string \<Rightarrow> string \<Rightarrow> string \<Rightarrow> flow_state \<Rightarrow> flow_state" where
  "flow_node l kind title detail call name s =
     s\<lparr>fl_events := fl_events s @ [\<lparr>fe_ordinal = rl_ordinal l, fe_timestamp = rl_timestamp l, fe_kind = kind,
         fe_title = title, fe_detail = detail, fe_turn = fl_turn s, fe_step = fl_step s,
         fe_call_id = call, fe_name = name\<rparr>]\<rparr>"

definition flow_item :: "rollout_line \<Rightarrow> response_item \<Rightarrow> flow_state \<Rightarrow> flow_state" where
  "flow_item l item s =
     (if ri_type item = ''message'' then
        (if ri_role item = ''user'' then
           add_input (item_text item)
             (flow_node l ''turn'' title_turn (summarize_message item) [] []
               (s\<lparr>fl_turn := fl_turn s + 1, fl_step := 0,
                  fl_summary := (fl_summary s)\<lparr>fy_turns := fl_turn s + 1\<rparr>\<rparr>))
         else if ri_role item = ''assistant'' then
           add_output (item_text item)
             (flow_node l ''assistant'' title_output (item_text item) [] []
               (s\<lparr>fl_step := fl_step s + 1,
                  fl_summary := (fl_summary s)\<lparr>fy_model_calls := fy_model_calls (fl_summary s) + 1\<rparr>\<rparr>))
         else s)
      else if ri_type item = ''function_call'' then
        add_output (ri_arguments item)
          (flow_node l ''tool_call'' title_call (ri_arguments item) (ri_call_id item) (ri_name item)
            (s\<lparr>fl_step := fl_step s + 1,
               fl_summary := (fl_summary s)\<lparr>fy_model_calls := fy_model_calls (fl_summary s) + 1,
                 fy_tool_calls := fy_tool_calls (fl_summary s) + 1\<rparr>\<rparr>))
      else if ri_type item = ''function_call_output'' then
        add_input (ri_output item)
          (flow_node l ''tool_output'' title_result (ri_output item) (ri_call_id item) [] s)
      else s)"

datatype flow_error = FlowOpen os_error | FlowLine | FlowItem | FlowLineTooLong

text \<open>One line; \<open>time_of\<close> parses a time stamp, to the zero time if it is malformed.\<close>

definition flow_line :: "(string \<Rightarrow> int option) \<Rightarrow> rollout_line \<Rightarrow> flow_state \<Rightarrow> (flow_error, flow_state) result" where
  "flow_line time_of l s =
     (case rl_payload l of
        None \<Rightarrow> Inr s
      | Some p \<Rightarrow>
        if rl_type l = ''event_msg'' then
          Inr (case Option.bind (event_of_json p) ev_complete of None \<Rightarrow> s | Some c \<Rightarrow> flow_complete c s)
        else if rl_type l = ''response_item'' then
          (case item_of_json p of
             None \<Rightarrow> Inl FlowItem
           | Some item \<Rightarrow>
               (let at = time_of (rl_timestamp l);
                    s1 = s\<lparr>fl_first := (case fl_first s of None \<Rightarrow> at | Some t \<Rightarrow> Some t),
                           fl_last := (case at of None \<Rightarrow> fl_last s | Some t \<Rightarrow> Some t)\<rparr>
                in Inr (flow_item l item s1)))
        else Inr s)"

fun flow_loop :: "(string \<Rightarrow> json option) \<Rightarrow> (string \<Rightarrow> int option) \<Rightarrow> string list \<Rightarrow> flow_state \<Rightarrow>
    (flow_error, flow_state) result" where
  "flow_loop parse time_of [] s = Inr s"
| "flow_loop parse time_of (t # ts) s =
     (case decode_line parse t of
        None \<Rightarrow> Inl FlowLine
      | Some l \<Rightarrow> (case flow_line time_of l s of Inl e \<Rightarrow> Inl e | Inr s' \<Rightarrow> flow_loop parse time_of ts s'))"

definition flow_result :: "flow_state \<Rightarrow> flow_event list \<times> flow_summary" where
  "flow_result s =
     (let y = fl_summary s;
          y1 = (if fy_duration_ms y = 0 then
                  (case (fl_first s, fl_last s) of
                     (Some a, Some b) \<Rightarrow>
                       y\<lparr>fy_duration_ms := max (- (2 ^ 63)) (min (2 ^ 63 - 1) (b - a)) sdiv 1000000\<rparr>
                   | _ \<Rightarrow> y)
                else y)
      in (fl_events s, y1\<lparr>fy_usage_exact := fl_exact s\<rparr>))"

text \<open>\<open>ReadRolloutFlow\<close>; any error leaves no events and an empty summary.\<close>

definition read_rollout_flow :: "(string \<Rightarrow> json option) \<Rightarrow> (string \<Rightarrow> int option) \<Rightarrow> fs \<Rightarrow> apath \<Rightarrow>
    (flow_error, flow_event list \<times> flow_summary) result" where
  "read_rollout_flow parse time_of d path =
     (case read_file d path of
        Inl e \<Rightarrow> if e = NotExist then Inr ([], no_flow) else Inl (FlowOpen e)
      | Inr text \<Rightarrow>
        (let (ts, too_long) = scan_lines text in
         case flow_loop parse time_of ts flow_start of
           Inl e \<Rightarrow> Inl e
         | Inr s \<Rightarrow> if too_long then Inl FlowLineTooLong else Inr (flow_result s)))"

subsection \<open>The lines of a rollout\<close>

text \<open>The file of a recorder holds exactly the lines \<open>ls\<close>, numbered below the next ordinal.\<close>

definition file_lines :: "(string \<Rightarrow> json option) \<Rightarrow> rollout_recorder \<Rightarrow> fs \<Rightarrow> rollout_line list \<Rightarrow> bool" where
  "file_lines parse rr d ls \<longleftrightarrow> rr_open rr \<and> \<not> rr_failed rr \<and> 0 \<le> rr_ordinal rr \<and>
     (\<forall>l \<in> set ls. 0 \<le> rl_ordinal l \<and> rl_ordinal l < rr_ordinal rr) \<and>
     (\<exists>text ts. read_file d (apath_of (rr_path rr)) = Inr text \<and> ends_line text \<and>
        scan_lines text = (ts, False) \<and> map (decode_line parse) ts = map Some ls)"

text \<open>A line the recorder appends is the last line of the file.\<close>

lemma record_item_lines:
  assumes "file_lines parse rr d ls"
    and "good_text render parse (line_json \<lparr>rl_timestamp = now, rl_ordinal = rr_ordinal rr,
           rl_type = kind, rl_payload = Some p\<rparr>)"
    and "rr_ordinal rr + 1 < 2 ^ 64"
    and "record_item render now kind p (rr, d) = (rr', d')"
  shows "file_lines parse rr' d' (ls @ [\<lparr>rl_timestamp = now, rl_ordinal = rr_ordinal rr, rl_type = kind,
      rl_payload = Some p\<rparr>]) \<and> rr_ordinal rr' = rr_ordinal rr + 1 \<and> rr_path rr' = rr_path rr"
proof -
  let ?l = "\<lparr>rl_timestamp = now, rl_ordinal = rr_ordinal rr, rl_type = kind, rl_payload = Some p\<rparr>"
  let ?path = "apath_of (rr_path rr)"
  let ?new = "render (line_json ?l) @ [newline]"
  from assms(1) obtain t ts where rr: "rr_open rr" "\<not> rr_failed rr" "0 \<le> rr_ordinal rr"
    and ords: "\<forall>l \<in> set ls. 0 \<le> rl_ordinal l \<and> rl_ordinal l < rr_ordinal rr"
    and t: "read_file d ?path = Inr t" "ends_line t" "scan_lines t = (ts, False)"
    and ts: "map (decode_line parse) ts = map Some ls"
    unfolding file_lines_def by blast
  obtain d1 where d1: "append_file ?path ?new d = Inr d1" "read_file d1 ?path = Inr (t @ ?new)"
    using append_reads [OF t(1)] by blast
  have small: "(rr_ordinal rr + 1) mod 2 ^ 64 = rr_ordinal rr + 1"
    using assms(3) rr(3) by (intro mod_pos_pos_trivial) simp_all
  have out: "d' = d1" "rr' = rr\<lparr>rr_ordinal := rr_ordinal rr + 1\<rparr>"
    using assms(4) rr(1,2) d1(1) small by (simp_all add: record_item_def Let_def)
  have "parse (render (line_json ?l)) = Some (line_json ?l)" using assms(2) by (simp add: good_text_def)
  moreover have "line_of_json (line_json ?l) = Some ?l" using assms(3) rr(3) by (intro line_json_inverse) simp_all
  ultimately have "map (decode_line parse) (ts @ [render (line_json ?l)]) = map Some (ls @ [?l])"
    using ts by (simp add: decode_line_def)
  moreover have "scan_lines (t @ ?new) = (ts @ [render (line_json ?l)], False)"
    by (rule scan_lines_append [OF t(2) assms(2) t(3)])
  moreover have "ends_line (t @ ?new)" by (simp add: ends_line_def)
  moreover have "\<forall>l \<in> set (ls @ [?l]). 0 \<le> rl_ordinal l \<and> rl_ordinal l < rr_ordinal rr + 1"
    using ords rr(3) by fastforce
  ultimately show ?thesis
    unfolding out file_lines_def using rr d1(2) by auto
qed

lemma record_payloads_lines:
  "file_lines parse rr d ls \<Longrightarrow> \<forall>l \<in> set (stamp now (rr_ordinal rr) ps). good_text render parse (line_json l) \<Longrightarrow>
    rr_ordinal rr + int (length ps) < 2 ^ 64 \<Longrightarrow>
    fold (\<lambda>(k, p). record_item render now k p) ps (rr, d) = (rr', d') \<Longrightarrow>
    file_lines parse rr' d' (ls @ stamp now (rr_ordinal rr) ps) \<and>
      rr_ordinal rr' = rr_ordinal rr + int (length ps) \<and> rr_path rr' = rr_path rr"
proof (induction ps arbitrary: rr d ls)
  case (Cons kp ps)
  obtain k p where kp: "kp = (k, p)" by fastforce
  obtain rr1 d1 where r: "record_item render now k p (rr, d) = (rr1, d1)" by fastforce
  let ?l = "\<lparr>rl_timestamp = now, rl_ordinal = rr_ordinal rr, rl_type = k, rl_payload = Some p\<rparr>"
  have one: "file_lines parse rr1 d1 (ls @ [?l]) \<and> rr_ordinal rr1 = rr_ordinal rr + 1 \<and> rr_path rr1 = rr_path rr"
    using Cons.prems(2,3) by (intro record_item_lines [OF Cons.prems(1) _ _ r]) (simp_all add: kp)
  have "0 \<le> rr_ordinal rr" using Cons.prems(1) by (simp add: file_lines_def)
  then have "(rr_ordinal rr + 1) mod 2 ^ 64 = rr_ordinal rr1"
    using Cons.prems(3) one by (simp add: mod_pos_pos_trivial)
  with one show ?case
    using Cons.IH [of rr1 d1 "ls @ [?l]"] Cons.prems by (simp add: kp r)
qed simp

lemma length_stamp [simp]: "length (stamp now n ps) = length ps"
  by (induction now n ps rule: stamp.induct) simp_all

lemma fold_ordinals:
  "0 \<le> n \<Longrightarrow> n + int (length ps) < 2 ^ 64 \<Longrightarrow> fold (\<lambda>_ m. (m + 1) mod 2 ^ 64) ps n = n + int (length ps)"
  by (induction ps arbitrary: n) (simp_all add: mod_pos_pos_trivial)

lemma run_records_lines:
  "file_lines parse rr d ls \<Longrightarrow> \<forall>l \<in> set (written ej root ops (rr_ordinal rr)). good_text render parse (line_json l) \<Longrightarrow>
    rr_ordinal rr + int (length (written ej root ops (rr_ordinal rr))) < 2 ^ 64 \<Longrightarrow>
    run_records render ej root ops (rr, d) = (rr', d') \<Longrightarrow>
    file_lines parse rr' d' (ls @ written ej root ops (rr_ordinal rr)) \<and>
      rr_ordinal rr' = rr_ordinal rr + int (length (written ej root ops (rr_ordinal rr))) \<and> rr_path rr' = rr_path rr"
proof (induction ops arbitrary: rr d ls)
  case (Cons o' ops)
  obtain now op where o': "o' = (now, op)" by fastforce
  let ?ps = "payloads ej root op"
  obtain rr1 d1 where r: "fold (\<lambda>(k, p). record_item render now k p) ?ps (rr, d) = (rr1, d1)" by fastforce
  have nonneg: "0 \<le> rr_ordinal rr" using Cons.prems(1) by (simp add: file_lines_def)
  have bound: "rr_ordinal rr + int (length ?ps) < 2 ^ 64" using Cons.prems(3) by (simp add: o')
  note ord = fold_ordinals [OF nonneg bound]
  have one: "file_lines parse rr1 d1 (ls @ stamp now (rr_ordinal rr) ?ps) \<and>
      rr_ordinal rr1 = rr_ordinal rr + int (length ?ps) \<and> rr_path rr1 = rr_path rr"
    using Cons.prems(2) by (intro record_payloads_lines [OF Cons.prems(1) _ bound r]) (simp add: o')
  have w: "written ej root (o' # ops) (rr_ordinal rr) =
      stamp now (rr_ordinal rr) ?ps @ written ej root ops (rr_ordinal rr1)"
    using one unfolding o' written.simps ord by simp
  have "file_lines parse rr' d' ((ls @ stamp now (rr_ordinal rr) ?ps) @ written ej root ops (rr_ordinal rr1)) \<and>
      rr_ordinal rr' = rr_ordinal rr1 + int (length (written ej root ops (rr_ordinal rr1))) \<and> rr_path rr' = rr_path rr1"
  proof (rule Cons.IH)
    show "file_lines parse rr1 d1 (ls @ stamp now (rr_ordinal rr) ?ps)" using one by simp
    show "\<forall>l \<in> set (written ej root ops (rr_ordinal rr1)). good_text render parse (line_json l)"
      using Cons.prems(2) unfolding w by simp
    show "rr_ordinal rr1 + int (length (written ej root ops (rr_ordinal rr1))) < 2 ^ 64"
      using Cons.prems(3) one unfolding w by simp
    show "run_records render ej root ops (rr1, d1) = (rr', d')"
      using Cons.prems(4) r by (simp add: o' run_records_def do_record_payloads)
  qed
  with one show ?case unfolding w by simp
qed (simp add: run_records_def)

text \<open>A rollout that did not exist is opened empty.\<close>

lemma open_fresh_lines:
  assumes "open_rollout parse path d = (Inr (rr, items), d')"
    and "read_file d (apath_of path) = Inl NotExist" and "fs_ok d"
  shows "file_lines parse rr d' [] \<and> rr_ordinal rr = 0 \<and> rr_path rr = path"
proof -
  let ?p = "apath_of path"
  from assms(1,2) obtain d1 where d1: "mkdir_all (apath_of (dir_name path)) d = Inr d1"
    and d': "append_file ?p [] d1 = Inr d'"
    and rr: "rr = \<lparr>rr_path = path, rr_ordinal = 0, rr_open = True, rr_failed = False\<rparr>"
    by (auto simp: open_rollout_def read_rollout_def split: sum.splits)
  from d' have dirs: "\<forall>a \<in> set (ancestors ?p). node_at d1 a = Some Dir" and nd: "node_at d1 ?p \<noteq> Some Dir"
    unfolding append_file_def blocked_None [symmetric] by (auto split: option.splits node.splits)
  have "node_at d1 ?p = None"
  proof (rule ccontr)
    assume "node_at d1 ?p \<noteq> None"
    then obtain x where "node_at d1 ?p = Some x" by blast
    then have "node_at d ?p = Some x" using mkdir_all_frame [OF d1, of ?p] nd by (auto split: if_splits)
    moreover from this assms(3) have "blocked d ?p = None" unfolding fs_ok_def blocked_None by blast
    ultimately show False
      using assms(2) nd \<open>node_at d1 ?p = Some x\<close> by (cases x) (auto simp: read_file_def)
  qed
  then have "d' = AList.update ?p (File []) d1"
    using d' by (auto simp: append_file_def split: option.splits)
  moreover have "?p \<notin> set (ancestors ?p)" using ancestors_less by auto
  ultimately have "read_file d' ?p = Inr []" using dirs by (auto simp: read_file_Inr update_conv')
  then show ?thesis by (simp add: rr file_lines_def ends_line_def scan_lines_def text_lines_def)
qed

subsection \<open>The cursor\<close>

text \<open>The cursor that a page of the lines \<open>ls\<close> behind \<open>from\<close> leaves.\<close>

definition cursor_after :: "int \<Rightarrow> rollout_line list \<Rightarrow> int \<Rightarrow> int" where
  "cursor_after from ls n = fold (\<lambda>l m. if from \<le> rl_ordinal l \<and> m \<le> rl_ordinal l then rl_ordinal l + 1 else m) ls n"

lemma cursor_after_bounds:
  "n \<le> cursor_after from ls n \<and> (\<forall>l \<in> set ls. from \<le> rl_ordinal l \<longrightarrow> rl_ordinal l < cursor_after from ls n) \<and>
    ((\<forall>l \<in> set ls. rl_ordinal l < k) \<longrightarrow> n \<le> k \<longrightarrow> cursor_after from ls n \<le> k)"
proof (induction ls arbitrary: n)
  case (Cons l ls)
  let ?m = "if from \<le> rl_ordinal l \<and> n \<le> rl_ordinal l then rl_ordinal l + 1 else n"
  have c: "cursor_after from (l # ls) n = cursor_after from ls ?m" by (simp add: cursor_after_def)
  show ?case unfolding c using Cons.IH [of ?m] by (auto split: if_splits)
qed (simp add: cursor_after_def)

lemma events_loop_lines:
  "map (decode_line parse) ts = map Some ls \<Longrightarrow> \<forall>l \<in> set ls. 0 \<le> rl_ordinal l \<and> rl_ordinal l + 1 < 2 ^ 64 \<Longrightarrow>
    events_loop parse from ts (es, n) =
      ((es @ map stored_of (filter (\<lambda>l. from \<le> rl_ordinal l) ls), cursor_after from ls n), None)"
proof (induction ls arbitrary: ts es n)
  case (Cons l ls)
  from Cons.prems(1) obtain t ts' where ts: "ts = t # ts'" "decode_line parse t = Some l"
    "map (decode_line parse) ts' = map Some ls" by (cases ts) auto
  have "(rl_ordinal l + 1) mod 2 ^ 64 = rl_ordinal l + 1"
    using Cons.prems(2) by (simp add: mod_pos_pos_trivial)
  with Cons.IH [OF ts(3)] Cons.prems(2) show ?case by (simp add: ts(1,2) cursor_after_def not_less)
qed (simp add: cursor_after_def)

lemma read_events_lines:
  assumes "file_lines parse rr d ls" "rr_ordinal rr < 2 ^ 64"
  shows "read_rollout_events parse d (apath_of (rr_path rr)) from =
    ((map stored_of (filter (\<lambda>l. from \<le> rl_ordinal l) ls), cursor_after from ls from), None)"
proof -
  from assms(1) obtain t ts where t: "read_file d (apath_of (rr_path rr)) = Inr t" "scan_lines t = (ts, False)"
    and ts: "map (decode_line parse) ts = map Some ls" and "\<forall>l \<in> set ls. 0 \<le> rl_ordinal l \<and> rl_ordinal l < rr_ordinal rr"
    unfolding file_lines_def by blast
  with assms(2) have "\<forall>l \<in> set ls. 0 \<le> rl_ordinal l \<and> rl_ordinal l + 1 < 2 ^ 64" by fastforce
  from events_loop_lines [OF ts this] t show ?thesis by (simp add: read_rollout_events_def)
qed

lemma stamp_from: "0 \<le> n \<Longrightarrow> n + int (length ps) < 2 ^ 64 \<Longrightarrow> \<forall>l \<in> set (stamp now n ps). n \<le> rl_ordinal l"
proof (induction ps arbitrary: n)
  case (Cons kp ps)
  obtain k p where kp: "kp = (k, p)" by fastforce
  have "(n + 1) mod 2 ^ 64 = n + 1" using Cons.prems by (simp add: mod_pos_pos_trivial)
  with Cons.IH [of "n + 1"] Cons.prems show ?case by (fastforce simp: kp)
qed simp

lemma written_from:
  "0 \<le> n \<Longrightarrow> n + int (length (written ej root ops n)) < 2 ^ 64 \<Longrightarrow> \<forall>l \<in> set (written ej root ops n). n \<le> rl_ordinal l"
proof (induction ops arbitrary: n)
  case (Cons o' ops)
  obtain now op where o': "o' = (now, op)" by fastforce
  let ?ps = "payloads ej root op"
  have bound: "n + int (length ?ps) < 2 ^ 64" using Cons.prems(2) by (simp add: o')
  have w: "written ej root (o' # ops) n = stamp now n ?ps @ written ej root ops (n + int (length ?ps))"
    unfolding o' written.simps fold_ordinals [OF Cons.prems(1) bound] by (rule refl)
  show ?case
    using stamp_from [OF Cons.prems(1) bound] Cons.IH [of "n + int (length ?ps)"] Cons.prems
    unfolding w by fastforce
qed simp


text \<open>A codec that knows the documents \<open>docs\<close>, each by a letter, for concrete runs.\<close>

definition letter_of :: "json list \<Rightarrow> json \<Rightarrow> string" where
  "letter_of docs j = [char_of (65 + length (takeWhile (\<lambda>x. x \<noteq> j) docs))]"

definition of_letter :: "json list \<Rightarrow> string \<Rightarrow> json option" where
  "of_letter docs s =
     (case s of [c] \<Rightarrow> if byte_of c - 65 < length docs then Some (docs ! (byte_of c - 65)) else None | _ \<Rightarrow> None)"

lemma letters_good:
  assumes "j \<in> set docs" "length docs \<le> 26"
  shows "good_text (letter_of docs) (of_letter docs) j"
proof -
  let ?n = "length (takeWhile (\<lambda>x. x \<noteq> j) docs)"
  have "dropWhile (\<lambda>x. x \<noteq> j) docs \<noteq> []" using assms(1) by (auto simp: dropWhile_eq_Nil_conv)
  moreover have "length docs = ?n + length (dropWhile (\<lambda>x. x \<noteq> j) docs)"
    by (metis length_append takeWhile_dropWhile_id)
  ultimately have n: "?n < length docs" by simp
  then have "docs ! ?n = j" using nth_length_takeWhile [of "\<lambda>x. x \<noteq> j" docs] by simp
  moreover have b: "byte_of (char_of (65 + ?n)) = 65 + ?n" using n assms(2) by (simp add: byte_of_def)
  moreover have "char_of (65 + ?n) \<noteq> newline" "char_of (65 + ?n) \<noteq> CHR 0x0D"
    using b by (auto simp: newline_def byte_of_def dest: arg_cong [of _ _ byte_of])
  ultimately show ?thesis
    using n by (simp add: good_text_def letter_of_def of_letter_def max_line_bytes_def)
qed

definition view_complete :: turn_complete_event where
  "view_complete = no_complete\<lparr>tc_turn_id := ''t1'', tc_completed_at := 9, tc_last_agent_message := Some ''hi''\<rparr>"

definition view_ops :: "(string \<times> recorded) list" where
  "view_ops = [(''t'', RecEvent (TurnStarted ''t1'' 5)), (''t'', RecItems [new_user_message ''go'']),
     (''t'', RecEvent (TurnComplete view_complete))]"

definition view_docs :: "json list" where
  "view_docs = map line_json (written event_json ''/'' view_ops 0)"

definition view_run :: "nat \<Rightarrow> rollout_recorder \<times> fs" where
  "view_run n = run_records (letter_of view_docs) event_json ''/'' (take n view_ops)
     (\<lparr>rr_path = ''/r'', rr_ordinal = 0, rr_open = True, rr_failed = False\<rparr>,
      [(APath [], Dir), (APath [''r''], File [])])"

lemma view_open:
  "open_rollout (of_letter view_docs) ''/r'' [(APath [], Dir)] =
     (Inr (\<lparr>rr_path = ''/r'', rr_ordinal = 0, rr_open = True, rr_failed = False\<rparr>, []),
      [(APath [], Dir), (APath [''r''], File [])])"
  by code_simp

lemma view_fresh: "read_file [(APath [], Dir)] (apath_of ''/r'') = Inl NotExist"
  by code_simp

lemma root_fs_ok: "fs_ok [(APath [], Dir)]"
  by (auto simp: fs_ok_def ancestors_def split: if_splits)

lemma view_good: "\<forall>l \<in> set (written event_json ''/'' view_ops 0). good_text (letter_of view_docs) (of_letter view_docs) (line_json l)"
  by (auto intro!: letters_good simp: view_docs_def) (simp add: view_ops_def)

lemma view_mid: "rr_ordinal (fst (view_run 2)) = 2"
  by code_simp

lemma view_rest: "run_records (letter_of view_docs) event_json ''/'' (drop 2 view_ops) (view_run 2) = view_run 3"
  by (simp add: view_run_def run_records_def view_ops_def)

lemma view_split: "written event_json ''/'' view_ops 0 =
    written event_json ''/'' (take 2 view_ops) 0 @ written event_json ''/'' (drop 2 view_ops) 2"
  by (simp add: view_ops_def transient_def)


subsection \<open>The list of turns\<close>

text \<open>What a recorded operation means for the list of turns.\<close>

fun turns_op :: "recorded \<Rightarrow> stored_turn list \<Rightarrow> stored_turn list" where
  "turns_op (RecItems items) turns = change_last (\<lambda>t. t\<lparr>sn_items := sn_items t @ items\<rparr>) turns"
| "turns_op (RecEvent m) turns = turns_event (event_fields_of m) turns"
| "turns_op _ turns = turns"

fun op_events_ok :: "recorded \<Rightarrow> bool" where
  "op_events_ok (RecEvent m) = event_ok m"
| "op_events_ok _ = True"

lemma change_last_id: "change_last (\<lambda>t. t) xs = xs"
  by (simp add: change_last_def)

lemma change_last_change_last: "change_last f (change_last g xs) = change_last (f \<circ> g) xs"
  by (simp add: change_last_def)

lemma change_last_snoc [simp]: "change_last f (xs @ [x]) = xs @ [f x]"
  by (simp add: change_last_def)

lemma transient_no_turn: "transient m \<Longrightarrow> turns_event (event_fields_of m) turns = turns"
  by (cases m) (simp_all add: transient_def turns_event_def event_fields_of_def no_fields_def Let_def)

lemma turns_items:
  "fold turns_step (map stored_of (stamp now n (map (\<lambda>i. (''response_item'', item_json i)) items))) turns =
    change_last (\<lambda>t. t\<lparr>sn_items := sn_items t @ items\<rparr>) turns"
  by (induction items arbitrary: n turns)
     (simp_all add: turns_step_def stored_of_def item_json_decodes change_last_change_last comp_def change_last_id)

lemma turns_payloads:
  assumes "op_events_ok op"
  shows "fold turns_step (map stored_of (stamp now n (payloads event_json root op))) turns = turns_op op turns"
proof (cases op)
  case (RecEvent m)
  with assms have "event_of_json (event_json m) = Some (event_fields_of m)" by (simp add: event_json_decodes)
  with RecEvent show ?thesis by (simp add: turns_step_def stored_of_def transient_no_turn)
qed (simp_all add: turns_items, simp_all add: turns_step_def stored_of_def)

lemma turns_written:
  "\<forall>(now, op) \<in> set ops. op_events_ok op \<Longrightarrow>
    fold turns_step (map stored_of (written event_json root ops n)) turns = fold (\<lambda>(_, op). turns_op op) ops turns"
proof (induction ops arbitrary: n turns)
  case (Cons o' ops)
  obtain now op where o': "o' = (now, op)" by fastforce
  with Cons show ?case by (simp add: turns_payloads)
qed simp

lemma read_turns_lines:
  assumes "file_lines parse rr d ls" "rr_ordinal rr < 2 ^ 64"
  shows "read_rollout_turns parse d (apath_of (rr_path rr)) = Inr (fold turns_step (map stored_of ls) [])"
proof -
  have "filter (\<lambda>l. 0 \<le> rl_ordinal l) ls = ls"
    using assms(1) unfolding file_lines_def by (simp add: filter_id_conv)
  with read_events_lines [OF assms, of 0] show ?thesis by (simp add: read_rollout_turns_def)
qed



end
