(* ===== verification/ExecServer.thy ===== *)
theory ExecServer
  imports Sandbox ProcessManager RolloutViews "HOL-Library.List_Lexorder" "HOL-Library.Char_ord"
    "HOL-Library.Signed_Division" "HOL-Library.Multiset"
begin

section \<open>The remote exec server and its client: internal/execserver\<close>

text \<open>
  A Session may run its commands on another host: the server starts processes by the identifier that the client
  chose, buffers their output and hands it out to polls; requests and responses are JSON-RPC documents over
  HTTP. The server's processes are objects in a store, as goroutines keep feeding a process that is
  no longer in the table. What the host does is part of the input: the outcome of launching a command, output and exits before and
  within a request. HTTP, the text form of JSON and the quoting of \<open>%q\<close> are parameters.
\<close>

subsection \<open>The protocol\<close>

definition method_process_start :: string where "method_process_start = ''process/start''"
definition method_process_write :: string where "method_process_write = ''process/write''"
definition method_process_poll :: string where "method_process_poll = ''process/poll''"
definition method_process_kill :: string where "method_process_kill = ''process/kill''"
definition restricted_token :: string where "restricted_token = ''restricted_token''"

definition bool_entry :: "string \<Rightarrow> bool \<Rightarrow> string \<times> json" where
  "bool_entry k b = (k, JBool b)"

definition opt_bool :: "string \<Rightarrow> bool \<Rightarrow> (string \<times> json) list" where
  "opt_bool k b = (if b then [bool_entry k b] else [])"

definition sandbox_intent_json :: "sandbox_intent \<Rightarrow> json" where
  "sandbox_intent_json s = JObj ([bool_entry ''workspace_write'' (si_workspace_write s),
     bool_entry ''network_access'' (si_network_access s), str_entry ''cwd'' (si_cwd s),
     (''workspace_roots'', JArr (map JStr (si_workspace_roots s)))] @
     opt_string ''windows_sandbox_level'' (si_windows_sandbox_level s) @
     opt_bool ''enforce_managed_network'' (si_enforce_managed_network s))"

definition exec_params_json :: "exec_params \<Rightarrow> json" where
  "exec_params_json p = JObj ([str_entry ''process_id'' (xp_process_id p), str_entry ''command'' (xp_command p),
     (''argv'', JArr (map JStr (xp_argv p))), str_entry ''cwd'' (xp_cwd p), bool_entry ''tty'' (xp_tty p)] @
     opt_entry ''sandbox'' sandbox_intent_json (xp_sandbox p))"

definition no_sandbox_intent :: sandbox_intent where
  "no_sandbox_intent = \<lparr>si_workspace_write = False, si_network_access = False, si_cwd = [], si_workspace_roots = [],
     si_windows_sandbox_level = [], si_enforce_managed_network = False\<rparr>"

definition sandbox_intent_of :: "sandbox_intent \<Rightarrow> json \<Rightarrow> sandbox_intent option" where
  "sandbox_intent_of s j = do {
     w \<leftarrow> json_field dec_bool ''workspace_write'' (si_workspace_write s) j;
     n \<leftarrow> json_field dec_bool ''network_access'' (si_network_access s) j;
     c \<leftarrow> json_field dec_string ''cwd'' (si_cwd s) j;
     r \<leftarrow> json_field dec_strings ''workspace_roots'' (si_workspace_roots s) j;
     l \<leftarrow> json_field dec_string ''windows_sandbox_level'' (si_windows_sandbox_level s) j;
     e \<leftarrow> json_field dec_bool ''enforce_managed_network'' (si_enforce_managed_network s) j;
     Some \<lparr>si_workspace_write = w, si_network_access = n, si_cwd = c, si_workspace_roots = r,
       si_windows_sandbox_level = l, si_enforce_managed_network = e\<rparr> }"

definition exec_params_of :: "json \<Rightarrow> exec_params option" where
  "exec_params_of j = do {
     i \<leftarrow> string_field ''process_id'' j; c \<leftarrow> string_field ''command'' j; a \<leftarrow> strings_field ''argv'' j;
     w \<leftarrow> string_field ''cwd'' j; t \<leftarrow> bool_field ''tty'' j;
     s \<leftarrow> ptr_field sandbox_intent_of no_sandbox_intent ''sandbox'' j;
     Some \<lparr>xp_process_id = i, xp_command = c, xp_argv = a, xp_cwd = w, xp_tty = t, xp_sandbox = s\<rparr> }"

definition write_params_json :: "string \<Rightarrow> string \<Rightarrow> json" where
  "write_params_json process_id chars = JObj [str_entry ''process_id'' process_id, str_entry ''chars'' chars]"

definition write_params_of :: "json \<Rightarrow> (string \<times> string) option" where
  "write_params_of j = do { i \<leftarrow> string_field ''process_id'' j; c \<leftarrow> string_field ''chars'' j; Some (i, c) }"

definition poll_params_json :: "string \<Rightarrow> int \<Rightarrow> json" where
  "poll_params_json process_id wait_ms = JObj [str_entry ''process_id'' process_id, int_entry ''wait_ms'' wait_ms]"

definition poll_params_of :: "json \<Rightarrow> (string \<times> int) option" where
  "poll_params_of j = do { i \<leftarrow> string_field ''process_id'' j; w \<leftarrow> int_field ''wait_ms'' j; Some (i, w) }"

definition kill_params_json :: "string \<Rightarrow> json" where
  "kill_params_json process_id = JObj [str_entry ''process_id'' process_id]"

definition kill_params_of :: "json \<Rightarrow> string option" where
  "kill_params_of j = string_field ''process_id'' j"

definition poll_result_json :: "poll_result \<Rightarrow> json" where
  "poll_result_json r = JObj ([str_entry ''output'' (pr_output r), bool_entry ''running'' (pr_running r)] @
     opt_entry ''exit_code'' JInt (pr_exit_code r))"

definition poll_result_of :: "json \<Rightarrow> poll_result option" where
  "poll_result_of j = do {
     out \<leftarrow> string_field ''output'' j; r \<leftarrow> bool_field ''running'' j; c \<leftarrow> int_ptr_field ''exit_code'' j;
     Some \<lparr>pr_output = out, pr_running = r, pr_exit_code = c\<rparr> }"

text \<open>
  A field of type \<open>any\<close> holds the generic value of a document and is marshalled again: numbers go through
  a 64-bit float, which keeps 53 bits, and objects come out with sorted keys, the last of several occurrences. The rendering
  of numbers that are not integers, or beyond \<open>10 ^ 21\<close>, is a parameter.
\<close>

fun bit_count :: "nat \<Rightarrow> nat" where
  "bit_count n = (if n = 0 then 0 else Suc (bit_count (n div 2)))"

definition round_even :: "nat \<Rightarrow> nat \<Rightarrow> nat" where
  "round_even n unit = (let q = n div unit; r = n mod unit in
     if 2 * r < unit \<or> 2 * r = unit \<and> even q then q else q + 1)"

definition float_nat :: "nat \<Rightarrow> nat" where
  "float_nat n = (let unit = 2 ^ (bit_count n - 53) in round_even n unit * unit)"

definition float_int :: "int \<Rightarrow> int" where
  "float_int i = (if i < 0 then - int (float_nat (nat (- i))) else int (float_nat (nat i)))"

definition sort_entries :: "(string \<times> json) list \<Rightarrow> (string \<times> json) list" where
  "sort_entries kvs = map (\<lambda>k. (k, the (map_of (rev kvs) k))) (sort (remdups (map fst kvs)))"

primrec any_json :: "(string \<Rightarrow> json) \<Rightarrow> json \<Rightarrow> json" where
  "any_json refloat JNull = JNull"
| "any_json refloat (JBool b) = JBool b"
| "any_json refloat (JInt i) = (if \<bar>float_int i\<bar> < 10 ^ 21 then JInt (float_int i) else refloat (show_int i))"
| "any_json refloat (JFloat s) = refloat s"
| "any_json refloat (JStr s) = JStr s"
| "any_json refloat (JArr vs) = JArr (map (any_json refloat) vs)"
| "any_json refloat (JObj kvs) = JObj (sort_entries (map (map_prod id (any_json refloat)) kvs))"

record rpc_request =
  rq_jsonrpc :: string
  rq_id :: json
  rq_method :: string
  rq_params :: json

definition rpc_request_json :: "string \<Rightarrow> json \<Rightarrow> json" where
  "rpc_request_json m params = JObj [str_entry ''jsonrpc'' ''2.0'', int_entry ''id'' 1, str_entry ''method'' m,
     (''params'', params)]"

definition dec_any :: "json \<Rightarrow> json \<Rightarrow> json option" where
  "dec_any v old = Some v"

definition rpc_request_of :: "json \<Rightarrow> rpc_request option" where
  "rpc_request_of j = do {
     v \<leftarrow> string_field ''jsonrpc'' j; i \<leftarrow> json_field dec_any ''id'' JNull j; m \<leftarrow> string_field ''method'' j;
     p \<leftarrow> json_field dec_any ''params'' JNull j;
     Some \<lparr>rq_jsonrpc = v, rq_id = i, rq_method = m, rq_params = p\<rparr> }"

record rpc_response =
  rs_jsonrpc :: string
  rs_id :: json
  rs_result :: "json option"
  rs_error :: "(int \<times> string) option"

definition rpc_error_json :: "int \<times> string \<Rightarrow> json" where
  "rpc_error_json e = JObj [int_entry ''code'' (fst e), str_entry ''message'' (snd e)]"

definition rpc_response_json :: "rpc_response \<Rightarrow> json" where
  "rpc_response_json r = JObj ([str_entry ''jsonrpc'' (rs_jsonrpc r), (''id'', rs_id r)] @
     opt_entry ''result'' (\<lambda>v. v) (rs_result r) @ opt_entry ''error'' rpc_error_json (rs_error r))"

definition rpc_error_of :: "int \<times> string \<Rightarrow> json \<Rightarrow> (int \<times> string) option" where
  "rpc_error_of e j = do {
     c \<leftarrow> json_field dec_int ''code'' (fst e) j; m \<leftarrow> json_field dec_string ''message'' (snd e) j; Some (c, m) }"

definition dec_raw_message :: "json \<Rightarrow> json option \<Rightarrow> json option option" where
  "dec_raw_message v old = Some (Some v)"

definition rpc_response_of :: "json \<Rightarrow> rpc_response option" where
  "rpc_response_of j = do {
     v \<leftarrow> string_field ''jsonrpc'' j; i \<leftarrow> json_field dec_any ''id'' JNull j;
     r \<leftarrow> json_field dec_raw_message ''result'' None j; e \<leftarrow> ptr_field rpc_error_of (0, []) ''error'' j;
     Some \<lparr>rs_jsonrpc = v, rs_id = i, rs_result = r, rs_error = e\<rparr> }"

subsection \<open>The server\<close>

record server_process =
  sp_tty :: bool
  sp_output :: string
  sp_done :: bool
  sp_exit_code :: int

record exec_server =
  es_next :: nat
  es_store :: "(nat \<times> server_process) list"
  es_processes :: "(string \<times> nat) list"

definition new_handler :: exec_server where
  "new_handler = \<lparr>es_next = 0, es_store = [], es_processes = []\<rparr>"

text \<open>What the server does to a process of the host.\<close>

datatype server_action =
    ServerKill nat
  | ServerClose nat
  | ServerStdin nat string

text \<open>
  Output and exit of a process. The copying of the pipes is over before \<open>Wait\<close> returns, so a process without
  a terminal writes nothing after its exit; the output of a terminal is copied by a goroutine of its own.
\<close>

datatype server_world = ServerWrote nat string | ServerExited nat int

definition put_server_process :: "nat \<Rightarrow> server_process \<Rightarrow> exec_server \<Rightarrow> exec_server" where
  "put_server_process n p es = es\<lparr>es_store := AList.update n p (es_store es)\<rparr>"

definition server_output_write :: "string \<Rightarrow> server_process \<Rightarrow> server_process" where
  "server_output_write data p = p\<lparr>sp_output := sp_output p @ data\<rparr>"

definition server_world_step :: "server_world \<Rightarrow> exec_server \<Rightarrow> exec_server" where
  "server_world_step w es =
     (case w of
        ServerWrote n data \<Rightarrow>
          (case map_of (es_store es) n of
             None \<Rightarrow> es
           | Some p \<Rightarrow> if sp_done p \<and> \<not> sp_tty p then es
                       else put_server_process n (server_output_write data p) es)
      | ServerExited n code \<Rightarrow>
          (case map_of (es_store es) n of
             None \<Rightarrow> es
           | Some p \<Rightarrow> if sp_done p then es
                       else put_server_process n (p\<lparr>sp_exit_code := code, sp_done := True\<rparr>) es))"

definition server_worlds :: "server_world list \<Rightarrow> exec_server \<Rightarrow> exec_server" where
  "server_worlds ws es = fold server_world_step ws es"

text \<open>What launching a command meets; \<open>la_pty\<close> says whether the handler has a terminal starter.\<close>

record launch =
  la_spawn_error :: "string option"
  la_pty :: bool
  la_pty_error :: "string option"
  la_stdin_error :: "string option"
  la_start_error :: "string option"
  la_after_error :: "string option"

definition no_pty_text :: string where
  "no_pty_text = ''PTY unified exec is unavailable on this exec-server; ConPTY is not implemented''"

definition es_register :: "(string \<Rightarrow> string) \<Rightarrow> string \<Rightarrow> server_process \<Rightarrow> exec_server \<Rightarrow> (string, exec_server) result" where
  "es_register quote process_id p es =
     (if map_of (es_processes es) process_id \<noteq> None
      then Inl (''process_id '' @ quote process_id @ '' is already running'')
      else Inr (es\<lparr>es_next := es_next es + 1, es_store := AList.update (es_next es) p (es_store es),
             es_processes := AList.update process_id (es_next es) (es_processes es)\<rparr>))"

definition opt_error :: "string option \<Rightarrow> (string, unit) result" where
  "opt_error e = (case e of None \<Rightarrow> Inr () | Some m \<Rightarrow> Inl m)"

text \<open>\<open>start\<close>: the error if any, the server and what is done to the process.\<close>

definition es_start :: "(string \<Rightarrow> string) \<Rightarrow> launch \<Rightarrow> exec_params \<Rightarrow> exec_server \<Rightarrow>
    (string, unit) result \<times> exec_server \<times> server_action list" where
  "es_start quote la params es =
     (let n = es_next es;
          p = \<lparr>sp_tty = xp_tty params, sp_output = [], sp_done = False, sp_exit_code = 0\<rparr>;
          undo = (if xp_tty params then [ServerClose n, ServerKill n] else [ServerKill n]);
          starting = (if xp_tty params then
              (if \<not> la_pty la then Inl no_pty_text else opt_error (la_pty_error la))
            else (case la_stdin_error la of
                Some e \<Rightarrow> Inl (''open remote stdin: '' @ e)
              | None \<Rightarrow> (case la_start_error la of
                    Some e \<Rightarrow> Inl (''start remote command: '' @ e) | None \<Rightarrow> Inr ())))
      in
      if xp_process_id params = [] then (Inl ''process_id is required'', es, [])
      else (case la_spawn_error la of
          Some e \<Rightarrow> (Inl e, es, [])
        | None \<Rightarrow>
          (case starting of
             Inl e \<Rightarrow> (Inl e, es, [])
           | Inr _ \<Rightarrow>
             (case la_after_error la of
                Some e \<Rightarrow> (Inl e, es, undo)
              | None \<Rightarrow>
                (case es_register quote (xp_process_id params) p es of
                   Inl e \<Rightarrow> (Inl e, es, undo)
                 | Inr es' \<Rightarrow> (Inr (), es', []))))))"

definition es_process :: "(string \<Rightarrow> string) \<Rightarrow> string \<Rightarrow> exec_server \<Rightarrow> (string, nat) result" where
  "es_process quote process_id es =
     (case map_of (es_processes es) process_id of
        None \<Rightarrow> Inl (''unknown process_id '' @ quote process_id)
      | Some n \<Rightarrow> Inr n)"

definition es_write :: "(string \<Rightarrow> string) \<Rightarrow> string option \<Rightarrow> string \<Rightarrow> string \<Rightarrow> exec_server \<Rightarrow>
    (string, unit) result \<times> server_action list" where
  "es_write quote io_error process_id chars es =
     (case es_process quote process_id es of
        Inl e \<Rightarrow> (Inl e, [])
      | Inr n \<Rightarrow> if chars = [] then (Inr (), []) else (opt_error io_error, [ServerStdin n chars]))"

text \<open>
  \<open>poll\<close> waits, takes the output under the lock of the process, and looks whether the process is done only
  after that: \<open>gap\<close> is what happens between the two.
\<close>

definition es_poll :: "(string \<Rightarrow> string) \<Rightarrow> server_world list \<Rightarrow> server_world list \<Rightarrow> string \<Rightarrow> int \<Rightarrow> exec_server \<Rightarrow>
    (string, poll_result) result \<times> exec_server" where
  "es_poll quote waiting gap process_id wait_ms es =
     (case es_process quote process_id es of
        Inl e \<Rightarrow> (Inl e, es)
      | Inr n \<Rightarrow>
        (let wait = wrap64 (wait_ms * millisecond);
             es1 = server_worlds (if 0 < wait then waiting else []) es
         in case map_of (es_store es1) n of
              None \<Rightarrow> (Inl [], es1)
            | Some p1 \<Rightarrow>
              (let es2 = server_worlds gap (put_server_process n (p1\<lparr>sp_output := []\<rparr>) es1) in
               case map_of (es_store es2) n of
                 None \<Rightarrow> (Inl [], es2)
               | Some p2 \<Rightarrow>
                   if sp_done p2 then
                     (Inr \<lparr>pr_output = sp_output p1, pr_running = False, pr_exit_code = Some (sp_exit_code p2)\<rparr>,
                      es2\<lparr>es_processes := AList.delete process_id (es_processes es2)\<rparr>)
                   else (Inr \<lparr>pr_output = sp_output p1, pr_running = True, pr_exit_code = None\<rparr>, es2))))"

definition es_kill :: "(string \<Rightarrow> string) \<Rightarrow> string \<Rightarrow> exec_server \<Rightarrow> (string, unit) result \<times> server_action list" where
  "es_kill quote process_id es =
     (case es_process quote process_id es of
        Inl e \<Rightarrow> (Inl e, [])
      | Inr n \<Rightarrow> (Inr (), ServerKill n #
          (case map_of (es_store es) n of
             Some p \<Rightarrow> if sp_tty p then [ServerClose n] else [] | None \<Rightarrow> [])))"

text \<open>What happens around one request.\<close>

record server_moment =
  sm_launch :: launch
  sm_io_error :: "string option"
  sm_waiting :: "server_world list"
  sm_gap :: "server_world list"

text \<open>\<open>dispatch\<close>; a result of \<open>None\<close> is nil.\<close>

definition es_dispatch :: "(string \<Rightarrow> string) \<Rightarrow> server_moment \<Rightarrow> string \<Rightarrow> json \<Rightarrow> exec_server \<Rightarrow>
    (string, json option) result \<times> exec_server \<times> server_action list" where
  "es_dispatch quote mo m params es =
     (if m = method_process_start then
        (case exec_params_of params of
           None \<Rightarrow> (Inl ''invalid process/start params'', es, [])
         | Some input \<Rightarrow>
             (case es_start quote (sm_launch mo) input es of
                (Inl e, es', acts) \<Rightarrow> (Inl e, es', acts) | (Inr _, es', acts) \<Rightarrow> (Inr None, es', acts)))
      else if m = method_process_write then
        (case write_params_of params of
           None \<Rightarrow> (Inl ''invalid process/write params'', es, [])
         | Some (i, chars) \<Rightarrow>
             (case es_write quote (sm_io_error mo) i chars es of
                (Inl e, acts) \<Rightarrow> (Inl e, es, acts) | (Inr _, acts) \<Rightarrow> (Inr None, es, acts)))
      else if m = method_process_poll then
        (case poll_params_of params of
           None \<Rightarrow> (Inl ''invalid process/poll params'', es, [])
         | Some (i, wait_ms) \<Rightarrow>
             (case es_poll quote (sm_waiting mo) (sm_gap mo) i wait_ms es of
                (Inl e, es') \<Rightarrow> (Inl e, es', []) | (Inr r, es') \<Rightarrow> (Inr (Some (poll_result_json r)), es', [])))
      else if m = method_process_kill then
        (case kill_params_of params of
           None \<Rightarrow> (Inl ''invalid process/kill params'', es, [])
         | Some i \<Rightarrow>
             (case es_kill quote i es of
                (Inl e, acts) \<Rightarrow> (Inl e, es, acts) | (Inr _, acts) \<Rightarrow> (Inr None, es, acts)))
      else (Inl (''unknown method '' @ quote m), es, []))"

definition rpc_result :: "json \<Rightarrow> json option \<Rightarrow> rpc_response" where
  "rpc_result i r = \<lparr>rs_jsonrpc = ''2.0'', rs_id = i,
     rs_result = Some (case r of None \<Rightarrow> JNull | Some v \<Rightarrow> v), rs_error = None\<rparr>"

definition rpc_failure :: "json \<Rightarrow> int \<Rightarrow> string \<Rightarrow> rpc_response" where
  "rpc_failure i code message = \<lparr>rs_jsonrpc = ''2.0'', rs_id = i, rs_result = None, rs_error = Some (code, message)\<rparr>"

text \<open>
  \<open>ServeHTTP\<close>: the status and the body. \<open>first_value\<close> decodes the first document of a text, of which
  the handler reads at most a mebibyte.
\<close>

definition serve_http :: "(json \<Rightarrow> string) \<Rightarrow> (string \<Rightarrow> json option) \<Rightarrow> (string \<Rightarrow> json) \<Rightarrow> (string \<Rightarrow> string) \<Rightarrow>
    server_moment \<Rightarrow> string \<Rightarrow> string \<Rightarrow> exec_server \<Rightarrow> (nat \<times> string) \<times> exec_server \<times> server_action list" where
  "serve_http render first_value refloat quote mo http_method body es =
     (if http_method \<noteq> ''POST'' then ((405, ''method not allowed'' @ [newline]), es, [])
      else case Option.bind (first_value (take 1048576 body)) rpc_request_of of
        None \<Rightarrow> ((200, render (rpc_response_json (rpc_failure JNull (-32700) ''invalid JSON request'')) @ [newline]), es, [])
      | Some rq \<Rightarrow>
          (case es_dispatch quote mo (rq_method rq) (any_json refloat (rq_params rq)) es of
             (Inl e, es', acts) \<Rightarrow>
               ((200, render (rpc_response_json (rpc_failure (any_json refloat (rq_id rq)) (-32000) e)) @ [newline]), es', acts)
           | (Inr r, es', acts) \<Rightarrow>
               ((200, render (rpc_response_json (rpc_result (any_json refloat (rq_id rq)) r)) @ [newline]), es', acts)))"

subsection \<open>The client\<close>

text \<open>What sending a request can meet; the state \<open>'w\<close> is whatever is at the other end.\<close>

datatype http_outcome = BadURL string | NotSent string | BodyLost string | Answered nat string

datatype call_error =
    RequestError string
  | Unreachable string string       \<comment> \<open>method, cause\<close>
  | HttpStatus string nat string    \<comment> \<open>method, status, body\<close>
  | BadResponse
  | RpcFailed string string         \<comment> \<open>method, message\<close>
  | BadResult

definition call_error_text :: "call_error \<Rightarrow> string" where
  "call_error_text e =
     (case e of
        RequestError m \<Rightarrow> m
      | Unreachable m c \<Rightarrow> ''exec-server '' @ m @ '': '' @ c
      | HttpStatus m s b \<Rightarrow> ''exec-server '' @ m @ '': HTTP '' @ show_nat s @ '': '' @ b
      | BadResponse \<Rightarrow> ''decode exec-server response: ''
      | RpcFailed m c \<Rightarrow> ''exec-server '' @ m @ '': '' @ c
      | BadResult \<Rightarrow> ''decode exec-server result: '')"

text \<open>\<open>call\<close>: \<open>decode\<close> is the decoding of the result, from the null document if there is none.\<close>

definition client_call :: "(json \<Rightarrow> string) \<Rightarrow> (string \<Rightarrow> json option) \<Rightarrow> (string \<Rightarrow> 'w \<Rightarrow> http_outcome \<times> 'w) \<Rightarrow>
    (json option \<Rightarrow> 'a option) \<Rightarrow> string \<Rightarrow> json \<Rightarrow> 'w \<Rightarrow> (call_error, 'a) result \<times> 'w" where
  "client_call render parse http decode m params w =
     (case http (render (rpc_request_json m params)) w of
        (BadURL e, w') \<Rightarrow> (Inl (RequestError e), w')
      | (NotSent e, w') \<Rightarrow> (Inl (Unreachable m e), w')
      | (BodyLost e, w') \<Rightarrow> (Inl (RequestError e), w')
      | (Answered status body, w') \<Rightarrow>
          (if status \<noteq> 200 then Inl (HttpStatus m status body)
           else case Option.bind (parse body) rpc_response_of of
             None \<Rightarrow> Inl BadResponse
           | Some r \<Rightarrow>
               (case rs_error r of
                  Some (_, message) \<Rightarrow> Inl (RpcFailed m message)
                | None \<Rightarrow> (case decode (rs_result r) of None \<Rightarrow> Inl BadResult | Some x \<Rightarrow> Inr x)), w'))"

definition no_result :: "json option \<Rightarrow> unit option" where
  "no_result r = Some ()"

definition client_start where
  "client_start render parse http params = client_call render parse http no_result method_process_start (exec_params_json params)"

definition client_write where
  "client_write render parse http process_id chars =
     client_call render parse http no_result method_process_write (write_params_json process_id chars)"

text \<open>A wait is a duration in nanoseconds.\<close>

definition client_poll where
  "client_poll render parse http process_id wait =
     client_call render parse http (\<lambda>r. Option.bind r poll_result_of) method_process_poll
       (poll_params_json process_id (wait sdiv millisecond))"

definition client_kill where
  "client_kill render parse http process_id =
     client_call render parse http no_result method_process_kill (kill_params_json process_id)"

subsection \<open>Remote processes of a Session: internal/tools/process\_manager.go\<close>

record remote_exec_request =
  rx_command :: string
  rx_working_directory :: string
  rx_workspace_root :: string
  rx_call_id :: string
  rx_policy_rule :: string
  rx_policy :: sandbox_policy
  rx_tty :: bool
  rx_output_limit :: int
  rx_emits :: bool

definition remote_params :: "host \<Rightarrow> string \<Rightarrow> remote_exec_request \<Rightarrow> exec_params" where
  "remote_params h process_id rx =
     \<lparr>xp_process_id = process_id, xp_command = rx_command rx, xp_argv = native_shell_argv h (rx_command rx),
      xp_cwd = rx_working_directory rx, xp_tty = rx_tty rx,
      xp_sandbox = Some \<lparr>si_workspace_write = sp_workspace_write (rx_policy rx),
        si_network_access = sp_network_access (rx_policy rx), si_cwd = rx_working_directory rx,
        si_workspace_roots = [rx_workspace_root rx], si_windows_sandbox_level = restricted_token,
        si_enforce_managed_network = \<not> sp_network_access (rx_policy rx)\<rparr>\<rparr>"

definition remote_rule_suffix :: string where
  "remote_rule_suffix = map char_of [32, 194, 183, 32 :: nat] @ ''remote-exec-server''"

text \<open>\<open>startRemote\<close>; the process identifier is made of the clock and random bytes.\<close>

definition start_remote :: "(json \<Rightarrow> string) \<Rightarrow> (string \<Rightarrow> json option) \<Rightarrow> (string \<Rightarrow> 'w \<Rightarrow> http_outcome \<times> 'w) \<Rightarrow>
    host \<Rightarrow> string \<Rightarrow> remote_exec_request \<Rightarrow> world list \<Rightarrow> bool \<Rightarrow> string \<Rightarrow> process_manager \<Rightarrow> 'w \<Rightarrow>
    ((string, exec_result) result \<times> process_manager \<times> event_msg list) \<times> 'w" where
  "start_remote render parse http h process_id rx ws timer_first chunk_id pm w =
     (case client_start render parse http (remote_params h process_id rx) w of
        (started, w') \<Rightarrow>
          (pm_start (case started of Inl e \<Rightarrow> Some (call_error_text e) | Inr _ \<Rightarrow> None)
             (new_process (Some process_id) (rx_tty rx) (rx_policy_rule rx @ remote_rule_suffix) (rx_call_id rx) (rx_emits rx))
             ws timer_first chunk_id (rx_output_limit rx) pm, w'))"

subsection \<open>Polls conserve the output\<close>

text \<open>The output of process \<open>n\<close> that arrives during \<open>ws\<close>.\<close>

fun arrived :: "nat \<Rightarrow> server_world list \<Rightarrow> exec_server \<Rightarrow> string" where
  "arrived n [] es = []"
| "arrived n (w # ws) es =
     (case (w, map_of (es_store es) n) of
        (ServerWrote k data, Some p) \<Rightarrow> if k = n \<and> (\<not> sp_done p \<or> sp_tty p) then data else []
      | _ \<Rightarrow> []) @ arrived n ws (server_world_step w es)"

lemma world_step_processes [simp]: "es_processes (server_world_step w es) = es_processes es"
  by (auto simp: server_world_step_def put_server_process_def split: server_world.splits option.splits)

lemma worlds_processes [simp]: "es_processes (server_worlds ws es) = es_processes es"
  by (induction ws arbitrary: es) (simp_all add: server_worlds_def)

lemma put_processes [simp]: "es_processes (put_server_process n p es) = es_processes es"
  by (simp add: put_server_process_def)

lemma put_store [simp]: "map_of (es_store (put_server_process n p es)) k = (if k = n then Some p else map_of (es_store es) k)"
  by (simp add: put_server_process_def update_conv')

lemma world_step_output:
  "map_of (es_store es) n = Some p \<Longrightarrow>
    \<exists>p'. map_of (es_store (server_world_step w es)) n = Some p' \<and> sp_output p' = sp_output p @ arrived n [w] es"
  by (cases w) (auto simp: server_world_step_def server_output_write_def split: option.splits)

lemma worlds_output:
  "map_of (es_store es) n = Some p \<Longrightarrow>
    \<exists>p'. map_of (es_store (server_worlds ws es)) n = Some p' \<and> sp_output p' = sp_output p @ arrived n ws es"
proof (induction ws arbitrary: es p)
  case (Cons w ws)
  from world_step_output [OF Cons.prems, of w] obtain p1 where
    "map_of (es_store (server_world_step w es)) n = Some p1" "sp_output p1 = sp_output p @ arrived n [w] es" by blast
  with Cons.IH [of "server_world_step w es" p1] show ?case by (simp add: server_worlds_def)
qed (simp add: server_worlds_def)

text \<open>One poll of the client: its input from the host and its wait.\<close>

type_synonym poll_moment = "server_world list \<times> server_world list \<times> int"

fun waited :: "poll_moment \<Rightarrow> server_world list" where
  "waited (w, g, ms) = (if 0 < wrap64 (ms * millisecond) then w else [])"

definition taken :: "nat \<Rightarrow> exec_server \<Rightarrow> exec_server" where
  "taken n es = (case map_of (es_store es) n of None \<Rightarrow> es | Some p \<Rightarrow> put_server_process n (p\<lparr>sp_output := []\<rparr>) es)"

definition poll_arrived :: "nat \<Rightarrow> poll_moment \<Rightarrow> exec_server \<Rightarrow> string" where
  "poll_arrived n m es = (let es1 = server_worlds (waited m) es in
     arrived n (waited m) es @ arrived n (fst (snd m)) (taken n es1))"

lemma es_poll_output:
  assumes "map_of (es_processes es) i = Some n" "map_of (es_store es) n = Some p"
    and "es_poll quote (fst m) (fst (snd m)) i (snd (snd m)) es = (x, es')"
  obtains r p' where "x = Inr r" "map_of (es_store es') n = Some p'"
    and "pr_output r = sp_output p @ arrived n (waited m) es"
    and "sp_output p' = arrived n (fst (snd m)) (taken n (server_worlds (waited m) es))"
    and "pr_running r \<longleftrightarrow> \<not> sp_done p'" "pr_exit_code r = (if sp_done p' then Some (sp_exit_code p') else None)"
    and "es_processes es' = (if pr_running r then es_processes es else AList.delete i (es_processes es))"
proof -
  obtain w g ms where m: "m = (w, g, ms)" by (cases m) auto
  define ws where "ws = (if 0 < wrap64 (ms * millisecond) then w else [])"
  have wm: "waited m = ws" "fst (snd m) = g" by (simp_all add: m ws_def)
  let ?es1 = "server_worlds ws es"
  from worlds_output [OF assms(2), of ws] obtain p1 where
    p1: "map_of (es_store ?es1) n = Some p1" "sp_output p1 = sp_output p @ arrived n ws es" by blast
  let ?es2 = "put_server_process n (p1\<lparr>sp_output := []\<rparr>) ?es1"
  have t: "taken n ?es1 = ?es2" by (simp add: taken_def p1(1))
  have "map_of (es_store ?es2) n = Some (p1\<lparr>sp_output := []\<rparr>)" by simp
  from worlds_output [OF this, of g] obtain p2 where
    p2: "map_of (es_store (server_worlds g ?es2)) n = Some p2" "sp_output p2 = arrived n g ?es2" by auto
  have "es_process quote i es = Inr n" using assms(1) by (simp add: es_process_def)
  moreover note assms(3) [unfolded m fst_conv snd_conv es_poll_def Let_def, folded ws_def]
  ultimately have run: "(x, es') = (if sp_done p2 then
      (Inr \<lparr>pr_output = sp_output p1, pr_running = False, pr_exit_code = Some (sp_exit_code p2)\<rparr>,
       (server_worlds g ?es2)\<lparr>es_processes := AList.delete i (es_processes (server_worlds g ?es2))\<rparr>)
    else (Inr \<lparr>pr_output = sp_output p1, pr_running = True, pr_exit_code = None\<rparr>, server_worlds g ?es2))"
    using p1(1) p2(1) by simp
  let ?r = "\<lparr>pr_output = sp_output p1, pr_running = \<not> sp_done p2,
    pr_exit_code = (if sp_done p2 then Some (sp_exit_code p2) else None)\<rparr>"
  show thesis
    by (rule that [of ?r p2]) (use run p1(2) p2 in \<open>simp_all add: t wm split: if_splits\<close>)
qed

text \<open>A client polls until the process is done.\<close>

fun es_polls :: "(string \<Rightarrow> string) \<Rightarrow> string \<Rightarrow> poll_moment list \<Rightarrow> exec_server \<Rightarrow> poll_result list \<times> exec_server" where
  "es_polls quote i [] es = ([], es)"
| "es_polls quote i (m # ms) es =
     (case es_poll quote (fst m) (fst (snd m)) i (snd (snd m)) es of
        (Inl e, es') \<Rightarrow> ([], es')
      | (Inr r, es') \<Rightarrow>
          (if pr_running r then (case es_polls quote i ms es' of (rs, es'') \<Rightarrow> (r # rs, es'')) else ([r], es')))"

fun polls_arrived :: "(string \<Rightarrow> string) \<Rightarrow> string \<Rightarrow> nat \<Rightarrow> poll_moment list \<Rightarrow> exec_server \<Rightarrow> string" where
  "polls_arrived quote i n [] es = []"
| "polls_arrived quote i n (m # ms) es = poll_arrived n m es @
     (case es_poll quote (fst m) (fst (snd m)) i (snd (snd m)) es of
        (Inr r, es') \<Rightarrow> if pr_running r then polls_arrived quote i n ms es' else []
      | _ \<Rightarrow> [])"

lemma polls_conserve:
  "map_of (es_processes es) i = Some n \<Longrightarrow> map_of (es_store es) n = Some p \<Longrightarrow> es_polls quote i ms es = (rs, es') \<Longrightarrow>
    \<exists>p'. map_of (es_store es') n = Some p' \<and>
      concat (map pr_output rs) @ sp_output p' = sp_output p @ polls_arrived quote i n ms es \<and>
      (if rs \<noteq> [] \<and> \<not> pr_running (last rs) then map_of (es_processes es') i = None \<and> sp_done p'
       else length rs = length ms \<and> map_of (es_processes es') i = Some n)"
proof (induction ms arbitrary: es p rs)
  case (Cons m ms)
  obtain x es1 where poll: "es_poll quote (fst m) (fst (snd m)) i (snd (snd m)) es = (x, es1)" by fastforce
  from es_poll_output [OF Cons.prems(1,2) poll] obtain r p1 where
    x: "x = Inr r" and p1: "map_of (es_store es1) n = Some p1"
    and out: "pr_output r = sp_output p @ arrived n (waited m) es"
      "sp_output p1 = arrived n (fst (snd m)) (taken n (server_worlds (waited m) es))"
    and run: "pr_running r \<longleftrightarrow> \<not> sp_done p1"
    and procs: "es_processes es1 = (if pr_running r then es_processes es else AList.delete i (es_processes es))"
    by metis
  have arr: "pr_output r @ sp_output p1 = sp_output p @ poll_arrived n m es"
    by (simp add: out poll_arrived_def Let_def)
  show ?case
  proof (cases "pr_running r")
    case True
    obtain rs1 where rest: "es_polls quote i ms es1 = (rs1, es')" and rs: "rs = r # rs1"
      using Cons.prems(3) by (auto simp: poll x True split: prod.splits)
    have "map_of (es_processes es1) i = Some n" using procs True Cons.prems(1) by simp
    from Cons.IH [OF this p1 rest] obtain p' where
      p': "map_of (es_store es') n = Some p'"
        "concat (map pr_output rs1) @ sp_output p' = sp_output p1 @ polls_arrived quote i n ms es1"
        "if rs1 \<noteq> [] \<and> \<not> pr_running (last rs1) then map_of (es_processes es') i = None \<and> sp_done p'
         else length rs1 = length ms \<and> map_of (es_processes es') i = Some n" by blast
    have "concat (map pr_output rs) @ sp_output p' = sp_output p @ polls_arrived quote i n (m # ms) es"
      using p'(2) arr by (simp add: rs poll x True)
    with p'(1,3) show ?thesis by (auto simp: rs True)
  next
    case False
    with Cons.prems(3) have "rs = [r]" "es' = es1" by (simp_all add: poll x)
    with False p1 arr run procs show ?thesis by (auto simp: poll x delete_conv')
  qed
qed simp

lemma no_writes_arrived: "\<forall>w \<in> set ws. \<forall>data. w \<noteq> ServerWrote n data \<Longrightarrow> arrived n ws es = []"
  by (induction ws arbitrary: es) (auto split: server_world.splits option.splits)

lemma polls_leftover:
  "map_of (es_processes es) i = Some n \<Longrightarrow> map_of (es_store es) n = Some p \<Longrightarrow> es_polls quote i ms es = (rs, es') \<Longrightarrow>
    rs \<noteq> [] \<Longrightarrow> \<forall>m \<in> set ms. \<forall>w \<in> set (fst (snd m)). \<forall>data. w \<noteq> ServerWrote n data \<Longrightarrow>
    \<exists>p'. map_of (es_store es') n = Some p' \<and> sp_output p' = []"
proof (induction ms arbitrary: es p rs)
  case (Cons m ms)
  obtain x es1 where poll: "es_poll quote (fst m) (fst (snd m)) i (snd (snd m)) es = (x, es1)" by fastforce
  from es_poll_output [OF Cons.prems(1,2) poll] obtain r p1 where
    x: "x = Inr r" and p1: "map_of (es_store es1) n = Some p1"
    and out: "sp_output p1 = arrived n (fst (snd m)) (taken n (server_worlds (waited m) es))"
    and procs: "es_processes es1 = (if pr_running r then es_processes es else AList.delete i (es_processes es))"
    by metis
  have empty: "sp_output p1 = []" unfolding out using Cons.prems(5) by (intro no_writes_arrived) simp
  show ?case
  proof (cases "pr_running r")
    case True
    obtain rs1 where rest: "es_polls quote i ms es1 = (rs1, es')"
      using Cons.prems(3) by (auto simp: poll x True split: prod.splits)
    show ?thesis
    proof (cases "rs1 = []")
      case True
      have "map_of (es_processes es1) i = Some n" using procs \<open>pr_running r\<close> Cons.prems(1) by simp
      from polls_conserve [OF this p1 rest] True have "ms = []" by auto
      with rest p1 empty show ?thesis by auto
    next
      case False
      have "map_of (es_processes es1) i = Some n" using procs True Cons.prems(1) by simp
      from Cons.IH [OF this p1 rest False] Cons.prems(5) show ?thesis by simp
    qed
  next
    case False
    with Cons.prems(3) have "es' = es1" by (simp_all add: poll x)
    with p1 empty show ?thesis by auto
  qed
qed simp

text \<open>
  A client that polls a process gets its output in order and without repetition: what the polls return is a
  prefix of all the output that arrived, and all of it if no output fell between the two halves of a poll. A
  poll that reports the exit removes the process from the table.
\<close>

theorem server_polls_conserve_output:
  assumes "map_of (es_processes es) i = Some n" "map_of (es_store es) n = Some p"
    and "es_polls quote i ms es = (rs, es')"
  shows "prefix (concat (map pr_output rs)) (sp_output p @ polls_arrived quote i n ms es) \<and>
    (rs \<noteq> [] \<and> (\<forall>m \<in> set ms. \<forall>w \<in> set (fst (snd m)). \<forall>data. w \<noteq> ServerWrote n data) \<longrightarrow>
      concat (map pr_output rs) = sp_output p @ polls_arrived quote i n ms es) \<and>
    (rs \<noteq> [] \<and> \<not> pr_running (last rs) \<longrightarrow> map_of (es_processes es') i = None)"
proof -
  from polls_conserve [OF assms] obtain p' where
    p': "map_of (es_store es') n = Some p'"
    and eq: "concat (map pr_output rs) @ sp_output p' = sp_output p @ polls_arrived quote i n ms es"
    and gone: "if rs \<noteq> [] \<and> \<not> pr_running (last rs) then map_of (es_processes es') i = None \<and> sp_done p'
       else length rs = length ms \<and> map_of (es_processes es') i = Some n" by blast
  have "prefix (concat (map pr_output rs)) (sp_output p @ polls_arrived quote i n ms es)"
    unfolding eq [symmetric] by simp
  moreover have "concat (map pr_output rs) = sp_output p @ polls_arrived quote i n ms es"
    if "rs \<noteq> []" "\<forall>m \<in> set ms. \<forall>w \<in> set (fst (snd m)). \<forall>data. w \<noteq> ServerWrote n data"
    using polls_leftover [OF assms that] p' eq by auto
  ultimately show ?thesis using gone by auto
qed

definition sample_launch :: launch where
  "sample_launch = \<lparr>la_spawn_error = None, la_pty = False, la_pty_error = None, la_stdin_error = None,
     la_start_error = None, la_after_error = None\<rparr>"

definition sample_server :: exec_server where
  "sample_server = fst (snd (es_start (\<lambda>s. s) sample_launch
     \<lparr>xp_process_id = ''p'', xp_command = ''ls'', xp_argv = [], xp_cwd = ''/'', xp_tty = False, xp_sandbox = None\<rparr>
     new_handler))"

definition sample_polls :: "poll_moment list" where
  "sample_polls = [([ServerWrote 0 ''one ''], [], 250), ([ServerWrote 0 ''two'', ServerExited 0 3], [], 250)]"

lemma sample_server_state:
  "map_of (es_processes sample_server) ''p'' = Some 0"
  "map_of (es_store sample_server) 0 = Some \<lparr>sp_tty = False, sp_output = [], sp_done = False, sp_exit_code = 0\<rparr>"
  by code_simp+

lemma sample_polls_run:
  "fst (es_polls (\<lambda>s. s) ''p'' sample_polls sample_server) =
    [\<lparr>pr_output = ''one '', pr_running = True, pr_exit_code = None\<rparr>,
     \<lparr>pr_output = ''two'', pr_running = False, pr_exit_code = Some 3\<rparr>]"
  by code_simp

lemma sample_polls_arrived: "polls_arrived (\<lambda>s. s) ''p'' 0 sample_polls sample_server = ''one two''"
  by code_simp

theorem server_polls_conserve_output_witness:
  "concat (map pr_output (fst (es_polls (\<lambda>s. s) ''p'' sample_polls sample_server))) = ''one two'' \<and>
   map_of (es_processes (snd (es_polls (\<lambda>s. s) ''p'' sample_polls sample_server))) ''p'' = None"
  using server_polls_conserve_output [OF sample_server_state, of "\<lambda>s. s" sample_polls, OF surjective_pairing]
  unfolding sample_polls_run sample_polls_arrived by (simp add: sample_polls_def)

text \<open>
  The last output of a process can be lost: if it arrives after a poll took the buffer and the process exits before
  that poll looks, the poll reports the exit without it, and the process is gone from the table.
\<close>

theorem poll_gap_loses_output:
  assumes "map_of (es_processes es) i = Some n" "map_of (es_store es) n = Some p" "\<not> sp_done p"
  shows "case es_poll quote [] [ServerWrote n tail, ServerExited n code] i wait_ms es of
      (Inr r, es') \<Rightarrow> pr_output r = sp_output p \<and> pr_exit_code r = Some code \<and>
        (\<exists>e. fst (es_poll quote ws gap i ms es') = Inl e)
    | (Inl e, es') \<Rightarrow> False"
  using assms
  by (simp add: es_poll_def es_process_def server_worlds_def server_world_step_def put_server_process_def
      server_output_write_def update_conv' delete_conv')

theorem poll_gap_loses_output_witness:
  "case es_poll (\<lambda>s. s) [] [ServerWrote 0 ''result'', ServerExited 0 0] ''p'' 250 sample_server of
     (Inr r, es') \<Rightarrow> pr_output r = [] \<and> pr_exit_code r = Some 0 | (Inl e, es') \<Rightarrow> False"
  using poll_gap_loses_output [OF sample_server_state, where quote = "\<lambda>s. s" and tail = "''result''"
      and code = 0 and wait_ms = 250]
  by (auto split: prod.splits sum.splits)

subsection \<open>A remote call does what the local operation does\<close>

text \<open>The generic value of an object keeps the fields, whatever the order of its keys.\<close>

lemma sort_entries_mset: "distinct (map fst kvs) \<Longrightarrow> mset (sort_entries kvs) = mset kvs"
proof -
  assume d: "distinct (map fst kvs)"
  then have m: "map_of (rev kvs) = map_of kvs" by (subst map_of_inject_set) (simp_all flip: rev_map)
  have "mset (sort_entries kvs) = image_mset (\<lambda>k. (k, the (map_of kvs k))) (mset (map fst kvs))"
    using d by (simp add: sort_entries_def m distinct_remdups_id)
  also have "\<dots> = mset (map (\<lambda>k. (k, the (map_of kvs k))) (map fst kvs))" by (simp only: mset_map)
  also have "map (\<lambda>k. (k, the (map_of kvs k))) (map fst kvs) = kvs"
    using d by (auto simp: map_of_eq_Some_iff intro!: map_idI)
  finally show ?thesis .
qed

lemma hits_sort_entries:
  assumes "distinct (map fst kvs)" "length (hits name kvs) \<le> 1"
  shows "hits name (sort_entries kvs) = hits name kvs"
proof -
  have "mset (hits name (sort_entries kvs)) = mset (hits name kvs)"
    using sort_entries_mset [OF assms(1)] by (metis mset_filter mset_map)
  moreover from this have "length (hits name (sort_entries kvs)) = length (hits name kvs)"
    by (metis size_mset)
  ultimately show ?thesis using assms(2)
    by (cases "hits name kvs"; cases "hits name (sort_entries kvs)") auto
qed

lemma any_field:
  assumes "distinct (map fst kvs)" "length (hits name kvs) \<le> 1"
  shows "json_field dec name z (any_json refloat (JObj kvs)) = fold_option dec (map (any_json refloat) (hits name kvs)) z"
proof -
  let ?kvs = "map (map_prod id (any_json refloat)) kvs"
  have f: "map fst ?kvs = map fst kvs" by simp
  have h: "hits name ?kvs = map (any_json refloat) (hits name kvs)" by (induction kvs) auto
  have "hits name (sort_entries ?kvs) = hits name ?kvs"
    by (rule hits_sort_entries) (use assms f h in \<open>simp_all del: map_map\<close>)
  with h show ?thesis by (simp add: event_field_hits)
qed

lemma bit_count_bound: "n < 2 ^ k \<Longrightarrow> bit_count n \<le> k"
proof (induction k arbitrary: n)
  case (Suc k)
  then show ?case by (cases "n = 0") (simp_all add: bit_count.simps [of n])
qed simp

declare bit_count.simps [simp del]

lemma float_int_exact: "\<bar>i\<bar> < 2 ^ 53 \<Longrightarrow> float_int i = i"
proof -
  have exact: "float_nat n = n" if "n < 2 ^ 53" for n
    using bit_count_bound [OF that] by (simp add: float_nat_def round_even_def)
  assume "\<bar>i\<bar> < 2 ^ 53"
  then have "nat i < 2 ^ 53" "nat (- i) < 2 ^ 53" by simp_all
  then show ?thesis by (simp add: float_int_def exact)
qed

lemma any_json_texts [simp]: "map (any_json refloat) (map JStr xs) = map JStr xs"
  by simp

lemma fold_rpc_keys: "map fold_name [''jsonrpc'', ''id'', ''method'', ''params'', ''result'', ''error'', ''code'', ''message''] =
    [''jsonrpc'', ''id'', ''method'', ''params'', ''result'', ''error'', ''code'', ''message'']"
  by code_simp

lemma fold_exec_keys: "map fold_name [''process_id'', ''command'', ''argv'', ''cwd'', ''tty'', ''sandbox''] =
    [''process_id'', ''command'', ''argv'', ''cwd'', ''tty'', ''sandbox'']"
  by code_simp

lemma fold_intent_keys: "map fold_name [''workspace_write'', ''network_access'', ''cwd'', ''workspace_roots'',
     ''windows_sandbox_level'', ''enforce_managed_network''] = [''workspace_write'', ''network_access'', ''cwd'',
     ''workspace_roots'', ''windows_sandbox_level'', ''enforce_managed_network'']"
  by code_simp

lemma fold_poll_keys: "map fold_name [''process_id'', ''wait_ms'', ''chars'', ''output'', ''running'', ''exit_code''] =
    [''process_id'', ''wait_ms'', ''chars'', ''output'', ''running'', ''exit_code'']"
  by code_simp

lemmas rpc_keys_match = key_matrix_of [OF fold_rpc_keys, simplified] key_matrix_of [OF fold_exec_keys, simplified]
  key_matrix_of [OF fold_intent_keys, simplified] key_matrix_of [OF fold_poll_keys, simplified]

lemmas rpc_hits = event_field_hits hits_opt_string hits_opt_array hits_opt_entry string_field_def strings_field_def
  bool_field_def int_field_def int_ptr_field_def str_entry_def int_entry_def bool_entry_def dec_ptr_def dec_any_def
  dec_raw_message_def rpc_keys_match

lemma hits_opt_bool: "hits name (opt_bool k b) = (if b \<and> key_matches name k then [JBool b] else [])"
  by (simp add: opt_bool_def bool_entry_def)

lemma poll_params_inverse:
  "int64 w \<Longrightarrow> \<bar>w\<bar> < 2 ^ 53 \<Longrightarrow> poll_params_of (any_json refloat (poll_params_json i w)) = Some (i, w)"
proof -
  assume w: "int64 w" "\<bar>w\<bar> < 2 ^ 53"
  then have "\<bar>w\<bar> < 10 ^ 21" by simp
  then show ?thesis
    using w by (simp add: poll_params_of_def poll_params_json_def any_field rpc_hits float_int_exact
        del: any_json.simps(7))
qed

lemma write_params_inverse: "write_params_of (any_json refloat (write_params_json i chars)) = Some (i, chars)"
  by (simp add: write_params_of_def write_params_json_def any_field rpc_hits del: any_json.simps(7))

lemma kill_params_inverse: "kill_params_of (any_json refloat (kill_params_json i)) = Some i"
  by (simp add: kill_params_of_def kill_params_json_def any_field rpc_hits del: any_json.simps(7))

lemma sandbox_intent_inverse: "sandbox_intent_of no_sandbox_intent (any_json refloat (sandbox_intent_json s)) = Some s"
  by (simp add: sandbox_intent_of_def sandbox_intent_json_def any_field rpc_hits hits_opt_bool dec_strings_def
      opt_string_def opt_bool_def no_sandbox_intent_def texts_inverse del: any_json.simps(7) map_map)

lemma sandbox_any_not_null: "any_json refloat (sandbox_intent_json s) \<noteq> JNull"
  by (simp add: sandbox_intent_json_def)

lemma exec_params_inverse: "exec_params_of (any_json refloat (exec_params_json p)) = Some p"
  by (cases "xp_sandbox p")
     (simp_all add: exec_params_of_def exec_params_json_def any_field rpc_hits ptr_field_def opt_entry_def
       texts_inverse sandbox_intent_inverse sandbox_any_not_null del: any_json.simps(7) map_map)

lemma poll_result_inverse: "pred_option int64 (pr_exit_code r) \<Longrightarrow> poll_result_of (poll_result_json r) = Some r"
  by (cases "pr_exit_code r") (simp_all add: poll_result_of_def poll_result_json_def rpc_hits opt_entry_def)

lemma rpc_request_inverse: "rpc_request_of (rpc_request_json m params) =
    Some \<lparr>rq_jsonrpc = ''2.0'', rq_id = JInt 1, rq_method = m, rq_params = params\<rparr>"
  by (simp add: rpc_request_of_def rpc_request_json_def rpc_hits)

lemma rpc_response_inverse:
  "pred_option (\<lambda>e. int64 (fst e)) (rs_error r) \<Longrightarrow> rpc_response_of (rpc_response_json r) = Some r"
  by (cases "rs_error r"; cases "rs_result r")
     (simp_all add: rpc_response_of_def rpc_response_json_def rpc_hits opt_entry_def ptr_field_def rpc_error_of_def
       rpc_error_json_def)

text \<open>A client whose requests reach the server.\<close>

definition served :: "(json \<Rightarrow> string) \<Rightarrow> (string \<Rightarrow> json option) \<Rightarrow> (string \<Rightarrow> json) \<Rightarrow> (string \<Rightarrow> string) \<Rightarrow>
    server_moment \<Rightarrow> string \<Rightarrow> exec_server \<times> server_action list \<Rightarrow> http_outcome \<times> exec_server \<times> server_action list" where
  "served render first_value refloat quote mo body w =
     (case serve_http render first_value refloat quote mo ''POST'' body (fst w) of
        ((status, answer), es, acts) \<Rightarrow> (Answered status answer, es, snd w @ acts))"

text \<open>The two documents of an exchange get through as they are; the outcome of the server's operation is \<open>x\<close>.\<close>

definition exchange_ok :: "(json \<Rightarrow> string) \<Rightarrow> (string \<Rightarrow> json option) \<Rightarrow> (string \<Rightarrow> json option) \<Rightarrow> string \<Rightarrow> json \<Rightarrow>
    (string, json option) result \<Rightarrow> bool" where
  "exchange_ok render parse first_value m params x \<longleftrightarrow>
     (let req = rpc_request_json m params;
          resp = rpc_response_json (case x of Inl e \<Rightarrow> rpc_failure (JInt 1) (-32000) e | Inr r \<Rightarrow> rpc_result (JInt 1) r)
      in first_value (take 1048576 (render req)) = Some req \<and> parse (render resp @ [newline]) = Some resp)"

lemma client_call_served:
  assumes "es_dispatch quote mo m (any_json refloat params) es = (x, es', acts)"
    and "exchange_ok render parse first_value m params x"
  shows "client_call render parse (served render first_value refloat quote mo) decode m params (es, acts0) =
    ((case x of Inl e \<Rightarrow> Inl (RpcFailed m e)
      | Inr r \<Rightarrow> (case decode (Some (case r of None \<Rightarrow> JNull | Some v \<Rightarrow> v)) of None \<Rightarrow> Inl BadResult | Some y \<Rightarrow> Inr y)),
     es', acts0 @ acts)"
proof -
  let ?req = "rpc_request_json m params"
  have one: "any_json refloat (JInt 1) = JInt 1" by (simp add: float_int_exact)
  have req: "Option.bind (first_value (take 1048576 (render ?req))) rpc_request_of =
      Some \<lparr>rq_jsonrpc = ''2.0'', rq_id = JInt 1, rq_method = m, rq_params = params\<rparr>"
    using assms(2) by (simp add: exchange_ok_def Let_def rpc_request_inverse)
  show ?thesis
  proof (cases x)
    case (Inl e)
    then have "Option.bind (parse (render (rpc_response_json (rpc_failure (JInt 1) (-32000) e)) @ [newline])) rpc_response_of =
        Some (rpc_failure (JInt 1) (-32000) e)"
      using assms(2) by (simp add: exchange_ok_def Let_def rpc_response_inverse rpc_failure_def int64_def)
    then show ?thesis
      using assms(1) by (simp add: client_call_def served_def serve_http_def req one Inl del: any_json.simps(3))
        (simp add: rpc_failure_def)
  next
    case (Inr r)
    then have "Option.bind (parse (render (rpc_response_json (rpc_result (JInt 1) r)) @ [newline])) rpc_response_of =
        Some (rpc_result (JInt 1) r)"
      using assms(2) by (simp add: exchange_ok_def Let_def rpc_response_inverse rpc_result_def)
    then show ?thesis
      using assms(1) by (simp add: client_call_def served_def serve_http_def req one Inr del: any_json.simps(3))
        (simp add: rpc_result_def)
  qed
qed

lemma methods_differ:
  "method_process_poll \<noteq> method_process_start" "method_process_poll \<noteq> method_process_write"
  "method_process_write \<noteq> method_process_start" "method_process_kill \<noteq> method_process_start"
  "method_process_kill \<noteq> method_process_write" "method_process_kill \<noteq> method_process_poll"
  by (simp_all add: method_process_poll_def method_process_start_def method_process_write_def method_process_kill_def)

lemma wait_small:
  assumes "int64 w"
  shows "int64 (w sdiv millisecond) \<and> \<bar>w sdiv millisecond\<bar> < 2 ^ 53"
proof -
  have "\<bar>w\<bar> \<le> 2 ^ 63" using assms by (auto simp: int64_def)
  then have "\<bar>w\<bar> div 1000000 \<le> 2 ^ 63 div 1000000" by (rule zdiv_mono1) simp
  then have "\<bar>w sdiv millisecond\<bar> \<le> 2 ^ 63 div 1000000"
    by (auto simp: signed_divide_int_def millisecond_def sgn_if split: if_splits)
  then show ?thesis by (auto simp: int64_def)
qed

text \<open>The local operation that a poll stands for, with its outcome as the client sees it.\<close>

definition remote_outcome :: "string \<Rightarrow> (string, 'a) result \<Rightarrow> (call_error, 'a) result" where
  "remote_outcome m x = (case x of Inl e \<Rightarrow> Inl (RpcFailed m e) | Inr y \<Rightarrow> Inr y)"

lemma remote_start:
  assumes "es_start quote (sm_launch mo) params es = (x, es', acts)"
    and "exchange_ok render parse first_value method_process_start (exec_params_json params) (map_sum id (\<lambda>_. None) x)"
  shows "client_start render parse (served render first_value refloat quote mo) params (es, acts0) =
    (remote_outcome method_process_start x, es', acts0 @ acts)"
proof -
  have "es_dispatch quote mo method_process_start (any_json refloat (exec_params_json params)) es =
      (map_sum id (\<lambda>_. None) x, es', acts)"
    using assms(1) by (cases x) (simp_all add: es_dispatch_def exec_params_inverse del: any_json.simps(7))
  from client_call_served [OF this assms(2), where decode = no_result] show ?thesis
    by (cases x) (simp_all add: client_start_def no_result_def remote_outcome_def)
qed

lemma remote_write:
  assumes "es_write quote (sm_io_error mo) i chars es = (x, acts)"
    and "exchange_ok render parse first_value method_process_write (write_params_json i chars) (map_sum id (\<lambda>_. None) x)"
  shows "client_write render parse (served render first_value refloat quote mo) i chars (es, acts0) =
    (remote_outcome method_process_write x, es, acts0 @ acts)"
proof -
  have "es_dispatch quote mo method_process_write (any_json refloat (write_params_json i chars)) es =
      (map_sum id (\<lambda>_. None) x, es, acts)"
    using assms(1) by (cases x) (simp_all add: es_dispatch_def write_params_inverse methods_differ del: any_json.simps(7))
  from client_call_served [OF this assms(2), where decode = no_result] show ?thesis
    by (cases x) (simp_all add: client_write_def no_result_def remote_outcome_def)
qed

lemma remote_kill:
  assumes "es_kill quote i es = (x, acts)"
    and "exchange_ok render parse first_value method_process_kill (kill_params_json i) (map_sum id (\<lambda>_. None) x)"
  shows "client_kill render parse (served render first_value refloat quote mo) i (es, acts0) =
    (remote_outcome method_process_kill x, es, acts0 @ acts)"
proof -
  have "es_dispatch quote mo method_process_kill (any_json refloat (kill_params_json i)) es =
      (map_sum id (\<lambda>_. None) x, es, acts)"
    using assms(1) by (cases x) (simp_all add: es_dispatch_def kill_params_inverse methods_differ del: any_json.simps(7))
  from client_call_served [OF this assms(2), where decode = no_result] show ?thesis
    by (cases x) (simp_all add: client_kill_def no_result_def remote_outcome_def)
qed


definition sample_moment :: server_moment where
  "sample_moment = \<lparr>sm_launch = sample_launch, sm_io_error = None,
     sm_waiting = [ServerWrote 0 ''hi'', ServerExited 0 0], sm_gap = []\<rparr>"

definition sample_exchange :: "json list" where
  "sample_exchange = [rpc_request_json method_process_poll (poll_params_json ''p'' 250),
     rpc_response_json (rpc_result (JInt 1) (Some (poll_result_json
       \<lparr>pr_output = ''hi'', pr_running = False, pr_exit_code = Some 0\<rparr>)))]"

lemma sample_poll: "fst (es_poll (\<lambda>s. s) (sm_waiting sample_moment) (sm_gap sample_moment) ''p'' 250 sample_server) =
    Inr \<lparr>pr_output = ''hi'', pr_running = False, pr_exit_code = Some 0\<rparr>"
  by code_simp

lemma letter_exchange:
  assumes "j \<in> set docs" "length docs \<le> 26"
  shows "of_letter docs (take 1048576 (letter_of docs j)) = Some j"
    and "(of_letter docs \<circ> filter (\<lambda>c. c \<noteq> newline)) (letter_of docs j @ [newline]) = Some j"
proof -
  have g: "of_letter docs (letter_of docs j) = Some j" "newline \<notin> set (letter_of docs j)"
    using letters_good [OF assms] by (simp_all add: good_text_def)
  have "take 1048576 (letter_of docs j) = letter_of docs j" by (simp add: letter_of_def)
  with g(1) show "of_letter docs (take 1048576 (letter_of docs j)) = Some j" by simp
  have "filter (\<lambda>c. c \<noteq> newline) (letter_of docs j @ [newline]) = letter_of docs j"
    using g(2) by (simp add: filter_id_conv) blast
  with g(1) show "(of_letter docs \<circ> filter (\<lambda>c. c \<noteq> newline)) (letter_of docs j @ [newline]) = Some j" by simp
qed


end
