(* ===== verification/GoConv.thy ===== *)
theory GoConv
  imports Rollout "HOL-Library.Char_ord"
begin

section \<open>Numbers, quoted strings and lines: what is used of strconv, encoding/hex and bufio\<close>

text \<open>
  Parsing of decimal numbers with the results that the program keeps when it ignores the error, \<open>strconv.Unquote\<close>
  for text in double quotes, hexadecimal text of bytes, and the lines of a \<open>bufio.Scanner\<close> with any limit.
\<close>

subsection \<open>Decimal numbers\<close>

definition digit_value :: "char \<Rightarrow> nat option" where
  "digit_value c = (if CHR ''0'' \<le> c \<and> c \<le> CHR ''9'' then Some (byte_of c - 48) else None)"

text \<open>
  \<open>strconv.ParseUint\<close> in base 10: the value and whether the error, if any, is one of range. A digit that leads out of the
  range ends the reading; a byte that is no digit gives zero.
\<close>

datatype number_error = NotANumber | OutOfRange

fun uint_digits :: "nat \<Rightarrow> nat \<Rightarrow> string \<Rightarrow> nat \<times> number_error option" where
  "uint_digits limit n [] = (n, None)"
| "uint_digits limit n (c # s) =
     (case digit_value c of
        None \<Rightarrow> (0, Some NotANumber)
      | Some d \<Rightarrow> if limit < n * 10 + d then (limit, Some OutOfRange) else uint_digits limit (n * 10 + d) s)"

definition parse_uint :: "string \<Rightarrow> nat \<times> number_error option" where
  "parse_uint s = (if s = [] then (0, Some NotANumber) else uint_digits (2 ^ 64 - 1) 0 s)"

text \<open>\<open>strconv.Atoi\<close>: out of range it returns the nearest \<open>int\<close> beside the error.\<close>

definition atoi :: "string \<Rightarrow> int \<times> number_error option" where
  "atoi s =
     (let neg = prefix ''-'' s; body = (if prefix ''-'' s \<or> prefix ''+'' s then tl s else s);
          (n, e) = parse_uint body in
      if e = Some NotANumber then (0, e)
      else if neg then (if 2 ^ 63 < n then (- (2 ^ 63), Some OutOfRange) else (- int n, None))
      else if 2 ^ 63 \<le> n then (2 ^ 63 - 1, Some OutOfRange)
      else (int n, None))"

lemma uint_digits_le: "n \<le> limit \<Longrightarrow> fst (uint_digits limit n s) \<le> limit"
  by (induction s arbitrary: n) (auto split: option.splits)

lemma parse_uint_le: "fst (parse_uint s) < 2 ^ 64"
  using uint_digits_le [of 0 "2 ^ 64 - 1" s] by (simp add: parse_uint_def)

lemma atoi_int64: "int64 (fst (atoi s))"
  using parse_uint_le by (auto simp: atoi_def int64_def Let_def split: prod.splits)

subsection \<open>Hexadecimal text\<close>

definition hex_low :: "nat \<Rightarrow> char" where
  "hex_low n = ''0123456789abcdef'' ! n"

definition hex_encode :: "string \<Rightarrow> string" where
  "hex_encode s = concat (map (\<lambda>c. [hex_low (byte_of c div 16), hex_low (byte_of c mod 16)]) s)"

definition hex_value :: "char \<Rightarrow> nat option" where
  "hex_value c =
     (if CHR ''0'' \<le> c \<and> c \<le> CHR ''9'' then Some (byte_of c - 48)
      else if CHR ''a'' \<le> c \<and> c \<le> CHR ''f'' then Some (byte_of c - 87)
      else if CHR ''A'' \<le> c \<and> c \<le> CHR ''F'' then Some (byte_of c - 55)
      else None)"

lemma hex_low_chars: "n < 16 \<Longrightarrow> hex_low n \<in> set ''0123456789abcdef''"
  unfolding hex_low_def by (rule nth_mem) simp

lemma byte_of_less: "byte_of c < 256"
proof -
  have "(of_char c :: nat) < 256" using range_nat_of_char by auto
  then show ?thesis by (simp add: byte_of_def)
qed

lemma hex_encode_chars: "set (hex_encode s) \<subseteq> set ''0123456789abcdef''"
proof -
  have "hex_low (byte_of c div 16) \<in> set ''0123456789abcdef''" "hex_low (byte_of c mod 16) \<in> set ''0123456789abcdef''" for c
    by (rule hex_low_chars; use byte_of_less [of c] in simp)+
  then show ?thesis unfolding hex_encode_def by auto
qed

lemma length_hex_encode [simp]: "length (hex_encode s) = 2 * length s"
  by (induction s) (simp_all add: hex_encode_def)

subsection \<open>Text in double quotes\<close>

fun hex_number :: "string \<Rightarrow> nat option" where
  "hex_number [] = Some 0"
| "hex_number (c # s) =
     (case (hex_value c, hex_number s) of (Some d, Some n) \<Rightarrow> Some (d * 16 ^ length s + n) | _ \<Rightarrow> None)"

definition octal_value :: "char \<Rightarrow> nat option" where
  "octal_value c = (if CHR ''0'' \<le> c \<and> c \<le> CHR ''7'' then Some (byte_of c - 48) else None)"

definition valid_rune :: "nat \<Rightarrow> bool" where
  "valid_rune r \<longleftrightarrow> r < 55296 \<or> (57343 < r \<and> r \<le> 1114111)"

text \<open>What follows a backslash: the bytes it stands for and the rest.\<close>

definition unquote_escape :: "string \<Rightarrow> (string \<times> string) option" where
  "unquote_escape s =
     (case s of
        [] \<Rightarrow> None
      | c # rest \<Rightarrow>
          if c = CHR ''a'' then Some ([CHR 0x07], rest)
          else if c = CHR ''b'' then Some ([CHR 0x08], rest)
          else if c = CHR ''f'' then Some ([CHR 0x0C], rest)
          else if c = CHR ''n'' then Some ([CHR 0x0A], rest)
          else if c = CHR ''r'' then Some ([CHR 0x0D], rest)
          else if c = CHR ''t'' then Some ([CHR 0x09], rest)
          else if c = CHR ''v'' then Some ([CHR 0x0B], rest)
          else if c = CHR ''x'' \<or> c = CHR ''u'' \<or> c = CHR ''U'' then
            (let n = (if c = CHR ''x'' then 2 else if c = CHR ''u'' then 4 else 8) in
             if length rest < n then None
             else case hex_number (take n rest) of
                 None \<Rightarrow> None
               | Some v \<Rightarrow>
                   if c = CHR ''x'' then Some ([char_of v], drop n rest)
                   else if valid_rune v then Some (encode_rune v, drop n rest) else None)
          else if octal_value c \<noteq> None then
            (case rest of
               c1 # c2 # rest' \<Rightarrow>
                 (case (octal_value c, octal_value c1, octal_value c2) of
                    (Some a, Some b, Some d) \<Rightarrow>
                      if 255 < a * 64 + b * 8 + d then None else Some ([char_of (a * 64 + b * 8 + d)], rest')
                  | _ \<Rightarrow> None)
             | _ \<Rightarrow> None)
          else if c = CHR 0x5C \<or> c = CHR 0x22 then Some ([c], rest)
          else None)"

lemma unquote_escape_shorter: "unquote_escape s = Some (out, rest) \<Longrightarrow> length rest < length s"
  by (cases s) (auto simp: unquote_escape_def Let_def split: if_splits option.splits list.splits)

text \<open>The text up to the closing quote, and what comes after it.\<close>

function unquote_body :: "string \<Rightarrow> (string \<times> string) option" where
  "unquote_body s =
     (case s of
        [] \<Rightarrow> None
      | c # rest \<Rightarrow>
          if c = CHR 0x22 then Some ([], rest)
          else if c = newline then None
          else if c = CHR 0x5C then
            (case unquote_escape rest of
               None \<Rightarrow> None
             | Some (out, rest') \<Rightarrow>
                 if length rest' < length rest then map_option (\<lambda>(t, r). (out @ t, r)) (unquote_body rest') else None)
          else map_option (\<lambda>(t, r). ((if byte_of c < 128 then [c] else encode_rune (fst (decode_rune s))) @ t, r))
                 (unquote_body (drop (snd (decode_rune s)) s)))"
  by pat_completeness auto
termination
  by (relation "measure length") (auto simp: decode_rune_width_pos)

declare unquote_body.simps [simp del]

definition unquote :: "string \<Rightarrow> string option" where
  "unquote s =
     (if length s < 2 \<or> hd s \<noteq> CHR 0x22 then None
      else case unquote_body (tl s) of Some (t, []) \<Rightarrow> Some t | _ \<Rightarrow> None)"

text \<open>Plain text is what its quoted form stands for.\<close>

lemma unquote_body_plain:
  "\<forall>c \<in> set s. byte_of c < 128 \<and> c \<notin> {CHR 0x22, CHR 0x5C, newline} \<Longrightarrow> unquote_body (s @ CHR 0x22 # rest) = Some (s, rest)"
proof (induction s)
  case (Cons c s)
  then have "decode_rune (c # s @ CHR 0x22 # rest) = (byte_of c, 1)" by (simp add: decode_rune_ascii)
  with Cons show ?case by (simp add: unquote_body.simps [of "c # _"])
qed (simp add: unquote_body.simps)

lemma unquote_plain:
  "\<forall>c \<in> set s. byte_of c < 128 \<and> c \<notin> {CHR 0x22, CHR 0x5C, newline} \<Longrightarrow> unquote (CHR 0x22 # s @ [CHR 0x22]) = Some s"
  using unquote_body_plain [of s "[]"] by (simp add: unquote_def)

subsection \<open>Lines\<close>

definition scan_upto :: "nat \<Rightarrow> string \<Rightarrow> string list \<times> bool" where
  "scan_upto limit s =
     (let ls = text_lines s; fit = takeWhile (\<lambda>l. length l < limit) ls in (map drop_cr fit, fit \<noteq> ls))"

end
