(* ===== verification/GoDirs.thy ===== *)
theory GoDirs
  imports GoFiles "HOL-Library.List_Lexorder" "HOL-Library.Char_ord"
begin

section \<open>Directories: listing, removing and globbing\<close>

text \<open>
  The rest of packages \<open>os\<close> and \<open>path/filepath\<close> that the extension catalog and the thread store
  use, on the file systems of theory GoFiles: listings sorted by name, \<open>RemoveAll\<close>, \<open>Stat\<close>, and \<open>Glob\<close>
  with the patterns of \<open>filepath.Match\<close>.
\<close>

definition child :: "apath \<Rightarrow> string \<Rightarrow> apath" where
  "child p n = APath (apath_segs p @ [n])"

definition child_names :: "fs \<Rightarrow> apath \<Rightarrow> string list" where
  "child_names d p = sort (remdups (map (\<lambda>(q, _). last (apath_segs q))
     (filter (\<lambda>(q, _). apath_segs q \<noteq> [] \<and> parent q = p) d)))"

definition is_dir :: "fs \<Rightarrow> apath \<Rightarrow> bool" where
  "is_dir d p \<longleftrightarrow> node_at d p = Some Dir"

definition stat :: "fs \<Rightarrow> apath \<Rightarrow> (os_error, node) result" where
  "stat d p =
     (case blocked d p of Some e \<Rightarrow> Inl e
      | None \<Rightarrow> (case node_at d p of None \<Rightarrow> Inl NotExist | Some x \<Rightarrow> Inr x))"

text \<open>\<open>os.ReadDir\<close>: the names with whether each is a directory.\<close>

definition read_dir :: "fs \<Rightarrow> apath \<Rightarrow> (os_error, (string \<times> bool) list) result" where
  "read_dir d p =
     (case stat d p of
        Inl e \<Rightarrow> Inl e
      | Inr (File _) \<Rightarrow> Inl NotDirectory
      | Inr Dir \<Rightarrow> Inr (map (\<lambda>n. (n, is_dir d (child p n))) (child_names d p)))"

definition remove_all :: "apath \<Rightarrow> fs \<Rightarrow> (os_error, fs) result" where
  "remove_all p d =
     (case blocked d p of
        Some NotExist \<Rightarrow> Inr d
      | Some e \<Rightarrow> Inl e
      | None \<Rightarrow> Inr (filter (\<lambda>(q, _). \<not> p \<le> q) d))"

lemma filter_keys: "map_of (filter (\<lambda>(q, _). P q) d) q = (if P q then map_of d q else None)"
  by (induction d) auto

lemma remove_all_frame [frame_simps]:
  "remove_all p d = Inr d' \<Longrightarrow> \<not> p \<le> q \<Longrightarrow> node_at d' q = node_at d q"
  by (auto simp: remove_all_def filter_keys split: option.splits os_error.splits)

lemma remove_all_gone:
  "remove_all p d = Inr d' \<Longrightarrow> fs_ok d \<Longrightarrow> p \<le> q \<Longrightarrow> node_at d' q = None"
proof -
  assume r: "remove_all p d = Inr d'" and ok: "fs_ok d" and le: "p \<le> q"
  show "node_at d' q = None"
  proof (cases "blocked d p")
    case None
    with r le show ?thesis by (auto simp: remove_all_def filter_keys)
  next
    case (Some e)
    with r have d': "d' = d" by (auto simp: remove_all_def split: os_error.splits)
    from Some obtain a where a: "a \<in> set (ancestors p)" "node_at d a \<noteq> Some Dir"
      using blocked_None [of d p] by auto
    have "a \<in> set (ancestors q)" using ancestors_less [OF a(1)] le less_ancestor by (metis order_less_le_trans)
    with ok a(2) show ?thesis unfolding d' fs_ok_def by blast
  qed
qed

lemma fs_ok_list:
  assumes "list_all (\<lambda>(q, _). list_all (\<lambda>a. node_at d a = Some Dir) (ancestors q)) d"
  shows "fs_ok d"
proof -
  have "(q, x) \<in> set d \<Longrightarrow> a \<in> set (ancestors q) \<Longrightarrow> node_at d a = Some Dir" for q x a
    using assms by (auto simp: list_all_iff)
  then show ?thesis unfolding fs_ok_def by (blast dest: map_of_SomeD)
qed

lemma child_less: "p < child p n"
  by (simp add: child_def less_apath_def strict_prefix_def)

lemma child_inj [simp]: "child p n = child p m \<longleftrightarrow> n = m"
  by (simp add: child_def)

lemma parent_child [simp]: "parent (child p n) = p"
  by (simp add: child_def parent_def)

lemma child_of_parent: "apath_segs q \<noteq> [] \<Longrightarrow> child (parent q) (last (apath_segs q)) = q"
  by (cases q) (simp add: child_def parent_def)

lemma child_names_iff: "n \<in> set (child_names d p) \<longleftrightarrow> node_at d (child p n) \<noteq> None"
proof
  assume "n \<in> set (child_names d p)"
  then obtain q x where "(q, x) \<in> set d" "apath_segs q \<noteq> []" "parent q = p" "n = last (apath_segs q)"
    by (auto simp: child_names_def)
  then have "(child p n, x) \<in> set d" using child_of_parent by auto
  then show "node_at d (child p n) \<noteq> None" by (metis weak_map_of_SomeI option.distinct(1))
next
  assume "node_at d (child p n) \<noteq> None"
  then obtain x where "(child p n, x) \<in> set d" by (auto dest: map_of_SomeD)
  moreover have "apath_segs (child p n) \<noteq> []" "last (apath_segs (child p n)) = n" by (simp_all add: child_def)
  ultimately show "n \<in> set (child_names d p)"
    by (force simp: child_names_def image_iff)
qed

lemma child_names_distinct: "distinct (child_names d p)"
  by (simp add: child_names_def)

lemma child_le_cases: "p \<le> q \<Longrightarrow> q = p \<or> (\<exists>n. child p n \<le> q)"
proof -
  assume "p \<le> q"
  then obtain t where "apath_segs q = apath_segs p @ t"
    unfolding less_eq_apath_def by (auto simp: prefix_def)
  then show ?thesis
    by (cases t; cases p; cases q) (auto simp: child_def less_eq_apath_def prefix_def)
qed

subsection \<open>Paths below a path\<close>

definition below :: "apath \<Rightarrow> string list \<Rightarrow> apath" where
  "below p r = APath (apath_segs p @ r)"

lemma below_Nil [simp]: "below p [] = p"
  by (simp add: below_def)

lemma below_child: "child (below p r) n = below p (r @ [n])"
  by (simp add: child_def below_def)

lemma below_inj [simp]: "below p r = below p r' \<longleftrightarrow> r = r'"
  by (simp add: below_def)

lemma below_le [simp]: "p \<le> below p r"
  by (simp add: below_def less_eq_apath_def)

lemma below_mono [simp]: "below p r \<le> below p r' \<longleftrightarrow> prefix r r'"
  by (simp add: below_def less_eq_apath_def)

lemma below_strict_mono [simp]: "below p r < below p r' \<longleftrightarrow> strict_prefix r r'"
  by (auto simp: less_le prefix_order.less_le)

lemma le_belowE:
  assumes "p \<le> q"
  obtains r where "q = below p r"
  using assms by (cases q) (auto simp: below_def less_eq_apath_def prefix_def)

lemma apath_total: "(a :: apath) \<le> c \<Longrightarrow> b \<le> c \<Longrightarrow> a \<le> b \<or> b \<le> a"
  unfolding less_eq_apath_def by (metis prefix_same_cases)

lemma ancestors_iff: "a \<in> set (ancestors p) \<longleftrightarrow> a < p"
  using ancestors_less less_ancestor by blast

lemma mkdir_all_frame_le:
  "mkdir_all p d = Inr d' \<Longrightarrow> node_at d' q = (if q \<le> p \<and> node_at d q = None then Some Dir else node_at d q)"
  by (auto simp: mkdir_all_frame ancestors_iff order_le_less)

lemma rename_file_frame [frame_simps]:
  "rename_file p q d = Inr d' \<Longrightarrow> r \<noteq> p \<Longrightarrow> r \<noteq> q \<Longrightarrow> node_at d' r = node_at d r"
  by (auto simp: rename_file_def delete_conv' dest: write_file_frame [of q _ d _ r] split: sum.splits if_splits)

lemma join_path_below:
  assumes "is_abs w" "es \<noteq> []" "\<forall>e \<in> set es. wf_seg e"
  shows "apath_of (join_path (w # es)) = below (apath_of w) es" and "is_abs (join_path (w # es))"
    and "join_path (w # es) = render_path True (segs w @ es)"
proof -
  have j: "join_path (w # es) = clean (w @ ''/'' @ join_with ''/'' es)" and a: "is_abs (w @ ''/'' @ join_with ''/'' es)"
    using assms by (cases w; cases es; simp add: join_path_def is_abs_def)+
  show "is_abs (join_path (w # es))" using a by (simp only: j is_abs_clean)
  have segs: "segs (w @ ''/'' @ join_with ''/'' es) = segs w @ es"
    unfolding segs_slash [OF assms(1)] using assms by (simp add: split_join_wf clean_segs_wf_id)
  show "apath_of (join_path (w # es)) = below (apath_of w) es"
    unfolding j apath_of_def segs_clean [OF a] segs by (simp add: below_def apath_of_def)
  show "join_path (w # es) = render_path True (segs w @ es)"
    unfolding j clean_abs [OF a] segs ..
qed

lemma render_path_snoc: "render_path True (ss @ [x]) @ t = render_path True (ss @ [x @ t])"
  by (cases "ss = []") (simp_all add: render_path_def join_with_append)

lemma dir_name_render:
  assumes "\<forall>s \<in> set ss. wf_seg s" "wf_seg x"
  shows "dir_name (render_path True (ss @ [x])) = render_path True ss"
proof -
  define p where "p = (if ss = [] then [] else render_path True ss)"
  have r: "render_path True (ss @ [x]) = p @ ''/'' @ x"
    by (cases "ss = []") (simp_all add: p_def render_path_def join_with_append)
  have "dropWhile (\<lambda>c. c \<noteq> CHR ''/'') (rev x @ CHR ''/'' # rev p) = CHR ''/'' # rev p"
    using wf_seg_free [OF assms(2)] by (subst dropWhile_append2) auto
  then have d: "dir_name (render_path True (ss @ [x])) = clean (p @ ''/'' @ [])" by (simp add: r dir_name_def)
  show ?thesis
  proof (cases "ss = []")
    case True
    then show ?thesis unfolding d by (simp add: p_def clean_def segs_def render_path_def)
  next
    case False
    have "segs (p @ ''/'' @ []) = ss"
      using False assms(1) by (subst segs_slash) (simp_all add: p_def segs_render)
    moreover have "is_abs (p @ ''/'' @ [])" using False by (simp add: p_def render_path_def)
    ultimately show ?thesis unfolding d by (simp only: clean_abs)
  qed
qed

subsection \<open>Patterns\<close>

text \<open>A character of a class, possibly escaped; the rest must not be empty.\<close>

definition get_esc :: "string \<Rightarrow> (rune \<times> string) option" where
  "get_esc p =
     (if p = [] \<or> hd p = CHR ''-'' \<or> hd p = CHR '']'' then None
      else (let p1 = (if hd p = CHR 0x5C then tl p else p) in
        if p1 = [] then None
        else (let (r, n) = decode_rune p1; rest = drop n p1 in
          if r = rune_error \<and> n = 1 \<or> rest = [] then None else Some (r, rest))))"

text \<open>The ranges of a class up to its closing bracket: whether one holds \<open>r\<close>, and the rest of the pattern.\<close>

function class_ranges :: "rune \<Rightarrow> bool \<Rightarrow> bool \<Rightarrow> string \<Rightarrow> (bool \<times> string) option" where
  "class_ranges r first found p =
     (if p \<noteq> [] \<and> hd p = CHR '']'' \<and> \<not> first then Some (found, tl p)
      else case get_esc p of
        None \<Rightarrow> None
      | Some (lo, p1) \<Rightarrow>
        (case (if hd p1 = CHR ''-'' then get_esc (tl p1) else Some (lo, p1)) of
           None \<Rightarrow> None
         | Some (hi, p2) \<Rightarrow>
             if length p2 < length p then class_ranges r False (found \<or> lo \<le> r \<and> r \<le> hi) p2 else None))"
  by pat_completeness auto
termination by (relation "measure (\<lambda>(_, _, _, p). length p)") auto

declare class_ranges.simps [simp del]

text \<open>\<open>filepath.Match\<close> on one segment, \<open>None\<close> for a malformed pattern.\<close>

function seg_match :: "string \<Rightarrow> string \<Rightarrow> bool option" where
  "seg_match p s =
     (case p of
        [] \<Rightarrow> Some (s = [])
      | c # p' \<Rightarrow>
        if c = CHR ''*'' then
          (case seg_match p' s of
             Some False \<Rightarrow> if s = [] then Some False else seg_match p (tl s)
           | x \<Rightarrow> x)
        else if c = CHR ''?'' then
          (if s = [] then map_option (\<lambda>_. False) (seg_match p' []) else seg_match p' (drop (snd (decode_rune s)) s))
        else if c = CHR ''['' then
          (let r = (if s = [] then 0 else fst (decode_rune s));
               s' = drop (snd (decode_rune s)) s;
               negated = (p' \<noteq> [] \<and> hd p' = CHR ''^'');
               body = (if negated then tl p' else p') in
           case class_ranges r True False body of
             None \<Rightarrow> None
           | Some (found, rest) \<Rightarrow>
               if length rest \<ge> length p then None
               else if s = [] \<or> found = negated then map_option (\<lambda>_. False) (seg_match rest [])
               else seg_match rest s')
        else if c = CHR 0x5C then
          (case p' of
             [] \<Rightarrow> None
           | e # p'' \<Rightarrow> if s \<noteq> [] \<and> hd s = e then seg_match p'' (tl s)
                       else map_option (\<lambda>_. False) (seg_match p'' []))
        else if s \<noteq> [] \<and> hd s = c then seg_match p' (tl s)
        else map_option (\<lambda>_. False) (seg_match p' []))"
  by pat_completeness auto
termination
  by (relation "measure (\<lambda>(p, s). length p + length s)") (auto simp: Let_def neq_Nil_conv not_le)

declare seg_match.simps [simp del]

text \<open>\<open>filepath.Glob\<close> for an absolute pattern: every segment is matched against the names of a directory.\<close>

fun glob_from :: "fs \<Rightarrow> apath \<Rightarrow> string list \<Rightarrow> apath list" where
  "glob_from d p [] = [p]"
| "glob_from d p (s # ss) =
     (if is_dir d p then
        concat (map (\<lambda>n. glob_from d (child p n) ss) (filter (\<lambda>n. seg_match s n = Some True) (child_names d p)))
      else [])"

definition glob :: "fs \<Rightarrow> string \<Rightarrow> apath list" where
  "glob d pattern =
     (if list_ex (\<lambda>s. seg_match s [] = None) (segs pattern) then [] else glob_from d (APath []) (segs pattern))"

end
