(* ===== verification/Extensions.thy ===== *)
theory Extensions
  imports GoDirs EventJson ProcessManager
begin

section \<open>The extension catalog: internal/extensions\<close>

text \<open>
  Skills, servers and plugins of a workspace are files: a catalog is what reading them gives. The operations work on
  the file systems of GoFiles; decoding a text to a JSON document, its rendering and the order in which Go visits
  the keys of a map are the fields of \<open>ext_env\<close>. Theory Plugins has the marketplace on top.
\<close>

record ext_env =
  xe_parse :: "string \<Rightarrow> json option"
  xe_render :: "json \<Rightarrow> string"
  xe_order :: "string list \<Rightarrow> string list"
  xe_quote :: "string \<Rightarrow> string"
  xe_home :: "string option"
  xe_wd :: string

record skill =
  sk_name :: string
  sk_description :: string
  sk_path :: string
  sk_instructions :: string

record mcp_server =
  ms_name :: string
  ms_command :: string
  ms_args :: "string list"
  ms_env :: "(string \<times> string) list"
  ms_url :: string
  ms_headers :: "(string \<times> string) list"
  ms_startup_timeout :: int
  ms_source_path :: string
  ms_working_directory :: string

record hook =
  hk_event :: string
  hk_type :: string
  hk_command :: string
  hk_path :: string

record app =
  ap_name :: string
  ap_description :: string
  ap_path :: string

record slash_command =
  sc_name :: string
  sc_description :: string
  sc_path :: string
  sc_prompt :: string

record agent =
  ag_name :: string
  ag_description :: string
  ag_path :: string

record plugin =
  pl_name :: string
  pl_version :: string
  pl_description :: string
  pl_path :: string
  pl_enabled :: bool
  pl_installed :: bool
  pl_source :: string
  pl_hooks :: "hook list"
  pl_apps :: "app list"
  pl_commands :: "slash_command list"
  pl_agents :: "agent list"

record catalog =
  ct_skills :: "(string \<times> skill) list"
  ct_servers :: "mcp_server list"
  ct_plugins :: "plugin list"

datatype ext_error =
    ReadFailed os_error
  | DecodeConfig string           \<comment> \<open>the path\<close>
  | DecodeNested
  | DecodeMarketplace string
  | ReadManifest os_error
  | NameRequired
  | AlreadyInstalled string
  | PluginNameRequired
  | UnknownPlugin string
  | NotInstalled string
  | WriteFailed os_error
  | NoWorkingDirectory

definition quotes :: "char set" where "quotes = {CHR 0x22, CHR 0x27}"

text \<open>The empty path names nothing.\<close>

definition read_text :: "fs \<Rightarrow> string \<Rightarrow> (os_error, string) result" where
  "read_text d path = (if path = [] then Inl NotExist else read_file d (apath_of path))"

subsection \<open>Front matter and TOML values\<close>

text \<open>\<open>strings.Index\<close>.\<close>

fun index_of :: "string \<Rightarrow> string \<Rightarrow> nat option" where
  "index_of sub [] = (if sub = [] then Some 0 else None)"
| "index_of sub (c # s) = (if prefix sub (c # s) then Some 0 else map_option Suc (index_of sub s))"

definition trimmed_value :: "string \<Rightarrow> string" where
  "trimmed_value v = trim_cutset quotes (trim_space v)"

definition frontmatter_line :: "string \<Rightarrow> string \<times> string \<Rightarrow> string \<times> string" where
  "frontmatter_line line s =
     (case cut_at (CHR '':'') line of
        None \<Rightarrow> s
      | Some (key, value) \<Rightarrow>
          if trim_space key = ''name'' then (trimmed_value value, snd s)
          else if trim_space key = ''description'' then (fst s, trimmed_value value)
          else s)"

definition parse_frontmatter :: "string \<Rightarrow> string \<times> string" where
  "parse_frontmatter content =
     (if \<not> prefix (''---'' @ [newline]) content then ([], [])
      else (let body = drop 4 content in
        case index_of (newline # ''---'') body of
          None \<Rightarrow> ([], [])
        | Some end_at \<Rightarrow> fold frontmatter_line (split_on newline (take end_at body)) ([], [])))"

fun toml_lines :: "string \<Rightarrow> string list \<Rightarrow> string" where
  "toml_lines key [] = []"
| "toml_lines key (l # ls) =
     (let line = trim_space l in
      if \<not> prefix (key @ ''='') line \<and> \<not> prefix (key @ '' ='') line then toml_lines key ls
      else case cut_at (CHR ''='') line of
        None \<Rightarrow> toml_lines key ls
      | Some (_, value) \<Rightarrow> trimmed_value value)"

definition parse_toml_string :: "string \<Rightarrow> string \<Rightarrow> string" where
  "parse_toml_string content key = toml_lines key (split_on newline content)"

subsection \<open>Paths of a plugin\<close>

definition resolve_plugin_path :: "string \<Rightarrow> string \<Rightarrow> string" where
  "resolve_plugin_path plugin_root value =
     (let v = trim_space value in
      if v = [] then []
      else if prefix ''./'' v then join_path [plugin_root, clean v]
      else if is_abs v then v
      else join_path [plugin_root, v])"

definition plugin_source :: "string \<Rightarrow> string \<Rightarrow> string" where
  "plugin_source workspace plugin_root =
     (case rel (join_path [workspace, ''.agents'', ''plugins'']) plugin_root of
        None \<Rightarrow> ''local''
      | Some r \<Rightarrow> if r \<noteq> ''..'' \<and> \<not> prefix ''../'' r then ''marketplace'' else ''local'')"

subsection \<open>Settings\<close>

definition settings_path :: "string \<Rightarrow> string" where
  "settings_path workspace = join_path [workspace, ''.codex'', ''extensions.json'']"

text \<open>
  Unmarshalling keeps what was decoded before an error, and the error is ignored here: an element of another type
  is left as the empty string.
\<close>

definition lenient_strings :: "json \<Rightarrow> string list \<Rightarrow> string list" where
  "lenient_strings v old =
     (case v of
        JArr vs \<Rightarrow> map (\<lambda>x. case x of JStr s \<Rightarrow> s | _ \<Rightarrow> []) vs
      | JNull \<Rightarrow> []
      | _ \<Rightarrow> old)"

definition disabled_of_json :: "json \<Rightarrow> string list" where
  "disabled_of_json v =
     (case v of
        JObj kvs \<Rightarrow> fold lenient_strings (map snd (filter (\<lambda>(k, _). key_matches ''disabled_plugins'' k) kvs)) []
      | _ \<Rightarrow> [])"

text \<open>The set of disabled names, as the keys of the Go map.\<close>

definition load_disabled_plugins :: "ext_env \<Rightarrow> fs \<Rightarrow> string \<Rightarrow> string list" where
  "load_disabled_plugins xe d workspace =
     (case read_text d (settings_path workspace) of
        Inl _ \<Rightarrow> []
      | Inr text \<Rightarrow> (case xe_parse xe text of None \<Rightarrow> [] | Some v \<Rightarrow> remdups (disabled_of_json v)))"

definition settings_json :: "string list \<Rightarrow> json" where
  "settings_json names = JObj [(''disabled_plugins'', JArr (map JStr names))]"

definition set_plugin_enabled :: "ext_env \<Rightarrow> string \<Rightarrow> string \<Rightarrow> bool \<Rightarrow> fs \<Rightarrow> ext_error option \<times> fs" where
  "set_plugin_enabled xe workspace name enabled d =
     (let old = load_disabled_plugins xe d workspace;
          disabled = (if enabled then filter (\<lambda>x. x \<noteq> name) old else if name \<in> set old then old else old @ [name]);
          text = xe_render xe (settings_json (xe_order xe disabled)) @ [newline];
          directory = join_path [workspace, ''.codex''];
          temporary = join_path [directory, ''extensions.json.tmp'']
      in case mkdir_all (apath_of directory) d of
           Inl e \<Rightarrow> (Some (WriteFailed e), d)
         | Inr d1 \<Rightarrow>
           (case write_file (apath_of temporary) text d1 of
              Inl e \<Rightarrow> (Some (WriteFailed e), d1)
            | Inr d2 \<Rightarrow>
              (case rename_file (apath_of temporary) (apath_of (settings_path workspace)) d2 of
                 Inl e \<Rightarrow> (Some (WriteFailed e), d2)
               | Inr d3 \<Rightarrow> (None, d3))))"

subsection \<open>Skills\<close>

definition load_skill :: "fs \<Rightarrow> string \<Rightarrow> string \<Rightarrow> string \<times> bool \<Rightarrow> (string \<times> skill) list \<Rightarrow> (string \<times> skill) list" where
  "load_skill d root namespace entry skills =
     (let path0 = join_path [root, fst entry];
          path = (if snd entry then join_path [path0, ''SKILL.md''] else path0)
      in if base_name path \<noteq> ''SKILL.md'' then skills
         else case read_text d path of
           Inl _ \<Rightarrow> skills
         | Inr text \<Rightarrow>
             (let (name0, description) = parse_frontmatter text;
                  name1 = (if name0 = [] then fst entry else name0);
                  name = (if namespace \<noteq> [] then namespace @ '':'' @ name1 else name1)
              in AList.update name \<lparr>sk_name = name, sk_description = description, sk_path = path,
                   sk_instructions = text\<rparr> skills))"

definition load_skills :: "fs \<Rightarrow> string \<Rightarrow> string \<Rightarrow> catalog \<Rightarrow> catalog" where
  "load_skills d root namespace ct =
     (case (if root = [] then Inl NotExist else read_dir d (apath_of root)) of
        Inl _ \<Rightarrow> ct
      | Inr entries \<Rightarrow> ct\<lparr>ct_skills := fold (load_skill d root namespace) entries (ct_skills ct)\<rparr>)"

subsection \<open>Servers\<close>

definition dec_raw_map :: "json \<Rightarrow> (string \<times> json) list \<Rightarrow> (string \<times> json) list option" where
  "dec_raw_map v old =
     (case v of
        JObj kvs \<Rightarrow> Some (fold (\<lambda>(k, x). AList.update k x) kvs old)
      | JNull \<Rightarrow> Some []
      | _ \<Rightarrow> None)"

fun dec_texts :: "(string \<times> json) list \<Rightarrow> (string \<times> string) list \<Rightarrow> (string \<times> string) list option" where
  "dec_texts [] old = Some old"
| "dec_texts ((k, v) # kvs) old =
     (case dec_string v [] of None \<Rightarrow> None | Some s \<Rightarrow> dec_texts kvs (AList.update k s old))"

definition dec_string_map :: "json \<Rightarrow> (string \<times> string) list \<Rightarrow> (string \<times> string) list option" where
  "dec_string_map v old =
     (case v of JObj kvs \<Rightarrow> dec_texts kvs old | JNull \<Rightarrow> Some [] | _ \<Rightarrow> None)"

text \<open>The server that one entry of a configuration describes, if it does.\<close>

definition server_of_json :: "string \<Rightarrow> string \<Rightarrow> json \<Rightarrow> mcp_server option" where
  "server_of_json path name v = do {
     c \<leftarrow> string_field ''command'' v;
     as \<leftarrow> strings_field ''args'' v;
     env \<leftarrow> json_field dec_string_map ''env'' [] v;
     url \<leftarrow> string_field ''url'' v;
     hs \<leftarrow> json_field dec_string_map ''headers'' [] v;
     ms \<leftarrow> int_field ''startup_timeout_ms'' v;
     (let timeout = wrap64 (ms * millisecond) in
      if c = [] \<and> url = [] then None
      else Some \<lparr>ms_name = name, ms_command = c, ms_args = as, ms_env = env, ms_url = url, ms_headers = hs,
        ms_startup_timeout = (if timeout \<le> 0 then 10 * second else timeout), ms_source_path = path,
        ms_working_directory = []\<rparr>) }"

definition servers_of_map :: "ext_env \<Rightarrow> string \<Rightarrow> (string \<times> json) list \<Rightarrow> mcp_server list" where
  "servers_of_map xe path raw =
     List.map_filter (\<lambda>name. Option.bind (map_of raw name) (server_of_json path name)) (xe_order xe (map fst raw))"

definition load_mcp_document :: "ext_env \<Rightarrow> json option \<Rightarrow> string \<Rightarrow> catalog \<Rightarrow> (ext_error, catalog) result" where
  "load_mcp_document xe doc path ct =
     (case Option.bind doc (\<lambda>v. dec_raw_map v []) of
        None \<Rightarrow> Inl (DecodeConfig path)
      | Some raw \<Rightarrow>
        (case (case map_of raw ''mcpServers'' of None \<Rightarrow> Some raw | Some nested \<Rightarrow> dec_raw_map nested raw) of
           None \<Rightarrow> Inl DecodeNested
         | Some raw' \<Rightarrow> Inr (ct\<lparr>ct_servers := ct_servers ct @ servers_of_map xe path raw'\<rparr>)))"

definition load_mcp_file :: "ext_env \<Rightarrow> fs \<Rightarrow> string \<Rightarrow> catalog \<Rightarrow> (ext_error, catalog) result" where
  "load_mcp_file xe d path ct =
     (case read_text d path of
        Inl e \<Rightarrow> if e = NotExist then Inr ct else Inl (ReadFailed e)
      | Inr text \<Rightarrow> load_mcp_document xe (xe_parse xe text) path ct)"

definition load_manifest_mcp :: "ext_env \<Rightarrow> fs \<Rightarrow> string \<Rightarrow> json \<Rightarrow> catalog \<Rightarrow> (ext_error, catalog) result" where
  "load_manifest_mcp xe d plugin_root raw ct =
     (case dec_string raw [] of
        Some path \<Rightarrow>
          if path \<noteq> [] then load_mcp_file xe d (resolve_plugin_path plugin_root path) ct
          else load_mcp_document xe (Some raw) (join_path [plugin_root, ''.codex-plugin'', ''plugin.json'']) ct
      | None \<Rightarrow> load_mcp_document xe (Some raw) (join_path [plugin_root, ''.codex-plugin'', ''plugin.json'']) ct)"

subsection \<open>Hooks, apps, commands and agents: components.go\<close>

definition hook_of_json :: "json \<Rightarrow> hook option" where
  "hook_of_json v = do {
     e \<leftarrow> string_field ''event'' v; t \<leftarrow> string_field ''type'' v; c \<leftarrow> string_field ''command'' v;
     p \<leftarrow> string_field ''path'' v;
     Some \<lparr>hk_event = e, hk_type = t, hk_command = c, hk_path = p\<rparr> }"

definition hook_list :: "string \<Rightarrow> json \<Rightarrow> hook list option" where
  "hook_list path v =
     (case dec_list hook_of_json v [] of
        Some (h # hs) \<Rightarrow> Some (map (\<lambda>h. h\<lparr>hk_path := (if hk_path h = [] then path else hk_path h),
            hk_type := (if hk_type h = [] then ''command'' else hk_type h)\<rparr>) (h # hs))
      | _ \<Rightarrow> None)"

definition hook_item :: "json \<Rightarrow> (string \<times> string) option" where
  "hook_item v = do { t \<leftarrow> string_field ''type'' v; c \<leftarrow> string_field ''command'' v; Some (t, c) }"

definition event_hooks :: "string \<Rightarrow> string \<Rightarrow> json \<Rightarrow> hook list" where
  "event_hooks path event v =
     (case dec_list hook_item v [] of
        None \<Rightarrow> []
      | Some items \<Rightarrow> map (\<lambda>(t, c). \<lparr>hk_event = event, hk_type = (if t = [] then ''command'' else t),
          hk_command = c, hk_path = path\<rparr>) items)"

lemma update_values: "v \<in> snd ` set (AList.update k x kvs) \<Longrightarrow> v = x \<or> v \<in> snd ` set kvs"
  by (induction kvs) (auto split: if_splits)

lemma fold_update_values:
  "v \<in> snd ` set (fold (\<lambda>(k, x). AList.update k x) kvs old) \<Longrightarrow> v \<in> snd ` set kvs \<or> v \<in> snd ` set old"
proof (induction kvs arbitrary: old)
  case (Cons kx kvs)
  obtain k x where kx: "kx = (k, x)" by fastforce
  from Cons.IH [of "AList.update k x old"] Cons.prems update_values [of v k x old] show ?case
    by (auto simp: kx)
qed simp

lemma raw_map_smaller:
  assumes "dec_raw_map v [] = Some raw" "map_of raw k = Some x"
  shows "size x < size v"
proof -
  from assms have "\<exists>kvs. v = JObj kvs \<and> raw = fold (\<lambda>(k, x). AList.update k x) kvs []"
    by (auto simp: dec_raw_map_def split: json.splits)
  then obtain kvs where v: "v = JObj kvs" and raw: "raw = fold (\<lambda>(k, x). AList.update k x) kvs []" by blast
  from assms(2) have "x \<in> snd ` set raw" by (force dest: map_of_SomeD)
  then have "x \<in> snd ` set kvs" unfolding raw using fold_update_values [of x kvs "[]"] by simp
  then obtain k' where "(k', x) \<in> set kvs" by auto
  then show ?thesis unfolding v by (induction kvs) auto
qed

text \<open>\<open>parseHooks\<close> recurses into the value of the key \<open>hooks\<close>.\<close>

function parse_hooks :: "ext_env \<Rightarrow> string \<Rightarrow> json \<Rightarrow> hook list" where
  "parse_hooks xe path v =
     (case hook_list path v of
        Some hs \<Rightarrow> hs
      | None \<Rightarrow>
        (case dec_raw_map v [] of
           None \<Rightarrow> []
         | Some raw \<Rightarrow>
           (case map_of raw ''hooks'' of
              Some nested \<Rightarrow> parse_hooks xe path nested
            | None \<Rightarrow> concat (map (\<lambda>event. case map_of raw event of None \<Rightarrow> [] | Some x \<Rightarrow> event_hooks path event x)
                (xe_order xe (map fst raw))))))"
  by pat_completeness auto
termination by (relation "measure (\<lambda>(_, _, v). size v)") (auto dest: raw_map_smaller)

declare parse_hooks.simps [simp del]

text \<open>The default path and the one of the manifest before it; a path is read once.\<close>

definition component_paths :: "string \<Rightarrow> string \<Rightarrow> string \<Rightarrow> string list" where
  "component_paths plugin_root manifest_path default_name =
     (let resolved = resolve_plugin_path plugin_root manifest_path
      in (if resolved \<noteq> [] then [resolved] else []) @ [join_path [plugin_root, default_name]])"

definition once :: "'a list \<Rightarrow> 'a list" where
  "once xs = rev (remdups (rev xs))"

definition load_hooks :: "ext_env \<Rightarrow> fs \<Rightarrow> string \<Rightarrow> string \<Rightarrow> hook list" where
  "load_hooks xe d plugin_root manifest_path =
     concat (map (\<lambda>path. case read_text d path of
         Inl _ \<Rightarrow> []
       | Inr text \<Rightarrow> (case xe_parse xe text of None \<Rightarrow> [] | Some v \<Rightarrow> parse_hooks xe path v))
       (once (component_paths plugin_root manifest_path ''hooks.json'')))"

definition app_of_json :: "json \<Rightarrow> app option" where
  "app_of_json v = do {
     n \<leftarrow> string_field ''name'' v; ds \<leftarrow> string_field ''description'' v; p \<leftarrow> string_field ''path'' v;
     Some \<lparr>ap_name = n, ap_description = ds, ap_path = p\<rparr> }"

definition apps_of_json :: "string \<Rightarrow> string \<Rightarrow> json \<Rightarrow> app list" where
  "apps_of_json plugin_root path v =
     (case dec_list app_of_json v [] of
        Some (a # as) \<Rightarrow> map (\<lambda>a. if ap_path a = [] then a\<lparr>ap_path := path\<rparr> else a) (a # as)
      | _ \<Rightarrow>
        (case app_of_json v of
           None \<Rightarrow> []
         | Some a \<Rightarrow>
             if ap_name a = [] \<and> ap_description a = [] then []
             else [a\<lparr>ap_path := path, ap_name := (if ap_name a = [] then base_name plugin_root else ap_name a)\<rparr>]))"

definition load_apps :: "ext_env \<Rightarrow> fs \<Rightarrow> string \<Rightarrow> string \<Rightarrow> app list" where
  "load_apps xe d plugin_root manifest_path =
     concat (map (\<lambda>path. case read_text d path of
         Inl _ \<Rightarrow> []
       | Inr text \<Rightarrow> (case xe_parse xe text of None \<Rightarrow> [] | Some v \<Rightarrow> apps_of_json plugin_root path v))
       (once (component_paths plugin_root manifest_path ''.app.json'')))"

definition strip_suffix :: "string \<Rightarrow> string \<Rightarrow> string" where
  "strip_suffix suf s = (if suffix suf s then take (length s - length suf) s else s)"

definition read_command_file :: "fs \<Rightarrow> string \<Rightarrow> slash_command option" where
  "read_command_file d path =
     (case read_text d path of
        Inl _ \<Rightarrow> None
      | Inr text \<Rightarrow>
        (let (name, description) = parse_frontmatter text
         in Some \<lparr>sc_name = (if name = [] then strip_suffix ''.toml'' (strip_suffix ''.md'' (base_name path)) else name),
              sc_description = description, sc_path = path, sc_prompt = trim_space text\<rparr>))"

definition has_component_suffix :: "string \<Rightarrow> bool" where
  "has_component_suffix name \<longleftrightarrow> suffix ''.md'' name \<or> suffix ''.toml'' name"

definition component_files :: "fs \<Rightarrow> string \<Rightarrow> string list" where
  "component_files d root =
     (case read_dir d (apath_of root) of
        Inl _ \<Rightarrow> []
      | Inr entries \<Rightarrow> map fst (filter (\<lambda>(name, dir). \<not> dir \<and> has_component_suffix name) entries))"

definition load_commands :: "fs \<Rightarrow> string \<Rightarrow> string \<Rightarrow> slash_command list" where
  "load_commands d plugin_root manifest_path =
     concat (map (\<lambda>root. case stat d (apath_of root) of
         Inl _ \<Rightarrow> []
       | Inr (File _) \<Rightarrow> (case read_command_file d root of None \<Rightarrow> [] | Some c \<Rightarrow> [c])
       | Inr Dir \<Rightarrow> List.map_filter (\<lambda>name. read_command_file d (join_path [root, name])) (component_files d root))
       (component_paths plugin_root manifest_path ''commands''))"

definition read_agent_file :: "fs \<Rightarrow> string \<Rightarrow> string \<Rightarrow> agent option" where
  "read_agent_file d root entry =
     (let path = join_path [root, entry] in
      case read_text d path of
        Inl _ \<Rightarrow> None
      | Inr text \<Rightarrow>
        (let (name0, description0) = parse_frontmatter text;
             name1 = (if name0 = [] then parse_toml_string text ''name'' else name0);
             description = (if description0 = [] then parse_toml_string text ''description'' else description0);
             name = (if name1 = [] then strip_suffix ''.md'' (strip_suffix ''.toml'' entry) else name1)
         in Some \<lparr>ag_name = name, ag_description = description, ag_path = path\<rparr>))"

definition load_agents :: "fs \<Rightarrow> string \<Rightarrow> string \<Rightarrow> agent list" where
  "load_agents d plugin_root manifest_path =
     concat (map (\<lambda>root. List.map_filter (read_agent_file d root) (component_files d root))
       (component_paths plugin_root manifest_path ''agents''))"

subsection \<open>Loading\<close>

record plugin_manifest =
  pg_name :: string
  pg_version :: string
  pg_description :: string
  pg_skills :: string
  pg_mcp_servers :: "json option"
  pg_hooks :: string
  pg_apps :: string
  pg_commands :: string
  pg_agents :: string

definition manifest_of_json :: "json \<Rightarrow> plugin_manifest option" where
  "manifest_of_json v = do {
     n \<leftarrow> string_field ''name'' v; ve \<leftarrow> string_field ''version'' v; ds \<leftarrow> string_field ''description'' v;
     sk \<leftarrow> string_field ''skills'' v; ms \<leftarrow> json_field (\<lambda>x old. Some (Some x)) ''mcpServers'' None v;
     hk \<leftarrow> string_field ''hooks'' v; ap \<leftarrow> string_field ''apps'' v; cs \<leftarrow> string_field ''commands'' v;
     ag \<leftarrow> string_field ''agents'' v;
     Some \<lparr>pg_name = n, pg_version = ve, pg_description = ds, pg_skills = sk, pg_mcp_servers = ms, pg_hooks = hk,
       pg_apps = ap, pg_commands = cs, pg_agents = ag\<rparr> }"

text \<open>The servers from \<open>n\<close> on get a working directory.\<close>

definition set_working_directory :: "nat \<Rightarrow> string \<Rightarrow> catalog \<Rightarrow> catalog" where
  "set_working_directory n wd ct =
     ct\<lparr>ct_servers := take n (ct_servers ct) @ map (\<lambda>s. s\<lparr>ms_working_directory := wd\<rparr>) (drop n (ct_servers ct))\<rparr>"

definition load_plugin_parts :: "ext_env \<Rightarrow> fs \<Rightarrow> string \<Rightarrow> plugin_manifest \<Rightarrow> catalog \<Rightarrow> (ext_error \<times> catalog) + catalog" where
  "load_plugin_parts xe d plugin_root pg ct =
     (let ct1 = load_skills d (join_path [plugin_root, ''skills'']) (pg_name pg) ct;
          ct2 = (if pg_skills pg \<noteq> [] then load_skills d (resolve_plugin_path plugin_root (pg_skills pg)) (pg_name pg) ct1
                 else ct1);
          start = length (ct_servers ct2)
      in case (case pg_mcp_servers pg of
                 Some raw \<Rightarrow> load_manifest_mcp xe d plugin_root raw ct2
               | None \<Rightarrow> load_mcp_file xe d (join_path [plugin_root, ''.mcp.json'']) ct2) of
           Inl e \<Rightarrow> Inl (e, ct2)
         | Inr ct3 \<Rightarrow> Inr (set_working_directory start plugin_root ct3))"

definition plugin_of :: "string \<Rightarrow> string \<Rightarrow> bool \<Rightarrow> plugin_manifest \<Rightarrow> plugin" where
  "plugin_of workspace plugin_root enabled pg =
     \<lparr>pl_name = pg_name pg, pl_version = pg_version pg, pl_description = pg_description pg, pl_path = plugin_root,
      pl_enabled = enabled, pl_installed = True, pl_source = plugin_source workspace plugin_root,
      pl_hooks = [], pl_apps = [], pl_commands = [], pl_agents = []\<rparr>"

text \<open>\<open>loadPlugin\<close>; an error keeps what was loaded before it.\<close>

definition load_plugin :: "ext_env \<Rightarrow> fs \<Rightarrow> string \<Rightarrow> string list \<Rightarrow> string \<Rightarrow> catalog \<Rightarrow> (ext_error \<times> catalog) + catalog" where
  "load_plugin xe d workspace disabled manifest_path ct =
     (case read_text d manifest_path of
        Inl _ \<Rightarrow> Inr ct
      | Inr text \<Rightarrow>
        (case Option.bind (xe_parse xe text) manifest_of_json of
           None \<Rightarrow> Inr ct
         | Some pg \<Rightarrow>
           if pg_name pg = [] then Inr ct
           else
             (let plugin_root = dir_name (dir_name manifest_path);
                  enabled = (pg_name pg \<notin> set disabled);
                  p = plugin_of workspace plugin_root enabled pg
              in if \<not> enabled then Inr (ct\<lparr>ct_plugins := ct_plugins ct @ [p]\<rparr>)
                 else (case load_plugin_parts xe d plugin_root pg ct of
                     Inl e \<Rightarrow> Inl e
                   | Inr ct' \<Rightarrow>
                       Inr (ct'\<lparr>ct_plugins := ct_plugins ct' @
                         [p\<lparr>pl_hooks := load_hooks xe d plugin_root (pg_hooks pg),
                            pl_apps := load_apps xe d plugin_root (pg_apps pg),
                            pl_commands := load_commands d plugin_root (pg_commands pg),
                            pl_agents := load_agents d plugin_root (pg_agents pg)\<rparr>]\<rparr>)))))"

fun load_plugins :: "ext_env \<Rightarrow> fs \<Rightarrow> string \<Rightarrow> string list \<Rightarrow> string list \<Rightarrow> catalog \<Rightarrow> (ext_error \<times> catalog) + catalog" where
  "load_plugins xe d workspace disabled [] ct = Inr ct"
| "load_plugins xe d workspace disabled (m # ms) ct =
     (case load_plugin xe d workspace disabled m ct of
        Inl e \<Rightarrow> Inl e
      | Inr ct' \<Rightarrow> load_plugins xe d workspace disabled ms ct')"

definition empty_catalog :: catalog where
  "empty_catalog = \<lparr>ct_skills = [], ct_servers = [], ct_plugins = []\<rparr>"

definition path_text :: "apath \<Rightarrow> string" where
  "path_text p = render_path True (apath_segs p)"

definition plugin_manifests :: "fs \<Rightarrow> string \<Rightarrow> string list" where
  "plugin_manifests d workspace =
     concat (map (\<lambda>root. map path_text (glob d (join_path [root, ''*'', ''.codex-plugin'', ''plugin.json''])))
       [join_path [workspace, ''plugins''], join_path [workspace, ''.agents'', ''plugins'']])"

text \<open>\<open>Load\<close>: the catalog, and the error that stopped it.\<close>

definition load_catalog :: "ext_env \<Rightarrow> fs \<Rightarrow> string \<Rightarrow> catalog \<times> ext_error option" where
  "load_catalog xe d workspace =
     (let disabled = load_disabled_plugins xe d workspace;
          ct1 = load_skills d (join_path [workspace, ''.codex'', ''skills'']) [] empty_catalog;
          ct2 = load_skills d (join_path [workspace, ''.agents'', ''skills'']) [] ct1
      in case load_mcp_file xe d (join_path [workspace, ''.mcp.json'']) ct2 of
           Inl e \<Rightarrow> (ct2, Some e)
         | Inr ct3 \<Rightarrow>
           (case load_plugins xe d workspace disabled (plugin_manifests d workspace) (set_working_directory 0 workspace ct3) of
              Inl (e, ct) \<Rightarrow> (ct, Some e)
            | Inr ct \<Rightarrow> (ct, None)))"

subsection \<open>Mentions of skills and hooks\<close>

definition name_start :: "char \<Rightarrow> bool" where
  "name_start c \<longleftrightarrow> (let b = byte_of c in 65 \<le> b \<and> b \<le> 90 \<or> 97 \<le> b \<and> b \<le> 122 \<or> 48 \<le> b \<and> b \<le> 57)"

definition name_part :: "char \<Rightarrow> bool" where
  "name_part c \<longleftrightarrow> name_start c \<or> c = CHR '':'' \<or> c = CHR ''_'' \<or> c = CHR ''-''"

text \<open>The matches of the pattern of mentions, from left to right.\<close>

function skill_mentions :: "string \<Rightarrow> string list" where
  "skill_mentions [] = []"
| "skill_mentions (c # s) =
     (if c = CHR ''$'' \<and> s \<noteq> [] \<and> name_start (hd s)
      then takeWhile name_part s # skill_mentions (dropWhile name_part s)
      else skill_mentions s)"
  by pat_completeness auto
termination by (relation "measure length") (auto simp: le_imp_less_Suc length_dropWhile_le)

definition skill_text :: "(string \<Rightarrow> string) \<Rightarrow> skill \<Rightarrow> string" where
  "skill_text quote s = [newline, newline] @ ''<skill name='' @ quote (sk_name s) @ '' path='' @ quote (sk_path s) @
     ''>'' @ [newline] @ sk_instructions s @ [newline] @ ''</skill>''"

definition catalog_instructions :: "(string \<Rightarrow> string) \<Rightarrow> catalog \<Rightarrow> string \<Rightarrow> string" where
  "catalog_instructions quote ct text =
     (let ms = skill_mentions text in
      if ms = [] then text
      else concat (map (\<lambda>m. case map_of (ct_skills ct) m of None \<Rightarrow> [] | Some s \<Rightarrow> skill_text quote s) ms))"

definition catalog_hooks :: "catalog \<Rightarrow> hook list" where
  "catalog_hooks ct = concat (map pl_hooks (filter pl_enabled (ct_plugins ct)))"

subsection \<open>What a catalog contains\<close>

text \<open>
  A catalog grown from the disabled names \<open>disabled\<close>: every listed plugin is enabled unless disabled, disabled ones
  contribute nothing, and servers and namespaced skills belong to enabled plugins.
\<close>

definition plugin_ok :: "string list \<Rightarrow> plugin \<Rightarrow> bool" where
  "plugin_ok disabled p \<longleftrightarrow> (pl_enabled p \<longleftrightarrow> pl_name p \<notin> set disabled) \<and>
     (\<not> pl_enabled p \<longrightarrow> pl_hooks p = [] \<and> pl_apps p = [] \<and> pl_commands p = [] \<and> pl_agents p = [])"

definition server_ok :: "string \<Rightarrow> plugin list \<Rightarrow> mcp_server \<Rightarrow> bool" where
  "server_ok workspace ps s \<longleftrightarrow>
     ms_working_directory s = workspace \<or> (\<exists>p \<in> set ps. pl_enabled p \<and> pl_path p = ms_working_directory s)"

definition below_dir :: "string \<Rightarrow> string \<Rightarrow> bool" where
  "below_dir root path \<longleftrightarrow> (\<exists>e. path = join_path [root, e] \<or> path = join_path [join_path [root, e], ''SKILL.md''])"

definition skill_ok :: "string list \<Rightarrow> plugin list \<Rightarrow> string \<times> skill \<Rightarrow> bool" where
  "skill_ok roots ps ks \<longleftrightarrow> fst ks = sk_name (snd ks) \<and>
     ((\<exists>r \<in> set roots. below_dir r (sk_path (snd ks))) \<or>
      (\<exists>p \<in> set ps. pl_enabled p \<and> prefix (pl_name p @ '':'') (fst ks)))"

definition catalog_ok :: "string \<Rightarrow> string list \<Rightarrow> string list \<Rightarrow> catalog \<Rightarrow> bool" where
  "catalog_ok workspace roots disabled ct \<longleftrightarrow>
     (\<forall>p \<in> set (ct_plugins ct). plugin_ok disabled p) \<and> (\<forall>s \<in> set (ct_servers ct). server_ok workspace (ct_plugins ct) s) \<and>
     (\<forall>k \<in> set (ct_skills ct). skill_ok roots (ct_plugins ct) k)"

lemma update_set: "kv \<in> set (AList.update k v kvs) \<Longrightarrow> kv = (k, v) \<or> kv \<in> set kvs"
  by (induction kvs) (auto split: if_splits)

lemma load_skill_set:
  assumes "ks \<in> set (load_skill d root namespace entry skills)"
  shows "ks \<in> set skills \<or> fst ks = sk_name (snd ks) \<and> below_dir root (sk_path (snd ks)) \<and>
    (namespace \<noteq> [] \<longrightarrow> prefix (namespace @ '':'') (fst ks))"
  using assms
  by (auto simp: load_skill_def Let_def below_dir_def dest!: update_set split: if_splits sum.splits prod.splits)

lemma load_skills_set:
  assumes "ks \<in> set (ct_skills (load_skills d root namespace ct))"
  shows "ks \<in> set (ct_skills ct) \<or> fst ks = sk_name (snd ks) \<and> below_dir root (sk_path (snd ks)) \<and>
    (namespace \<noteq> [] \<longrightarrow> prefix (namespace @ '':'') (fst ks))"
proof (cases "if root = [] then Inl NotExist else read_dir d (apath_of root)")
  case (Inr entries)
  have "ks \<in> set (fold (load_skill d root namespace) es skills) \<Longrightarrow> ks \<in> set skills \<or> fst ks = sk_name (snd ks) \<and>
      below_dir root (sk_path (snd ks)) \<and> (namespace \<noteq> [] \<longrightarrow> prefix (namespace @ '':'') (fst ks))" for es skills
  proof (induction es arbitrary: skills)
    case (Cons e es)
    then show ?case using load_skill_set [of ks d root namespace e skills] by auto
  qed simp
  with Inr assms show ?thesis by (simp add: load_skills_def)
qed (use assms in \<open>simp add: load_skills_def\<close>)

lemma load_skills_rest [simp]:
  "ct_servers (load_skills d root ns ct) = ct_servers ct" "ct_plugins (load_skills d root ns ct) = ct_plugins ct"
  by (simp_all add: load_skills_def split: sum.splits)

lemma load_mcp_document_rest:
  "load_mcp_document xe doc path ct = Inr ct' \<Longrightarrow> ct_skills ct' = ct_skills ct \<and> ct_plugins ct' = ct_plugins ct \<and>
    (\<exists>ss. ct_servers ct' = ct_servers ct @ ss)"
  by (auto simp: load_mcp_document_def split: option.splits)

lemma load_mcp_file_rest:
  "load_mcp_file xe d path ct = Inr ct' \<Longrightarrow> ct_skills ct' = ct_skills ct \<and> ct_plugins ct' = ct_plugins ct \<and>
    (\<exists>ss. ct_servers ct' = ct_servers ct @ ss)"
  by (auto simp: load_mcp_file_def dest!: load_mcp_document_rest split: sum.splits if_splits)

lemma load_manifest_mcp_rest:
  "load_manifest_mcp xe d root raw ct = Inr ct' \<Longrightarrow> ct_skills ct' = ct_skills ct \<and> ct_plugins ct' = ct_plugins ct \<and>
    (\<exists>ss. ct_servers ct' = ct_servers ct @ ss)"
  by (auto simp: load_manifest_mcp_def dest!: load_mcp_file_rest load_mcp_document_rest split: option.splits if_splits)

lemma load_plugin_parts_rest:
  assumes "load_plugin_parts xe d root pg ct = Inr ct'" "pg_name pg \<noteq> []"
  shows "ct_plugins ct' = ct_plugins ct" and "\<And>s. s \<in> set (ct_servers ct') \<Longrightarrow> s \<in> set (ct_servers ct) \<or> ms_working_directory s = root"
    and "\<And>k. k \<in> set (ct_skills ct') \<Longrightarrow> k \<in> set (ct_skills ct) \<or> fst k = sk_name (snd k) \<and> prefix (pg_name pg @ '':'') (fst k)"
proof -
  let ?ct1 = "load_skills d (join_path [root, ''skills'']) (pg_name pg) ct"
  let ?ct2 = "if pg_skills pg \<noteq> [] then load_skills d (resolve_plugin_path root (pg_skills pg)) (pg_name pg) ?ct1 else ?ct1"
  from assms(1) obtain ct3 where three: "ct_skills ct3 = ct_skills ?ct2" "ct_plugins ct3 = ct_plugins ?ct2"
    "\<exists>ss. ct_servers ct3 = ct_servers ?ct2 @ ss" and ct': "ct' = set_working_directory (length (ct_servers ?ct2)) root ct3"
    unfolding load_plugin_parts_def Let_def
    by (cases "pg_mcp_servers pg") (auto dest: load_manifest_mcp_rest load_mcp_file_rest split: sum.splits)
  show "ct_plugins ct' = ct_plugins ct" using three by (simp add: ct' set_working_directory_def)
  have "ct_servers ?ct2 = ct_servers ct" by simp
  with three(3) obtain ss where "ct_servers ct3 = ct_servers ct @ ss" by auto
  then show "s \<in> set (ct_servers ct) \<or> ms_working_directory s = root" if "s \<in> set (ct_servers ct')" for s
    using that by (auto simp: ct' set_working_directory_def)
  show "k \<in> set (ct_skills ct) \<or> fst k = sk_name (snd k) \<and> prefix (pg_name pg @ '':'') (fst k)"
    if "k \<in> set (ct_skills ct')" for k
  proof -
    from that have "k \<in> set (ct_skills ?ct2)" using three(1) by (simp add: ct' set_working_directory_def)
    then have "k \<in> set (ct_skills ?ct1) \<or> fst k = sk_name (snd k) \<and> prefix (pg_name pg @ '':'') (fst k)"
      using assms(2) by (auto dest: load_skills_set split: if_splits)
    then show ?thesis using assms(2) by (auto dest: load_skills_set)
  qed
qed

lemma server_ok_more: "server_ok w ps s \<Longrightarrow> server_ok w (ps @ qs) s"
  by (auto simp: server_ok_def)

lemma skill_ok_more: "skill_ok r ps k \<Longrightarrow> skill_ok r (ps @ qs) k"
  by (auto simp: skill_ok_def)

lemma load_plugin_ok:
  assumes "load_plugin xe d workspace disabled m ct = Inr ct'" "catalog_ok workspace roots disabled ct"
  shows "catalog_ok workspace roots disabled ct'"
proof -
  consider "ct' = ct"
    | pg where "pg_name pg \<in> set disabled"
        "ct' = ct\<lparr>ct_plugins := ct_plugins ct @ [plugin_of workspace (dir_name (dir_name m)) False pg]\<rparr>"
    | pg ct1 hs as cs gs where "pg_name pg \<noteq> []" "pg_name pg \<notin> set disabled"
        "load_plugin_parts xe d (dir_name (dir_name m)) pg ct = Inr ct1"
        "ct' = ct1\<lparr>ct_plugins := ct_plugins ct1 @ [(plugin_of workspace (dir_name (dir_name m)) True pg)
          \<lparr>pl_hooks := hs, pl_apps := as, pl_commands := cs, pl_agents := gs\<rparr>]\<rparr>"
    using assms(1) by (auto simp: load_plugin_def Let_def split: sum.splits option.splits if_splits)
  then show ?thesis
  proof cases
    case 1
    with assms(2) show ?thesis by simp
  next
    case (2 pg)
    with assms(2) show ?thesis
      by (auto simp: catalog_ok_def plugin_ok_def plugin_of_def intro: server_ok_more skill_ok_more)
  next
    case (3 pg ct1 hs as cs gs)
    note rest = load_plugin_parts_rest [OF 3(3,1)]
    let ?p = "(plugin_of workspace (dir_name (dir_name m)) True pg)
          \<lparr>pl_hooks := hs, pl_apps := as, pl_commands := cs, pl_agents := gs\<rparr>"
    have p: "plugin_ok disabled ?p" "pl_enabled ?p" "pl_path ?p = dir_name (dir_name m)" "pl_name ?p = pg_name pg"
      using 3(2) by (simp_all add: plugin_ok_def plugin_of_def)
    have ct': "ct_plugins ct' = ct_plugins ct @ [?p]" "ct_servers ct' = ct_servers ct1" "ct_skills ct' = ct_skills ct1"
      using 3(4) rest(1) by simp_all
    have "server_ok workspace (ct_plugins ct @ [?p]) s" if "s \<in> set (ct_servers ct1)" for s
      using rest(2) [OF that] assms(2) p(2,3) unfolding catalog_ok_def
      by (elim disjE) (simp add: server_ok_more, simp add: server_ok_def)
    moreover have "skill_ok roots (ct_plugins ct @ [?p]) k" if "k \<in> set (ct_skills ct1)" for k
      using rest(3) [OF that]
    proof
      assume "k \<in> set (ct_skills ct)"
      with assms(2) show ?thesis unfolding catalog_ok_def by (simp add: skill_ok_more)
    next
      assume k: "fst k = sk_name (snd k) \<and> prefix (pg_name pg @ '':'') (fst k)"
      show ?thesis unfolding skill_ok_def
      proof (intro conjI disjI2 bexI)
        show "prefix (pl_name ?p @ '':'') (fst k)" using k by (elim conjE) (simp only: p(4))
      qed (use k p(2) in simp_all)
    qed
    moreover have "\<forall>q \<in> set (ct_plugins ct @ [?p]). plugin_ok disabled q"
      using assms(2) p(1) unfolding catalog_ok_def by simp
    ultimately show ?thesis unfolding catalog_ok_def ct' by blast
  qed
qed

lemma load_plugins_ok:
  "load_plugins xe d workspace disabled ms ct = Inr ct' \<Longrightarrow> catalog_ok workspace roots disabled ct \<Longrightarrow>
    catalog_ok workspace roots disabled ct'"
  by (induction ms arbitrary: ct) (auto dest: load_plugin_ok split: sum.splits)

lemma set_working_directory_all: "s \<in> set (ct_servers (set_working_directory 0 w ct)) \<Longrightarrow> ms_working_directory s = w"
  by (auto simp: set_working_directory_def)

lemma load_catalog_ok:
  assumes "load_catalog xe d workspace = (ct, None)"
  shows "catalog_ok workspace [join_path [workspace, ''.codex'', ''skills''], join_path [workspace, ''.agents'', ''skills'']]
    (load_disabled_plugins xe d workspace) ct"
proof -
  let ?r1 = "join_path [workspace, ''.codex'', ''skills'']" and ?r2 = "join_path [workspace, ''.agents'', ''skills'']"
  let ?ct2 = "load_skills d ?r2 [] (load_skills d ?r1 [] empty_catalog)"
  from assms obtain ct3 where three: "load_mcp_file xe d (join_path [workspace, ''.mcp.json'']) ?ct2 = Inr ct3"
    and ps: "load_plugins xe d workspace (load_disabled_plugins xe d workspace) (plugin_manifests d workspace)
        (set_working_directory 0 workspace ct3) = Inr ct"
    by (auto simp: load_catalog_def Let_def split: sum.splits prod.splits)
  have "\<forall>k \<in> set (ct_skills ?ct2). skill_ok [?r1, ?r2] [] k"
  proof
    fix k assume "k \<in> set (ct_skills ?ct2)"
    then consider "k \<in> set (ct_skills (load_skills d ?r1 [] empty_catalog))"
      | "fst k = sk_name (snd k)" "below_dir ?r2 (sk_path (snd k))" using load_skills_set by blast
    then show "skill_ok [?r1, ?r2] [] k"
    proof cases
      case 1
      then have "fst k = sk_name (snd k) \<and> below_dir ?r1 (sk_path (snd k))"
        using load_skills_set [of k d ?r1 "[]" empty_catalog] by (auto simp: empty_catalog_def)
      then show ?thesis by (auto simp: skill_ok_def)
    qed (simp add: skill_ok_def)
  qed
  moreover have "ct_plugins (set_working_directory 0 workspace ct3) = []"
    "ct_skills (set_working_directory 0 workspace ct3) = ct_skills ?ct2"
    using load_mcp_file_rest [OF three] by (simp_all add: set_working_directory_def empty_catalog_def)
  ultimately have "catalog_ok workspace [?r1, ?r2] (load_disabled_plugins xe d workspace) (set_working_directory 0 workspace ct3)"
    unfolding catalog_ok_def server_ok_def using set_working_directory_all by simp
  with load_plugins_ok [OF ps] show ?thesis .
qed

text \<open>
  Property C22. A disabled plugin is listed and does nothing: in every catalog that loads, a plugin is enabled exactly if the settings do not
  disable it, the hooks of the catalog are those of enabled plugins, every server runs in the workspace or in the
  directory of an enabled plugin, and every skill is one of the workspace or carries the name of an enabled
  plugin.
\<close>

theorem disabled_plugins_contribute_nothing:
  assumes "load_catalog xe d workspace = (ct, None)"
  shows "(\<forall>p \<in> set (ct_plugins ct). pl_enabled p \<longleftrightarrow> pl_name p \<notin> set (load_disabled_plugins xe d workspace)) \<and>
    (\<forall>h \<in> set (catalog_hooks ct). \<exists>p \<in> set (ct_plugins ct).
       pl_name p \<notin> set (load_disabled_plugins xe d workspace) \<and> h \<in> set (pl_hooks p)) \<and>
    (\<forall>s \<in> set (ct_servers ct). ms_working_directory s = workspace \<or>
       (\<exists>p \<in> set (ct_plugins ct). pl_name p \<notin> set (load_disabled_plugins xe d workspace) \<and> pl_path p = ms_working_directory s)) \<and>
    (\<forall>(k, s) \<in> set (ct_skills ct).
       (\<exists>r \<in> {join_path [workspace, ''.codex'', ''skills''], join_path [workspace, ''.agents'', ''skills'']}. below_dir r (sk_path s)) \<or>
       (\<exists>p \<in> set (ct_plugins ct). pl_name p \<notin> set (load_disabled_plugins xe d workspace) \<and> prefix (pl_name p @ '':'') k))"
proof -
  let ?r = "[join_path [workspace, ''.codex'', ''skills''], join_path [workspace, ''.agents'', ''skills'']]"
  let ?dis = "load_disabled_plugins xe d workspace"
  have ps: "p \<in> set (ct_plugins ct) \<Longrightarrow> plugin_ok ?dis p" and ss: "s \<in> set (ct_servers ct) \<Longrightarrow> server_ok workspace (ct_plugins ct) s"
    and ks: "k \<in> set (ct_skills ct) \<Longrightarrow> skill_ok ?r (ct_plugins ct) k" for p s k
    using load_catalog_ok [OF assms] unfolding catalog_ok_def by blast+
  have en: "p \<in> set (ct_plugins ct) \<Longrightarrow> pl_enabled p \<longleftrightarrow> pl_name p \<notin> set ?dis" for p using ps unfolding plugin_ok_def by blast
  have "\<exists>p \<in> set (ct_plugins ct). pl_name p \<notin> set ?dis \<and> h \<in> set (pl_hooks p)" if "h \<in> set (catalog_hooks ct)" for h
  proof -
    from that obtain p where "p \<in> set (ct_plugins ct)" "pl_enabled p" "h \<in> set (pl_hooks p)"
      by (auto simp: catalog_hooks_def)
    with en show ?thesis by blast
  qed
  moreover have "ms_working_directory s = workspace \<or>
       (\<exists>p \<in> set (ct_plugins ct). pl_name p \<notin> set ?dis \<and> pl_path p = ms_working_directory s)" if "s \<in> set (ct_servers ct)" for s
    using ss [OF that] en unfolding server_ok_def by blast
  moreover have "(\<exists>r \<in> set ?r. below_dir r (sk_path s)) \<or>
       (\<exists>p \<in> set (ct_plugins ct). pl_name p \<notin> set ?dis \<and> prefix (pl_name p @ '':'') k)" if "(k, s) \<in> set (ct_skills ct)" for k s
  proof -
    from ks [OF that] consider r where "r \<in> set ?r" "below_dir r (sk_path s)"
      | p where "p \<in> set (ct_plugins ct)" "pl_enabled p" "prefix (pl_name p @ '':'') k"
      unfolding skill_ok_def fst_conv snd_conv by blast
    then show ?thesis using en by cases blast+
  qed
  ultimately show ?thesis using en by (intro conjI ballI, blast, blast, blast) (simp add: split_beta)
qed

subsection \<open>A small workspace\<close>

text \<open>
  Two plugins are installed, \<open>x\<close> and \<open>y\<close>, and the settings disable \<open>x\<close>. The texts of the files are one letter each;
  settings are written as one letter per name.
\<close>

definition sample_ext_env :: ext_env where
  "sample_ext_env = \<lparr>
     xe_parse = (\<lambda>t. if t = ''X'' then Some (JObj [(''name'', JStr ''x'')])
       else if t = ''Y'' then Some (JObj [(''name'', JStr ''y'')])
       else if t = ''H'' then Some (JArr [JObj [(''event'', JStr ''Stop''), (''command'', JStr ''c'')]])
       else Some (settings_json (replicate (length t - 1) ''x''))),
     xe_render = (\<lambda>v. map (\<lambda>_. CHR ''n'') (disabled_of_json v)), xe_order = (\<lambda>ns. ns), xe_quote = (\<lambda>s. s), xe_home = None,
     xe_wd = ''/w''\<rparr>"

definition sample_paths :: "(string list \<times> node) list" where
  "sample_paths =
     [([''.codex''], Dir), ([''.codex'', ''extensions.json''], File ''n.''),
      ([''.agents''], Dir), ([''.agents'', ''plugins''], Dir),
      ([''.agents'', ''plugins'', ''x''], Dir), ([''.agents'', ''plugins'', ''x'', ''.codex-plugin''], Dir),
      ([''.agents'', ''plugins'', ''x'', ''.codex-plugin'', ''plugin.json''], File ''X''),
      ([''.agents'', ''plugins'', ''y''], Dir), ([''.agents'', ''plugins'', ''y'', ''hooks.json''], File ''H''),
      ([''.agents'', ''plugins'', ''y'', ''.codex-plugin''], Dir),
      ([''.agents'', ''plugins'', ''y'', ''.codex-plugin'', ''plugin.json''], File ''Y'')]"

definition sample_ext_fs :: fs where
  "sample_ext_fs = [(APath [], Dir), (APath [''w''], Dir)] @ map (\<lambda>(p, x). (APath (''w'' # p), x)) sample_paths"

definition sample_plugin :: "string \<Rightarrow> bool \<Rightarrow> hook list \<Rightarrow> plugin" where
  "sample_plugin name enabled hs = \<lparr>pl_name = name, pl_version = [], pl_description = [], pl_path = ''/w/.agents/plugins/'' @ name,
     pl_enabled = enabled, pl_installed = True, pl_source = ''marketplace'', pl_hooks = hs, pl_apps = [], pl_commands = [], pl_agents = []\<rparr>"

definition sample_hook :: hook where
  "sample_hook = \<lparr>hk_event = ''Stop'', hk_type = ''command'', hk_command = ''c'', hk_path = ''/w/.agents/plugins/y/hooks.json''\<rparr>"

lemma sample_loads:
  "load_catalog sample_ext_env sample_ext_fs ''/w'' =
     (\<lparr>ct_skills = [], ct_servers = [], ct_plugins = [sample_plugin ''x'' False [], sample_plugin ''y'' True [sample_hook]]\<rparr>, None)"
  by code_simp

theorem disabled_plugins_contribute_nothing_witness:
  "''x'' \<in> set (load_disabled_plugins sample_ext_env sample_ext_fs ''/w'') \<and>
   ''y'' \<notin> set (load_disabled_plugins sample_ext_env sample_ext_fs ''/w'')"
  using disabled_plugins_contribute_nothing [OF sample_loads] by (simp add: sample_plugin_def)

end
