(* ===== verification/Dotenv.thy ===== *)
theory Dotenv
  imports GoConv Extensions
begin

section \<open>Local configuration: internal/config/dotenv.go\<close>

text \<open>
  \<open>LoadOptionalDotEnv\<close> reads lines \<open>KEY=VALUE\<close> and sets the variables that the process does not have yet. The environment
  is an association list. What the loader does is compared with a reference that first reads all pairs.
\<close>

type_synonym environ = "(string \<times> string) list"

datatype dotenv_error =
    OpenDotenv os_error
  | ExpectedKeyValue nat      \<comment> \<open>the number of the line\<close>
  | BadQuotes nat
  | SetFailed string nat
  | ReadDotenv

definition nul :: char where "nul = CHR 0x00"

text \<open>\<open>os.Setenv\<close>.\<close>

definition setenv :: "string \<Rightarrow> string \<Rightarrow> environ \<Rightarrow> environ option" where
  "setenv k v env =
     (if k = [] \<or> CHR ''='' \<in> set k \<or> nul \<in> set k \<or> nul \<in> set v then None else Some (AList.update k v env))"

definition dotenv_value :: "string \<Rightarrow> string option" where
  "dotenv_value v =
     (if 2 \<le> length v \<and> ((hd v = CHR 0x22 \<and> last v = CHR 0x22) \<or> (hd v = CHR 0x27 \<and> last v = CHR 0x27)) then
        (if hd v = CHR 0x27 then Some (butlast (tl v)) else unquote v)
      else Some v)"

text \<open>The pair of a line: none for blank lines and comments.\<close>

definition dotenv_pair :: "nat \<Rightarrow> string \<Rightarrow> (dotenv_error, (string \<times> string) option) result" where
  "dotenv_pair n raw =
     (let l = trim_space raw in
      if l = [] \<or> prefix ''#'' l then Inr None
      else (let l' = trim_space (case cut_prefix ''export '' l of None \<Rightarrow> l | Some rest \<Rightarrow> rest) in
        case cut_at (CHR ''='') l' of
          None \<Rightarrow> Inl (ExpectedKeyValue n)
        | Some (k, v) \<Rightarrow>
            if trim_space k = [] then Inl (ExpectedKeyValue n)
            else (case dotenv_value (trim_space v) of
                None \<Rightarrow> Inl (BadQuotes n)
              | Some value \<Rightarrow> Inr (Some (trim_space k, value)))))"

definition set_missing :: "nat \<Rightarrow> string \<times> string \<Rightarrow> environ \<Rightarrow> (dotenv_error, environ) result" where
  "set_missing n kv env =
     (if map_of env (fst kv) \<noteq> None then Inr env
      else case setenv (fst kv) (snd kv) env of None \<Rightarrow> Inl (SetFailed (fst kv) n) | Some env' \<Rightarrow> Inr env')"

fun dotenv_lines :: "nat \<Rightarrow> string list \<Rightarrow> environ \<Rightarrow> dotenv_error option \<times> environ" where
  "dotenv_lines n [] env = (None, env)"
| "dotenv_lines n (l # ls) env =
     (case dotenv_pair n l of
        Inl e \<Rightarrow> (Some e, env)
      | Inr None \<Rightarrow> dotenv_lines (n + 1) ls env
      | Inr (Some kv) \<Rightarrow>
          (case set_missing n kv env of
             Inl e \<Rightarrow> (Some e, env)
           | Inr env' \<Rightarrow> dotenv_lines (n + 1) ls env'))"

definition scanner_limit :: nat where "scanner_limit = 65536"

definition load_optional_dotenv :: "fs \<Rightarrow> string \<Rightarrow> environ \<Rightarrow> dotenv_error option \<times> environ" where
  "load_optional_dotenv d path env =
     (case read_text d path of
        Inl NotExist \<Rightarrow> (None, env)
      | Inl IsDirectory \<Rightarrow> (Some ReadDotenv, env)
      | Inl e \<Rightarrow> (Some (OpenDotenv e), env)
      | Inr text \<Rightarrow>
          (let (ls, too_long) = scan_upto scanner_limit text in
           case dotenv_lines 1 ls env of
             (Some e, env') \<Rightarrow> (Some e, env')
           | (None, env') \<Rightarrow> (if too_long then Some ReadDotenv else None, env')))"

subsection \<open>What is loaded\<close>

text \<open>The reference: the pairs of all lines, the first of a name counting.\<close>

fun dotenv_pairs :: "nat \<Rightarrow> string list \<Rightarrow> (string \<times> string) list option" where
  "dotenv_pairs n [] = Some []"
| "dotenv_pairs n (l # ls) =
     (case dotenv_pair n l of
        Inl e \<Rightarrow> None
      | Inr None \<Rightarrow> dotenv_pairs (n + 1) ls
      | Inr (Some kv) \<Rightarrow> map_option (Cons kv) (dotenv_pairs (n + 1) ls))"

lemma set_missing_map_of:
  "set_missing n kv env = Inr env' \<Longrightarrow> map_of env' = map_of [kv] ++ map_of env"
  by (cases kv) (auto simp: set_missing_def setenv_def update_conv' map_add_def fun_eq_iff split: if_splits option.splits)

lemma set_missing_keeps:
  "set_missing n kv env = Inr env' \<Longrightarrow> \<exists>new. env' = env @ new"
proof -
  have "k \<notin> fst ` set env \<Longrightarrow> AList.update k v env = env @ [(k, v)]" for k v :: string
    by (induction env) auto
  then show "set_missing n kv env = Inr env' \<Longrightarrow> \<exists>new. env' = env @ new"
    by (auto simp: set_missing_def setenv_def map_of_eq_None_iff split: if_splits option.splits)
qed

lemma dotenv_lines_keeps: "dotenv_lines n ls env = (r, env') \<Longrightarrow> \<exists>new. env' = env @ new"
proof (induction n ls env rule: dotenv_lines.induct)
  case (2 n l ls env)
  show ?case
  proof (cases "\<exists>kv env1. dotenv_pair n l = Inr (Some kv) \<and> set_missing n kv env = Inr env1")
    case True
    then obtain kv env1 where s: "dotenv_pair n l = Inr (Some kv)" "set_missing n kv env = Inr env1" by blast
    with "2.prems" have "dotenv_lines (n + 1) ls env1 = (r, env')" by simp
    from "2.IH"(2) [OF s(1) refl s(2) this] set_missing_keeps [OF s(2)] obtain a b where "env' = env1 @ a" "env1 = env @ b" by blast
    then show ?thesis by simp
  next
    case False
    with 2 show ?thesis by (auto split: sum.splits option.splits)
  qed
qed simp

lemma dotenv_lines_spec:
  "dotenv_lines n ls env = (None, env') \<Longrightarrow>
    \<exists>ps. dotenv_pairs n ls = Some ps \<and> map_of env' = map_of ps ++ map_of env"
proof (induction ls arbitrary: n env)
  case (Cons l ls)
  show ?case
  proof (cases "dotenv_pair n l")
    case (Inr p)
    show ?thesis
    proof (cases p)
      case (Some kv)
      with Cons.prems Inr obtain env1 where s: "set_missing n kv env = Inr env1" "dotenv_lines (n + 1) ls env1 = (None, env')"
        by (auto split: sum.splits)
      from Cons.IH [OF s(2)] obtain ps where ps: "dotenv_pairs (n + 1) ls = Some ps" "map_of env' = map_of ps ++ map_of env1" by blast
      have "map_of ps ++ map_of [kv] = map_of (kv # ps)" by (cases kv) simp
      then have "map_of env' = map_of (kv # ps) ++ map_of env"
        using ps(2) set_missing_map_of [OF s(1)] by (metis map_add_assoc)
      with ps(1) Some Inr show ?thesis by auto
    qed (use Cons.prems Inr Cons.IH in auto)
  qed (use Cons.prems in auto)
qed simp


definition sample_dotenv :: fs where
  "sample_dotenv = [(APath [], Dir), (APath [''e''], File (''A=1'' @ [newline] @ ''B=x'' @ [newline] @ ''B=y''))]"


end
