(* ===== verification/GoHttp.thy ===== *)
theory GoHttp
  imports EventJson ProcessManager GoDirs
begin

section \<open>Requests over HTTP: what the program uses of net/http and net/url\<close>

text \<open>
  Requests, responses and headers, form encoding, and \<open>os.ExpandEnv\<close>. What the network answers is the field
  \<open>wb_send\<close> of an environment, on a state of the other end that is a type variable; the codec of JSON and of
  times, the parser of URLs, the clock, random bytes and SHA-256 are fields too.
\<close>

record http_request =
  hq_method :: string
  hq_url :: string
  hq_headers :: "(string \<times> string) list"
  hq_body :: string

text \<open>The body as far as it could be read, or the error of reading it.\<close>

record http_response =
  hp_status :: int
  hp_status_text :: string
  hp_headers :: "(string \<times> string) list"
  hp_body :: "(string, string) result"

record 'w web =
  wb_parse :: "string \<Rightarrow> json option"
  wb_render :: "json \<Rightarrow> string"
  wb_render_indent :: "json \<Rightarrow> string"
  wb_decode_error :: "string \<Rightarrow> string"
  wb_disk_error :: "os_error \<Rightarrow> string"
  wb_time_text :: "int \<Rightarrow> string"
  wb_parse_time :: "string \<Rightarrow> int option"
  wb_bad_url :: "string \<Rightarrow> string option"
  wb_parse_url :: "string \<Rightarrow> (string, string \<times> string) result"
  wb_set_query :: "string \<Rightarrow> string \<Rightarrow> (string, string) result"
  wb_getenv :: "string \<Rightarrow> string"
  wb_sha256 :: "string \<Rightarrow> string"
  wb_send :: "http_request \<Rightarrow> 'w \<Rightarrow> (string, http_response) result \<times> 'w"
  wb_random :: "nat \<Rightarrow> 'w \<Rightarrow> (string, string) result \<times> 'w"
  wb_now :: "'w \<Rightarrow> int"
  wb_cancelled :: "'w \<Rightarrow> string option"

subsection \<open>Headers\<close>

definition token_char :: "char \<Rightarrow> bool" where
  "token_char c \<longleftrightarrow> (CHR ''a'' \<le> c \<and> c \<le> CHR ''z'') \<or> (CHR ''A'' \<le> c \<and> c \<le> CHR ''Z'') \<or>
     (CHR ''0'' \<le> c \<and> c \<le> CHR ''9'') \<or> c \<in> set ''!#$%&*+-.^_|~'' \<or> c = CHR 0x27 \<or> c = CHR 0x60"

definition upper_char :: "char \<Rightarrow> char" where
  "upper_char c = (let b = byte_of c in if 97 \<le> b \<and> b \<le> 122 then char_of (b - 32) else c)"

fun canonical_from :: "bool \<Rightarrow> string \<Rightarrow> string" where
  "canonical_from first [] = []"
| "canonical_from first (c # s) = (if first then upper_char c else lower_char c) # canonical_from (c = CHR ''-'') s"

definition canonical_key :: "string \<Rightarrow> string" where
  "canonical_key k = (if list_all token_char k then canonical_from True k else k)"

definition header_set :: "string \<Rightarrow> string \<Rightarrow> (string \<times> string) list \<Rightarrow> (string \<times> string) list" where
  "header_set k v hs = AList.update (canonical_key k) v hs"

definition header_get :: "string \<Rightarrow> (string \<times> string) list \<Rightarrow> string" where
  "header_get k hs = (case map_of hs (canonical_key k) of None \<Rightarrow> [] | Some v \<Rightarrow> v)"

definition success_status :: "http_response \<Rightarrow> bool" where
  "success_status r \<longleftrightarrow> 200 \<le> hp_status r \<and> hp_status r < 300"

subsection \<open>Text\<close>

text \<open>\<open>strings.ToLower\<close> as far as its result is ASCII: the capital I with a dot and the sign Kelvin become letters.\<close>

fun lower_text :: "string \<Rightarrow> string" where
  "lower_text [] = []"
| "lower_text (c # s) =
     (if byte_of c = 196 \<and> s \<noteq> [] \<and> byte_of (hd s) = 176 then CHR ''i'' # lower_text (tl s)
      else if byte_of c = 226 \<and> 2 \<le> length s \<and> byte_of (hd s) = 132 \<and> byte_of (s ! 1) = 170
        then CHR ''k'' # lower_text (drop 2 s)
      else lower_char c # lower_text s)"

text \<open>\<open>strings.Map\<close> with a function of runes.\<close>

definition map_runes :: "(rune \<Rightarrow> rune) \<Rightarrow> string \<Rightarrow> string" where
  "map_runes f s = concat (map (encode_rune \<circ> f) (runes s))"

definition hex_digit :: "nat \<Rightarrow> char" where
  "hex_digit n = ''0123456789ABCDEF'' ! n"

definition query_escape :: "string \<Rightarrow> string" where
  "query_escape s = concat (map (\<lambda>c.
     if (CHR ''a'' \<le> c \<and> c \<le> CHR ''z'') \<or> (CHR ''A'' \<le> c \<and> c \<le> CHR ''Z'') \<or> (CHR ''0'' \<le> c \<and> c \<le> CHR ''9'') \<or>
        c \<in> set ''-_.~'' then [c]
     else if c = CHR '' '' then ''+''
     else [CHR ''%'', hex_digit (byte_of c div 16), hex_digit (byte_of c mod 16)]) s)"

text \<open>\<open>url.Values.Encode\<close> for values with one string per key.\<close>

definition encode_values :: "(string \<times> string) list \<Rightarrow> string" where
  "encode_values kvs = join_with ''&'' (map (\<lambda>(k, v). query_escape k @ ''='' @ query_escape v) (sort_key fst kvs))"

text \<open>\<open>base64.RawURLEncoding\<close>.\<close>

definition base64_url :: "string \<Rightarrow> string" where
  "base64_url s = map (\<lambda>c. if c = CHR ''+'' then CHR ''-'' else if c = CHR ''/'' then CHR ''_'' else c)
     (filter (\<lambda>c. c \<noteq> CHR ''='') (base64 s))"

subsection \<open>os.ExpandEnv\<close>

definition shell_special :: "char \<Rightarrow> bool" where
  "shell_special c \<longleftrightarrow> c \<in> set ''*#$@!?-0123456789''"

definition name_char :: "char \<Rightarrow> bool" where
  "name_char c \<longleftrightarrow> c = CHR ''_'' \<or> (CHR ''0'' \<le> c \<and> c \<le> CHR ''9'') \<or> (CHR ''a'' \<le> c \<and> c \<le> CHR ''z'') \<or>
     (CHR ''A'' \<le> c \<and> c \<le> CHR ''Z'')"

text \<open>The name after a dollar sign, and how many bytes it takes.\<close>

definition shell_name :: "string \<Rightarrow> string \<times> nat" where
  "shell_name s =
     (if hd s = CHR ''{'' then
        (if 2 < length s \<and> shell_special (s ! 1) \<and> s ! 2 = CHR ''}'' then ([s ! 1], 3)
         else (let name = takeWhile (\<lambda>c. c \<noteq> CHR ''}'') (tl s) in
           if name = tl s then ([], 1)
           else if name = [] then ([], 2)
           else (name, length name + 2)))
      else if shell_special (hd s) then ([hd s], 1)
      else (let name = takeWhile name_char s in (name, length name)))"

function expand_env :: "(string \<Rightarrow> string) \<Rightarrow> string \<Rightarrow> string" where
  "expand_env getenv s =
     (case s of
        [] \<Rightarrow> []
      | c # rest \<Rightarrow>
          if c = CHR ''$'' \<and> rest \<noteq> [] then
            (let (name, n) = shell_name rest in
             if name = [] \<and> n = 0 then c # expand_env getenv rest
             else (if name = [] then [] else getenv name) @ expand_env getenv (drop n rest))
          else c # expand_env getenv rest)"
  by pat_completeness auto
termination by (relation "measure (\<lambda>(_, s). length s)") auto

declare expand_env.simps [simp del]

end
