(* ===== verification/ExecPolicy.thy ===== *)
theory ExecPolicy
  imports GoFiles GoJson
begin

section \<open>Command policy: internal/tools/exec\_policy.go\<close>

text \<open>
  The policy decides whether a shell command may run without asking. A command is split by a
  word-only parser that gives up (\<open>plain = false\<close>) on anything a shell would expand; read-only
  commands run, a single plain command runs when an approved prefix of words matches, all else
  needs approval and may propose a prefix. The locale \<open>rule_cache\<close> is what \<open>Evaluate\<close> relies on of the two lists of
  approved prefixes, the session rules and the rules persisted beneath the workspace.
\<close>

datatype policy_error =
    EmptyCommand                 \<comment> \<open>cmd must not be empty\<close>
  | EmptyShellCommand            \<comment> \<open>cmd contains an empty shell command\<close>
  | UnfinishedCommand            \<comment> \<open>cmd contains an unfinished escape or quote\<close>
  | LoadPolicyError
  | RuleTooShort                 \<comment> \<open>persistent exec policy rule requires at least two tokens\<close>
  | CreateDirectoryError os_error
  | WritePolicyError os_error
  | ReplacePolicyError os_error

record exec_policy_requirement =
  needs_approval :: bool
  req_reason :: string
  proposed_rule :: "string list"
  matched_rule :: string

record exec_policy =
  session_rules :: "string list list"
  persistent_rules :: "string list list"
  rules_path :: string
  load_err :: bool

definition read_only_commands :: "string list" where
  "read_only_commands =
     [''file'', ''find'', ''head'', ''ls'', ''pwd'', ''rg'', ''sed'', ''stat'', ''tail'', ''wc'']"

definition read_only_git_subcommands :: "string list" where
  "read_only_git_subcommands =
     [''diff'', ''grep'', ''log'', ''ls-files'', ''rev-parse'', ''show'', ''status'']"

subsection \<open>The word-only shell parser\<close>

text \<open>The variables of the scanner; a byte is written to the token as the rune of its value.\<close>

record scan_state =
  sc_commands :: "string list list"
  sc_tokens :: "string list"
  sc_token :: string
  sc_quote :: "char option"
  sc_escaped :: bool

definition scan_init :: scan_state where
  "scan_init = \<lparr>sc_commands = [], sc_tokens = [], sc_token = [], sc_quote = None, sc_escaped = False\<rparr>"

definition write_char :: "char \<Rightarrow> scan_state \<Rightarrow> scan_state" where
  "write_char c st = st\<lparr>sc_token := sc_token st @ encode_rune (byte_of c)\<rparr>"

definition flush_token :: "scan_state \<Rightarrow> scan_state" where
  "flush_token st =
     (if sc_token st = [] then st
      else st\<lparr>sc_tokens := sc_tokens st @ [sc_token st], sc_token := []\<rparr>)"

definition flush_command :: "scan_state \<Rightarrow> (policy_error, scan_state) result" where
  "flush_command st0 =
     (let st = flush_token st0 in
      if sc_tokens st = [] then Inl EmptyShellCommand
      else Inr (st\<lparr>sc_commands := sc_commands st @ [sc_tokens st], sc_tokens := []\<rparr>))"

datatype scan_result = ScanOpaque | ScanError policy_error | ScanPlain "string list list"

definition carriage_return :: char where "carriage_return = CHR 0x0D"
definition tab :: char where "tab = CHR 0x09"
definition squote :: char where "squote = CHR 0x27"
definition dquote :: char where "dquote = CHR 0x22"
definition backslash :: char where "backslash = CHR 0x5C"
definition backquote :: char where "backquote = CHR 0x60"

definition expands :: "char \<Rightarrow> bool" where
  "expands c \<longleftrightarrow> c = CHR ''$'' \<or> c = backquote"

definition opaque_char :: "char \<Rightarrow> bool" where
  "opaque_char c \<longleftrightarrow>
     expands c \<or> c \<in> set ''><(){}'' \<or> c = newline \<or> c = carriage_return"

text \<open>
  One iteration of the loop at the byte \<open>c\<close>, with the byte after it: return from the function,
  go on, or go on past the next byte (\<open>index++\<close>).
\<close>

datatype scan_action = Return scan_result | Next scan_state | Skip scan_state

definition end_command :: "(scan_state \<Rightarrow> scan_action) \<Rightarrow> scan_state \<Rightarrow> scan_action" where
  "end_command k st =
     (case flush_command st of Inl e \<Rightarrow> Return (ScanError e) | Inr st' \<Rightarrow> k st')"

definition scan_step :: "char \<Rightarrow> char option \<Rightarrow> scan_state \<Rightarrow> scan_action" where
  "scan_step c following st =
     (if sc_escaped st then Next (write_char c st\<lparr>sc_escaped := False\<rparr>)
      else if c = backslash \<and> sc_quote st \<noteq> Some squote then Next (st\<lparr>sc_escaped := True\<rparr>)
      else if sc_quote st \<noteq> None then
        (if sc_quote st = Some c then Next (st\<lparr>sc_quote := None\<rparr>)
         else if expands c then
           (if sc_quote st = Some dquote then Return ScanOpaque else Next (write_char c st))
         else Next (write_char c st))
      else if c = squote \<or> c = dquote then Next (st\<lparr>sc_quote := Some c\<rparr>)
      else if opaque_char c then Return ScanOpaque
      else if c = CHR '';'' \<or> c = CHR ''|'' \<or> c = CHR ''&'' then
        (if c = CHR ''&'' then
           (if following \<noteq> Some (CHR ''&'') then Return ScanOpaque else end_command Skip st)
         else if c = CHR ''|'' \<and> following = Some (CHR ''|'') then end_command Skip st
         else end_command Next st)
      else if c = CHR '' '' \<or> c = tab then Next (flush_token st)
      else Next (write_char c st))"

definition first_char :: "string \<Rightarrow> char option" where
  "first_char cs = (case cs of [] \<Rightarrow> None | c # _ \<Rightarrow> Some c)"

fun scan :: "string \<Rightarrow> scan_state \<Rightarrow> scan_result" where
  "scan [] st =
     (if sc_escaped st \<or> sc_quote st \<noteq> None then ScanError UnfinishedCommand
      else (case flush_command st of Inl e \<Rightarrow> ScanError e | Inr st' \<Rightarrow> ScanPlain (sc_commands st')))"
| "scan (c # cs) st =
     (case scan_step c (first_char cs) st of
        Return r \<Rightarrow> r
      | Next st' \<Rightarrow> scan cs st'
      | Skip st' \<Rightarrow> scan (tl cs) st')"

definition parse_plain_shell_commands ::
    "string \<Rightarrow> (policy_error, string list list \<times> bool) result" where
  "parse_plain_shell_commands command0 =
     (let command = trim_space command0 in
      if command = [] then Inl EmptyCommand
      else (case scan command scan_init of
              ScanOpaque \<Rightarrow> Inr ([fields_of command], False)
            | ScanError e \<Rightarrow> Inl e
            | ScanPlain cmds \<Rightarrow> Inr (cmds, True)))"

subsection \<open>Read-only commands and prefixes\<close>

definition has_safe_read_only_arguments :: "string list \<Rightarrow> bool" where
  "has_safe_read_only_arguments tokens \<longleftrightarrow>
     list_all (\<lambda>token.
       let trimmed = trim_cutset {squote, dquote} token in
       \<not> (is_abs trimmed \<or> trimmed = ''..'' \<or> prefix ''../'' trimmed \<or> contains ''/../'' trimmed)) tokens"

text \<open>The options before a git subcommand: \<open>None\<close> where one changes the repository.\<close>

fun skip_git_options :: "string list \<Rightarrow> string list option" where
  "skip_git_options [] = Some []"
| "skip_git_options (option # ts) =
     (if \<not> prefix ''-'' option then Some (option # ts)
      else if option \<in> {''--no-pager'', ''--literal-pathspecs'', ''--no-optional-locks''}
        then skip_git_options ts
      else if option \<in> {''-C'', ''--git-dir'', ''--work-tree''} then None
      else Some (option # ts))"

definition is_built_in_read_only_git :: "string list \<Rightarrow> bool" where
  "is_built_in_read_only_git tokens =
     (if length tokens < 2 then False
      else (case skip_git_options (tl tokens) of
              None \<Rightarrow> False
            | Some [] \<Rightarrow> False
            | Some (sub # arguments) \<Rightarrow>
                sub \<in> set read_only_git_subcommands \<and>
                list_all (\<lambda>a. \<not> (prefix ''--output'' a \<or> a = ''--ext-diff'' \<or> a = ''--textconv''
                                  \<or> prefix ''--open-files-in-pager'' a)) arguments \<and>
                has_safe_read_only_arguments arguments))"

text \<open>\<open>tokens[0]\<close> of an empty slice panics: \<open>None\<close>.\<close>

definition is_built_in_read_only :: "string list \<Rightarrow> bool option" where
  "is_built_in_read_only tokens =
     (case tokens of
        [] \<Rightarrow> None
      | t # ts \<Rightarrow> Some
          (let command = base_name t in
           if command = ''git'' then is_built_in_read_only_git tokens
           else command \<in> set read_only_commands \<and> has_safe_read_only_arguments ts))"

definition has_token_prefix :: "string list \<Rightarrow> string list \<Rightarrow> bool" where
  "has_token_prefix tokens rule \<longleftrightarrow>
     length rule \<le> length tokens \<and> take (length rule) tokens = rule"

definition derive_prefix_rule :: "string list \<Rightarrow> string list" where
  "derive_prefix_rule tokens =
     (if length tokens < 2 then []
      else if 3 \<le> length tokens \<and> base_name (tokens ! 0) \<in> {''npm'', ''pnpm'', ''yarn''}
           \<and> tokens ! 1 = ''run''
        then take 3 tokens
      else take 2 tokens)"

definition valid_requested_prefix :: "string list \<Rightarrow> string list \<Rightarrow> bool" where
  "valid_requested_prefix tokens rule \<longleftrightarrow> 2 \<le> length rule \<and> has_token_prefix tokens rule"

subsection \<open>The policy\<close>

definition sp :: string where "sp = '' ''"

definition outside_reason :: string where
  "outside_reason = ''command is outside the automatic read-only policy''"

definition read_only_label :: string where "read_only_label = ''built-in read-only: ''"
definition persistent_label :: string where "persistent_label = ''persistent prefix: ''"
definition session_label :: string where "session_label = ''session prefix: ''"

definition allowed_by :: "string \<Rightarrow> exec_policy_requirement" where
  "allowed_by rule =
     \<lparr>needs_approval = False, req_reason = [], proposed_rule = [], matched_rule = rule\<rparr>"

fun all_read_only :: "string list list \<Rightarrow> bool option" where
  "all_read_only [] = Some True"
| "all_read_only (ts # cmds) =
     (case is_built_in_read_only ts of
        None \<Rightarrow> None
      | Some False \<Rightarrow> Some False
      | Some True \<Rightarrow> all_read_only cmds)"

text \<open>The outer option is the panic of an index out of range.\<close>

definition evaluate :: "exec_policy \<Rightarrow> string \<Rightarrow> string list \<Rightarrow>
    (policy_error, exec_policy_requirement) result option" where
  "evaluate policy command requested =
     (if load_err policy then Some (Inl LoadPolicyError)
      else (case parse_plain_shell_commands command of
        Inl e \<Rightarrow> Some (Inl e)
      | Inr (commands, plain) \<Rightarrow>
        (case all_read_only commands of
           None \<Rightarrow> None
         | Some ro \<Rightarrow>
           if ro \<and> plain \<and> commands \<noteq> [] then
             Some (Inr (allowed_by (read_only_label @
               join_with '', '' (map (\<lambda>tokens. base_name (tokens ! 0)) commands))))
           else (case commands of
              [] \<Rightarrow> None
            | tokens # _ \<Rightarrow>
              let reusable = plain \<and> length commands = 1 in
              (case (if reusable then find (has_token_prefix tokens) (persistent_rules policy) else None) of
                 Some rule \<Rightarrow> Some (Inr (allowed_by (persistent_label @ join_with sp rule)))
               | None \<Rightarrow>
              (case (if reusable then find (has_token_prefix tokens) (session_rules policy) else None) of
                 Some rule \<Rightarrow> Some (Inr (allowed_by (session_label @ join_with sp rule)))
               | None \<Rightarrow>
                 if \<not> reusable then
                   Some (Inr \<lparr>needs_approval = True,
                     req_reason = outside_reason @ ''; compound shell commands cannot be cached'',
                     proposed_rule = [], matched_rule = []\<rparr>)
                 else
                   Some (Inr \<lparr>needs_approval = True, req_reason = outside_reason,
                     proposed_rule = (if valid_requested_prefix tokens requested then requested
                                      else derive_prefix_rule tokens),
                     matched_rule = []\<rparr>)))))))"

definition add_session_rule :: "string list \<Rightarrow> exec_policy \<Rightarrow> exec_policy" where
  "add_session_rule rule policy =
     (if rule = [] \<or> rule \<in> set (session_rules policy) then policy
      else policy\<lparr>session_rules := session_rules policy @ [rule]\<rparr>)"

subsection \<open>Persistence\<close>

text \<open>
  The stored document is \<open>{"rules": [[word, ...], ...]}\<close>; the codec of its text is a parameter:
  \<open>parse\<close> of \<open>json.Unmarshal\<close>, \<open>render\<close> of \<open>json.MarshalIndent\<close>.
\<close>

definition rules_json :: "string list list \<Rightarrow> json" where
  "rules_json rules = JObj [(''rules'', JArr (map (\<lambda>r. JArr (map JStr r)) rules))]"

definition dec_rule :: "json \<Rightarrow> string list option" where
  "dec_rule v = dec_list (\<lambda>x. dec_string x []) v []"

definition rules_of_json :: "json \<Rightarrow> string list list option" where
  "rules_of_json v = json_field (dec_list dec_rule) ''rules'' [] v"

definition new_exec_policy :: "(string \<Rightarrow> json option) \<Rightarrow> fs \<Rightarrow> string \<Rightarrow> exec_policy" where
  "new_exec_policy parse d workspace_root =
     (let path = join_path [workspace_root, ''tmp'', ''exec-policy.rules''];
          policy = \<lparr>session_rules = [], persistent_rules = [], rules_path = path, load_err = False\<rparr>
      in case read_file d (apath_of path) of
           Inl e \<Rightarrow> if e = NotExist then policy else policy\<lparr>load_err := True\<rparr>
         | Inr contents \<Rightarrow>
             (case Option.bind (parse contents) rules_of_json of
                None \<Rightarrow> policy\<lparr>load_err := True\<rparr>
              | Some stored \<Rightarrow>
                  policy\<lparr>persistent_rules := filter (\<lambda>r. 2 \<le> length r) stored\<rparr>))"

text \<open>An error leaves behind what was done before it, so the state is returned either way.\<close>

definition add_persistent_rule :: "(json \<Rightarrow> string) \<Rightarrow> string list \<Rightarrow> exec_policy \<times> fs \<Rightarrow>
    policy_error option \<times> exec_policy \<times> fs" where
  "add_persistent_rule render rule s =
     (let (policy, d) = s in
      if length rule < 2 then (Some RuleTooShort, policy, d)
      else if rule \<in> set (persistent_rules policy) then (None, policy, d)
      else (let rules = persistent_rules policy @ [rule];
                contents = render (rules_json rules);
                path = apath_of (rules_path policy);
                temporary = apath_of (rules_path policy @ ''.tmp'')
            in case mkdir_all (apath_of (dir_name (rules_path policy))) d of
                 Inl e \<Rightarrow> (Some (CreateDirectoryError e), policy, d)
               | Inr d1 \<Rightarrow>
                 (case write_file temporary (contents @ [newline]) d1 of
                    Inl e \<Rightarrow> (Some (WritePolicyError e), policy, d1)
                  | Inr d2 \<Rightarrow>
                    (case rename_file temporary path d2 of
                       Inl e \<Rightarrow> (Some (ReplacePolicyError e), policy, d2)
                     | Inr d3 \<Rightarrow> (None, policy\<lparr>persistent_rules := rules\<rparr>, d3)))))"

subsection \<open>The older single-command parser\<close>

text \<open>\<open>parseSimpleCommand\<close> ranges over runes; invalid bytes are written as U+FFFD.\<close>

fun simple_scan :: "rune list \<Rightarrow> scan_state \<Rightarrow> scan_result" where
  "simple_scan [] st =
     (if sc_escaped st \<or> sc_quote st \<noteq> None then ScanError UnfinishedCommand
      else (let st' = flush_token st in
            if sc_tokens st' = [] then ScanError EmptyCommand else ScanPlain [sc_tokens st']))"
| "simple_scan (r # rs) st =
     (let put = st\<lparr>sc_token := sc_token st @ encode_rune r\<rparr>;
          is = (\<lambda>c. r = byte_of c) in
      if sc_escaped st then simple_scan rs (put\<lparr>sc_escaped := False\<rparr>)
      else if is backslash \<and> sc_quote st \<noteq> Some squote then simple_scan rs (st\<lparr>sc_escaped := True\<rparr>)
      else (case sc_quote st of
         Some q \<Rightarrow> if is q then simple_scan rs (st\<lparr>sc_quote := None\<rparr>) else simple_scan rs put
       | None \<Rightarrow>
         if is squote then simple_scan rs (st\<lparr>sc_quote := Some squote\<rparr>)
         else if is dquote then simple_scan rs (st\<lparr>sc_quote := Some dquote\<rparr>)
         else if list_ex is ''$;|&><'' \<or> is backquote \<or> is newline \<or> is carriage_return
           then ScanOpaque
         else if is (CHR '' '') \<or> is tab then simple_scan rs (flush_token st)
         else simple_scan rs put))"

definition parse_simple_command :: "string \<Rightarrow> (policy_error, string list \<times> bool) result" where
  "parse_simple_command command0 =
     (let command = trim_space command0 in
      if command = [] then Inl EmptyCommand
      else (case simple_scan (runes command) scan_init of
              ScanOpaque \<Rightarrow> Inr (fields_of command, False)
            | ScanError e \<Rightarrow> Inl e
            | ScanPlain cmds \<Rightarrow> Inr (hd cmds, True)))"

subsection \<open>What the parser returns\<close>

definition words_ok :: "string list list \<Rightarrow> bool" where
  "words_ok cmds \<longleftrightarrow> (\<forall>ts \<in> set cmds. ts \<noteq> [] \<and> [] \<notin> set ts)"

definition scan_ok :: "scan_state \<Rightarrow> bool" where
  "scan_ok st \<longleftrightarrow> words_ok (sc_commands st) \<and> [] \<notin> set (sc_tokens st)"

lemma scan_ok_write [simp]: "scan_ok (write_char c st) \<longleftrightarrow> scan_ok st"
  by (simp add: scan_ok_def write_char_def)

lemma scan_ok_quote [simp]:
  "scan_ok (st\<lparr>sc_quote := q\<rparr>) \<longleftrightarrow> scan_ok st" "scan_ok (st\<lparr>sc_escaped := b\<rparr>) \<longleftrightarrow> scan_ok st"
  by (simp_all add: scan_ok_def)

lemma scan_ok_flush_token: "scan_ok st \<Longrightarrow> scan_ok (flush_token st)"
  by (auto simp: scan_ok_def flush_token_def)

lemma scan_ok_flush_command:
  "scan_ok st \<Longrightarrow> flush_command st = Inr st' \<Longrightarrow> scan_ok st' \<and> sc_commands st' \<noteq> []"
  using scan_ok_flush_token [of st]
  by (auto simp: scan_ok_def words_ok_def flush_command_def Let_def split: if_splits)

lemma scan_step_ok:
  assumes "scan_ok st"
  shows "case scan_step c f st of Return r \<Rightarrow> (\<forall>cmds. r \<noteq> ScanPlain cmds)
           | Next st' \<Rightarrow> scan_ok st' | Skip st' \<Rightarrow> scan_ok st'"
  using assms scan_ok_flush_token [OF assms] scan_ok_flush_command [OF assms]
  by (auto simp: scan_step_def end_command_def split: sum.splits)

lemma scan_plain_ok:
  "scan cs st = ScanPlain cmds \<Longrightarrow> scan_ok st \<Longrightarrow> cmds \<noteq> [] \<and> words_ok cmds"
proof (induction cs st rule: scan.induct)
  case (1 st)
  then show ?case
    using scan_ok_flush_command [of st] by (auto simp: scan_ok_def split: if_splits sum.splits)
next
  case (2 c cs st)
  then show ?case
    using scan_step_ok [OF "2.prems"(2), of c "first_char cs"]
    by (auto split: scan_action.splits)
qed

lemma scan_init_ok [simp]: "scan_ok scan_init"
  by (simp add: scan_ok_def scan_init_def words_ok_def)

lemma parse_plain_words:
  assumes "parse_plain_shell_commands c = Inr (cmds, plain)"
  shows "cmds \<noteq> []" "words_ok cmds" "\<not> plain \<Longrightarrow> length cmds = 1"
proof -
  have ne: "trim_space c \<noteq> []" using assms by (auto simp: parse_plain_shell_commands_def Let_def)
  have "cmds \<noteq> [] \<and> words_ok cmds \<and> (plain \<or> length cmds = 1)"
    using assms ne fields_of_trim_space [OF ne] scan_plain_ok [of "trim_space c" scan_init cmds]
    by (auto simp: parse_plain_shell_commands_def Let_def words_ok_def split: scan_result.splits)
  then show "cmds \<noteq> []" "words_ok cmds" "\<not> plain \<Longrightarrow> length cmds = 1" by auto
qed

subsection \<open>Quoting\<close>

text \<open>Words in single quotes, commands joined by \<open>&&\<close>.\<close>

definition quote_token :: "string \<Rightarrow> string" where
  "quote_token t = squote # t @ [squote]"

definition quote_command :: "string list \<Rightarrow> string" where
  "quote_command ts = join_with sp (map quote_token ts)"

definition quote_commands :: "string list list \<Rightarrow> string" where
  "quote_commands cmds = join_with '' && '' (map quote_command cmds)"

definition quotable :: "string \<Rightarrow> bool" where
  "quotable t \<longleftrightarrow> t \<noteq> [] \<and> is_ascii t \<and> squote \<notin> set t"

definition idle :: "string list list \<Rightarrow> string list \<Rightarrow> string \<Rightarrow> scan_state" where
  "idle cmds toks tok =
     \<lparr>sc_commands = cmds, sc_tokens = toks, sc_token = tok, sc_quote = None, sc_escaped = False\<rparr>"

lemma chars_differ [simp]:
  "squote \<noteq> backslash" "backslash \<noteq> squote" "squote \<noteq> dquote" "dquote \<noteq> squote"
  "CHR '' '' \<noteq> squote" "CHR '' '' \<noteq> dquote" "CHR '' '' \<noteq> backslash" "\<not> opaque_char (CHR '' '')"
  "CHR ''&'' \<noteq> squote" "CHR ''&'' \<noteq> dquote" "CHR ''&'' \<noteq> backslash" "\<not> opaque_char (CHR ''&'')"
  by (simp_all add: squote_def dquote_def backslash_def opaque_char_def expands_def backquote_def
      newline_def carriage_return_def)

lemma scan_in_quotes:
  "is_ascii t \<Longrightarrow> squote \<notin> set t \<Longrightarrow>
    scan (t @ squote # rest) (idle cmds toks tok\<lparr>sc_quote := Some squote\<rparr>) =
    scan rest (idle cmds toks (tok @ t))"
proof (induction t arbitrary: tok)
  case Nil
  then show ?case by (simp add: scan_step_def idle_def)
next
  case (Cons c t)
  then have "scan_step c f (idle cmds toks tok\<lparr>sc_quote := Some squote\<rparr>) =
      Next (idle cmds toks (tok @ [c])\<lparr>sc_quote := Some squote\<rparr>)" for f
    by (auto simp: scan_step_def idle_def write_char_def encode_rune_ascii)
  with Cons show ?case by simp
qed

lemma scan_quoted:
  "quotable t \<Longrightarrow> scan (quote_token t @ rest) (idle cmds toks tok) = scan rest (idle cmds toks (tok @ t))"
proof -
  assume t: "quotable t"
  have "scan_step squote f (idle cmds toks tok) = Next (idle cmds toks tok\<lparr>sc_quote := Some squote\<rparr>)" for f
    by (simp add: scan_step_def idle_def)
  with t show ?thesis by (simp add: quote_token_def scan_in_quotes quotable_def)
qed

lemma scan_blank:
  "scan (CHR '' '' # rest) (idle cmds toks tok) =
   scan rest (idle cmds (if tok = [] then toks else toks @ [tok]) [])"
  by (simp add: scan_step_def idle_def flush_token_def)

lemma scan_and:
  "toks \<noteq> [] \<Longrightarrow> scan (CHR ''&'' # CHR ''&'' # rest) (idle cmds toks []) =
   scan rest (idle (cmds @ [toks]) [] [])"
  by (simp add: scan_step_def idle_def flush_token_def flush_command_def end_command_def first_char_def)

declare scan.simps(2) [simp del]

lemma scan_words:
  "ts \<noteq> [] \<Longrightarrow> \<forall>t \<in> set ts. quotable t \<Longrightarrow>
    scan (quote_command ts @ rest) (idle cmds toks []) =
    scan rest (idle cmds (toks @ butlast ts) (last ts))"
proof (induction ts arbitrary: toks rule: induct_list012)
  case (3 x y zs)
  have "quote_command (x # y # zs) @ rest = quote_token x @ CHR '' '' # quote_command (y # zs) @ rest"
    by (simp add: quote_command_def sp_def)
  with 3 show ?case by (simp add: scan_quoted scan_blank quotable_def)
qed (simp_all add: quote_command_def scan_quoted)

lemma scan_commands:
  "cs \<noteq> [] \<Longrightarrow> \<forall>ts \<in> set cs. ts \<noteq> [] \<and> (\<forall>t \<in> set ts. quotable t) \<Longrightarrow>
    scan (quote_commands cs) (idle cmds [] []) = ScanPlain (cmds @ cs)"
proof (induction cs arbitrary: cmds rule: induct_list012)
  case (2 ts)
  then have "last ts \<noteq> []" by (auto simp: quotable_def)
  with 2 show ?case
    using scan_words [of ts "[]" cmds "[]"]
    by (simp add: quote_commands_def) (simp add: idle_def flush_command_def flush_token_def)
next
  case (3 ts us cs)
  have parts: "quote_commands (ts # us # cs) = quote_command ts @
      CHR '' '' # CHR ''&'' # CHR ''&'' # CHR '' '' # quote_commands (us # cs)"
    by (simp add: quote_commands_def)
  have "last ts \<noteq> []" using 3 by (auto simp: quotable_def)
  with 3 show ?case
    unfolding parts by (simp add: scan_words scan_blank scan_and)
qed simp

lemma parse_quoted:
  assumes "cs \<noteq> []" and "\<forall>ts \<in> set cs. ts \<noteq> [] \<and> (\<forall>t \<in> set ts. quotable t)"
  shows "parse_plain_shell_commands (quote_commands cs) = Inr (cs, True)"
proof -
  have one: "ts \<noteq> [] \<Longrightarrow> \<exists>r. quote_command ts = squote # r @ [squote]" for ts
    by (induction ts rule: induct_list012) (auto simp: quote_command_def quote_token_def)
  have "\<exists>r. quote_commands cs = squote # r @ [squote]"
    using assms
  proof (induction cs rule: induct_list012)
    case (3 ts us cs)
    then obtain r1 r2 where "quote_command ts = squote # r1 @ [squote]"
      "quote_commands (us # cs) = squote # r2 @ [squote]"
      using one [of ts] by auto
    then show ?case by (simp add: quote_commands_def)
  qed (simp_all add: quote_commands_def one)
  then have "solid (quote_commands cs)"
    by (auto simp: solid_def squote_def byte_of_def is_space_def)
  then have "trim_space (quote_commands cs) = quote_commands cs" "quote_commands cs \<noteq> []"
    by (simp_all add: trim_space_solid solid_def)
  then show ?thesis
    using scan_commands [OF assms, of "[]"]
    by (simp add: parse_plain_shell_commands_def scan_init_def idle_def)
qed

text \<open>
  Quoting and parsing are inverse: a sequence of commands whose words are
  printable in single quotes, joined by \<open>&&\<close>, parses as plain and gives back exactly
  these words.
\<close>

theorem parse_quoted_commands:
  assumes "cs \<noteq> []" and "\<forall>ts \<in> set cs. ts \<noteq> [] \<and> (\<forall>t \<in> set ts. quotable t)"
  shows "parse_plain_shell_commands (quote_commands cs) = Inr (cs, True)"
  using assms by (rule parse_quoted)

theorem parse_quoted_commands_witness:
  "parse_plain_shell_commands (quote_commands [[''git'', ''a b;c''], [''ls'']]) =
     Inr ([[''git'', ''a b;c''], [''ls'']], True)"
  by (rule parse_quoted_commands) (simp_all add: quotable_def byte_of_def squote_def)

subsection \<open>What a plain command cannot contain\<close>

text \<open>
  A reference reading of quoting, independent of the scanner: the bytes of a command that are neither
  quote marks nor escaped, each with the quotes it stands in.
\<close>

datatype quoting = Bare | Single | Double

fun exposed :: "quoting \<Rightarrow> string \<Rightarrow> (quoting \<times> char) list" where
  "exposed q [] = []"
| "exposed Single (c # cs) =
     (if c = squote then exposed Bare cs else (Single, c) # exposed Single cs)"
| "exposed Double (c # cs) =
     (if c = backslash then exposed Double (tl cs)
      else if c = dquote then exposed Bare cs else (Double, c) # exposed Double cs)"
| "exposed Bare (c # cs) =
     (if c = backslash then exposed Bare (tl cs)
      else if c = squote then exposed Single cs
      else if c = dquote then exposed Double cs else (Bare, c) # exposed Bare cs)"

definition quoting_of :: "scan_state \<Rightarrow> quoting" where
  "quoting_of st =
     (case sc_quote st of None \<Rightarrow> Bare | Some q \<Rightarrow> if q = squote then Single else Double)"

definition remaining :: "scan_state \<Rightarrow> string \<Rightarrow> (quoting \<times> char) list" where
  "remaining st cs = exposed (quoting_of st) (if sc_escaped st then tl cs else cs)"

definition harmless :: "quoting \<times> char \<Rightarrow> bool" where
  "harmless e = (case e of (Bare, c) \<Rightarrow> \<not> opaque_char c | (Double, c) \<Rightarrow> \<not> expands c
                 | (Single, c) \<Rightarrow> True)"

definition quote_ok :: "scan_state \<Rightarrow> bool" where
  "quote_ok st \<longleftrightarrow> sc_quote st \<in> {None, Some squote, Some dquote}"

lemma write_char_ascii:
  "byte_of c < 128 \<Longrightarrow> write_char c st = st\<lparr>sc_token := sc_token st @ [c]\<rparr>"
  by (simp add: write_char_def encode_rune_ascii)

lemmas scan_eval = scan.simps(2) scan_init_def scan_step_def first_char_def write_char_ascii
  flush_token_def flush_command_def end_command_def byte_of_def squote_def dquote_def backslash_def
  backquote_def newline_def carriage_return_def tab_def opaque_char_def expands_def

lemma flush_frame [frame_simps]:
  "sc_quote (flush_token st) = sc_quote st" "sc_escaped (flush_token st) = sc_escaped st"
  "flush_command st = Inr st' \<Longrightarrow> sc_quote st' = sc_quote st \<and> sc_escaped st' = sc_escaped st"
  "sc_quote (write_char c st) = sc_quote st" "sc_escaped (write_char c st) = sc_escaped st"
  by (auto simp: flush_token_def flush_command_def write_char_def Let_def split: if_splits)

lemma operators_differ [simp]:
  "CHR '';'' \<noteq> squote" "CHR '';'' \<noteq> dquote" "CHR '';'' \<noteq> backslash" "\<not> opaque_char (CHR '';'')"
  "CHR ''|'' \<noteq> squote" "CHR ''|'' \<noteq> dquote" "CHR ''|'' \<noteq> backslash" "\<not> opaque_char (CHR ''|'')"
  "dquote \<noteq> backslash" "backslash \<noteq> dquote"
  by (simp_all add: squote_def dquote_def backslash_def opaque_char_def expands_def backquote_def
      newline_def carriage_return_def)

lemma scan_step_not_plain: "scan_step c f st \<noteq> Return (ScanPlain cmds)"
  by (simp add: scan_step_def end_command_def split: sum.splits)

lemma quote_cases:
  assumes "quote_ok st"
  obtains (escaped) "sc_escaped st"
    | (bare) "\<not> sc_escaped st" "sc_quote st = None"
    | (single) "\<not> sc_escaped st" "sc_quote st = Some squote"
    | (double) "\<not> sc_escaped st" "sc_quote st = Some dquote"
  using assms by (auto simp: quote_ok_def)

lemma end_command_Next [simp]:
  "end_command Next st = Next st' \<longleftrightarrow> flush_command st = Inr st'" "end_command Skip st \<noteq> Next st'"
  "end_command Skip st = Skip st' \<longleftrightarrow> flush_command st = Inr st'" "end_command Next st \<noteq> Skip st'"
  by (auto simp: end_command_def split: sum.splits)

lemma scan_step_quoting:
  assumes "quote_ok st" "scan_step c (first_char cs) st = Next st'"
    "list_all harmless (remaining st' cs)"
  shows "list_all harmless (remaining st (c # cs))"
  using assms(1)
proof (cases rule: quote_cases)
  case escaped
  with assms show ?thesis
    by (auto simp: scan_step_def quote_ok_def remaining_def quoting_of_def frame_simps)
next
  case bare
  with assms show ?thesis
    by (auto simp: scan_step_def quote_ok_def remaining_def quoting_of_def frame_simps
        harmless_def split: if_splits dest: flush_frame(3))
next
  case single
  with assms show ?thesis
    by (auto simp: scan_step_def quote_ok_def remaining_def quoting_of_def frame_simps
        harmless_def split: if_splits)
next
  case double
  with assms show ?thesis
    by (auto simp: scan_step_def quote_ok_def remaining_def quoting_of_def frame_simps
        harmless_def split: if_splits)
qed

lemma scan_skip_quoting:
  assumes "quote_ok st" "scan_step c (first_char cs) st = Skip st'"
    "list_all harmless (remaining st' (tl cs))"
  shows "list_all harmless (remaining st (c # cs))"
proof -
  have st: "\<not> sc_escaped st" "sc_quote st = None" "flush_command st = Inr st'"
    "first_char cs = Some c" "c = CHR ''&'' \<or> c = CHR ''|''"
    using assms(2) by (auto simp: scan_step_def split: if_splits)
  then obtain cs' where "cs = c # cs'" by (cases cs) (auto simp: first_char_def)
  with st assms show ?thesis
    by (auto simp: quote_ok_def remaining_def quoting_of_def harmless_def dest: flush_frame(3))
qed

lemma scan_step_quote_ok:
  assumes "quote_ok st" "scan_step c f st = Next st' \<or> scan_step c f st = Skip st'"
  shows "quote_ok st'"
  using assms by (auto simp: scan_step_def quote_ok_def frame_simps split: if_splits dest: flush_frame(3))

lemma scan_plain_harmless:
  "scan cs st = ScanPlain cmds \<Longrightarrow> quote_ok st \<Longrightarrow> list_all harmless (remaining st cs)"
proof (induction cs st rule: scan.induct)
  case (1 st)
  then show ?case by (simp add: remaining_def split: if_splits)
next
  case (2 c cs st)
  show ?case
  proof (cases "scan_step c (first_char cs) st")
    case (Return r)
    with 2 show ?thesis using scan_step_not_plain by (metis scan.simps(2) scan_action.simps(10))
  next
    case (Next st')
    with 2 scan_step_quote_ok [of st c "first_char cs" st'] show ?thesis
      by (intro scan_step_quoting) (auto simp: scan.simps(2))
  next
    case (Skip st')
    with 2 scan_step_quote_ok [of st c "first_char cs" st'] show ?thesis
      by (intro scan_skip_quoting) (auto simp: scan.simps(2))
  qed
qed



subsection \<open>The two lists of approved prefixes\<close>

locale rule_cache =
  fixes rules :: "'p \<Rightarrow> string list list"
    and admit :: "string list \<Rightarrow> 'p \<Rightarrow> 'p option"
  assumes admit_rules: "admit r p = Some p' \<Longrightarrow> set (rules p') = insert r (set (rules p))"
    and admit_distinct: "admit r p = Some p' \<Longrightarrow> distinct (rules p) \<Longrightarrow> distinct (rules p')"
    and admit_length: "admit r p = Some p' \<Longrightarrow> r \<noteq> []"
begin

lemma match_after_admit:
  "admit r p = Some p' \<Longrightarrow> has_token_prefix ts r \<Longrightarrow> find (has_token_prefix ts) (rules p') \<noteq> None"
  by (auto simp: find_None_iff admit_rules)

lemma match_monotone:
  "admit r p = Some p' \<Longrightarrow> find (has_token_prefix ts) (rules p) \<noteq> None \<Longrightarrow>
    find (has_token_prefix ts) (rules p') \<noteq> None"
  by (auto simp: find_None_iff admit_rules)

lemma match_only_admitted:
  "admit r p = Some p' \<Longrightarrow> find (has_token_prefix ts) (rules p) = None \<Longrightarrow>
    find (has_token_prefix ts) (rules p') = (if has_token_prefix ts r then Some r else None)"
proof -
  assume a: "admit r p = Some p'" and n: "find (has_token_prefix ts) (rules p) = None"
  have "find (has_token_prefix ts) (rules p') = None \<longleftrightarrow> \<not> has_token_prefix ts r"
    using n by (auto simp: find_None_iff admit_rules [OF a])
  moreover have "x = r" if "find (has_token_prefix ts) (rules p') = Some x" for x
  proof -
    from that have "x \<in> set (rules p')" "has_token_prefix ts x"
      by (auto simp: find_Some_iff)
    with n show ?thesis by (auto simp: find_None_iff admit_rules [OF a])
  qed
  ultimately show ?thesis by (cases "find (has_token_prefix ts) (rules p')") auto
qed

end

definition admit_session :: "string list \<Rightarrow> exec_policy \<Rightarrow> exec_policy option" where
  "admit_session r p = (if r = [] then None else Some (add_session_rule r p))"

definition admit_persistent ::
    "(json \<Rightarrow> string) \<Rightarrow> string list \<Rightarrow> exec_policy \<times> fs \<Rightarrow> (exec_policy \<times> fs) option" where
  "admit_persistent render r s =
     (case add_persistent_rule render r s of (None, s') \<Rightarrow> Some s' | (Some _, _) \<Rightarrow> None)"

interpretation session_cache: rule_cache session_rules admit_session
  by unfold_locales (auto simp: admit_session_def add_session_rule_def split: if_splits)

lemma add_persistent_rule_ok:
  assumes "add_persistent_rule render r (p, d) = (None, p', d')"
  shows "2 \<le> length r" "load_err p' = load_err p" "session_rules p' = session_rules p"
    "persistent_rules p' =
       (if r \<in> set (persistent_rules p) then persistent_rules p else persistent_rules p @ [r])"
  using assms
  by (auto simp: add_persistent_rule_def Let_def split: if_splits sum.splits)

interpretation persistent_cache: rule_cache "\<lambda>s. persistent_rules (fst s)" "admit_persistent render"
  for render
proof
  fix r p p'
  assume a: "admit_persistent render r p = Some p'"
  obtain q d where p: "p = (q, d)" by fastforce
  obtain q' d' where p': "p' = (q', d')" by fastforce
  from a have "add_persistent_rule render r (q, d) = (None, q', d')"
    by (auto simp: admit_persistent_def p p' split: prod.splits option.splits)
  note ok = add_persistent_rule_ok [OF this]
  show "set (persistent_rules (fst p')) = insert r (set (persistent_rules (fst p)))"
    using ok(4) by (auto simp: p p')
  show "distinct (persistent_rules (fst p)) \<Longrightarrow> distinct (persistent_rules (fst p'))"
    using ok(4) by (auto simp: p p')
  show "r \<noteq> []" using ok(1) by auto
qed

subsection \<open>The decision\<close>

definition read_only_all :: "string list list \<Rightarrow> bool" where
  "read_only_all cmds \<longleftrightarrow> (\<forall>ts \<in> set cmds. is_built_in_read_only ts = Some True)"

definition matched :: "exec_policy \<Rightarrow> string list \<Rightarrow> bool" where
  "matched p ts \<longleftrightarrow>
     (\<exists>rule \<in> set (persistent_rules p) \<union> set (session_rules p). has_token_prefix ts rule)"

lemma all_read_only_ok: "words_ok cmds \<Longrightarrow> all_read_only cmds = Some (read_only_all cmds)"
proof (induction cmds)
  case (Cons ts cmds)
  then obtain b where "is_built_in_read_only ts = Some b"
    by (cases ts) (auto simp: words_ok_def is_built_in_read_only_def)
  with Cons show ?case by (cases b) (auto simp: words_ok_def read_only_all_def)
qed (simp add: read_only_all_def)

lemma matched_None:
  "\<not> matched p ts \<longleftrightarrow> find (has_token_prefix ts) (persistent_rules p) = None \<and>
     find (has_token_prefix ts) (session_rules p) = None"
  by (auto simp: matched_def find_None_iff)

lemma evaluate_single:
  assumes "\<not> load_err p" "parse_plain_shell_commands c = Inr ([ts], True)"
    "all_read_only [ts] = Some False"
  shows "evaluate p c req = Some (Inr
    (case find (has_token_prefix ts) (persistent_rules p) of
       Some rule \<Rightarrow> allowed_by (persistent_label @ join_with sp rule)
     | None \<Rightarrow>
    (case find (has_token_prefix ts) (session_rules p) of
       Some rule \<Rightarrow> allowed_by (session_label @ join_with sp rule)
     | None \<Rightarrow> \<lparr>needs_approval = True, req_reason = outside_reason,
           proposed_rule = (if valid_requested_prefix ts req then req else derive_prefix_rule ts),
           matched_rule = []\<rparr>)))"
  using assms
  by (simp add: evaluate_def Let_def del: all_read_only.simps split: option.splits)

lemma evaluate_cases:
  assumes "\<not> load_err p" "parse_plain_shell_commands c = Inr (cmds, plain)"
  obtains (read_only) r where "evaluate p c req = Some (Inr (allowed_by r))" "plain" "read_only_all cmds"
    | (matching) r ts where "evaluate p c req = Some (Inr (allowed_by r))" "plain" "cmds = [ts]" "matched p ts"
    | (single) ts where "plain" "cmds = [ts]" "\<not> read_only_all cmds" "\<not> matched p ts"
        "evaluate p c req = Some (Inr \<lparr>needs_approval = True, req_reason = outside_reason,
           proposed_rule = (if valid_requested_prefix ts req then req else derive_prefix_rule ts),
           matched_rule = []\<rparr>)"
    | (compound) reason where "\<not> (plain \<and> (read_only_all cmds \<or> length cmds = 1))"
        "evaluate p c req = Some (Inr \<lparr>needs_approval = True, req_reason = reason,
           proposed_rule = [], matched_rule = []\<rparr>)"
proof -
  note words = parse_plain_words [OF assms(2)]
  then obtain ts rest where cmds: "cmds = ts # rest" by (cases cmds) auto
  note ro = all_read_only_ok [OF words(2)]
  show ?thesis
  proof (cases "plain \<and> read_only_all cmds")
    case True
    with words(1) show ?thesis
      by (intro read_only) (simp_all add: evaluate_def assms ro)
  next
    case not_ro: False
    show ?thesis
    proof (cases "plain \<and> rest = []")
      case True
      with cmds ro not_ro have one: "cmds = [ts]" and ro1: "all_read_only [ts] = Some False" by auto
      from True one have plain and parsed: "parse_plain_shell_commands c = Inr ([ts], True)"
        using assms(2) by simp_all
      note eq = evaluate_single [OF assms(1) parsed ro1, of req]
      show ?thesis
      proof (cases "matched p ts")
        case m: True
        obtain r where "evaluate p c req = Some (Inr (allowed_by r))"
        proof (cases "find (has_token_prefix ts) (persistent_rules p)")
          case None
          with m obtain rule where "find (has_token_prefix ts) (session_rules p) = Some rule"
            using matched_None [of p ts] by auto
          with None eq that show ?thesis by simp
        qed (use eq that in simp)
        from matching [OF this \<open>plain\<close> one m] show ?thesis .
      next
        case m: False
        with eq have "evaluate p c req = Some (Inr \<lparr>needs_approval = True, req_reason = outside_reason,
           proposed_rule = (if valid_requested_prefix ts req then req else derive_prefix_rule ts),
           matched_rule = []\<rparr>)"
          unfolding matched_None by simp
        with True not_ro one m show ?thesis by (intro single) auto
      qed
    next
      case False
      with not_ro cmds show ?thesis
        by (intro compound)
           (auto simp: evaluate_def assms ro [unfolded cmds] Let_def simp del: all_read_only.simps)
    qed
  qed
qed

text \<open>
  Property C29. The decision: once the command parses and the stored rules were read, \<open>Evaluate\<close>
  answers (it never indexes an empty slice), and it lets the command run without approval exactly when the command is
  plain and either every command in it is built-in read-only, or it is a single command that
  a persistent or session rule is a prefix of.
\<close>

theorem evaluate_allows_iff:
  assumes "\<not> load_err p" and "parse_plain_shell_commands c = Inr (cmds, plain)"
  shows "\<exists>r. evaluate p c req = Some (Inr r) \<and>
    (needs_approval r \<longleftrightarrow>
      \<not> (plain \<and> (read_only_all cmds \<or> (\<exists>ts. cmds = [ts] \<and> matched p ts))))"
  using assms by (cases rule: evaluate_cases [where req = req]) (auto simp: allowed_by_def)

theorem evaluate_allows_iff_witness:
  "\<exists>r. evaluate \<lparr>session_rules = [[''go'', ''test'']], persistent_rules = [], rules_path = ''/w/tmp/exec-policy.rules'',
          load_err = False\<rparr> (quote_commands [[''go'', ''test'', ''./...'']]) [] = Some (Inr r) \<and> \<not> needs_approval r"
  using evaluate_allows_iff [of "\<lparr>session_rules = [[''go'', ''test'']], persistent_rules = [],
      rules_path = ''/w/tmp/exec-policy.rules'', load_err = False\<rparr>" _
      "[[''go'', ''test'', ''./...'']]" True "[]", OF _ parse_quoted]
  by (simp add: quotable_def byte_of_def squote_def matched_def has_token_prefix_def)

text \<open>
  Approving once is enough: when \<open>Evaluate\<close> asks for approval and proposes a prefix,
  the prefix has at least two words and is a prefix of the command, and after \<open>AddSessionRule\<close> of it the same
  command runs without asking.
\<close>

theorem approved_prefix_is_cached:
  assumes "evaluate p c req = Some (Inr r)" and "proposed_rule r \<noteq> []"
  shows "2 \<le> length (proposed_rule r) \<and> needs_approval r \<and>
    (\<exists>r'. evaluate (add_session_rule (proposed_rule r) p) c req' = Some (Inr r') \<and> \<not> needs_approval r')"
proof -
  from assms(1) have load: "\<not> load_err p" by (auto simp: evaluate_def)
  with assms(1) obtain cmds plain where parsed: "parse_plain_shell_commands c = Inr (cmds, plain)"
    by (auto simp: evaluate_def split: sum.splits)
  from load parsed show ?thesis
  proof (cases rule: evaluate_cases [where req = req])
    case (single ts)
    with assms have r: "needs_approval r"
      and pr: "proposed_rule r = (if valid_requested_prefix ts req then req else derive_prefix_rule ts)"
      by auto
    from pr assms(2) have rule: "2 \<le> length (proposed_rule r)" "has_token_prefix ts (proposed_rule r)"
      by (auto simp: valid_requested_prefix_def derive_prefix_rule_def has_token_prefix_def
          split: if_splits)
    let ?p = "add_session_rule (proposed_rule r) p"
    have "admit_session (proposed_rule r) p = Some ?p" using assms(2) by (simp add: admit_session_def)
    from session_cache.match_after_admit [OF this rule(2)] have "matched ?p ts"
      using matched_None [of ?p ts] by argo
    moreover have load': "\<not> load_err ?p" using load by (simp add: add_session_rule_def)
    ultimately have "\<exists>r'. evaluate ?p c req' = Some (Inr r') \<and> \<not> needs_approval r'"
      using single(1,2)
      by (cases rule: evaluate_cases [OF load' parsed, where req = req']) (auto simp: allowed_by_def)
    with r rule show ?thesis by blast
  qed (use assms in \<open>auto simp: allowed_by_def\<close>)
qed

theorem approved_prefix_is_cached_witness:
  "\<exists>r'. evaluate (add_session_rule [''npm'', ''run'', ''lint''] (new_exec_policy (\<lambda>_. None) [] ''/w''))
      (quote_commands [[''npm'', ''run'', ''lint'', ''x'']]) [] = Some (Inr r') \<and> \<not> needs_approval r'"
proof -
  let ?p = "new_exec_policy (\<lambda>_. None) [] ''/w''" and ?ts = "[''npm'', ''run'', ''lint'', ''x'']"
  have "\<forall>ts \<in> set [?ts]. ts \<noteq> [] \<and> (\<forall>t \<in> set ts. quotable t)"
    by (simp add: quotable_def byte_of_def squote_def)
  then have parsed: "parse_plain_shell_commands (quote_commands [?ts]) = Inr ([?ts], True)"
    by (intro parse_quoted) simp_all
  have "ancestors (apath_of (join_path [''/w'', ''tmp'', ''exec-policy.rules''])) =
      [APath [], APath [''w''], APath [''w'', ''tmp'']]" by code_simp
  then have p: "\<not> load_err ?p" "persistent_rules ?p = []" "session_rules ?p = []"
    by (simp_all add: new_exec_policy_def read_file_def blocked_def Let_def)
  have "all_read_only [?ts] = Some False" by code_simp
  note eq = evaluate_single [OF p(1) parsed this, of "[]"]
  have "derive_prefix_rule ?ts = [''npm'', ''run'', ''lint'']" by code_simp
  with eq show ?thesis
    using approved_prefix_is_cached [of ?p "quote_commands [?ts]" "[]" _ "[]"]
    by (simp add: p valid_requested_prefix_def)
qed

subsection \<open>Rules on disk\<close>

text \<open>A policy agrees with the disk when starting a new Session there would load the same rules.\<close>

definition policy_in_sync :: "(string \<Rightarrow> json option) \<Rightarrow> string \<Rightarrow> exec_policy \<Rightarrow> fs \<Rightarrow> bool" where
  "policy_in_sync parse root p d \<longleftrightarrow> new_exec_policy parse d root = p\<lparr>session_rules := []\<rparr>"

lemma rules_json_decode: "rules_of_json (rules_json rs) = Some rs"
proof -
  have "those (map (\<lambda>x. dec_string x []) (map JStr ws)) = Some ws" for ws
    by (induction ws) simp_all
  then have rule: "dec_rule (JArr (map JStr ws)) = Some ws" for ws
    by (simp add: dec_rule_def)
  have "those (map dec_rule (map (\<lambda>r. JArr (map JStr r)) rs)) = Some rs"
    by (induction rs) (simp_all add: rule)
  then show ?thesis by (simp add: rules_of_json_def rules_json_def json_field_def)
qed

lemma in_sync_lengths: "policy_in_sync parse root p d \<Longrightarrow> \<forall>r \<in> set (persistent_rules p). 2 \<le> length r"
proof -
  assume "policy_in_sync parse root p d"
  then have "persistent_rules p = persistent_rules (new_exec_policy parse d root)"
    by (simp add: policy_in_sync_def)
  then show ?thesis
    by (auto simp: new_exec_policy_def Let_def split: sum.splits option.splits if_splits)
qed

text \<open>
  Amendments survive the Session: while the policy agrees with the disk, a
  successful \<open>AddPersistentRule\<close> writes a file from which a new Session's policy loads exactly the rules of the
  current one, the added rule included.
\<close>

theorem persistent_rule_survives:
  assumes "policy_in_sync parse root p d" and "\<not> load_err p"
    and "add_persistent_rule render r (p, d) = (None, p', d')"
    and "parse (render (rules_json (persistent_rules p')) @ [newline]) =
      Some (rules_json (persistent_rules p'))"
  shows "policy_in_sync parse root p' d' \<and> r \<in> set (persistent_rules p')"
proof (cases "r \<in> set (persistent_rules p)")
  case True
  with assms show ?thesis by (auto simp: add_persistent_rule_def split: if_splits)
next
  case False
  let ?rules = "persistent_rules p @ [r]" and ?path = "apath_of (rules_path p)"
  note ok = add_persistent_rule_ok [OF assms(3)]
  from assms(3) False ok(1) obtain d1 d2 where
      w: "write_file (apath_of (rules_path p @ ''.tmp'')) (render (rules_json ?rules) @ [newline]) d1 = Inr d2"
    and rn: "rename_file (apath_of (rules_path p @ ''.tmp'')) ?path d2 = Inr d'"
    and p': "p' = p\<lparr>persistent_rules := ?rules\<rparr>"
    by (auto simp: add_persistent_rule_def Let_def split: sum.splits)
  have stored: "read_file d' ?path = Inr (render (rules_json ?rules) @ [newline])"
    by (rule read_after_rename [OF rn read_after_write [OF w]])
  have path: "rules_path p = join_path [root, ''tmp'', ''exec-policy.rules'']"
  proof -
    have "rules_path p = rules_path (new_exec_policy parse d root)"
      using assms(1) by (simp add: policy_in_sync_def)
    then show ?thesis
      by (auto simp: new_exec_policy_def Let_def split: sum.splits option.splits)
  qed
  have keep: "filter (\<lambda>r. 2 \<le> length r) ?rules = ?rules"
    using in_sync_lengths [OF assms(1)] ok(1) by (simp add: filter_id_conv)
  have "new_exec_policy parse d' root = p'\<lparr>session_rules := []\<rparr>"
    using stored assms(2,4) keep
    by (simp add: new_exec_policy_def Let_def path [symmetric] p' rules_json_decode
        del: filter_append)
  then show ?thesis by (simp add: policy_in_sync_def p')
qed

definition sample_disk :: fs where
  "sample_disk = [(APath [], Dir), (APath [''w''], Dir)]"

definition sample_rule :: "string list" where
  "sample_rule = [''go'', ''test'']"

definition sample_parse :: "string \<Rightarrow> json option" where
  "sample_parse s = (if s = ''rules'' @ [newline] then Some (rules_json [sample_rule]) else None)"

theorem persistent_rule_survives_witness:
  "\<exists>p' d'. add_persistent_rule (\<lambda>_. ''rules'') sample_rule
        (new_exec_policy sample_parse sample_disk ''/w'', sample_disk) = (None, p', d') \<and>
      policy_in_sync sample_parse ''/w'' p' d' \<and> sample_rule \<in> set (persistent_rules p')"
proof -
  let ?p = "new_exec_policy sample_parse sample_disk ''/w''"
  have p: "?p = \<lparr>session_rules = [], persistent_rules = [],
      rules_path = ''/w/tmp/exec-policy.rules'', load_err = False\<rparr>" by code_simp
  have "case add_persistent_rule (\<lambda>_. ''rules'') sample_rule (?p, sample_disk) of
      (e, q, _) \<Rightarrow> e = None \<and> persistent_rules q = [sample_rule]" by code_simp
  then obtain p' d' where add: "add_persistent_rule (\<lambda>_. ''rules'') sample_rule (?p, sample_disk) = (None, p', d')"
    and rules: "persistent_rules p' = [sample_rule]" by (auto split: prod.splits)
  have "policy_in_sync sample_parse ''/w'' ?p sample_disk" "\<not> load_err ?p"
    by (simp_all add: policy_in_sync_def) (simp_all add: p)
  from persistent_rule_survives [OF this add] add show ?thesis
    by (simp add: rules sample_parse_def)
qed

subsection \<open>Where the automatic policy is wider than its intent\<close>

text \<open>
  The lexical tests on read-only commands let through arguments that they mean to
  stop: whatever the rules, \<open>ls ./..\<close> runs without approval although the path leaves the directory it is resolved in,
  and so does \<open>find . -delete\<close>, which is no reader.
\<close>

theorem read_only_policy_gaps:
  "evaluate (p\<lparr>load_err := False\<rparr>) ''ls ./..'' req = Some (Inr (allowed_by ''built-in read-only: ls'')) \<and>
   join_path [''/home/w'', ''./..''] = ''/home'' \<and>
   evaluate (p\<lparr>load_err := False\<rparr>) ''find . -delete'' req =
     Some (Inr (allowed_by ''built-in read-only: find''))"
proof -
  have t: "trim_space ''ls ./..'' = ''ls ./..''" "trim_space ''find . -delete'' = ''find . -delete''"
    by (rule trim_space_solid; simp add: solid_def byte_of_def is_space_def)+
  have "scan ''ls ./..'' scan_init = ScanPlain [[''ls'', ''./..'']]"
    "scan ''find . -delete'' scan_init = ScanPlain [[''find'', ''.'', ''-delete'']]"
    by (simp_all add: scan_eval)
  then have "parse_plain_shell_commands ''ls ./..'' = Inr ([[''ls'', ''./..'']], True)"
    "parse_plain_shell_commands ''find . -delete'' = Inr ([[''find'', ''.'', ''-delete'']], True)"
    by (simp_all add: parse_plain_shell_commands_def t)
  moreover have "all_read_only [[''ls'', ''./..'']] = Some True"
    "all_read_only [[''find'', ''.'', ''-delete'']] = Some True"
    "base_name ''ls'' = ''ls''" "base_name ''find'' = ''find''"
    "join_path [''/home/w'', ''./..''] = ''/home''" by code_simp+
  ultimately show ?thesis
    by (simp add: evaluate_def read_only_label_def del: all_read_only.simps)
qed

end
