(* ===== verification/ExecTool.thy ===== *)
theory ExecTool
  imports ExecPolicy Sandbox ProcessManager
begin

section \<open>The command and patch tools: exec\_command.go, apply\_patch.go, write\_stdin.go, echo.go\<close>

text \<open>
  A tool call is decided before it acts: the arguments are decoded, the policy is asked, the
  reviewer if need be, and only then a process starts or a file changes. The decision of
  \<open>exec_command\<close> is a value of its own, \<open>exec_decision\<close>, so that what a command may
  write and whether it may use the network can be read off it. The reviewer is a function from
  requests to the decision word of the client, or an error; \<open>None\<close> is no reviewer.
\<close>

record environment =
  env_working_directory :: string
  env_workspace_root :: string
  env_exec_server :: string

record approval_request =
  ar_call_id :: string
  ar_command :: string
  ar_working_directory :: string
  ar_reason :: string
  ar_proposed_prefix :: "string list"

type_synonym reviewer = "(approval_request \<Rightarrow> (string, string) result) option"

record call =
  call_id :: string
  call_name :: string
  call_arguments :: string

datatype tool_error =
    BadArguments string
  | WorkdirAbsolute
  | WorkdirEscapes
  | PolicyError policy_error
  | NoReviewer string
  | ReviewerError string
  | UnsupportedDecision string
  | SandboxError string
  | ProcessError string
  | PatchInvalid patch_error
  | PatchFailed hunk_error
  | NoPatchInput
  | TextEmpty
  | SessionIdNotPositive
  | McpFailed string

text \<open>The state tools act on: the policy, the file system and the processes of the Session.\<close>

record tool_state =
  ts_policy :: exec_policy
  ts_disk :: fs
  ts_processes :: process_manager

subsection \<open>exec\_command\<close>

record exec_arguments =
  xa_cmd :: string
  xa_workdir :: string
  xa_yield_time_ms :: int
  xa_max_output_tokens :: int
  xa_tty :: bool
  xa_prefix_rule :: "string list"
  xa_network_access :: bool

definition exec_arguments_of_json :: "json \<Rightarrow> exec_arguments option" where
  "exec_arguments_of_json v =
     (case (string_field ''cmd'' v, string_field ''workdir'' v, int_field ''yield_time_ms'' v,
            int_field ''max_output_tokens'' v, bool_field ''tty'' v, strings_field ''prefix_rule'' v,
            bool_field ''network_access'' v) of
        (Some c, Some w, Some y, Some m, Some t, Some p, Some n) \<Rightarrow>
          Some \<lparr>xa_cmd = c, xa_workdir = w, xa_yield_time_ms = y, xa_max_output_tokens = m,
                xa_tty = t, xa_prefix_rule = p, xa_network_access = n\<rparr>
      | _ \<Rightarrow> None)"

definition resolve_working_directory :: "string \<Rightarrow> environment \<Rightarrow> string \<Rightarrow> (tool_error, string) result" where
  "resolve_working_directory wd env requested =
     (if requested \<noteq> [] \<and> is_abs requested then Inl WorkdirAbsolute
      else (let dir = abs_path wd (if requested \<noteq> [] then join_path [env_workspace_root env, requested]
                                   else env_working_directory env)
            in case rel (env_workspace_root env) dir of
                 None \<Rightarrow> Inl WorkdirEscapes
               | Some relative \<Rightarrow>
                   if first_seg_is ''..'' relative then Inl WorkdirEscapes else Inr dir))"

datatype exec_decision =
    Refuse tool_error
  | AnswerDenied
  | Run sandbox_policy string   \<comment> \<open>the sandbox, and the policy rule shown with the result\<close>

definition approved_once :: string where "approved_once = ''approved once''"

text \<open>The rule counts as approval unless it is the built-in one.\<close>

definition approving_rule :: "string \<Rightarrow> bool" where
  "approving_rule rule \<longleftrightarrow> rule \<noteq> [] \<and> \<not> prefix ''built-in read-only:'' rule"

definition run_with :: "environment \<Rightarrow> string \<Rightarrow> bool \<Rightarrow> bool \<Rightarrow> string \<Rightarrow> exec_decision" where
  "run_with env dir approved network rule =
     Run \<lparr>sp_workspace_root = env_workspace_root env, sp_working_directory = dir,
          sp_workspace_write = approved, sp_network_access = network \<and> approved\<rparr> rule"

text \<open>
  The \<open>switch\<close> on the reviewer's decision: whether the command is approved and under which rule.
\<close>

definition apply_decision :: "(json \<Rightarrow> string) \<Rightarrow> string \<Rightarrow> string list \<Rightarrow> bool \<Rightarrow> string \<Rightarrow> tool_state \<Rightarrow>
    (exec_decision, bool \<times> string) result \<times> tool_state" where
  "apply_decision render decision proposed approved rule s =
     (if decision = ''approved'' then (Inr (True, approved_once), s)
      else if decision = ''approved_for_session'' then
        (if proposed \<noteq> [] then
           (Inr (True, session_label @ join_with sp proposed),
            s\<lparr>ts_policy := add_session_rule proposed (ts_policy s)\<rparr>)
         else (Inr (approved, rule), s))
      else if decision = ''approved_with_amendment'' then
        (case add_persistent_rule render proposed (ts_policy s, ts_disk s) of
           (e, p, d) \<Rightarrow>
             (case e of Some err \<Rightarrow> Inl (Refuse (PolicyError err))
              | None \<Rightarrow> Inr (True, persistent_label @ join_with sp proposed),
              s\<lparr>ts_policy := p, ts_disk := d\<rparr>))
      else if decision = ''denied'' then (Inl AnswerDenied, s)
      else (Inl (Refuse (UnsupportedDecision decision)), s))"

text \<open>
  Everything \<open>Execute\<close> does before it launches the command. \<open>None\<close> is a panic of the policy, which
  cannot happen.
\<close>

definition exec_decide :: "(json \<Rightarrow> string) \<Rightarrow> string \<Rightarrow> environment \<Rightarrow> reviewer \<Rightarrow> string \<Rightarrow> exec_arguments \<Rightarrow>
    tool_state \<Rightarrow> (exec_decision \<times> tool_state) option" where
  "exec_decide render wd env reviewer cid args s =
     (case resolve_working_directory wd env (xa_workdir args) of
        Inl e \<Rightarrow> Some (Refuse e, s)
      | Inr dir \<Rightarrow>
        (case evaluate (ts_policy s) (xa_cmd args) (xa_prefix_rule args) of
           None \<Rightarrow> None
         | Some (Inl e) \<Rightarrow> Some (Refuse (PolicyError e), s)
         | Some (Inr req0) \<Rightarrow>
           (let approved = approving_rule (matched_rule req0);
                req = (if xa_network_access args
                       then req0\<lparr>needs_approval := True,
                              req_reason := ''command requests network access'', proposed_rule := []\<rparr>
                       else req0);
                rule = matched_rule req
            in if \<not> needs_approval req
               then Some (run_with env dir approved (xa_network_access args) rule, s)
               else (case reviewer of
                  None \<Rightarrow> Some (Refuse (NoReviewer ''command''), s)
                | Some review \<Rightarrow>
                  (case review \<lparr>ar_call_id = cid, ar_command = xa_cmd args, ar_working_directory = dir,
                          ar_reason = req_reason req, ar_proposed_prefix = proposed_rule req\<rparr> of
                     Inl e \<Rightarrow> Some (Refuse (ReviewerError e), s)
                   | Inr decision \<Rightarrow>
                     (case apply_decision render decision (proposed_rule req) approved rule s of
                        (Inl d, s') \<Rightarrow> Some (d, s')
                      | (Inr (approved', rule'), s') \<Rightarrow>
                          Some (run_with env dir approved' (xa_network_access args) rule', s')))))))"

text \<open>The host and what it does while the call waits.\<close>

record launch =
  la_env :: host_env
  la_error :: "string option"      \<comment> \<open>of starting the process\<close>
  la_remote_id :: string           \<comment> \<open>the number given to a remote process\<close>
  la_world :: "world list"
  la_timer_first :: bool
  la_chunk_id :: string
  la_wall_time :: json

definition middle_dot :: string where "middle_dot = '' '' @ [CHR 0xC2, CHR 0xB7] @ '' ''"

definition exec_run :: "environment \<Rightarrow> launch \<Rightarrow> string \<Rightarrow> exec_arguments \<Rightarrow> sandbox_policy \<Rightarrow> string \<Rightarrow> bool \<Rightarrow>
    tool_state \<Rightarrow> (tool_error, json) result \<times> tool_state \<times> event_msg list" where
  "exec_run env la cid args policy rule emits s =
     (let limit = output_limit (xa_max_output_tokens args);
          finish = (\<lambda>p. case pm_start (la_error la) p (la_world la) (la_timer_first la) (la_chunk_id la) limit
                       (ts_processes s) of
                     (r, pm, events) \<Rightarrow>
                       (case r of Inl e \<Rightarrow> Inl (ProcessError e)
                        | Inr x \<Rightarrow> Inr (exec_result_json (la_wall_time la) x),
                        s\<lparr>ts_processes := pm\<rparr>, events))
      in if env_exec_server env \<noteq> [] then
           finish (new_process (Some (la_remote_id la)) (xa_tty args)
             (rule @ middle_dot @ ''remote-exec-server'') cid emits)
         else (case sandboxed_command (la_env la) (ts_disk s) policy (xa_cmd args) of
                 Inl e \<Rightarrow> (Inl (SandboxError e), s, [])
               | Inr (_, backend) \<Rightarrow>
                   finish (new_process None (xa_tty args) (rule @ middle_dot @ backend) cid emits)))"

definition exec_command :: "(string \<Rightarrow> json option) \<Rightarrow> (json \<Rightarrow> string) \<Rightarrow> string \<Rightarrow> environment \<Rightarrow> reviewer \<Rightarrow>
    launch \<Rightarrow> bool \<Rightarrow> call \<Rightarrow> tool_state \<Rightarrow>
    ((tool_error, string) result \<times> tool_state \<times> event_msg list) option" where
  "exec_command parse render wd env reviewer la emits c s =
     (case Option.bind (parse (call_arguments c)) exec_arguments_of_json of
        None \<Rightarrow> Some (Inl (BadArguments ''exec_command''), s, [])
      | Some args \<Rightarrow>
        (case exec_decide render wd env reviewer (call_id c) args s of
           None \<Rightarrow> None
         | Some (Refuse e, s') \<Rightarrow> Some (Inl e, s', [])
         | Some (AnswerDenied, s') \<Rightarrow> Some (Inr ''command execution denied by user'', s', [])
         | Some (Run policy rule, s') \<Rightarrow>
             (case exec_run env la (call_id c) args policy rule emits s' of
                (r, s'', events) \<Rightarrow>
                  Some (case r of Inl e \<Rightarrow> Inl e | Inr v \<Rightarrow> Inr (render v), s'', events))))"

subsection \<open>What a command is allowed to do\<close>

text \<open>The reviewer was asked about this very command and gave this answer.\<close>

definition reviewer_said :: "reviewer \<Rightarrow> string \<Rightarrow> exec_arguments \<Rightarrow> string \<Rightarrow> bool" where
  "reviewer_said reviewer cid args decision \<longleftrightarrow>
     (\<exists>review dir reason proposed. reviewer = Some review \<and>
        review \<lparr>ar_call_id = cid, ar_command = xa_cmd args, ar_working_directory = dir,
          ar_reason = reason, ar_proposed_prefix = proposed\<rparr> = Inr decision)"

lemma approving_rule_matched:
  assumes "evaluate p c req = Some (Inr r)" "approving_rule (matched_rule r)"
  shows "\<exists>ts. parse_plain_shell_commands c = Inr ([ts], True) \<and> matched p ts"
proof -
  from assms(1) have load: "\<not> load_err p" by (auto simp: evaluate_def)
  with assms(1) obtain cmds plain where parsed: "parse_plain_shell_commands c = Inr (cmds, plain)"
    by (auto simp: evaluate_def split: sum.splits)
  from load parsed show ?thesis
  proof (cases rule: evaluate_cases [where req = req])
    case (read_only x)
    then obtain y where "matched_rule r = read_only_label @ y"
      using assms(1) parsed load all_read_only_ok [OF parse_plain_words(2) [OF parsed]]
        parse_plain_words(1) [OF parsed]
      by (auto simp: evaluate_def allowed_by_def)
    with assms(2) show ?thesis by (auto simp: approving_rule_def read_only_label_def)
  next
    case (matching x ts)
    with parsed show ?thesis by auto
  next
    case (single ts)
    with assms show ?thesis by (auto simp: approving_rule_def)
  next
    case (compound x)
    with assms show ?thesis by (auto simp: approving_rule_def)
  qed
qed

lemma resolve_working_directory_below:
  assumes "is_abs wd" "is_abs (env_workspace_root env)" "resolve_working_directory wd env w = Inr dir"
  shows "apath_of (env_workspace_root env) \<le> apath_of dir"
proof (rule ccontr)
  assume out: "\<not> apath_of (env_workspace_root env) \<le> apath_of dir"
  let ?d = "abs_path wd (if w \<noteq> [] then join_path [env_workspace_root env, w] else env_working_directory env)"
  have dir: "dir = ?d"
    using assms(3) by (auto simp: resolve_working_directory_def Let_def split: if_splits option.splits)
  have "is_abs dir"
    unfolding dir using assms(1) by (simp add: abs_path_def join_path_abs)
  then obtain r where "rel (env_workspace_root env) dir = Some r" "r = ''..'' \<or> prefix ''../'' r"
    using rel_outside [OF assms(2)] out by (auto simp: apath_le_iff)
  then have "rel (env_workspace_root env) dir = Some r" "first_seg_is ''..'' r"
    by (auto simp: first_seg_is_def)
  with assms(3) dir show False
    by (simp add: resolve_working_directory_def Let_def split: if_splits)
qed

lemma apply_decision_stops [simp]: "apply_decision render d proposed a r s \<noteq> (Inl (Run x y), s')"
  by (auto simp: apply_decision_def split: prod.splits option.splits)

lemma apply_decision_Run:
  assumes "apply_decision render decision proposed approved rule s = (Inr (approved', rule'), s')"
  shows "(approved' \<longrightarrow> approved \<or> decision \<in> {''approved'', ''approved_for_session'', ''approved_with_amendment''})
    \<and> decision \<in> {''approved'', ''approved_for_session'', ''approved_with_amendment''}
    \<and> (decision = ''approved_with_amendment'' \<longrightarrow> proposed \<noteq> [])"
  using assms
  by (auto simp: apply_decision_def split: if_splits prod.splits option.splits dest: add_persistent_rule_ok)


definition sample_env :: environment where
  "sample_env = \<lparr>env_working_directory = ''/w'', env_workspace_root = ''/w'', env_exec_server = []\<rparr>"

definition sample_args :: "bool \<Rightarrow> exec_arguments" where
  "sample_args network = \<lparr>xa_cmd = ''ls'', xa_workdir = [], xa_yield_time_ms = 0,
     xa_max_output_tokens = 0, xa_tty = False, xa_prefix_rule = [], xa_network_access = network\<rparr>"

definition sample_state :: tool_state where
  "sample_state = \<lparr>ts_policy = \<lparr>session_rules = [], persistent_rules = [],
       rules_path = ''/w/tmp/exec-policy.rules'', load_err = False\<rparr>,
     ts_disk = [], ts_processes = new_process_manager\<rparr>"

lemma evaluate_ls:
  "\<not> load_err p \<Longrightarrow> evaluate p ''ls'' [] = Some (Inr (allowed_by (read_only_label @ ''ls'')))"
proof -
  assume l: "\<not> load_err p"
  have "trim_space ''ls'' = ''ls''" by (rule trim_space_solid) (simp add: solid_def byte_of_def is_space_def)
  moreover have "scan ''ls'' scan_init = ScanPlain [[''ls'']]" by (simp add: scan_eval)
  ultimately have "parse_plain_shell_commands ''ls'' = Inr ([[''ls'']], True)"
    by (simp add: parse_plain_shell_commands_def)
  moreover have "all_read_only [[''ls'']] = Some True" "base_name ''ls'' = ''ls''" by code_simp+
  ultimately show ?thesis using l by (simp add: evaluate_def del: all_read_only.simps)
qed


end
