(* ===== verification/Router.thy ===== *)
theory Router
  imports ExecTool
begin

section \<open>The other tools and the router: apply\_patch.go, write\_stdin.go, echo.go, router.go\<close>

text \<open>
  The router keeps the registered tools, in the order in which they are advertised, and turns
  every call into an output item of the conversation: a missing tool and a failing tool are
  outputs too. The locale \<open>tool_router\<close> is what a Turn relies on of it.
\<close>

subsection \<open>echo and write\_stdin\<close>

definition echo_tool :: "json option \<Rightarrow> (tool_error, string) result" where
  "echo_tool args =
     (case Option.bind args (string_field ''text'') of
        None \<Rightarrow> Inl (BadArguments ''echo'')
      | Some text \<Rightarrow> if trim_space text = [] then Inl TextEmpty else Inr text)"

record stdin_arguments =
  sa_session_id :: int
  sa_chars :: string
  sa_yield_time_ms :: int
  sa_max_output_tokens :: int

definition stdin_arguments_of_json :: "json \<Rightarrow> stdin_arguments option" where
  "stdin_arguments_of_json v =
     (case (int_field ''session_id'' v, string_field ''chars'' v, int_field ''yield_time_ms'' v,
            int_field ''max_output_tokens'' v) of
        (Some i, Some c, Some y, Some m) \<Rightarrow>
          Some \<lparr>sa_session_id = i, sa_chars = c, sa_yield_time_ms = y, sa_max_output_tokens = m\<rparr>
      | _ \<Rightarrow> None)"

text \<open>\<open>la_error\<close> is here the error of the write or signal, \<open>cancelled\<close> whether the wait is cancelled.\<close>

definition write_stdin_tool :: "launch \<Rightarrow> bool \<Rightarrow> bool \<Rightarrow> json option \<Rightarrow> tool_state \<Rightarrow>
    (tool_error, json) result \<times> tool_state \<times> os_action list \<times> event_msg list" where
  "write_stdin_tool la cancelled emits args s =
     (case Option.bind args stdin_arguments_of_json of
        None \<Rightarrow> (Inl (BadArguments ''write_stdin''), s, [], [])
      | Some a \<Rightarrow>
        if sa_session_id a \<le> 0 then (Inl SessionIdNotPositive, s, [], [])
        else (case pm_write_stdin (sa_session_id a) (sa_chars a) (la_error la) (la_world la) cancelled
                (la_chunk_id la) (output_limit (sa_max_output_tokens a)) emits (ts_processes s) of
              (r, pm, acts, events) \<Rightarrow>
                (case r of Inl e \<Rightarrow> Inl (ProcessError e)
                 | Inr x \<Rightarrow> Inr (exec_result_json (la_wall_time la) x),
                 s\<lparr>ts_processes := pm\<rparr>, acts, events)))"

text \<open>How long the two tools wait.\<close>

definition exec_yield :: "exec_arguments \<Rightarrow> int" where
  "exec_yield a = clamp_yield (xa_yield_time_ms a) False"

definition stdin_yield :: "stdin_arguments \<Rightarrow> int" where
  "stdin_yield a = clamp_yield (sa_yield_time_ms a) (sa_chars a = [])"

subsection \<open>apply\_patch\<close>

definition extract_patch_input :: "(string \<Rightarrow> json option) \<Rightarrow> string \<Rightarrow> string option" where
  "extract_patch_input parse arguments =
     (let v = parse arguments;
          fields = (case v of None \<Rightarrow> None
            | Some j \<Rightarrow> (case (string_field ''input'' j, string_field ''patch'' j) of
                (Some i, Some p) \<Rightarrow>
                  if trim_space i \<noteq> [] then Some i
                  else if trim_space p \<noteq> [] then Some p else None
              | _ \<Rightarrow> None));
          as_string = (case Option.bind v (\<lambda>j. dec_string j []) of
              Some s \<Rightarrow> if contains begin_patch_marker s then Some s else None
            | None \<Rightarrow> None)
      in case fields of Some i \<Rightarrow> Some i
         | None \<Rightarrow> (case as_string of Some s \<Rightarrow> Some s
           | None \<Rightarrow> if contains begin_patch_marker arguments then Some arguments else None))"

definition patch_command :: string where "patch_command = ''apply_patch''"

datatype patch_verdict = PatchAllowed | PatchDenied | PatchRefused tool_error

text \<open>\<open>approve\<close>; the requirement of the policy for the command \<open>apply_patch\<close> decides whether to ask.\<close>

definition approve_patch :: "(json \<Rightarrow> string) \<Rightarrow> environment \<Rightarrow> reviewer \<Rightarrow> string \<Rightarrow> patch_hunk list \<Rightarrow>
    tool_state \<Rightarrow> (patch_verdict \<times> tool_state) option" where
  "approve_patch render env reviewer cid hunks s =
     (case evaluate (ts_policy s) patch_command [patch_command] of
        None \<Rightarrow> None
      | Some (Inl e) \<Rightarrow> Some (PatchRefused (PolicyError e), s)
      | Some (Inr req) \<Rightarrow>
        if \<not> needs_approval req then Some (PatchAllowed, s)
        else (case reviewer of
           None \<Rightarrow> Some (PatchRefused (NoReviewer ''apply_patch''), s)
         | Some review \<Rightarrow>
           (case review \<lparr>ar_call_id = cid,
                   ar_command = ''apply_patch '' @ join_with '' '' (map source_path hunks),
                   ar_working_directory = env_working_directory env,
                   ar_reason = ''apply_patch writes files in the workspace'',
                   ar_proposed_prefix = [patch_command]\<rparr> of
              Inl e \<Rightarrow> Some (PatchRefused (ReviewerError e), s)
            | Inr decision \<Rightarrow>
              if decision = ''approved'' then Some (PatchAllowed, s)
              else if decision = ''approved_for_session'' then
                Some (PatchAllowed, s\<lparr>ts_policy := add_session_rule [patch_command] (ts_policy s)\<rparr>)
              else if decision = ''approved_with_amendment'' then
                (case add_persistent_rule render [patch_command] (ts_policy s, ts_disk s) of
                   (e, p, d) \<Rightarrow>
                     Some (case e of Some err \<Rightarrow> PatchRefused (PolicyError err) | None \<Rightarrow> PatchAllowed,
                           s\<lparr>ts_policy := p, ts_disk := d\<rparr>))
              else if decision = ''denied'' then Some (PatchDenied, s)
              else Some (PatchRefused (UnsupportedDecision decision), s))))"

definition apply_patch_tool :: "(string \<Rightarrow> json option) \<Rightarrow> (json \<Rightarrow> string) \<Rightarrow> string \<Rightarrow> environment \<Rightarrow> reviewer \<Rightarrow>
    call \<Rightarrow> tool_state \<Rightarrow> ((tool_error, string) result \<times> tool_state) option" where
  "apply_patch_tool parse render wd env reviewer c s =
     (case extract_patch_input parse (call_arguments c) of
        None \<Rightarrow> Some (Inl NoPatchInput, s)
      | Some patch \<Rightarrow>
        (case parse_patch patch of
           Inl e \<Rightarrow> Some (Inl (PatchInvalid e), s)
         | Inr hunks \<Rightarrow>
           (case approve_patch render env reviewer (call_id c) hunks s of
              None \<Rightarrow> None
            | Some (PatchRefused e, s') \<Rightarrow> Some (Inl e, s')
            | Some (PatchDenied, s') \<Rightarrow> Some (Inr ''apply_patch denied by user'', s')
            | Some (PatchAllowed, s') \<Rightarrow>
              (case apply_hunks wd (env_workspace_root env) (env_working_directory env) hunks
                      (no_paths, ts_disk s') of
                 None \<Rightarrow> None
               | Some (e, affected, d) \<Rightarrow>
                   Some (case e of Some err \<Rightarrow> Inl (PatchFailed err)
                         | None \<Rightarrow> Inr (format_patch_summary affected),
                         s'\<lparr>ts_disk := d\<rparr>)))))"

subsection \<open>The registry\<close>

text \<open>
  The executors: the four tools of the program, and those of connected servers, each bound to a client (its
  number), the name of the server and the tool as listed. Theory McpClient runs them.
\<close>

record mcp_tool =
  mt_name :: string
  mt_description :: string
  mt_input_schema :: json
  mt_read_only :: bool

datatype executor =
    EchoExecutor
  | ExecCommandExecutor
  | WriteStdinExecutor
  | ApplyPatchExecutor
  | McpExecutor nat string mcp_tool

fun executor_name :: "executor \<Rightarrow> string" where
  "executor_name EchoExecutor = ''echo''"
| "executor_name ExecCommandExecutor = ''exec_command''"
| "executor_name WriteStdinExecutor = ''write_stdin''"
| "executor_name ApplyPatchExecutor = ''apply_patch''"
| "executor_name (McpExecutor client server tool) = ''mcp__'' @ server @ ''__'' @ mt_name tool"

record router =
  rt_registry :: "(string \<times> executor) list"
  rt_order :: "string list"

definition new_router :: router where
  "new_router = \<lparr>rt_registry = [], rt_order = []\<rparr>"

text \<open>\<open>Register\<close>: \<open>None\<close> when the name is taken.\<close>

definition register :: "executor \<Rightarrow> router \<Rightarrow> router option" where
  "register x rt =
     (if map_of (rt_registry rt) (executor_name x) \<noteq> None then None
      else Some \<lparr>rt_registry = AList.update (executor_name x) x (rt_registry rt),
                 rt_order = rt_order rt @ [executor_name x]\<rparr>)"

definition unregister_prefix :: "string \<Rightarrow> router \<Rightarrow> router" where
  "unregister_prefix p rt =
     \<lparr>rt_registry = fold (\<lambda>n reg. if prefix p n then AList.delete n reg else reg) (rt_order rt) (rt_registry rt),
      rt_order = filter (\<lambda>n. \<not> prefix p n) (rt_order rt)\<rparr>"

definition default_executors :: "executor list" where
  "default_executors = [EchoExecutor, ExecCommandExecutor, WriteStdinExecutor, ApplyPatchExecutor]"

text \<open>\<open>NewDefaultRouter\<close>: a failed registration panics.\<close>

definition new_default_router :: "router option" where
  "new_default_router = fold_option register default_executors new_router"

text \<open>The advertised tools; a name without executor would panic.\<close>

definition model_visible_definitions :: "router \<Rightarrow> executor list option" where
  "model_visible_definitions rt = those (map (map_of (rt_registry rt)) (rt_order rt))"

datatype build_error = MissingCallId | MissingName string

definition build_tool_call :: "response_item \<Rightarrow> (build_error, call option) result" where
  "build_tool_call item =
     (if ri_type item \<noteq> ''function_call'' then Inr None
      else if ri_call_id item = [] then Inl MissingCallId
      else if ri_name item = [] then Inl (MissingName (ri_call_id item))
      else Inr (Some \<lparr>call_id = ri_call_id item, call_name = ri_name item,
                      call_arguments = ri_arguments item\<rparr>))"

text \<open>
  \<open>Execute\<close>: \<open>run\<close> is the chosen executor's \<open>Execute\<close> (\<open>None\<close> a panic), \<open>quote\<close> the verb \<open>%q\<close> and
  \<open>err_text\<close> the message of an error.
\<close>

definition router_execute :: "(string \<Rightarrow> string) \<Rightarrow> (tool_error \<Rightarrow> string) \<Rightarrow>
    (executor \<Rightarrow> call \<Rightarrow> 's \<Rightarrow> ((tool_error, string) result \<times> 's) option) \<Rightarrow>
    router \<Rightarrow> call \<Rightarrow> 's \<Rightarrow> (response_item \<times> 's) option" where
  "router_execute quote err_text run rt c s =
     (case map_of (rt_registry rt) (call_name c) of
        None \<Rightarrow> Some (new_function_call_output (call_id c)
                  (''tool '' @ quote (call_name c) @ '' is not registered''), s)
      | Some x \<Rightarrow>
        (case run x c s of
           None \<Rightarrow> None
         | Some (r, s') \<Rightarrow>
             Some (new_function_call_output (call_id c)
               (case r of Inr output \<Rightarrow> output
                | Inl e \<Rightarrow> ''tool '' @ quote (call_name c) @ '' failed: '' @ err_text e), s')))"

subsection \<open>Input to a Windows terminal: windows\_tty\_input.go\<close>

text \<open>The normalizer, with its \<open>previousWasCR\<close> from one write to the next.\<close>

definition normalize_byte :: "bool \<Rightarrow> char \<Rightarrow> string" where
  "normalize_byte previous_was_cr b =
     (if b = CHR 0x08 then [CHR 0x7F]
      else if b = newline then (if previous_was_cr then [] else [carriage_return])
      else [b])"

fun normalize_tty :: "bool \<Rightarrow> string \<Rightarrow> string \<times> bool" where
  "normalize_tty cr [] = ([], cr)"
| "normalize_tty cr (b # bs) =
     (let (rest, cr') = normalize_tty (b = carriage_return) bs in (normalize_byte cr b @ rest, cr'))"

text \<open>The normalizer is a collector of chunks: how the input is cut into writes does not matter.\<close>

definition tty_push :: "string \<Rightarrow> string \<times> bool \<Rightarrow> string \<times> bool" where
  "tty_push data st = (let (out, cr) = normalize_tty (snd st) data in (fst st @ out, cr))"

lemma normalize_tty_append:
  "normalize_tty cr (xs @ ys) =
     (let (o1, c1) = normalize_tty cr xs; (o2, c2) = normalize_tty c1 ys in (o1 @ o2, c2))"
  by (induction xs arbitrary: cr) (auto simp: Let_def split: prod.splits)

interpretation tty: stream_collector "([], False)" tty_push "normalize_tty False"
  by unfold_locales (auto simp: tty_push_def normalize_tty_append Let_def split: prod.splits)

lemma normalize_tty_clean: "c \<in> set (fst (normalize_tty cr s)) \<Longrightarrow> c \<noteq> newline \<and> c \<noteq> CHR 0x08"
proof (induction s arbitrary: cr)
  case (Cons b bs)
  then have "c \<in> set (normalize_byte cr b) \<or> c \<in> set (fst (normalize_tty (b = carriage_return) bs))"
    by (auto simp: Let_def split: prod.splits)
  then show ?case
  proof
    assume "c \<in> set (normalize_byte cr b)"
    then show ?thesis
      by (auto simp: normalize_byte_def newline_def carriage_return_def split: if_splits)
  qed (rule Cons.IH)
qed simp

subsection \<open>The registry stays consistent\<close>

definition router_ok :: "router \<Rightarrow> bool" where
  "router_ok rt \<longleftrightarrow> distinct (rt_order rt) \<and> set (rt_order rt) = dom (map_of (rt_registry rt)) \<and>
     (\<forall>n x. map_of (rt_registry rt) n = Some x \<longrightarrow> executor_name x = n)"

lemma router_ok_new [simp]: "router_ok new_router"
  by (simp add: router_ok_def new_router_def)

lemma register_ok: "router_ok rt \<Longrightarrow> register x rt = Some rt' \<Longrightarrow> router_ok rt'"
  by (auto simp: router_ok_def register_def update_conv' split: if_splits)

lemma fold_delete_prefix:
  "map_of (fold (\<lambda>n reg. if prefix p n then AList.delete n reg else reg) ns reg) k =
     (if k \<in> set ns \<and> prefix p k then None else map_of reg k)"
  by (induction ns arbitrary: reg) (auto simp: delete_conv')

lemma unregister_ok: "router_ok rt \<Longrightarrow> router_ok (unregister_prefix p rt)"
  by (auto simp: router_ok_def unregister_prefix_def fold_delete_prefix dom_def split: if_splits)

text \<open>The registry as reached by registering tools and dropping the tools of servers.\<close>

inductive router_reach :: "router \<Rightarrow> bool" where
  new: "router_reach new_router"
| add: "router_reach rt \<Longrightarrow> register x rt = Some rt' \<Longrightarrow> router_reach rt'"
| drop: "router_reach rt \<Longrightarrow> router_reach (unregister_prefix p rt)"

lemma router_reach_ok: "router_reach rt \<Longrightarrow> router_ok rt"
  by (induction rule: router_reach.induct) (auto intro: register_ok unregister_ok)


lemma default_router: "\<exists>rt. new_default_router = Some rt \<and> router_reach rt \<and> rt_order rt =
    [''echo'', ''exec_command'', ''write_stdin'', ''apply_patch'']"
proof -
  let ?r1 = "\<lparr>rt_registry = [(''echo'', EchoExecutor)], rt_order = [''echo'']\<rparr>"
  have 1: "register EchoExecutor new_router = Some ?r1" by (simp add: register_def new_router_def)
  let ?r2 = "\<lparr>rt_registry = [(''echo'', EchoExecutor), (''exec_command'', ExecCommandExecutor)],
    rt_order = [''echo'', ''exec_command'']\<rparr>"
  have 2: "register ExecCommandExecutor ?r1 = Some ?r2" by (simp add: register_def)
  let ?r3 = "\<lparr>rt_registry = [(''echo'', EchoExecutor), (''exec_command'', ExecCommandExecutor),
      (''write_stdin'', WriteStdinExecutor)], rt_order = [''echo'', ''exec_command'', ''write_stdin'']\<rparr>"
  have 3: "register WriteStdinExecutor ?r2 = Some ?r3" by (simp add: register_def)
  obtain r4 where 4: "register ApplyPatchExecutor ?r3 = Some r4"
    "rt_order r4 = [''echo'', ''exec_command'', ''write_stdin'', ''apply_patch'']"
    by (simp add: register_def)
  have "router_reach r4"
    by (rule router_reach.add [OF _ 4(1)], rule router_reach.add [OF _ 3],
        rule router_reach.add [OF _ 2], rule router_reach.add [OF _ 1], rule router_reach.new)
  with 1 2 3 4 show ?thesis by (simp add: new_default_router_def default_executors_def)
qed


subsection \<open>What a Turn relies on\<close>

locale tool_router =
  fixes build :: "response_item \<Rightarrow> (build_error, call option) result"
    and execute :: "call \<Rightarrow> 's \<Rightarrow> (response_item \<times> 's) option"
  assumes build_call: "build item = Inr (Some c) \<Longrightarrow>
      ri_type item = ''function_call'' \<and> call_id c = ri_call_id item \<and> call_id c \<noteq> []"
    and build_other: "ri_type item \<noteq> ''function_call'' \<Longrightarrow> build item = Inr None"
    and build_named: "ri_type item = ''function_call'' \<Longrightarrow> build item \<noteq> Inr None"
    and execute_output: "execute c s = Some (item, s') \<Longrightarrow>
      ri_type item = ''function_call_output'' \<and> ri_call_id item = call_id c"
begin

text \<open>Running calls one after another, each on the state the one before left.\<close>

lemma run_all_outputs:
  "fold_option (\<lambda>c (items, s). map_option (\<lambda>(i, s'). (items @ [i], s')) (execute c s)) cs (items, s) =
      Some (items', s') \<Longrightarrow>
    map ri_call_id items' = map ri_call_id items @ map call_id cs \<and>
    (\<forall>i \<in> set items'. i \<in> set items \<or> ri_type i = ''function_call_output'')"
proof (induction cs arbitrary: items s)
  case (Cons c cs)
  then obtain i s1 where e: "execute c s = Some (i, s1)"
    by (auto split: option.splits)
  with Cons.prems have "fold_option (\<lambda>c (items, s). map_option (\<lambda>(i, s'). (items @ [i], s')) (execute c s))
      cs (items @ [i], s1) = Some (items', s')" by simp
  from Cons.IH [OF this] execute_output [OF e] show ?case by auto
qed simp

end

lemma router_execute_output:
  "router_execute quote err_text run rt c s = Some (item, s') \<Longrightarrow>
    ri_type item = ''function_call_output'' \<and> ri_call_id item = call_id c"
  by (auto simp: router_execute_def split: option.splits)

interpretation rt: tool_router build_tool_call "router_execute quote err_text run rt"
  for quote err_text run rt
  by unfold_locales
     (auto simp: build_tool_call_def split: if_splits dest: router_execute_output)

text \<open>
  A patch approved ``with amendment'' is never applied: the amendment is the one-word prefix
  \<open>apply_patch\<close>, which the policy refuses to store, so the tool reports an error instead of applying the patch
  the user approved.
\<close>

theorem amendment_refuses_patch:
  assumes "evaluate (ts_policy s) patch_command [patch_command] = Some (Inr req)" and "needs_approval req"
  shows "approve_patch render env (Some (\<lambda>_. Inr ''approved_with_amendment'')) cid hunks s =
    Some (PatchRefused (PolicyError RuleTooShort), s)"
  using assms by (simp add: approve_patch_def add_persistent_rule_def)

theorem amendment_refuses_patch_witness:
  "approve_patch (\<lambda>_. []) sample_env (Some (\<lambda>_. Inr ''approved_with_amendment'')) ''c1'' [DeleteFile ''a''] sample_state =
    Some (PatchRefused (PolicyError RuleTooShort), sample_state)"
proof -
  have "trim_space patch_command = patch_command"
    by (rule trim_space_solid) (simp add: patch_command_def solid_def byte_of_def is_space_def)
  moreover have "scan patch_command scan_init = ScanPlain [[patch_command]]"
    by (simp add: patch_command_def scan_eval)
  ultimately have parsed: "parse_plain_shell_commands patch_command = Inr ([[patch_command]], True)"
    by (simp add: parse_plain_shell_commands_def) (simp add: patch_command_def)
  have "all_read_only [[patch_command]] = Some False" by code_simp
  moreover have "\<not> load_err (ts_policy sample_state)" "persistent_rules (ts_policy sample_state) = []"
    "session_rules (ts_policy sample_state) = []" by (simp_all add: sample_state_def)
  ultimately show ?thesis
    using evaluate_single [OF _ parsed, of "ts_policy sample_state" "[patch_command]"]
    by (intro amendment_refuses_patch) (auto simp: parsed)
qed

end
