(* ===== verification/Turn.thy ===== *)
theory Turn
  imports Router Rollout "HOL-Library.Signed_Division"
begin

section \<open>A regular turn: internal/session/turn.go\<close>

text \<open>
  A Turn records its input, then samples the model until no follow-up is needed: it streams a
  response, runs the tools the response calls, records their outputs, and takes up input that
  arrived meanwhile; a history near the context window is compacted first. What the model and the
  tools answer is the input of the functions here: the messages of the two channels of a stream in the order in which
  \<open>select\<close> takes them, and the order in which the concurrent calls take effect. The value
  \<open>None\<close> is a turn that still waits for messages. Every change of the history goes together with an operation on the rollout; the
  operations are kept in a log, and the main theorem says that replaying the log gives the history.
\<close>

subsection \<open>Data\<close>

record turn_input =
  ti_text :: string
  ti_image_urls :: "string list"

datatype response_event_type =
    ResponseOutputTextDelta
  | ResponseOutputItemDone
  | ResponseCompleted
  | OtherResponseEvent string

record response_event =
  re_type :: response_event_type
  re_delta :: string
  re_item :: "response_item option"
  re_response_id :: string
  re_usage :: "token_usage option"

text \<open>A message of a stream, with the milliseconds since the start of the turn where they matter.\<close>

datatype stream_msg =
    StreamEvent int response_event
  | EventsClosed
  | StreamError "string option"
  | ErrorsClosed
  | ContextDone string

record 's turn_state =
  tn_history :: history
  tn_log :: "recorded list"
  tn_events :: "(string \<times> event_msg) list"
  tn_tools :: 's
  tn_pending :: "turn_input list"
  tn_accepting :: bool

text \<open>What stays fixed during a turn; \<open>te_instructions\<close> is the text that the extensions add to an input.\<close>

record turn_env =
  te_turn_id :: string
  te_window :: int
  te_instructions :: "string \<Rightarrow> string"
  te_render :: "json \<Rightarrow> string"

subsection \<open>Recording\<close>

definition record_conversation_items :: "response_item list \<Rightarrow> 's turn_state \<Rightarrow> 's turn_state" where
  "record_conversation_items items st =
     st\<lparr>tn_history := record_items items (tn_history st), tn_log := tn_log st @ [RecItems items]\<rparr>"

definition send_event :: "turn_env \<Rightarrow> event_msg \<Rightarrow> 's turn_state \<Rightarrow> 's turn_state" where
  "send_event env m st =
     st\<lparr>tn_log := tn_log st @ [RecEvent m], tn_events := tn_events st @ [(te_turn_id env, m)]\<rparr>"

definition record_turn_input :: "turn_env \<Rightarrow> turn_input \<Rightarrow> 's turn_state \<Rightarrow> 's turn_state" where
  "record_turn_input env input st =
     (let st1 = record_conversation_items
                  [new_user_message_with_images (ti_text input) (ti_image_urls input)] st;
          instructions = te_instructions env (ti_text input)
      in if instructions \<noteq> [] \<and> instructions \<noteq> ti_text input
         then record_conversation_items [new_developer_message instructions] st1 else st1)"

text \<open>\<open>enqueueInput\<close> and \<open>takePendingInput\<close> of the running task.\<close>

definition enqueue_input :: "turn_input list \<Rightarrow> 's turn_state \<Rightarrow> bool \<times> 's turn_state" where
  "enqueue_input input st =
     (if \<not> tn_accepting st then (False, st)
      else (True, st\<lparr>tn_pending := tn_pending st @ input\<rparr>))"

definition take_pending_input :: "bool \<Rightarrow> 's turn_state \<Rightarrow> turn_input list \<times> 's turn_state" where
  "take_pending_input keep_open st =
     (tn_pending st,
      st\<lparr>tn_pending := [],
         tn_accepting := (if tn_pending st = [] \<and> \<not> keep_open then False else tn_accepting st)\<rparr>)"

subsection \<open>Compaction\<close>

definition compact_prompt :: string where
  "compact_prompt =
     ''You are performing a CONTEXT CHECKPOINT COMPACTION. Create a handoff summary for another LLM that will resume the task.'' @
     [newline, newline] @
     ''Include current progress and key decisions, important constraints and preferences, remaining work, and critical files or references. Be concise, structured, and focused on seamless continuation.''"

definition compact_summary_prefix :: string where
  "compact_summary_prefix =
     ''Another language model started to solve this problem and produced a summary of its work. Continue from this checkpoint:'' @
     [newline, newline]"

text \<open>The integer division of Go truncates towards zero.\<close>

definition should_compact :: "turn_env \<Rightarrow> 's turn_state \<Rightarrow> bool" where
  "should_compact env st \<longleftrightarrow>
     0 < te_window env \<and> 2 < length (for_prompt (tn_history st)) \<and>
     wrap64 (te_window env * 9) sdiv 10 \<le> int (estimated_tokens (te_render env) (tn_history st))"

record compaction =
  cp_summary :: string
  cp_completed :: bool
  cp_events_open :: bool
  cp_errors_open :: bool

definition compaction_start :: compaction where
  "compaction_start =
     \<lparr>cp_summary = [], cp_completed = False, cp_events_open = True, cp_errors_open = True\<rparr>"

definition compaction_event :: "response_event \<Rightarrow> compaction \<Rightarrow> compaction" where
  "compaction_event e cp =
     (case re_type e of
        ResponseOutputTextDelta \<Rightarrow> cp\<lparr>cp_summary := cp_summary cp @ re_delta e\<rparr>
      | ResponseOutputItemDone \<Rightarrow>
          (case re_item e of
             Some item \<Rightarrow> if ri_role item = ''assistant'' then cp\<lparr>cp_summary := item_text item\<rparr> else cp
           | None \<Rightarrow> cp)
      | ResponseCompleted \<Rightarrow> cp\<lparr>cp_completed := True\<rparr>
      | OtherResponseEvent _ \<Rightarrow> cp)"

text \<open>
  The loop over the two channels. A closed channel is not selected again; messages after both are closed are not
  read.
\<close>

fun compaction_loop :: "stream_msg list \<Rightarrow> compaction \<Rightarrow> (string, compaction) result option" where
  "compaction_loop ms cp =
     (if \<not> cp_events_open cp \<and> \<not> cp_errors_open cp then Some (Inr cp)
      else (case ms of
        [] \<Rightarrow> None
      | m # ms' \<Rightarrow>
        (case m of
           ContextDone e \<Rightarrow> Some (Inl e)
         | StreamEvent t e \<Rightarrow> compaction_loop ms' (if cp_events_open cp then compaction_event e cp else cp)
         | EventsClosed \<Rightarrow> compaction_loop ms' (cp\<lparr>cp_events_open := False\<rparr>)
         | StreamError e \<Rightarrow>
             (case (if cp_errors_open cp then e else None) of
                Some err \<Rightarrow> Some (Inl err)
              | None \<Rightarrow> compaction_loop ms' cp)
         | ErrorsClosed \<Rightarrow> compaction_loop ms' (cp\<lparr>cp_errors_open := False\<rparr>))))"

declare compaction_loop.simps [simp del]

definition is_user_message :: "response_item \<Rightarrow> bool" where
  "is_user_message item \<longleftrightarrow> ri_type item = ''message'' \<and> ri_role item = ''user''"

definition replacement_history :: "string \<Rightarrow> response_item list \<Rightarrow> response_item list" where
  "replacement_history summary prompt =
     new_user_message (compact_summary_prefix @ summary) #
     (case find is_user_message (rev prompt) of Some item \<Rightarrow> [item] | None \<Rightarrow> [])"

definition compact_history :: "turn_env \<Rightarrow> stream_msg list \<Rightarrow> 's turn_state \<Rightarrow>
    (string option \<times> 's turn_state) option" where
  "compact_history env ms st =
     (let prompt = for_prompt (tn_history st) in
      if prompt = [] then Some (None, st)
      else (case compaction_loop ms compaction_start of
        None \<Rightarrow> None
      | Some (Inl e) \<Rightarrow> Some (Some e, st)
      | Some (Inr cp) \<Rightarrow>
          if \<not> cp_completed cp \<or> trim_space (cp_summary cp) = []
          then Some (Some ''context compaction completed without a summary'', st)
          else
            (let before = int (estimated_tokens (te_render env) (tn_history st));
                 r = replacement_history (cp_summary cp) prompt;
                 h = replace_history r (tn_history st);
                 after = int (estimated_tokens (te_render env) h)
             in Some (None, send_event env (ContextCompaction (te_turn_id env) before after)
                  (st\<lparr>tn_history := h, tn_log := tn_log st @ [RecCompacted (cp_summary cp) r after]\<rparr>)))))"

subsection \<open>One sampling request\<close>

record sampling =
  sv_output :: string
  sv_first_token :: "int option"
  sv_last_item :: "response_item option"
  sv_calls :: "call list"
  sv_follow_up :: bool
  sv_completed :: bool
  sv_usage :: token_usage
  sv_response_id :: string
  sv_events_open :: bool
  sv_errors_open :: bool

definition sampling_start :: sampling where
  "sampling_start =
     \<lparr>sv_output = [], sv_first_token = None, sv_last_item = None, sv_calls = [], sv_follow_up = False,
      sv_completed = False, sv_usage = no_usage, sv_response_id = [], sv_events_open = True,
      sv_errors_open = True\<rparr>"

definition invalid_call_id :: string where "invalid_call_id = ''invalid_function_call''"

text \<open>An item of the response: recorded, and a function call is queued or answered with its error.\<close>

definition item_done :: "(response_item \<Rightarrow> (build_error, call option) result) \<Rightarrow> (build_error \<Rightarrow> string) \<Rightarrow>
    turn_env \<Rightarrow> response_item \<Rightarrow> sampling \<times> 's turn_state \<Rightarrow> sampling \<times> 's turn_state" where
  "item_done build err_text env item s =
     (let (sv, st) = s;
          st1 = record_conversation_items [item] st;
          sv1 = (if ri_role item = ''assistant'' then sv\<lparr>sv_last_item := Some item\<rparr> else sv)
      in case build item of
           Inl e \<Rightarrow>
             (let cid = (if ri_call_id item = [] then invalid_call_id else ri_call_id item)
              in (sv1\<lparr>sv_follow_up := True\<rparr>,
                  record_conversation_items [new_function_call_output cid (err_text e)] st1))
         | Inr (Some c) \<Rightarrow>
             (sv1\<lparr>sv_calls := sv_calls sv1 @ [c]\<rparr>,
              send_event env (ToolCallStarted (call_id c) (call_name c) (call_arguments c)) st1)
         | Inr None \<Rightarrow> (sv1, st1))"

definition sampling_event :: "(response_item \<Rightarrow> (build_error, call option) result) \<Rightarrow> (build_error \<Rightarrow> string) \<Rightarrow>
    turn_env \<Rightarrow> int \<Rightarrow> response_event \<Rightarrow> sampling \<times> 's turn_state \<Rightarrow> sampling \<times> 's turn_state" where
  "sampling_event build err_text env elapsed e s =
     (let (sv, st) = s in
      case re_type e of
        ResponseOutputTextDelta \<Rightarrow>
          (sv\<lparr>sv_first_token := (case sv_first_token sv of None \<Rightarrow> Some elapsed | Some t \<Rightarrow> Some t),
              sv_output := sv_output sv @ re_delta e\<rparr>,
           send_event env (AgentMessageContentDelta (te_turn_id env) (re_delta e)) st)
      | ResponseOutputItemDone \<Rightarrow>
          (case re_item e of Some item \<Rightarrow> item_done build err_text env item (sv, st) | None \<Rightarrow> (sv, st))
      | ResponseCompleted \<Rightarrow>
          (sv\<lparr>sv_completed := True, sv_usage := add_usage (sv_usage sv) (re_usage e),
              sv_response_id := re_response_id e\<rparr>, st)
      | OtherResponseEvent _ \<Rightarrow> (sv, st))"

fun sampling_loop :: "(response_item \<Rightarrow> (build_error, call option) result) \<Rightarrow> (build_error \<Rightarrow> string) \<Rightarrow>
    turn_env \<Rightarrow> stream_msg list \<Rightarrow> sampling \<times> 's turn_state \<Rightarrow>
    ((string, sampling) result \<times> 's turn_state) option" where
  "sampling_loop build err_text env ms (sv, st) =
     (if \<not> sv_events_open sv \<and> \<not> sv_errors_open sv then Some (Inr sv, st)
      else (case ms of
        [] \<Rightarrow> None
      | m # ms' \<Rightarrow>
        (case m of
           ContextDone e \<Rightarrow> Some (Inl e, st)
         | StreamEvent t e \<Rightarrow>
             sampling_loop build err_text env ms'
               (if sv_events_open sv then sampling_event build err_text env t e (sv, st) else (sv, st))
         | EventsClosed \<Rightarrow> sampling_loop build err_text env ms' (sv\<lparr>sv_events_open := False\<rparr>, st)
         | StreamError e \<Rightarrow>
             (case (if sv_errors_open sv then e else None) of
                Some err \<Rightarrow> Some (Inl err, st)
              | None \<Rightarrow> sampling_loop build err_text env ms' (sv, st))
         | ErrorsClosed \<Rightarrow> sampling_loop build err_text env ms' (sv\<lparr>sv_errors_open := False\<rparr>, st))))"

declare sampling_loop.simps [simp del]

text \<open>
  The queued calls run concurrently: \<open>order\<close> is the order in which they take effect, each on the state the
  calls before it left, and a call that has not run yet leaves the \<open>WaitGroup\<close> waiting. The events of a call are
  sent while it runs.
\<close>

fun run_calls :: "(call \<Rightarrow> 's \<times> event_msg list \<Rightarrow> (response_item \<times> 's \<times> event_msg list) option) \<Rightarrow>
    turn_env \<Rightarrow> call list \<Rightarrow> nat list \<Rightarrow> response_item option list \<times> 's turn_state \<Rightarrow>
    (response_item option list \<times> 's turn_state) option" where
  "run_calls execute env cs [] s = Some s"
| "run_calls execute env cs (i # order) (outs, st) =
     (if length cs \<le> i \<or> outs ! i \<noteq> None then None
      else (case execute (cs ! i) (tn_tools st, []) of
              None \<Rightarrow> None
            | Some (item, s', events) \<Rightarrow>
                run_calls execute env cs order
                  (outs[i := Some item], fold (send_event env) events (st\<lparr>tn_tools := s'\<rparr>))))"

definition record_output :: "turn_env \<Rightarrow> call \<times> response_item \<Rightarrow> 's turn_state \<Rightarrow> 's turn_state" where
  "record_output env co st =
     (let (c, item) = co in
      send_event env (ToolCallCompleted (call_id c) (call_name c) (ri_output item))
        (record_conversation_items [item] st))"

definition run_pending :: "(call \<Rightarrow> 's \<times> event_msg list \<Rightarrow> (response_item \<times> 's \<times> event_msg list) option) \<Rightarrow>
    turn_env \<Rightarrow> call list \<Rightarrow> nat list \<Rightarrow> 's turn_state \<Rightarrow> 's turn_state option" where
  "run_pending execute env cs order st =
     (case run_calls execute env cs order (replicate (length cs) None, st) of
        None \<Rightarrow> None
      | Some (outs, st1) \<Rightarrow>
          (case those outs of
             None \<Rightarrow> None
           | Some items \<Rightarrow> Some (fold (record_output env) (zip cs items) st1)))"

record sampling_result =
  sr_follow_up :: bool
  sr_last_message :: "string option"
  sr_first_token :: "int option"
  sr_usage :: token_usage
  sr_response_id :: string

text \<open>The end of \<open>runSamplingRequest\<close>: the text of an assistant that sent deltas but no item becomes an item.\<close>

definition finish_sampling :: "sampling \<Rightarrow> bool \<Rightarrow> 's turn_state \<Rightarrow> sampling_result \<times> 's turn_state" where
  "finish_sampling sv follow_up st =
     (let (last, st1) =
        (if sv_last_item sv = None \<and> sv_output sv \<noteq> []
         then (Some (new_assistant_message (sv_output sv)),
               record_conversation_items [new_assistant_message (sv_output sv)] st)
         else (sv_last_item sv, st));
          message = (case last of
             Some item \<Rightarrow> if item_text item \<noteq> [] then item_text item else sv_output sv
           | None \<Rightarrow> sv_output sv)
      in (\<lparr>sr_follow_up = follow_up, sr_last_message = (if message \<noteq> [] then Some message else None),
           sr_first_token = sv_first_token sv, sr_usage = sv_usage sv,
           sr_response_id = sv_response_id sv\<rparr>, st1))"

definition run_sampling_request :: "(response_item \<Rightarrow> (build_error, call option) result) \<Rightarrow>
    (build_error \<Rightarrow> string) \<Rightarrow>
    (call \<Rightarrow> 's \<times> event_msg list \<Rightarrow> (response_item \<times> 's \<times> event_msg list) option) \<Rightarrow>
    turn_env \<Rightarrow> stream_msg list \<Rightarrow> nat list \<Rightarrow> response_item list \<Rightarrow> 's turn_state \<Rightarrow>
    ((string, sampling_result) result \<times> 's turn_state) option" where
  "run_sampling_request build err_text execute env ms order input st =
     (if input = [] then Some (Inl ''conversation history is empty'', st)
      else (case sampling_loop build err_text env ms (sampling_start, st) of
        None \<Rightarrow> None
      | Some (Inl e, st1) \<Rightarrow> Some (Inl e, st1)
      | Some (Inr sv, st1) \<Rightarrow>
          if \<not> sv_completed sv then Some (Inl ''model stream closed before response.completed'', st1)
          else if sv_calls sv = [] then
            (case finish_sampling sv (sv_follow_up sv) st1 of (r, st2) \<Rightarrow> Some (Inr r, st2))
          else (case run_pending execute env (sv_calls sv) order st1 of
                  None \<Rightarrow> None
                | Some st2 \<Rightarrow> (case finish_sampling sv True st2 of (r, st3) \<Rightarrow> Some (Inr r, st3)))))"

subsection \<open>The turn\<close>

text \<open>What the outside does during one round of the loop; \<open>us_steers\<close> is the input that arrives while it runs.\<close>

record turn_round =
  us_compaction :: "stream_msg list"
  us_sampling :: "stream_msg list"
  us_order :: "nat list"
  us_steers :: "turn_input list"

record task_result =
  tr_last_message :: "string option"
  tr_first_token :: "int option"
  tr_err :: "string option"
  tr_usage :: token_usage
  tr_response_id :: string

definition turn_start :: task_result where
  "turn_start = \<lparr>tr_last_message = None, tr_first_token = None, tr_err = None, tr_usage = no_usage,
     tr_response_id = []\<rparr>"

text \<open>A failed round reports the error and gives up the usage and the response so far.\<close>

definition turn_failed :: "turn_env \<Rightarrow> string \<Rightarrow> task_result \<Rightarrow> 's turn_state \<Rightarrow> task_result \<times> 's turn_state" where
  "turn_failed env e tr st =
     (\<lparr>tr_last_message = tr_last_message tr, tr_first_token = tr_first_token tr, tr_err = Some e,
       tr_usage = no_usage, tr_response_id = []\<rparr>, send_event env (ErrorEvent e) st)"

definition merge_result :: "sampling_result \<Rightarrow> task_result \<Rightarrow> task_result" where
  "merge_result r tr =
     tr\<lparr>tr_last_message := sr_last_message r, tr_usage := add_usage (tr_usage tr) (Some (sr_usage r)),
        tr_response_id := (if sr_response_id r \<noteq> [] then sr_response_id r else tr_response_id tr),
        tr_first_token := (case sr_first_token r of Some t \<Rightarrow> Some t | None \<Rightarrow> tr_first_token tr)\<rparr>"

text \<open>After a round: the pending input is recorded, and the turn goes on if there was any.\<close>

definition take_up_input :: "turn_env \<Rightarrow> bool \<Rightarrow> 's turn_state \<Rightarrow> bool \<times> 's turn_state" where
  "take_up_input env follow_up st =
     (case take_pending_input follow_up st of
        (input, st1) \<Rightarrow> (follow_up \<or> input \<noteq> [], fold (record_turn_input env) input st1))"

definition maybe_compact :: "turn_env \<Rightarrow> stream_msg list \<Rightarrow> 's turn_state \<Rightarrow>
    (string option \<times> 's turn_state) option" where
  "maybe_compact env ms st =
     (if should_compact env st then compact_history env ms st else Some (None, st))"

fun turn_rounds :: "(response_item \<Rightarrow> (build_error, call option) result) \<Rightarrow>
    (build_error \<Rightarrow> string) \<Rightarrow>
    (call \<Rightarrow> 's \<times> event_msg list \<Rightarrow> (response_item \<times> 's \<times> event_msg list) option) \<Rightarrow>
    turn_env \<Rightarrow> turn_round list \<Rightarrow> task_result \<times> 's turn_state \<Rightarrow>
    (task_result \<times> 's turn_state) option" where
  "turn_rounds build err_text execute env [] s = None"
| "turn_rounds build err_text execute env (u # us) (tr, st) =
     (case maybe_compact env (us_compaction u) st of
        None \<Rightarrow> None
      | Some (Some e, st1) \<Rightarrow> Some (turn_failed env e tr st1)
      | Some (None, st1) \<Rightarrow>
        (case run_sampling_request build err_text execute env (us_sampling u) (us_order u)
                (for_prompt (tn_history st1)) st1 of
           None \<Rightarrow> None
         | Some (Inl e, st2) \<Rightarrow> Some (turn_failed env e tr (snd (enqueue_input (us_steers u) st2)))
         | Some (Inr r, st2) \<Rightarrow>
             (case take_up_input env (sr_follow_up r) (snd (enqueue_input (us_steers u) st2)) of
                (again, st3) \<Rightarrow>
                  if again then turn_rounds build err_text execute env us (merge_result r tr, st3)
                  else Some (merge_result r tr, st3))))"

definition run_turn :: "(response_item \<Rightarrow> (build_error, call option) result) \<Rightarrow>
    (build_error \<Rightarrow> string) \<Rightarrow>
    (call \<Rightarrow> 's \<times> event_msg list \<Rightarrow> (response_item \<times> 's \<times> event_msg list) option) \<Rightarrow>
    turn_env \<Rightarrow> turn_input list \<Rightarrow> turn_round list \<Rightarrow> 's turn_state \<Rightarrow>
    (task_result \<times> 's turn_state) option" where
  "run_turn build err_text execute env input us st =
     turn_rounds build err_text execute env us (turn_start, fold (record_turn_input env) input st)"

definition run_regular_task :: "(response_item \<Rightarrow> (build_error, call option) result) \<Rightarrow>
    (build_error \<Rightarrow> string) \<Rightarrow>
    (call \<Rightarrow> 's \<times> event_msg list \<Rightarrow> (response_item \<times> 's \<times> event_msg list) option) \<Rightarrow>
    turn_env \<Rightarrow> int \<Rightarrow> turn_input list \<Rightarrow> turn_round list \<Rightarrow> 's turn_state \<Rightarrow>
    (task_result \<times> 's turn_state) option" where
  "run_regular_task build err_text execute env started_at input us st =
     (let st1 = send_event env (TurnStarted (te_turn_id env) started_at) st
      in run_turn build err_text execute env input us
           (st1\<lparr>tn_log := tn_log st1 @ [RecTurnContext (te_turn_id env)]\<rparr>))"

text \<open>\<open>onTaskFinished\<close>: \<open>aborted_reason\<close> is the reason of an abort when the context of the task is cancelled.\<close>

record task_times =
  tt_started_at :: int
  tt_completed_at :: int
  tt_duration_ms :: int

definition finished_event :: "turn_env \<Rightarrow> task_times \<Rightarrow> string option \<Rightarrow> task_result \<Rightarrow> event_msg" where
  "finished_event env tt aborted_reason r =
     (case aborted_reason of
        Some reason \<Rightarrow> TurnAborted \<lparr>ta_turn_id = te_turn_id env, ta_reason = reason,
          ta_started_at = tt_started_at tt, ta_completed_at = tt_completed_at tt,
          ta_duration_ms = tt_duration_ms tt\<rparr>
      | None \<Rightarrow> TurnComplete \<lparr>tc_turn_id = te_turn_id env, tc_last_agent_message = tr_last_message r,
          tc_error = tr_err r, tc_started_at = tt_started_at tt, tc_completed_at = tt_completed_at tt,
          tc_duration_ms = tt_duration_ms tt, tc_time_to_first_token = tr_first_token r,
          tc_usage = Some (tr_usage r), tc_response_id = tr_response_id r\<rparr>)"

definition on_task_finished :: "turn_env \<Rightarrow> task_times \<Rightarrow> string option \<Rightarrow> task_result \<Rightarrow> 's turn_state \<Rightarrow>
    's turn_state" where
  "on_task_finished env tt aborted_reason r st = send_event env (finished_event env tt aborted_reason r) st"

text \<open>A whole task: the turn and its last event.\<close>

definition run_task :: "(response_item \<Rightarrow> (build_error, call option) result) \<Rightarrow>
    (build_error \<Rightarrow> string) \<Rightarrow>
    (call \<Rightarrow> 's \<times> event_msg list \<Rightarrow> (response_item \<times> 's \<times> event_msg list) option) \<Rightarrow>
    turn_env \<Rightarrow> task_times \<Rightarrow> string option \<Rightarrow> turn_input list \<Rightarrow> turn_round list \<Rightarrow> 's turn_state \<Rightarrow>
    (task_result \<times> 's turn_state) option" where
  "run_task build err_text execute env tt aborted_reason input us st =
     (case run_regular_task build err_text execute env (tt_started_at tt) input us st of
        None \<Rightarrow> None
      | Some (r, st1) \<Rightarrow> Some (r, on_task_finished env tt aborted_reason r st1))"

subsection \<open>Every change of the history is in the log\<close>

text \<open>The events among the recorded operations, and what a stretch of a turn does to the state.\<close>

fun event_of :: "recorded \<Rightarrow> event_msg list" where
  "event_of (RecEvent m) = [m]"
| "event_of _ = []"

definition logged :: "turn_env \<Rightarrow> recorded list \<Rightarrow> 's turn_state \<Rightarrow> 's turn_state \<Rightarrow> bool" where
  "logged env ops st st' \<longleftrightarrow>
     tn_log st' = tn_log st @ ops \<and> tn_history st' = fold live_history ops (tn_history st) \<and>
     tn_events st' = tn_events st @ map (Pair (te_turn_id env)) (concat (map event_of ops))"

definition grows :: "turn_env \<Rightarrow> 's turn_state \<Rightarrow> 's turn_state \<Rightarrow> bool" where
  "grows env st st' \<longleftrightarrow> (\<exists>ops. logged env ops st st')"

lemma logged_append: "logged env ops st st1 \<Longrightarrow> logged env ops' st1 st2 \<Longrightarrow> logged env (ops @ ops') st st2"
  by (simp add: logged_def)

lemma logged_items: "logged env [RecItems items] st (record_conversation_items items st)"
  by (simp add: logged_def record_conversation_items_def)

lemma logged_event: "logged env [RecEvent m] st (send_event env m st)"
  by (simp add: logged_def send_event_def)

lemma grows_refl [simp]: "grows env st st"
  unfolding grows_def by (rule exI [of _ "[]"]) (simp add: logged_def)

lemma grows_trans [trans]: "grows env st st1 \<Longrightarrow> grows env st1 st2 \<Longrightarrow> grows env st st2"
  unfolding grows_def using logged_append by blast

lemma grows_items [simp]: "grows env st (record_conversation_items items st)"
  unfolding grows_def using logged_items by blast

lemma grows_event [simp]: "grows env st (send_event env m st)"
  unfolding grows_def using logged_event by blast

lemma grows_quiet [simp]:
  "grows env st (st\<lparr>tn_pending := p\<rparr>)" "grows env st (st\<lparr>tn_pending := p, tn_accepting := a\<rparr>)"
  "grows env st (st\<lparr>tn_tools := s\<rparr>)"
  unfolding grows_def by (rule exI [of _ "[]"], simp add: logged_def)+

lemma grows_then_items [simp]: "grows env st st1 \<Longrightarrow> grows env st (record_conversation_items items st1)"
  using grows_trans [OF _ grows_items] .

lemma grows_then_event [simp]: "grows env st st1 \<Longrightarrow> grows env st (send_event env m st1)"
  using grows_trans [OF _ grows_event] .

lemma grows_fold: "(\<And>x st. grows env st (f x st)) \<Longrightarrow> grows env st (fold f xs st)"
proof (induction xs arbitrary: st)
  case (Cons x xs)
  have "grows env st (f x st)" by (rule Cons.prems)
  also have "grows env (f x st) (fold f xs (f x st))" by (rule Cons.IH [OF Cons.prems])
  finally show ?case by simp
qed simp

lemma grows_turn_input: "grows env st (record_turn_input env input st)"
  by (simp add: record_turn_input_def Let_def)

lemma grows_enqueue: "grows env st (snd (enqueue_input input st))"
  by (simp add: enqueue_input_def)

lemma grows_take_up: "grows env st (snd (take_up_input env b st))"
proof -
  have "grows env st (snd (take_pending_input b st))" by (simp add: take_pending_input_def)
  also have "grows env (snd (take_pending_input b st))
      (fold (record_turn_input env) (fst (take_pending_input b st)) (snd (take_pending_input b st)))"
    by (rule grows_fold [OF grows_turn_input])
  finally show ?thesis by (simp add: take_up_input_def case_prod_beta)
qed

lemma grows_compact: "compact_history env ms st = Some (e, st') \<Longrightarrow> grows env st st'"
proof -
  have step: "grows env st (send_event env m (st\<lparr>tn_history := replace_history r (tn_history st),
      tn_log := tn_log st @ [RecCompacted s r t]\<rparr>))" for m r s t
    unfolding grows_def
    by (rule exI [of _ "[RecCompacted s r t, RecEvent m]"]) (simp add: logged_def send_event_def)
  show "compact_history env ms st = Some (e, st') \<Longrightarrow> grows env st st'"
    by (auto simp: compact_history_def Let_def step split: if_splits option.splits sum.splits)
qed

lemma grows_maybe_compact: "maybe_compact env ms st = Some (e, st') \<Longrightarrow> grows env st st'"
  by (auto simp: maybe_compact_def dest: grows_compact split: if_splits)

lemma grows_item_done: "grows env st (snd (item_done build err_text env item (sv, st)))"
  by (auto simp: item_done_def Let_def split: sum.splits option.splits)

lemma grows_sampling_event: "grows env st (snd (sampling_event build err_text env t e (sv, st)))"
  by (auto simp: sampling_event_def Let_def grows_item_done
      split: response_event_type.splits option.splits)

text \<open>An invariant of the loop over the stream is one of the events and of closing a channel.\<close>

lemma sampling_loop_inv:
  assumes event: "\<And>sv st t e. P sv st \<Longrightarrow> P (fst (sampling_event build err_text env t e (sv, st)))
      (snd (sampling_event build err_text env t e (sv, st)))"
    and close: "\<And>sv st. P sv st \<Longrightarrow> P (sv\<lparr>sv_events_open := False\<rparr>) st"
      "\<And>sv st. P sv st \<Longrightarrow> P (sv\<lparr>sv_errors_open := False\<rparr>) st"
  shows "sampling_loop build err_text env ms (sv, st) = Some (r, st') \<Longrightarrow> P sv st \<Longrightarrow>
    (\<exists>sv'. P sv' st' \<and> (\<forall>sv''. r = Inr sv'' \<longrightarrow> sv'' = sv'))"
proof (induction ms arbitrary: sv st)
  case Nil
  then show ?case by (auto simp: sampling_loop.simps [of _ _ _ "[]"] split: if_splits)
next
  case (Cons m ms)
  note run = Cons.prems(1) [unfolded sampling_loop.simps [of _ _ _ "m # ms"]]
  show ?case
  proof (cases "\<not> sv_events_open sv \<and> \<not> sv_errors_open sv")
    case True
    with run Cons.prems(2) show ?thesis by auto
  next
    case False
    show ?thesis
    proof (cases m)
      case (StreamEvent t e)
      let ?s = "if sv_events_open sv then sampling_event build err_text env t e (sv, st) else (sv, st)"
      have "P (fst ?s) (snd ?s)" using Cons.prems(2) event by simp
      moreover from run False StreamEvent have "sampling_loop build err_text env ms (fst ?s, snd ?s) = Some (r, st')"
        by simp
      ultimately show ?thesis using Cons.IH by blast
    next
      case EventsClosed
      with run False Cons.IH [OF _ close(1)] Cons.prems(2) show ?thesis by simp
    next
      case (StreamError e)
      with run False Cons.IH Cons.prems(2) show ?thesis by (auto split: option.splits if_splits)
    next
      case ErrorsClosed
      with run False Cons.IH [OF _ close(2)] Cons.prems(2) show ?thesis by simp
    next
      case (ContextDone e)
      with run False Cons.prems(2) show ?thesis by auto
    qed
  qed
qed

lemma grows_sampling_loop:
  "sampling_loop build err_text env ms (sv, st) = Some (r, st') \<Longrightarrow> grows env st st'"
  using sampling_loop_inv [of "\<lambda>_. grows env st", OF grows_trans [OF _ grows_sampling_event]] by auto

lemma grows_run_calls:
  "run_calls execute env cs order (outs, st) = Some (outs', st') \<Longrightarrow> grows env st st'"
proof (induction order arbitrary: outs st)
  case (Cons i order)
  then obtain item s' events where
    "run_calls execute env cs order (outs[i := Some item],
       fold (send_event env) events (st\<lparr>tn_tools := s'\<rparr>)) = Some (outs', st')"
    by (auto split: if_splits option.splits)
  from Cons.IH [OF this] have rest: "grows env (fold (send_event env) events (st\<lparr>tn_tools := s'\<rparr>)) st'" .
  have "grows env st (st\<lparr>tn_tools := s'\<rparr>)" by simp
  also have "grows env (st\<lparr>tn_tools := s'\<rparr>) (fold (send_event env) events (st\<lparr>tn_tools := s'\<rparr>))"
    by (rule grows_fold) simp
  finally show ?case using rest by (rule grows_trans)
qed simp

lemma grows_run_pending:
  "run_pending execute env cs order st = Some st' \<Longrightarrow> grows env st st'"
proof -
  assume "run_pending execute env cs order st = Some st'"
  then obtain outs st1 items where "run_calls execute env cs order (replicate (length cs) None, st) = Some (outs, st1)"
    and st': "st' = fold (record_output env) (zip cs items) st1"
    by (auto simp: run_pending_def split: option.splits prod.splits)
  then have "grows env st st1" by (blast dest: grows_run_calls)
  also have "grows env st1 st'"
    unfolding st' by (rule grows_fold) (auto simp: record_output_def)
  finally show ?thesis .
qed

lemma grows_finish: "grows env st (snd (finish_sampling sv b st))"
  by (auto simp: finish_sampling_def Let_def split: option.splits)

lemma grows_sampling:
  "run_sampling_request build err_text execute env ms order input st = Some (r, st') \<Longrightarrow> grows env st st'"
proof -
  assume r: "run_sampling_request build err_text execute env ms order input st = Some (r, st')"
  show ?thesis
  proof (cases "input = []")
    case True
    with r show ?thesis by (simp add: run_sampling_request_def)
  next
    case False
    with r obtain s st1 where loop: "sampling_loop build err_text env ms (sampling_start, st) = Some (s, st1)"
      by (auto simp: run_sampling_request_def split: option.splits)
    note start = grows_sampling_loop [OF loop]
    show ?thesis
    proof (cases s)
      case (Inr sv)
      with r False loop consider "st' = st1" | "st' = snd (finish_sampling sv (sv_follow_up sv) st1)"
        | st2 where "run_pending execute env (sv_calls sv) order st1 = Some st2"
            "st' = snd (finish_sampling sv True st2)"
        by (auto simp: run_sampling_request_def case_prod_beta split: if_splits option.splits)
      then show ?thesis
      proof cases
        case 1
        with start show ?thesis by simp
      next
        case 2
        with grows_trans [OF start grows_finish] show ?thesis by simp
      next
        case (3 st2)
        with grows_trans [OF grows_trans [OF start grows_run_pending [OF 3(1)]] grows_finish]
        show ?thesis by simp
      qed
    qed (use r False loop start in \<open>simp add: run_sampling_request_def\<close>)
  qed
qed


lemma grows_turn_failed: "grows env st (snd (turn_failed env e tr st))"
  by (simp add: turn_failed_def)

text \<open>The ways a round can end.\<close>

lemma round_cases [consumes 1, case_names compaction_failed sampling_failed again finished]:
  assumes "turn_rounds build err_text execute env (u # us) (tr, st) = Some (r, st')"
  obtains e st1 where "maybe_compact env (us_compaction u) st = Some (Some e, st1)"
      "(r, st') = turn_failed env e tr st1"
    | st1 e st2 where "maybe_compact env (us_compaction u) st = Some (None, st1)"
      "run_sampling_request build err_text execute env (us_sampling u) (us_order u)
         (for_prompt (tn_history st1)) st1 = Some (Inl e, st2)"
      "(r, st') = turn_failed env e tr (snd (enqueue_input (us_steers u) st2))"
    | st1 x st2 st3 where "maybe_compact env (us_compaction u) st = Some (None, st1)"
      "run_sampling_request build err_text execute env (us_sampling u) (us_order u)
         (for_prompt (tn_history st1)) st1 = Some (Inr x, st2)"
      "take_up_input env (sr_follow_up x) (snd (enqueue_input (us_steers u) st2)) = (True, st3)"
      "turn_rounds build err_text execute env us (merge_result x tr, st3) = Some (r, st')"
    | st1 x st2 where "maybe_compact env (us_compaction u) st = Some (None, st1)"
      "run_sampling_request build err_text execute env (us_sampling u) (us_order u)
         (for_prompt (tn_history st1)) st1 = Some (Inr x, st2)"
      "take_up_input env (sr_follow_up x) (snd (enqueue_input (us_steers u) st2)) = (False, st')"
      "r = merge_result x tr"
  using assms by (auto split: option.splits sum.splits prod.splits if_splits)

lemma grows_rounds:
  "turn_rounds build err_text execute env us (tr, st) = Some (r, st') \<Longrightarrow> grows env st st'"
proof (induction us arbitrary: tr st)
  case (Cons u us)
  from Cons.prems show ?case
  proof (cases rule: round_cases)
    case (compaction_failed e st1)
    with grows_trans [OF grows_maybe_compact grows_turn_failed] show ?thesis by (metis snd_conv)
  next
    case (sampling_failed st1 e st2)
    have "grows env st (snd (enqueue_input (us_steers u) st2))"
      by (rule grows_trans [OF grows_maybe_compact [OF sampling_failed(1)]
          grows_trans [OF grows_sampling [OF sampling_failed(2)] grows_enqueue]])
    from grows_trans [OF this grows_turn_failed] show ?thesis using sampling_failed(3) by (metis snd_conv)
  next
    case (again st1 x st2 st3)
    note start = grows_trans [OF grows_maybe_compact [OF again(1)]
        grows_trans [OF grows_sampling [OF again(2)] grows_enqueue]]
    have "grows env st (snd (take_up_input env (sr_follow_up x) (snd (enqueue_input (us_steers u) st2))))"
      by (rule grows_trans [OF start grows_take_up])
    with again(3) have "grows env st st3" by simp
    from grows_trans [OF this Cons.IH [OF again(4)]] show ?thesis .
  next
    case (finished st1 x st2)
    note start = grows_trans [OF grows_maybe_compact [OF finished(1)]
        grows_trans [OF grows_sampling [OF finished(2)] grows_enqueue]]
    have "grows env st (snd (take_up_input env (sr_follow_up x) (snd (enqueue_input (us_steers u) st2))))"
      by (rule grows_trans [OF start grows_take_up])
    with finished(3) show ?thesis by simp
  qed
qed simp

lemma logged_turn_context:
  "logged env [RecTurnContext t] st (st\<lparr>tn_log := tn_log st @ [RecTurnContext t]\<rparr>)"
  by (simp add: logged_def)

lemma run_regular_task_rounds:
  assumes "run_regular_task build err_text execute env at input us st = Some (r, st')"
  obtains st1 where "logged env [RecEvent (TurnStarted (te_turn_id env) at), RecTurnContext (te_turn_id env)] st st1"
    and "turn_rounds build err_text execute env us (turn_start, fold (record_turn_input env) input st1) = Some (r, st')"
    and "tn_pending st1 = tn_pending st" "tn_accepting st1 = tn_accepting st"
proof
  let ?st1 = "send_event env (TurnStarted (te_turn_id env) at) st"
  let ?st2 = "?st1\<lparr>tn_log := tn_log ?st1 @ [RecTurnContext (te_turn_id env)]\<rparr>"
  show "logged env [RecEvent (TurnStarted (te_turn_id env) at), RecTurnContext (te_turn_id env)] st ?st2"
    using logged_append [OF logged_event logged_turn_context] by simp
  show "turn_rounds build err_text execute env us (turn_start, fold (record_turn_input env) input ?st2) = Some (r, st')"
    using assms by (simp add: run_regular_task_def run_turn_def Let_def)
qed (simp_all add: send_event_def)

lemma run_task_logged:
  assumes "run_task build err_text execute env tt reason input us st = Some (r, st')"
  shows "\<exists>ops. logged env (RecEvent (TurnStarted (te_turn_id env) (tt_started_at tt)) #
      RecTurnContext (te_turn_id env) # ops @ [RecEvent (finished_event env tt reason r)]) st st'"
proof -
  from assms obtain st2 where t: "run_regular_task build err_text execute env (tt_started_at tt) input us st = Some (r, st2)"
    and st': "st' = send_event env (finished_event env tt reason r) st2"
    by (auto simp: run_task_def on_task_finished_def split: option.splits)
  from t obtain st1 where
    s: "logged env [RecEvent (TurnStarted (te_turn_id env) (tt_started_at tt)), RecTurnContext (te_turn_id env)] st st1"
    and r: "turn_rounds build err_text execute env us (turn_start, fold (record_turn_input env) input st1) = Some (r, st2)"
    by (rule run_regular_task_rounds)
  have "grows env st1 (fold (record_turn_input env) input st1)" by (rule grows_fold [OF grows_turn_input])
  from grows_trans [OF this grows_rounds [OF r]] obtain ops where "logged env ops st1 st2"
    unfolding grows_def by blast
  from logged_append [OF logged_append [OF s this] logged_event] show ?thesis
    unfolding st' by (intro exI [of _ ops]) simp
qed



definition sample_turn_env :: turn_env where
  "sample_turn_env = \<lparr>te_turn_id = ''t1'', te_window = 0, te_instructions = (\<lambda>_. []), te_render = (\<lambda>_. [])\<rparr>"

definition sample_delta :: "string \<Rightarrow> stream_msg" where
  "sample_delta s = StreamEvent 3 \<lparr>re_type = ResponseOutputTextDelta, re_delta = s, re_item = None,
     re_response_id = [], re_usage = None\<rparr>"

definition sample_item :: "response_item \<Rightarrow> stream_msg" where
  "sample_item i = StreamEvent 4 \<lparr>re_type = ResponseOutputItemDone, re_delta = [], re_item = Some i,
     re_response_id = [], re_usage = None\<rparr>"

definition sample_end :: "stream_msg list" where
  "sample_end = [StreamEvent 5 \<lparr>re_type = ResponseCompleted, re_delta = [], re_item = None,
     re_response_id = ''r1'', re_usage = None\<rparr>, EventsClosed, ErrorsClosed]"

definition sample_echo_call :: response_item where
  "sample_echo_call = empty_item\<lparr>ri_type := ''function_call'', ri_call_id := ''c1'', ri_name := ''echo''\<rparr>"

definition sample_rounds :: "turn_round list" where
  "sample_rounds =
     [\<lparr>us_compaction = [], us_sampling = sample_item sample_echo_call # sample_end, us_order = [0],
       us_steers = [\<lparr>ti_text = ''faster'', ti_image_urls = []\<rparr>]\<rparr>,
      \<lparr>us_compaction = [], us_sampling = sample_delta ''done'' # sample_end, us_order = [], us_steers = []\<rparr>]"

definition sample_times :: task_times where
  "sample_times = \<lparr>tt_started_at = 1, tt_completed_at = 2, tt_duration_ms = 900\<rparr>"

definition fresh_turn :: "unit turn_state" where
  "fresh_turn = \<lparr>tn_history = [], tn_log = [], tn_events = [], tn_tools = (), tn_pending = [], tn_accepting = True\<rparr>"

definition sample_execute :: "call \<Rightarrow> unit \<times> event_msg list \<Rightarrow> (response_item \<times> unit \<times> event_msg list) option" where
  "sample_execute = router_execute (\<lambda>s. s) (\<lambda>_. ''error'') (\<lambda>_ _ _. None) new_router"

definition sample_task :: "(task_result \<times> unit turn_state) option" where
  "sample_task = run_task build_tool_call (\<lambda>_. []) sample_execute sample_turn_env sample_times None
     [\<lparr>ti_text = ''go'', ti_image_urls = []\<rparr>] sample_rounds fresh_turn"

lemma sample_task_runs: "case sample_task of Some (r, st) \<Rightarrow> tr_err r = None \<and> tn_history st =
    [new_user_message ''go'', sample_echo_call, new_function_call_output ''c1'' ''tool echo is not registered'',
     new_user_message ''faster'', new_assistant_message ''done''] | None \<Rightarrow> False"
  by code_simp


subsection \<open>Every call is answered\<close>

text \<open>Each call with an identifier has an output, or its identifier is among \<open>ids\<close>.\<close>

definition answered_but :: "string set \<Rightarrow> history \<Rightarrow> bool" where
  "answered_but ids h \<longleftrightarrow>
     (\<forall>c \<in> set h. is_call c \<and> ri_call_id c \<noteq> [] \<longrightarrow> ri_call_id c \<in> ids \<union> set (output_ids h))"

definition answered :: "history \<Rightarrow> bool" where
  "answered h \<longleftrightarrow> answered_but {} h"

lemma output_ids_append [simp]: "output_ids (xs @ ys) = output_ids xs @ output_ids ys"
  by (simp add: output_ids_def)

lemma answered_append:
  "answered_but ids h \<Longrightarrow> answered_but (ids \<union> set (output_ids h)) items \<Longrightarrow> answered_but ids (h @ items)"
  by (auto simp: answered_but_def)

lemma answered_no_calls: "\<forall>i \<in> set items. \<not> is_call i \<Longrightarrow> answered_but ids items"
  by (simp add: answered_but_def)

lemma answered_more: "answered_but ids h \<Longrightarrow> answered_but (insert x ids) h"
  by (auto simp: answered_but_def)

lemma answered_extend: "answered_but ids h \<Longrightarrow> \<forall>i \<in> set items. \<not> is_call i \<Longrightarrow> answered_but ids (h @ items)"
  by (rule answered_append, assumption, rule answered_no_calls)

lemma answered_items:
  "answered_but ids (tn_history st) \<Longrightarrow> \<forall>i \<in> set items. \<not> is_call i \<Longrightarrow>
    answered_but ids (tn_history (record_conversation_items items st))"
  by (simp add: record_conversation_items_def record_items_def answered_append answered_no_calls)

lemma history_event [simp]: "tn_history (send_event env m st) = tn_history st"
  by (simp add: send_event_def)

lemma history_events [simp]: "tn_history (fold (send_event env) ms st) = tn_history st"
  by (induction ms arbitrary: st) simp_all

lemma message_not_call [simp]:
  "\<not> is_call (new_user_message_with_images t us)" "\<not> is_call (new_developer_message t)"
  "\<not> is_call (new_assistant_message t)" "\<not> is_call (new_function_call_output c v)"
  by (simp_all add: is_call_def)

lemma answered_turn_input:
  "answered_but ids (tn_history st) \<Longrightarrow> answered_but ids (tn_history (record_turn_input env input st))"
  by (simp add: record_turn_input_def Let_def answered_items)

lemma answered_turn_inputs:
  "answered_but ids (tn_history st) \<Longrightarrow> answered_but ids (tn_history (fold (record_turn_input env) input st))"
  by (induction input arbitrary: st) (simp_all add: answered_turn_input)

lemma replacement_messages:
  assumes "i \<in> set (replacement_history summary p)"
  shows "is_user_message i"
proof (cases "find is_user_message (rev p)")
  case (Some x)
  then have "is_user_message x" by (auto simp: find_Some_iff)
  with Some assms show ?thesis by (auto simp: replacement_history_def is_user_message_def)
qed (use assms in \<open>simp add: replacement_history_def is_user_message_def\<close>)

lemma compact_state:
  assumes "compact_history env ms st = Some (None, st')" and "for_prompt (tn_history st) \<noteq> []"
  obtains summary where "tn_history st' = replacement_history summary (for_prompt (tn_history st))"
    and "trim_space summary \<noteq> []"
proof -
  from assms obtain cp where cp: "compaction_loop ms compaction_start = Some (Inr cp)" "cp_completed cp"
    "trim_space (cp_summary cp) \<noteq> []"
    by (auto simp: compact_history_def Let_def split: if_splits option.splits sum.splits)
  let ?r = "replacement_history (cp_summary cp) (for_prompt (tn_history st))"
  from assms cp have h: "tn_history st' = replace_history ?r (tn_history st)"
    by (auto simp: compact_history_def Let_def)
  have "\<forall>i \<in> set ?r. recordable i"
    using replacement_messages by (auto simp: recordable_def is_user_message_def)
  then have "tn_history st' = ?r"
    by (simp add: h replace_history_def restore_def filter_id_conv)
  with cp(3) show ?thesis by (intro that)
qed

lemma user_message_not_call: "is_user_message i \<Longrightarrow> \<not> is_call i \<and> \<not> is_output i"
  by (simp add: is_user_message_def is_call_def is_output_def)

lemma maybe_compact_answered:
  assumes "maybe_compact env ms st = Some (None, st')" and "answered (tn_history st)"
  shows "answered (tn_history st')"
proof (cases "should_compact env st")
  case True
  then have "for_prompt (tn_history st) \<noteq> []" by (auto simp: should_compact_def)
  moreover from True assms(1) have "compact_history env ms st = Some (None, st')" by (simp add: maybe_compact_def)
  ultimately obtain summary where "tn_history st' = replacement_history summary (for_prompt (tn_history st))"
    using compact_state by metis
  then show ?thesis
    unfolding answered_def using replacement_messages user_message_not_call by (intro answered_no_calls) metis
next
  case False
  with assms show ?thesis by (simp add: maybe_compact_def)
qed

lemma history_enqueue [simp]: "tn_history (snd (enqueue_input input st)) = tn_history st"
  by (simp add: enqueue_input_def)

lemma answered_take_up:
  "answered_but ids (tn_history st) \<Longrightarrow> answered_but ids (tn_history (snd (take_up_input env b st)))"
  unfolding take_up_input_def case_prod_beta snd_conv
  by (rule answered_turn_inputs) (simp add: take_pending_input_def)

text \<open>The tools as a turn uses them: their events come beside the state.\<close>

locale turn_tools = tool_router build execute
  for build :: "response_item \<Rightarrow> (build_error, call option) result"
    and execute :: "call \<Rightarrow> 's \<times> event_msg list \<Rightarrow> (response_item \<times> 's \<times> event_msg list) option"
begin

definition awaited :: "sampling \<Rightarrow> 's turn_state \<Rightarrow> bool" where
  "awaited sv st \<longleftrightarrow> answered_but (set (map call_id (sv_calls sv))) (tn_history st)"

lemma item_done_awaited:
  assumes "awaited sv st"
  shows "awaited (fst (item_done build err_text env item (sv, st))) (snd (item_done build err_text env item (sv, st)))"
proof -
  let ?st1 = "record_conversation_items [item] st"
  have other: "awaited sv1 ?st1" if "\<not> is_call item" "sv_calls sv1 = sv_calls sv" for sv1
    using that assms unfolding awaited_def by (simp add: answered_items)
  show ?thesis
  proof (cases "build item")
    case (Inl e)
    let ?cid = "if ri_call_id item = [] then invalid_call_id else ri_call_id item"
    have "answered_but (set (map call_id (sv_calls sv)))
        (tn_history st @ (filter recordable [item] @ [new_function_call_output ?cid (err_text e)]))"
      by (rule answered_append [OF assms [unfolded awaited_def]])
         (auto simp: answered_but_def output_ids_def is_output_def is_call_def)
    then show ?thesis
      by (auto simp: item_done_def Let_def Inl awaited_def record_conversation_items_def record_items_def
          recordable_def [of "new_function_call_output c v" for c v] split: if_splits)
  next
    case (Inr x)
    show ?thesis
    proof (cases x)
      case None
      with build_named [of item] Inr have "\<not> is_call item" by (auto simp: is_call_def)
      with other show ?thesis by (simp add: item_done_def Let_def Inr None)
    next
      case (Some c)
      with build_call [of item c] Inr have c: "call_id c = ri_call_id item" by simp
      have "answered_but (set (map call_id (sv_calls sv @ [c]))) (tn_history st @ filter recordable [item])"
        by (rule answered_append) (use assms in \<open>auto simp: awaited_def answered_but_def c\<close>)
      then show ?thesis
        by (auto simp: item_done_def Let_def Inr Some awaited_def record_conversation_items_def record_items_def
            split: if_splits)
    qed
  qed
qed

lemma sampling_event_awaited:
  assumes "awaited sv st"
  shows "awaited (fst (sampling_event build err_text env t e (sv, st)))
    (snd (sampling_event build err_text env t e (sv, st)))"
  using assms item_done_awaited [OF assms]
  by (auto simp: sampling_event_def awaited_def split: response_event_type.splits option.splits)

lemma sampling_loop_awaited:
  assumes "sampling_loop build err_text env ms (sv, st) = Some (Inr sv', st')" "awaited sv st"
  shows "awaited sv' st'"
  using sampling_loop_inv [of awaited, OF sampling_event_awaited _ _ assms]
  by (auto simp: awaited_def)

lemma run_calls_outputs:
  "run_calls execute env cs order (outs, st) = Some (outs', st') \<Longrightarrow> length outs = length cs \<Longrightarrow>
    \<forall>i < length cs. \<forall>item. outs ! i = Some item \<longrightarrow> is_output item \<and> ri_call_id item = call_id (cs ! i) \<Longrightarrow>
    length outs' = length cs \<and> tn_history st' = tn_history st \<and>
    (\<forall>i < length cs. \<forall>item. outs' ! i = Some item \<longrightarrow> is_output item \<and> ri_call_id item = call_id (cs ! i))"
proof (induction order arbitrary: outs st)
  case (Cons i order)
  from Cons.prems(1) obtain item s' events where e: "execute (cs ! i) (tn_tools st, []) = Some (item, s', events)"
    and rest: "run_calls execute env cs order (outs[i := Some item],
       fold (send_event env) events (st\<lparr>tn_tools := s'\<rparr>)) = Some (outs', st')"
    and i: "i < length cs"
    by (auto split: if_splits option.splits)
  note out = execute_output [OF e]
  have "\<forall>j < length cs. \<forall>x. outs[i := Some item] ! j = Some x \<longrightarrow> is_output x \<and> ri_call_id x = call_id (cs ! j)"
    using Cons.prems(2,3) out i by (auto simp: nth_list_update is_output_def split: if_splits)
  with Cons.IH [OF rest] Cons.prems(2) show ?case by simp
qed simp

lemma those_nth: "those xs = Some ys \<Longrightarrow> length ys = length xs \<and> (\<forall>i < length xs. xs ! i = Some (ys ! i))"
  by (induction xs arbitrary: ys) (auto split: option.splits simp: nth_Cons split: nat.splits)

lemma record_outputs:
  "length cs = length items \<Longrightarrow> list_all is_output items \<Longrightarrow>
    tn_history (fold (record_output env) (zip cs items) st) = tn_history st @ items"
  by (induction cs items arbitrary: st rule: list_induct2)
     (auto simp: record_output_def record_conversation_items_def record_items_def recordable_def is_output_def)

lemma run_pending_outputs:
  assumes "run_pending execute env cs order st = Some st'"
  shows "\<exists>items. tn_history st' = tn_history st @ items \<and> map ri_call_id items = map call_id cs \<and>
    list_all is_output items"
proof -
  from assms obtain outs st1 items where
    run: "run_calls execute env cs order (replicate (length cs) None, st) = Some (outs, st1)"
    and items: "those outs = Some items" and st': "st' = fold (record_output env) (zip cs items) st1"
    by (auto simp: run_pending_def split: option.splits)
  from run_calls_outputs [OF run] have outs: "length outs = length cs" "tn_history st1 = tn_history st"
    "\<forall>i < length cs. \<forall>item. outs ! i = Some item \<longrightarrow> is_output item \<and> ri_call_id item = call_id (cs ! i)"
    by simp_all
  from those_nth [OF items] outs(1) have len: "length items = length cs"
    and nth: "\<forall>i < length cs. outs ! i = Some (items ! i)" by simp_all
  with outs(3) have "\<forall>i < length items. is_output (items ! i) \<and> ri_call_id (items ! i) = call_id (cs ! i)" by simp
  then have "list_all is_output items" "map ri_call_id items = map call_id cs"
    using len by (auto simp: list_all_length intro!: nth_equalityI)
  with record_outputs len outs(2) show ?thesis unfolding st' by metis
qed

lemma finish_history: "\<exists>items. tn_history (snd (finish_sampling sv b st)) = tn_history st @ items \<and>
    (\<forall>i \<in> set items. \<not> is_call i)"
  by (auto simp: finish_sampling_def Let_def record_conversation_items_def record_items_def split: option.splits)

lemma finish_answered: "answered (tn_history st) \<Longrightarrow> answered (tn_history (snd (finish_sampling sv b st)))"
  using finish_history [of sv b st] unfolding answered_def by (metis answered_extend)

lemma sampling_answered:
  assumes "run_sampling_request build err_text execute env ms order input st = Some (Inr r, st')"
    and "answered (tn_history st)"
  shows "answered (tn_history st')"
proof -
  from assms(1) obtain sv st1 where loop: "sampling_loop build err_text env ms (sampling_start, st) = Some (Inr sv, st1)"
    by (auto simp: run_sampling_request_def split: if_splits option.splits sum.splits)
  have "awaited sampling_start st"
    using assms(2) by (simp add: awaited_def sampling_start_def answered_def)
  from sampling_loop_awaited [OF loop this] have w: "awaited sv st1" .
  show ?thesis
  proof (cases "sv_calls sv = []")
    case True
    with w have "answered (tn_history st1)" by (simp add: awaited_def answered_def)
    with assms(1) loop True show ?thesis
      by (auto simp: run_sampling_request_def case_prod_beta split: if_splits dest: finish_answered)
  next
    case False
    with assms(1) loop obtain st2 where p: "run_pending execute env (sv_calls sv) order st1 = Some st2"
      and st': "st' = snd (finish_sampling sv True st2)"
      by (auto simp: run_sampling_request_def case_prod_beta split: if_splits option.splits)
    from run_pending_outputs [OF p] obtain items where items: "tn_history st2 = tn_history st1 @ items"
      "map ri_call_id items = map call_id (sv_calls sv)" "list_all is_output items" by auto
    have "ri_call_id c \<in> set (output_ids items)" if "ri_call_id c \<in> set (map call_id (sv_calls sv))" "ri_call_id c \<noteq> []" for c
      using that items(2,3) unfolding items(2) [symmetric] by (auto simp: output_ids_def list_all_iff)
    moreover have "\<forall>i \<in> set items. \<not> is_call i"
      using items(3) by (auto simp: list_all_iff is_output_def is_call_def)
    ultimately have "answered (tn_history st2)"
      using w unfolding answered_def awaited_def answered_but_def items(1) output_ids_append set_append
      by (metis UnCI UnE empty_iff)
    then show ?thesis unfolding st' by (rule finish_answered)
  qed
qed

lemma rounds_answered:
  "turn_rounds build err_text execute env us (tr, st) = Some (r, st') \<Longrightarrow> tr_err r = None \<Longrightarrow>
    answered (tn_history st) \<Longrightarrow> answered (tn_history st')"
proof (induction us arbitrary: tr st)
  case (Cons u us)
  have take: "answered (tn_history (snd (take_up_input env b (snd (enqueue_input us' s)))))"
    if "answered (tn_history s)" for b us' and s :: "'s turn_state"
    using that unfolding answered_def by (intro answered_take_up) simp
  from Cons.prems(1) show ?case
  proof (cases rule: round_cases)
    case (again st1 x st2 st3)
    from sampling_answered [OF again(2)] maybe_compact_answered [OF again(1)] Cons.prems(3)
    have "answered (tn_history st2)" by blast
    from take [OF this, of "sr_follow_up x" "us_steers u"] again(3) have "answered (tn_history st3)" by simp
    with Cons.IH [OF again(4) Cons.prems(2)] show ?thesis by blast
  next
    case (finished st1 x st2)
    from sampling_answered [OF finished(2)] maybe_compact_answered [OF finished(1)] Cons.prems(3)
    have "answered (tn_history st2)" by blast
    from take [OF this, of "sr_follow_up x" "us_steers u"] finished(3) show ?thesis by simp
  qed (use Cons.prems(2) in \<open>simp_all add: turn_failed_def\<close>)
qed simp

end

lemma tool_turn_tools: "turn_tools build_tool_call (router_execute quote err_text run rt)"
  unfolding turn_tools_def by (rule rt.tool_router_axioms)

interpretation tt: turn_tools build_tool_call "router_execute quote err_text run rt"
  for quote err_text run rt
  by (rule tool_turn_tools)

text \<open>
  Property C34. Concurrent calls are answered in order: whatever order the calls of a response take effect in, the
  history afterwards has one output per call, in the order in which the model made the calls.
\<close>

theorem outputs_in_call_order:
  assumes "run_pending (router_execute quote err_text run rt) env cs order st = Some st'"
  shows "\<exists>items. tn_history st' = tn_history st @ items \<and> map ri_call_id items = map call_id cs \<and>
    list_all is_output items"
  by (rule tt.run_pending_outputs [OF assms])

definition two_calls :: "call list" where
  "two_calls = [\<lparr>call_id = ''a'', call_name = ''echo'', call_arguments = []\<rparr>,
     \<lparr>call_id = ''b'', call_name = ''echo'', call_arguments = []\<rparr>]"

lemma two_calls_run:
  "run_pending sample_execute sample_turn_env two_calls [1, 0] fresh_turn \<noteq> None"
  by code_simp

theorem outputs_in_call_order_witness:
  "case run_pending sample_execute sample_turn_env two_calls [1, 0] fresh_turn of
     Some st \<Rightarrow> map ri_call_id (tn_history st) = [''a'', ''b''] | None \<Rightarrow> False"
proof -
  obtain st where run: "run_pending sample_execute sample_turn_env two_calls [1, 0] fresh_turn = Some st"
    using two_calls_run by blast
  from outputs_in_call_order [OF run [unfolded sample_execute_def]] have "map ri_call_id (tn_history st) = map call_id two_calls"
    by (auto simp: fresh_turn_def)
  with run show ?thesis by (simp add: two_calls_def)
qed



subsection \<open>Input that arrives during a turn\<close>

text \<open>The rounds that ran decide the result, and the input that arrived during them is recorded.\<close>

definition user_entry :: "turn_input \<Rightarrow> recorded" where
  "user_entry i = RecItems [new_user_message_with_images (ti_text i) (ti_image_urls i)]"

definition noted :: "turn_input list \<Rightarrow> 's turn_state \<Rightarrow> bool" where
  "noted input st \<longleftrightarrow> (\<forall>i \<in> set input. user_entry i \<in> set (tn_log st))"

lemma noted_grows: "grows env st st' \<Longrightarrow> noted input st \<Longrightarrow> noted input st'"
  by (auto simp: grows_def logged_def noted_def)

lemma noted_turn_input: "noted [i] (record_turn_input env i st)"
  by (simp add: noted_def user_entry_def record_turn_input_def record_conversation_items_def Let_def)

lemma noted_turn_inputs: "noted input (fold (record_turn_input env) input st)"
proof (induction input arbitrary: st)
  case (Cons i input)
  have "grows env (record_turn_input env i st) (fold (record_turn_input env) input (record_turn_input env i st))"
    by (rule grows_fold [OF grows_turn_input])
  from noted_grows [OF this noted_turn_input] Cons show ?case by (simp add: noted_def)
qed (simp add: noted_def)

text \<open>Nothing but \<open>take_pending_input\<close> changes the queue or closes it.\<close>

definition same_queue :: "'s turn_state \<Rightarrow> 's turn_state \<Rightarrow> bool" where
  "same_queue st st' \<longleftrightarrow> tn_pending st' = tn_pending st \<and> tn_accepting st' = tn_accepting st"

lemma same_queue_simps [simp]:
  "same_queue st st" "same_queue st (record_conversation_items items st')  \<longleftrightarrow> same_queue st st'"
  "same_queue st (send_event env m st') \<longleftrightarrow> same_queue st st'"
  "same_queue st (st'\<lparr>tn_tools := s\<rparr>) \<longleftrightarrow> same_queue st st'"
  by (simp_all add: same_queue_def record_conversation_items_def send_event_def)

lemma same_queue_fold: "(\<And>x s. same_queue st s \<Longrightarrow> same_queue st (f x s)) \<Longrightarrow> same_queue st s \<Longrightarrow> same_queue st (fold f xs s)"
  by (induction xs arbitrary: s) simp_all

lemma same_queue_turn_input: "same_queue st s \<Longrightarrow> same_queue st (record_turn_input env i s)"
  by (simp add: record_turn_input_def Let_def)

lemma same_queue_compact: "maybe_compact env ms st = Some (e, st') \<Longrightarrow> same_queue st st'"
  by (auto simp: maybe_compact_def compact_history_def Let_def same_queue_def send_event_def
      split: if_splits option.splits sum.splits)

lemma same_queue_event: "same_queue st s \<Longrightarrow> same_queue st (snd (sampling_event build err_text env t e (sv, s)))"
  by (auto simp: sampling_event_def item_done_def Let_def
      split: response_event_type.splits option.splits sum.splits)

lemma same_queue_loop: "sampling_loop build err_text env ms (sv, st) = Some (r, st') \<Longrightarrow> same_queue st st'"
  using sampling_loop_inv [of "\<lambda>_. same_queue st", OF same_queue_event] by auto

lemma same_queue_calls:
  "run_calls execute env cs order (outs, s) = Some (outs', s') \<Longrightarrow> same_queue st s \<Longrightarrow> same_queue st s'"
proof (induction order arbitrary: outs s)
  case (Cons i order)
  then obtain item s1 events where rest: "run_calls execute env cs order (outs[i := Some item],
       fold (send_event env) events (s\<lparr>tn_tools := s1\<rparr>)) = Some (outs', s')"
    by (auto split: if_splits option.splits)
  from Cons.IH [OF rest same_queue_fold] Cons.prems(2) show ?case by simp
qed simp

lemma same_queue_pending:
  assumes "run_pending execute env cs order st = Some st'"
  shows "same_queue st st'"
proof -
  from assms obtain outs s1 items where run: "run_calls execute env cs order (replicate (length cs) None, st) = Some (outs, s1)"
    and st': "st' = fold (record_output env) (zip cs items) s1"
    by (auto simp: run_pending_def split: option.splits)
  from same_queue_calls [OF run] have "same_queue st s1" by simp
  then show ?thesis unfolding st' by (rule same_queue_fold [rotated]) (auto simp: record_output_def)
qed

lemma same_queue_finish: "same_queue st s \<Longrightarrow> same_queue st (snd (finish_sampling sv b s))"
  by (auto simp: finish_sampling_def Let_def split: option.splits)

lemma same_queue_trans: "same_queue st s \<Longrightarrow> same_queue s s' \<Longrightarrow> same_queue st s'"
  by (simp add: same_queue_def)

lemma same_queue_sampling:
  assumes "run_sampling_request build err_text execute env ms order input st = Some (Inr r, st')"
  shows "same_queue st st'"
proof -
  from assms obtain sv s1 where loop: "sampling_loop build err_text env ms (sampling_start, st) = Some (Inr sv, s1)"
    by (auto simp: run_sampling_request_def split: if_splits option.splits sum.splits)
  note q = same_queue_loop [OF loop]
  show ?thesis
  proof (cases "sv_calls sv = []")
    case True
    with assms loop q show ?thesis
      by (auto simp: run_sampling_request_def case_prod_beta split: if_splits intro: same_queue_finish)
  next
    case False
    with assms loop obtain s2 where p: "run_pending execute env (sv_calls sv) order s1 = Some s2"
      and st': "st' = snd (finish_sampling sv True s2)"
      by (auto simp: run_sampling_request_def case_prod_beta split: if_splits option.splits)
    show ?thesis unfolding st'
      by (rule same_queue_finish [OF same_queue_trans [OF q same_queue_pending [OF p]]])
  qed
qed

lemma take_up_state:
  assumes "take_up_input env b st = (g, st')" "tn_accepting st"
  shows "g \<longleftrightarrow> b \<or> tn_pending st \<noteq> []" "noted (tn_pending st) st'" "tn_pending st' = []" "tn_accepting st' = g"
proof -
  let ?s = "st\<lparr>tn_pending := [], tn_accepting := (if tn_pending st = [] \<and> \<not> b then False else tn_accepting st)\<rparr>"
  from assms(1) have g: "g \<longleftrightarrow> b \<or> tn_pending st \<noteq> []" and st': "st' = fold (record_turn_input env) (tn_pending st) ?s"
    by (auto simp: take_up_input_def take_pending_input_def)
  have "same_queue ?s st'" unfolding st' by (rule same_queue_fold [OF same_queue_turn_input]) simp_all
  with assms(2) g show "tn_pending st' = []" "tn_accepting st' = g" by (auto simp: same_queue_def)
  show "noted (tn_pending st) st'" unfolding st' by (rule noted_turn_inputs)
qed (use assms in \<open>simp add: take_up_input_def take_pending_input_def\<close>)

lemma rounds_steers:
  "turn_rounds build err_text execute env us (tr, st) = Some (r, st') \<Longrightarrow> tr_err r = None \<Longrightarrow>
    tn_accepting st \<Longrightarrow> tn_pending st = [] \<Longrightarrow>
    \<exists>n \<le> length us. turn_rounds build err_text execute env (take n us) (tr, st) = Some (r, st') \<and>
      noted (concat (map us_steers (take n us))) st' \<and> \<not> tn_accepting st' \<and> tn_pending st' = []"
proof (induction us arbitrary: tr st)
  case (Cons u us)
  have queue: "tn_pending (snd (enqueue_input (us_steers u) s)) = us_steers u \<and>
      tn_accepting (snd (enqueue_input (us_steers u) s))" if "same_queue st s" for s :: "'a turn_state"
    using that Cons.prems(3,4) by (simp add: same_queue_def enqueue_input_def)
  from Cons.prems(1) show ?case
  proof (cases rule: round_cases)
    case (again st1 x st2 st3)
    from queue [OF same_queue_trans [OF same_queue_compact [OF again(1)] same_queue_sampling [OF again(2)]]]
    have q: "tn_pending (snd (enqueue_input (us_steers u) st2)) = us_steers u"
      "tn_accepting (snd (enqueue_input (us_steers u) st2))" by auto
    from take_up_state [OF again(3) q(2)] have s3: "noted (us_steers u) st3" "tn_pending st3 = []" "tn_accepting st3"
      by (simp_all add: q)
    from Cons.IH [OF again(4) Cons.prems(2) s3(3,2)] obtain n where
      n: "n \<le> length us" "turn_rounds build err_text execute env (take n us) (merge_result x tr, st3) = Some (r, st')"
        "noted (concat (map us_steers (take n us))) st'" "\<not> tn_accepting st'" "tn_pending st' = []" by blast
    from noted_grows [OF grows_rounds [OF again(4)] s3(1)] n(3)
    have "noted (concat (map us_steers (take (Suc n) (u # us)))) st'" by (auto simp: noted_def)
    moreover have "turn_rounds build err_text execute env (take (Suc n) (u # us)) (tr, st) = Some (r, st')"
      using again n(2) by simp
    ultimately show ?thesis using n(1,4,5) by (intro exI [of _ "Suc n"]) simp
  next
    case (finished st1 x st2)
    from queue [OF same_queue_trans [OF same_queue_compact [OF finished(1)] same_queue_sampling [OF finished(2)]]]
    have q: "tn_pending (snd (enqueue_input (us_steers u) st2)) = us_steers u"
      "tn_accepting (snd (enqueue_input (us_steers u) st2))" by auto
    from take_up_state [OF finished(3) q(2)] have s: "us_steers u = []" "tn_pending st' = []" "\<not> tn_accepting st'"
      by (simp_all add: q)
    moreover have "turn_rounds build err_text execute env (take 1 (u # us)) (tr, st) = Some (r, st')"
      using finished by simp
    ultimately show ?thesis by (intro exI [of _ 1]) (simp add: noted_def)
  qed (use Cons.prems(2) in \<open>simp_all add: turn_failed_def\<close>)
qed simp

text \<open>
  Property C15. A turn that completes loses no input: whatever arrives while its rounds run, up to the last one, is
  recorded, in the conversation and in the rollout, before the turn ends, and at the end the task takes no further input.
\<close>

theorem no_steer_is_lost:
  assumes "run_task build build_err execute env tt reason input us st = Some (r, st')"
    and "tr_err r = None" and "tn_accepting st" and "tn_pending st = []"
  shows "\<exists>n \<le> length us. run_task build build_err execute env tt reason input (take n us) st = Some (r, st') \<and>
    (\<forall>i \<in> set (input @ concat (map us_steers (take n us))). user_entry i \<in> set (tn_log st')) \<and>
    \<not> tn_accepting st' \<and> tn_pending st' = []"
proof -
  let ?st0 = "send_event env (TurnStarted (te_turn_id env) (tt_started_at tt)) st"
  let ?st1 = "?st0\<lparr>tn_log := tn_log ?st0 @ [RecTurnContext (te_turn_id env)]\<rparr>"
  let ?start = "fold (record_turn_input env) input ?st1"
  let ?done = "\<lambda>s. send_event env (finished_event env tt reason r) s"
  have run: "run_task build build_err execute env tt reason input us' st =
      map_option (\<lambda>(r, s). (r, send_event env (finished_event env tt reason r) s))
        (turn_rounds build build_err execute env us' (turn_start, ?start))" for us'
    by (simp add: run_task_def run_regular_task_def run_turn_def on_task_finished_def Let_def
        split: option.splits prod.splits)
  from assms(1) obtain s where s: "turn_rounds build build_err execute env us (turn_start, ?start) = Some (r, s)"
    and st': "st' = ?done s" unfolding run by auto
  have "same_queue ?st1 ?start" by (rule same_queue_fold [OF same_queue_turn_input]) simp_all
  with assms(3,4) have q: "tn_accepting ?start" "tn_pending ?start = []" by (simp_all add: same_queue_def send_event_def)
  from rounds_steers [OF s assms(2) q] obtain n where n: "n \<le> length us"
    "turn_rounds build build_err execute env (take n us) (turn_start, ?start) = Some (r, s)"
    "noted (concat (map us_steers (take n us))) s" "\<not> tn_accepting s" "tn_pending s = []" by blast
  have "noted input s" by (rule noted_grows [OF grows_rounds [OF s] noted_turn_inputs])
  with n(3) have "noted (input @ concat (map us_steers (take n us))) st'"
    unfolding st' by (auto simp: noted_def send_event_def)
  moreover have "\<not> tn_accepting st' \<and> tn_pending st' = []" using n(4,5) by (simp add: st' send_event_def)
  ultimately show ?thesis using n(1,2) unfolding run noted_def by (intro exI [of _ n]) (simp add: st')
qed

theorem no_steer_is_lost_witness:
  "case sample_task of Some (r, st) \<Rightarrow> user_entry \<lparr>ti_text = ''go'', ti_image_urls = []\<rparr> \<in> set (tn_log st) \<and>
     \<not> tn_accepting st | None \<Rightarrow> False"
proof -
  obtain r st where task: "sample_task = Some (r, st)" and ok: "tr_err r = None"
    using sample_task_runs by (auto split: option.splits)
  have "tn_accepting fresh_turn" "tn_pending fresh_turn = []" by (simp_all add: fresh_turn_def)
  from no_steer_is_lost [OF task [unfolded sample_task_def] ok this] show ?thesis by (auto simp: task)
qed

text \<open>
  Input that the task accepts is lost when the round fails: after an error of the stream the
  task still accepts input, and input accepted before or after it stays in the queue of a task that has ended;
  it is in neither the history nor the rollout.
\<close>

theorem steer_lost_on_error:
  "let i = \<lparr>ti_text = ''faster'', ti_image_urls = []\<rparr> in
   case run_task build_tool_call (\<lambda>_. []) sample_execute sample_turn_env sample_times None
       [\<lparr>ti_text = ''go'', ti_image_urls = []\<rparr>]
       [\<lparr>us_compaction = [], us_sampling = [StreamError (Some ''lost'')], us_order = [], us_steers = [i]\<rparr>]
       fresh_turn of
     Some (r, st) \<Rightarrow> tr_err r = Some ''lost'' \<and> tn_accepting st \<and> tn_pending st = [i] \<and>
       user_entry i \<notin> set (tn_log st) \<and> tn_history st = [new_user_message ''go'']
   | None \<Rightarrow> False"
  by code_simp

subsection \<open>Compaction\<close>

lemma user_messages_prompt: "\<forall>i \<in> set h. is_user_message i \<Longrightarrow> for_prompt h = h"
  using user_message_not_call unfolding for_prompt_def normalize_for_prompt_def
  by (intro normalize_loop_id) blast

lemma replacement_length: "length (replacement_history s p) \<le> 2"
  by (simp add: replacement_history_def split: option.splits)

text \<open>
  Compaction: a compaction that succeeds replaces the history by a summary, and after it the
  last user message of the prompt if there is one; the prompt is then exactly these messages and is
  not compacted again before something new is recorded, so a turn cannot keep compacting.
\<close>

theorem compaction_shrinks:
  assumes "compact_history env ms st = Some (None, st')" and "for_prompt (tn_history st) \<noteq> []"
  shows "\<exists>summary. trim_space summary \<noteq> [] \<and>
    tn_history st' = new_user_message (compact_summary_prefix @ summary) #
      (case find is_user_message (rev (for_prompt (tn_history st))) of Some i \<Rightarrow> [i] | None \<Rightarrow> []) \<and>
    for_prompt (tn_history st') = tn_history st' \<and> \<not> should_compact env st'"
proof -
  from assms obtain summary where h: "tn_history st' = replacement_history summary (for_prompt (tn_history st))"
    and s: "trim_space summary \<noteq> []" using compact_state by metis
  have "\<forall>i \<in> set (tn_history st'). is_user_message i" unfolding h using replacement_messages by blast
  then have p: "for_prompt (tn_history st') = tn_history st'" by (rule user_messages_prompt)
  moreover have "\<not> should_compact env st'"
    unfolding should_compact_def p unfolding h using replacement_length [of summary "for_prompt (tn_history st)"]
    by simp
  ultimately show ?thesis using h s unfolding replacement_history_def by blast
qed

definition long_turn :: "unit turn_state" where
  "long_turn = fresh_turn\<lparr>tn_history := [new_user_message ''a'', new_assistant_message ''b'', new_user_message ''c'']\<rparr>"

definition summary_stream :: "stream_msg list" where
  "summary_stream = sample_delta ''sum'' # sample_end"

lemma summary_loop: "compaction_loop summary_stream compaction_start =
    Some (Inr \<lparr>cp_summary = ''sum'', cp_completed = True, cp_events_open = False, cp_errors_open = False\<rparr>)"
  by code_simp

lemma summary_text: "trim_space ''sum'' \<noteq> []"
  using trim_space_solid [of "''sum''"] by (simp add: solid_def byte_of_def is_space_def)

lemma compaction_runs:
  "for_prompt (tn_history long_turn) \<noteq> []"
  "\<exists>st. compact_history sample_turn_env summary_stream long_turn = Some (None, st)"
proof -
  have user: "for_prompt (tn_history long_turn) = tn_history long_turn"
    unfolding for_prompt_def normalize_for_prompt_def
    by (intro normalize_loop_id) (auto simp: long_turn_def fresh_turn_def is_call_def is_output_def)
  then show *: "for_prompt (tn_history long_turn) \<noteq> []" by (simp add: long_turn_def)
  show "\<exists>st. compact_history sample_turn_env summary_stream long_turn = Some (None, st)"
    using * summary_text by (simp add: compact_history_def summary_loop Let_def)
qed

theorem compaction_shrinks_witness:
  "case compact_history sample_turn_env summary_stream long_turn of
     Some (e, st) \<Rightarrow> \<not> should_compact sample_turn_env st | None \<Rightarrow> False"
proof -
  obtain st where "compact_history sample_turn_env summary_stream long_turn = Some (None, st)"
    using compaction_runs(2) by blast
  with compaction_shrinks [OF this compaction_runs(1)] show ?thesis by auto
qed

end
