(* ===== verification/ModelClients.thy ===== *)
theory ModelClients
  imports GoConv GoHttp Turn
begin

section \<open>Models: internal/model/openai.go and fake.go\<close>

text \<open>
  A client turns a request into a stream: events on one channel and at most one error on another. Here a stream is the list of events that
  were taken and the error. Every event is sent in a \<open>select\<close> against the cancellation of the context; \<open>gate k\<close> is the
  outcome for the \<open>k\<close>-th event: taken, or the error of the context.
\<close>

type_synonym gate = "nat \<Rightarrow> string option"

record model_request =
  rq_input :: "response_item list"
  rq_tools :: "json list"

definition plain_event :: "response_event_type \<Rightarrow> response_event" where
  "plain_event k = \<lparr>re_type = k, re_delta = [], re_item = None, re_response_id = [], re_usage = None\<rparr>"

definition delta_event :: "string \<Rightarrow> response_event" where
  "delta_event t = (plain_event ResponseOutputTextDelta)\<lparr>re_delta := t\<rparr>"

definition item_event :: "response_item \<Rightarrow> response_event" where
  "item_event i = (plain_event ResponseOutputItemDone)\<lparr>re_item := Some i\<rparr>"

text \<open>\<open>sendResponseEvent\<close>, on the events taken so far.\<close>

definition send_response_event :: "gate \<Rightarrow> response_event \<Rightarrow> response_event list \<Rightarrow> (string, response_event list) result" where
  "send_response_event gate e sent = (case gate (length sent) of Some err \<Rightarrow> Inl err | None \<Rightarrow> Inr (sent @ [e]))"

subsection \<open>The Responses API\<close>

record openai_config =
  oc_api_key :: string
  oc_base_url :: string
  oc_model :: string
  oc_context_window :: int
  oc_max_retries :: int

datatype config_error = MissingApiKey | MissingModel

definition default_openai_base_url :: string where "default_openai_base_url = ''https://api.openai.com/v1''"

definition trim_slashes :: "string \<Rightarrow> string" where
  "trim_slashes s = rev (dropWhile (\<lambda>c. c = CHR ''/'') (rev s))"

definition new_openai_client :: "openai_config \<Rightarrow> (config_error, openai_config) result" where
  "new_openai_client c =
     (if trim_space (oc_api_key c) = [] then Inl MissingApiKey
      else if trim_space (oc_model c) = [] then Inl MissingModel
      else (let base = trim_slashes (trim_space (oc_base_url c)) in
        Inr (c\<lparr>oc_base_url := (if base = [] then default_openai_base_url else base),
               oc_context_window := (if oc_context_window c \<le> 0 then 128000 else oc_context_window c),
               oc_max_retries := (if oc_max_retries c \<le> 0 then 3 else oc_max_retries c)\<rparr>)))"

fun first_environment_value :: "(string \<Rightarrow> string) \<Rightarrow> string list \<Rightarrow> string" where
  "first_environment_value getenv [] = []"
| "first_environment_value getenv (n # ns) = (if getenv n \<noteq> [] then getenv n else first_environment_value getenv ns)"

definition new_openai_client_from_env :: "(string \<Rightarrow> string) \<Rightarrow> (config_error, openai_config) result" where
  "new_openai_client_from_env getenv =
     new_openai_client \<lparr>oc_api_key = first_environment_value getenv [''LOB_CODEX_API_KEY'', ''OPENAI_API_KEY''],
       oc_base_url = first_environment_value getenv [''LOB_CODEX_BASE_URL'', ''OPENAI_BASE_URL''],
       oc_model = first_environment_value getenv [''LOB_CODEX_MODEL'', ''OPENAI_MODEL''],
       oc_context_window = fst (atoi (first_environment_value getenv [''LOB_CODEX_CONTEXT_WINDOW''])),
       oc_max_retries = fst (atoi (first_environment_value getenv [''LOB_CODEX_MAX_RETRIES'']))\<rparr>"

text \<open>An event of the stream as it is decoded.\<close>

record sse_event =
  sv_type :: string
  sv_delta :: string
  sv_item :: "response_item option"
  sv_error :: "string option"
  sv_response :: "(string \<times> token_usage option) option"

definition details_of :: "string list \<Rightarrow> json \<Rightarrow> int list \<Rightarrow> int list option" where
  "details_of names v old = those (map (\<lambda>(n, z). json_field dec_int n z v) (zip names old))"

definition sse_usage_of :: "token_usage \<Rightarrow> json \<Rightarrow> token_usage option" where
  "sse_usage_of old v = do {
     i \<leftarrow> json_field dec_int ''input_tokens'' (tu_input old) v;
     k \<leftarrow> json_field dec_int ''output_tokens'' (tu_output old) v;
     t \<leftarrow> json_field dec_int ''total_tokens'' (tu_total old) v;
     d \<leftarrow> json_field (details_of [''cached_tokens'', ''cache_write_tokens'']) ''input_tokens_details''
            [tu_cached_input old, tu_cache_write_input old] v;
     r \<leftarrow> json_field (details_of [''reasoning_tokens'']) ''output_tokens_details'' [tu_reasoning_output old] v;
     Some \<lparr>tu_input = i, tu_cached_input = d ! 0, tu_cache_write_input = d ! 1, tu_output = k,
           tu_reasoning_output = r ! 0, tu_total = t\<rparr> }"

definition sse_response_of :: "string \<times> token_usage option \<Rightarrow> json \<Rightarrow> (string \<times> token_usage option) option" where
  "sse_response_of old v = do {
     i \<leftarrow> json_field dec_string ''id'' (fst old) v;
     u \<leftarrow> json_field (dec_ptr sse_usage_of no_usage) ''usage'' (snd old) v;
     Some (i, u) }"

definition sse_event_of :: "json \<Rightarrow> sse_event option" where
  "sse_event_of v = do {
     t \<leftarrow> string_field ''type'' v;
     d \<leftarrow> string_field ''delta'' v;
     i \<leftarrow> ptr_field (\<lambda>old j. item_of_json j) empty_item ''item'' v;
     e \<leftarrow> ptr_field (\<lambda>old j. json_field dec_string ''message'' old j) [] ''error'' v;
     r \<leftarrow> ptr_field sse_response_of ([], None) ''response'' v;
     Some \<lparr>sv_type = t, sv_delta = d, sv_item = i, sv_error = e, sv_response = r\<rparr> }"

datatype stream_error =
    StreamCreate string
  | StreamSend string            \<comment> \<open>the request failed\<close>
  | StreamStatus string (stream_body: "string option")
  | StreamCancelled string
  | StreamDecode string          \<comment> \<open>the data that does not decode\<close>
  | StreamIncomplete
  | StreamReported string
  | StreamUnreported
  | StreamTooLong
  | StreamRead string

definition completed_event :: "sse_event \<Rightarrow> response_event" where
  "completed_event ev = (case sv_response ev of
       None \<Rightarrow> plain_event ResponseCompleted
     | Some (i, u) \<Rightarrow> (plain_event ResponseCompleted)\<lparr>re_response_id := i, re_usage := u\<rparr>)"

text \<open>One event: the events taken, and how the stream ends if it ends here.\<close>

definition handle_sse :: "gate \<Rightarrow> sse_event \<Rightarrow> response_event list \<Rightarrow> response_event list \<times> stream_error option option" where
  "handle_sse gate ev sent =
     (let send = (\<lambda>e done. case send_response_event gate e sent of Inl err \<Rightarrow> (sent, Some (Some (StreamCancelled err))) | Inr sent' \<Rightarrow> (sent', done)) in
      if sv_type ev = ''response.output_text.delta'' then send (delta_event (sv_delta ev)) None
      else if sv_type ev = ''response.output_item.done'' then
        (case sv_item ev of None \<Rightarrow> (sent, None) | Some i \<Rightarrow> send (item_event i) None)
      else if sv_type ev = ''response.incomplete'' then (sent, Some (Some StreamIncomplete))
      else if sv_type ev = ''response.completed'' then send (completed_event ev) (Some None)
      else if sv_type ev = ''error'' then
        (sent, Some (Some (case sv_error ev of None \<Rightarrow> StreamUnreported | Some m \<Rightarrow> StreamReported m)))
      else (sent, None))"

fun sse_lines :: "(string \<Rightarrow> json option) \<Rightarrow> gate \<Rightarrow> string list \<Rightarrow> response_event list \<Rightarrow>
    response_event list \<times> stream_error option option" where
  "sse_lines parse gate [] sent = (sent, None)"
| "sse_lines parse gate (l # ls) sent =
     (case cut_prefix ''data:'' l of
        None \<Rightarrow> sse_lines parse gate ls sent
      | Some rest \<Rightarrow>
          (let data = trim_space rest in
           if data = [] \<or> data = ''[DONE]'' then sse_lines parse gate ls sent
           else (case Option.bind (parse data) sse_event_of of
               None \<Rightarrow> (sent, Some (Some (StreamDecode data)))
             | Some ev \<Rightarrow>
                 (case handle_sse gate ev sent of
                    (sent', Some done) \<Rightarrow> (sent', Some done)
                  | (sent', None) \<Rightarrow> sse_lines parse gate ls sent'))))"

definition sse_limit :: nat where "sse_limit = 2 * 1024 * 1024"

text \<open>Reading a body: its bytes and the error that ended them, if any.\<close>

definition read_stream :: "(string \<Rightarrow> json option) \<Rightarrow> gate \<Rightarrow> string \<times> string option \<Rightarrow> response_event list \<times> stream_error option" where
  "read_stream parse gate body =
     (let (ls, too_long) = scan_upto sse_limit (fst body) in
      case sse_lines parse gate ls [] of
        (sent, Some done) \<Rightarrow> (sent, done)
      | (sent, None) \<Rightarrow>
          if too_long then (sent, Some StreamTooLong)
          else (case snd body of
              Some e \<Rightarrow> (sent, Some (StreamRead e))
            | None \<Rightarrow>
                (case send_response_event gate (plain_event ResponseCompleted) sent of
                   Inl err \<Rightarrow> (sent, Some (StreamCancelled err))
                 | Inr sent' \<Rightarrow> (sent', None))))"

definition request_json :: "openai_config \<Rightarrow> model_request \<Rightarrow> json" where
  "request_json c r = JObj [(''input'', JArr (map item_json (rq_input r))), (''model'', JStr (oc_model c)),
     (''parallel_tool_calls'', JBool True), (''stream'', JBool True), (''tools'', JArr (rq_tools r))]"

definition stream_request :: "'w web \<Rightarrow> openai_config \<Rightarrow> model_request \<Rightarrow> http_request" where
  "stream_request wb c r = \<lparr>hq_method = ''POST'', hq_url = oc_base_url c @ ''/responses'',
     hq_headers = header_set ''Accept'' ''text/event-stream'' (header_set ''Content-Type'' ''application/json''
       (header_set ''Authorization'' (''Bearer '' @ oc_api_key c) [])),
     hq_body = wb_render wb (request_json c r)\<rparr>"

definition retry_response :: "(string, http_response) result \<Rightarrow> bool" where
  "retry_response r = (case r of Inl e \<Rightarrow> True | Inr p \<Rightarrow> hp_status p = 429 \<or> 500 \<le> hp_status p)"

text \<open>Requests until one is not to be repeated; \<open>n\<close> is how often it may still be repeated.\<close>

primrec send_attempts :: "'w web \<Rightarrow> http_request \<Rightarrow> nat \<Rightarrow> 'w \<Rightarrow> (stream_error, http_response) result \<times> 'w" where
  "send_attempts wb q 0 w =
     (case wb_bad_url wb (hq_url q) of
        Some e \<Rightarrow> (Inl (StreamCreate e), w)
      | None \<Rightarrow> (case wb_send wb q w of (Inl e, w') \<Rightarrow> (Inl (StreamSend e), w') | (Inr p, w') \<Rightarrow> (Inr p, w')))"
| "send_attempts wb q (Suc n) w =
     (case wb_bad_url wb (hq_url q) of
        Some e \<Rightarrow> (Inl (StreamCreate e), w)
      | None \<Rightarrow>
        (case wb_send wb q w of
           (r, w') \<Rightarrow>
             if retry_response r then
               (case wb_cancelled wb w' of
                  Some e \<Rightarrow> (Inl (StreamCancelled e), w')
                | None \<Rightarrow> send_attempts wb q n w')
             else (case r of Inl e \<Rightarrow> (Inl (StreamSend e), w') | Inr p \<Rightarrow> (Inr p, w'))))"

definition openai_stream :: "'w web \<Rightarrow> gate \<Rightarrow> openai_config \<Rightarrow> model_request \<Rightarrow> 'w \<Rightarrow>
    (response_event list \<times> stream_error option) \<times> 'w" where
  "openai_stream wb gate c r w =
     (case send_attempts wb (stream_request wb c r) (nat (oc_max_retries c)) w of
        (Inl e, w') \<Rightarrow> (([], Some e), w')
      | (Inr p, w') \<Rightarrow>
          if \<not> success_status p then
            (([], Some (StreamStatus (hp_status_text p)
               (case hp_body p of Inl e \<Rightarrow> None | Inr b \<Rightarrow> Some (trim_space (take 65536 b))))), w')
          else (read_stream (wb_parse wb) gate (case hp_body p of Inl e \<Rightarrow> ([], Some e) | Inr b \<Rightarrow> (b, None)), w'))"

subsection \<open>The fake model\<close>

text \<open>Phrases that the fake model looks for, by their code points.\<close>

definition han :: "nat list \<Rightarrow> string" where "han rs = concat (map encode_rune rs)"

definition call_item :: "string \<Rightarrow> string \<Rightarrow> string \<Rightarrow> string \<Rightarrow> response_item" where
  "call_item i call name arguments =
     empty_item\<lparr>ri_type := ''function_call'', ri_id := i, ri_call_id := call, ri_name := name, ri_arguments := arguments\<rparr>"

definition quote_char :: string where "quote_char = [CHR 0x22]"

text \<open>JSON text written out: a word between hashes is quoted.\<close>

definition hashed :: "string \<Rightarrow> string" where
  "hashed s = map (\<lambda>c. if c = CHR ''#'' then CHR 0x22 else c) s"

definition pty_echo_command :: "host \<Rightarrow> string" where
  "pty_echo_command h =
     (if h = Windows then hashed ''powershell -NoProfile -Command #$line = [Console]::In.ReadLine(); Write-Output ('' @ [CHR 0x27] @
        ''pty-received:'' @ [CHR 0x27] @ '' + $line)'' @ quote_char
      else ''read -r line; printf '' @ [CHR 0x27] @ ''pty-received:%s'' @ [CHR 0x5C] @ ''n'' @ [CHR 0x27] @ '' '' @ quote_char @ ''$line'' @ quote_char)"

definition pty_sleep_command :: "host \<Rightarrow> string" where
  "pty_sleep_command h =
     (if h = Windows then hashed ''powershell -NoProfile -Command #Start-Sleep -Seconds 30#'' else ''sleep 30'')"

record fake_env =
  fk_parse :: "string \<Rightarrow> json option"
  fk_render :: "json \<Rightarrow> string"
  fk_host :: host
  fk_order :: "string list \<Rightarrow> string list"

text \<open>Sending a list of events until the context is cancelled.\<close>

fun send_all :: "gate \<Rightarrow> response_event list \<Rightarrow> response_event list \<Rightarrow> response_event list" where
  "send_all gate [] sent = sent"
| "send_all gate (e # es) sent =
     (case send_response_event gate e sent of Inl err \<Rightarrow> sent | Inr sent' \<Rightarrow> send_all gate es sent')"

fun text_chunks :: "string list \<Rightarrow> response_event list" where
  "text_chunks [] = []"
| "text_chunks [c] = [delta_event c]"
| "text_chunks (c # d # cs) = delta_event (c @ '' '') # text_chunks (d # cs)"

definition fake_text :: "string \<Rightarrow> response_event list" where
  "fake_text response = text_chunks (fields_of response) @
     [item_event (new_assistant_message response), plain_event ResponseCompleted]"

definition fake_call :: "response_item \<Rightarrow> response_event list" where
  "fake_call i = [item_event i, plain_event ResponseCompleted]"

definition last_user_text :: "response_item list \<Rightarrow> string" where
  "last_user_text items = (case filter (\<lambda>i. ri_role i = ''user'') (rev items) of [] \<Rightarrow> [] | i # is \<Rightarrow> item_text i)"

text \<open>The answer to a last item that is an output; \<open>None\<close> is the panic of reading the item before the first one.\<close>

definition fake_continue :: "fake_env \<Rightarrow> response_item list \<Rightarrow> response_event list option" where
  "fake_continue fk items =
     (let out = last items; before = items ! (length items - 2);
          session = (case Option.bind (fk_parse fk (ri_output out)) (int_field ''session_id'') of None \<Rightarrow> 0 | Some n \<Rightarrow> n) in
      if 0 < session then
        (if length items < 2 then None
         else Some (fake_call (call_item ''fc_fake_write_stdin'' ''call_fake_write_stdin'' ''write_stdin''
           (hashed ''{#session_id#:'' @ show_int session @ hashed '',#chars#:#'' @
            (if ri_id before = ''fc_fake_pty_interrupt'' then [CHR 0x5C] @ ''u0003'' else ''hello'' @ [CHR 0x5C] @ ''n'') @
            hashed ''#,#yield_time_ms#:5000}''))))
      else Some (fake_text (''Fake model received '' @ (if 1 < length items then ri_name before else ''tool'') @ '' result: '' @ ri_output out)))"

definition fake_exec :: "string \<Rightarrow> string \<Rightarrow> response_event list" where
  "fake_exec name arguments = fake_call (call_item (''fc_fake_'' @ name) (''call_fake_'' @ name) ''exec_command'' arguments)"

definition fake_answer :: "fake_env \<Rightarrow> string \<Rightarrow> response_event list" where
  "fake_answer fk input =
     (if contains (han [38271, 36827, 31243, 28436, 31034]) input then
        fake_exec ''long_exec'' (hashed ''{#cmd#:#read line; echo process-done:$line#,#yield_time_ms#:250}'')
      else if contains (han [22823, 36755, 20986, 28436, 31034]) input then
        fake_exec ''large_exec'' (hashed ''{#cmd#:#seq 1 50000#,#max_output_tokens#:1000}'')
      else if contains (''PTY '' @ han [28436, 31034]) input then
        fake_exec ''pty'' (hashed ''{#cmd#:'' @ fk_render fk (JStr (pty_echo_command (fk_host fk))) @ hashed '',#tty#:true,#yield_time_ms#:250}'')
      else if contains (''PTY '' @ han [20013, 26029, 28436, 31034]) input then
        fake_exec ''pty_interrupt'' (hashed ''{#cmd#:'' @ fk_render fk (JStr (pty_sleep_command (fk_host fk))) @ hashed '',#tty#:true,#yield_time_ms#:250}'')
      else if contains (han [23457, 25209, 28436, 31034]) input then
        fake_exec ''approval'' (hashed ''{#cmd#:#pwd; echo approval-demo#}'')
      else if contains (han [20250, 35805, 35268, 21017, 28436, 31034]) input then
        fake_exec ''session_rule'' (hashed ''{#cmd#:#go version#}'')
      else if contains (han [24037, 20316, 21306]) input \<or> contains (han [21015, 20986, 25991, 20214]) input then
        fake_exec ''exec'' (hashed ''{#cmd#:#pwd && rg --files | sed -n '' @ [CHR 0x27] @ ''1,240p'' @ [CHR 0x27] @ hashed ''#,#max_output_tokens#:1000}'')
      else if contains ''echo'' (lower_text input) \<or> contains (han [22238, 26174]) input then
        fake_call (call_item ''fc_fake_echo'' ''call_fake_echo'' ''echo'' (hashed ''{#text#:#LOB Codex Tool Loop#}''))
      else fake_text (''Fake model: '' @ input))"

text \<open>The whole stream: \<open>None\<close> is a panic. An unanswered call, the first in the order of a Go map, is an error.\<close>

definition unanswered :: "response_item list \<Rightarrow> string list" where
  "unanswered items = filter (\<lambda>c. c \<notin> set (map ri_call_id (filter (\<lambda>i. ri_type i = ''function_call_output'') items)))
     (remdups (map ri_call_id (filter (\<lambda>i. ri_type i = ''function_call'') items)))"

definition fake_stream :: "fake_env \<Rightarrow> gate \<Rightarrow> model_request \<Rightarrow> (response_event list \<times> string option) option" where
  "fake_stream fk gate r =
     (let items = rq_input r in
      case fk_order fk (unanswered items) of
        c # _ \<Rightarrow> Some ([], Some (''no tool output found for function call '' @ c))
      | [] \<Rightarrow>
          if items \<noteq> [] \<and> ri_type (last items) = ''function_call_output'' then
            map_option (\<lambda>es. (send_all gate es [], None)) (fake_continue fk items)
          else Some (send_all gate (fake_answer fk (last_user_text items)) [], None))"

subsection \<open>What a stream delivers\<close>

definition part_event :: "response_event \<Rightarrow> bool" where
  "part_event e \<longleftrightarrow> re_type e = ResponseOutputTextDelta \<or> (re_type e = ResponseOutputItemDone \<and> re_item e \<noteq> None)"

definition complete_stream :: "response_event list \<Rightarrow> bool" where
  "complete_stream es \<longleftrightarrow> es \<noteq> [] \<and> re_type (last es) = ResponseCompleted \<and> list_all part_event (butlast es)"

lemma event_types [simp]:
  "part_event (delta_event t)" "part_event (item_event i)" "re_type (completed_event ev) = ResponseCompleted"
  "re_type (plain_event k) = k"
  by (simp_all add: part_event_def delta_event_def item_event_def plain_event_def completed_event_def split: option.splits prod.splits)

lemma handle_sse_ok:
  assumes "handle_sse gate ev sent = (sent', r)" "list_all part_event sent"
  shows "if r = Some None then complete_stream sent' else list_all part_event sent'"
  using assms by (auto simp: handle_sse_def send_response_event_def complete_stream_def Let_def split: if_splits option.splits)

lemma sse_lines_ok:
  "sse_lines parse gate ls sent = (sent', r) \<Longrightarrow> list_all part_event sent \<Longrightarrow>
    if r = Some None then complete_stream sent' else list_all part_event sent'"
proof (induction parse gate ls sent arbitrary: sent' r rule: sse_lines.induct)
  case (2 parse gate l ls sent)
  show ?case
  proof (cases "cut_prefix ''data:'' l")
    case None
    with 2 show ?thesis by simp
  next
    case (Some rest)
    show ?thesis
    proof (cases "trim_space rest = [] \<or> trim_space rest = ''[DONE]''")
      case True
      with 2 Some show ?thesis by (simp add: Let_def)
    next
      case False
      show ?thesis
      proof (cases "Option.bind (parse (trim_space rest)) sse_event_of")
        case None
        with 2 Some False show ?thesis by (auto simp: Let_def)
      next
        case ev: (Some ev)
        obtain s1 q where h: "handle_sse gate ev sent = (s1, q)" by (metis surj_pair)
        from handle_sse_ok [OF h "2.prems"(2)] "2.prems"(1) Some False ev h "2.IH"(3) [OF Some refl False ev h [symmetric]]
        show ?thesis by (cases q) (auto simp: Let_def split: if_splits)
      qed
    qed
  qed
qed simp

text \<open>
  Property C35. What the rest of the program relies on of the stream of a model: without an error it ends with exactly one completion,
  preceded only by pieces of text and finished items; with an error, be it of the request, of an event, of reading or a
  cancellation at any point, there is no completion.
\<close>

theorem openai_stream_completes_once:
  "if snd (fst (openai_stream wb gate c r w)) = None then complete_stream (fst (fst (openai_stream wb gate c r w)))
   else list_all part_event (fst (fst (openai_stream wb gate c r w)))"
proof -
  have body: "if snd (read_stream parse gate b) = None then complete_stream (fst (read_stream parse gate b))
      else list_all part_event (fst (read_stream parse gate b))" for parse b
  proof -
    obtain ls t where s: "scan_upto sse_limit (fst b) = (ls, t)" by (metis surj_pair)
    obtain sent q where l: "sse_lines parse gate ls [] = (sent, q)" by (metis surj_pair)
    from sse_lines_ok [OF l] s l show ?thesis
      by (auto simp: read_stream_def send_response_event_def complete_stream_def split: option.splits if_splits)
  qed
  obtain a w' where "send_attempts wb (stream_request wb c r) (nat (oc_max_retries c)) w = (a, w')" by (metis surj_pair)
  with body show ?thesis by (cases a) (simp_all add: openai_stream_def)
qed


lemma fake_sends_all: "\<forall>k. gate k = None \<Longrightarrow> send_all gate es sent = sent @ es"
  by (induction es arbitrary: sent) (simp_all add: send_response_event_def)

lemma text_chunks_parts: "list_all part_event (text_chunks cs)"
  by (induction cs rule: text_chunks.induct) simp_all

lemma fake_calls_complete: "complete_stream (fake_call i)" "complete_stream (fake_exec n a)" "complete_stream (fake_text s)"
  using text_chunks_parts [of "fields_of s"] by (simp_all add: complete_stream_def fake_call_def fake_exec_def fake_text_def butlast_append)

lemma fake_answer_complete: "complete_stream (fake_answer fk s)"
  unfolding fake_answer_def by (simp only: fake_calls_complete split: if_split) simp

lemma fake_continue_complete:
  assumes "2 \<le> length items"
  shows "\<exists>es. fake_continue fk items = Some es \<and> complete_stream es"
proof -
  have either: "complete_stream a \<Longrightarrow> complete_stream b \<Longrightarrow>
      \<exists>es. (if P then if length items < 2 then None else Some a else Some b) = Some es \<and> complete_stream es" for P a b
    using assms by simp
  show ?thesis unfolding fake_continue_def Let_def
    by (rule either [OF fake_calls_complete(1) fake_calls_complete(3)])
qed

text \<open>
  Property C36. The fake model never refuses and never panics on a prompt that the history makes: the prompt pairs calls and outputs, which
  is what the fake model insists on, and unless it is cancelled it gives a complete answer.
\<close>

theorem fake_model_accepts_prompts:
  assumes "\<And>xs. set (fk_order fk xs) = set xs"
  shows "\<exists>es. fake_stream fk gate \<lparr>rq_input = for_prompt h, rq_tools = ts\<rparr> = Some (es, None) \<and>
    ((\<forall>k. gate k = None) \<longrightarrow> complete_stream es)"
proof -
  have p: "paired (for_prompt h)" unfolding for_prompt_def by (rule normalize_paired)
  have "unanswered (for_prompt h) = []"
    unfolding unanswered_def filter_empty_conv
  proof
    fix x assume "x \<in> set (remdups (map ri_call_id (filter (\<lambda>i. ri_type i = ''function_call'') (for_prompt h))))"
    then obtain c where c: "c \<in> set (for_prompt h)" "is_call c" "ri_call_id c = x" by (auto simp: is_call_def)
    with p obtain v where "v \<in> set (for_prompt h)" "is_output v" "ri_call_id v = x" unfolding paired_def by blast
    then show "\<not> x \<notin> set (map ri_call_id (filter (\<lambda>i. ri_type i = ''function_call_output'') (for_prompt h)))"
      by (force simp: is_output_def)
  qed
  then have none: "fk_order fk (unanswered (for_prompt h)) = []" using assms [of "[]"] by simp
  show ?thesis
  proof (cases "for_prompt h \<noteq> [] \<and> ri_type (last (for_prompt h)) = ''function_call_output''")
    case True
    then have l: "last (for_prompt h) \<in> set (for_prompt h)" "is_output (last (for_prompt h))" by (simp_all add: is_output_def)
    with p obtain c where "c \<in> set (for_prompt h)" "is_call c" unfolding paired_def by blast
    then have "2 \<le> length (for_prompt h)" using l
      by (cases "for_prompt h") (auto simp: is_call_def is_output_def Suc_le_eq split: if_splits)
    from fake_continue_complete [OF this] obtain es where "fake_continue fk (for_prompt h) = Some es" "complete_stream es" by blast
    with True none show ?thesis by (simp add: fake_stream_def fake_sends_all)
  next
    case False
    with none show ?thesis by (auto simp: fake_stream_def fake_sends_all fake_answer_complete)
  qed
qed

subsection \<open>Small runs\<close>

definition busy_model :: "nat web" where
  "busy_model = \<lparr>wb_parse = (\<lambda>_. None), wb_render = (\<lambda>_. []), wb_render_indent = (\<lambda>_. []), wb_decode_error = (\<lambda>_. []),
     wb_disk_error = (\<lambda>_. []), wb_time_text = (\<lambda>_. []), wb_parse_time = (\<lambda>_. None), wb_bad_url = (\<lambda>_. None),
     wb_parse_url = (\<lambda>_. Inl []), wb_set_query = (\<lambda>_ _. Inl []), wb_getenv = (\<lambda>_. []), wb_sha256 = id,
     wb_send = (\<lambda>_ n. (Inr \<lparr>hp_status = 503, hp_status_text = ''503'', hp_headers = [], hp_body = Inr []\<rparr>, n + 1)),
     wb_random = (\<lambda>_ w. (Inl [], w)), wb_now = (\<lambda>_. 0), wb_cancelled = (\<lambda>_. None)\<rparr>"

definition sample_config_openai :: openai_config where
  "sample_config_openai = \<lparr>oc_api_key = ''k'', oc_base_url = ''u'', oc_model = ''m'', oc_context_window = 0, oc_max_retries = 1\<rparr>"

lemma sample_openai_client: "new_openai_client sample_config_openai = Inr (sample_config_openai\<lparr>oc_context_window := 128000\<rparr>)"
proof -
  have "trim_space ''k'' = ''k''" "trim_space ''u'' = ''u''" "trim_space ''m'' = ''m''"
    by (rule trim_space_solid; simp add: solid_def byte_of_def is_space_def)+
  then show ?thesis by (simp add: new_openai_client_def sample_config_openai_def trim_slashes_def)
qed


definition sample_fake :: fake_env where
  "sample_fake = \<lparr>fk_parse = (\<lambda>_. None), fk_render = (\<lambda>_. []), fk_host = Linux, fk_order = id\<rparr>"

theorem fake_model_accepts_prompts_witness:
  "\<exists>es. fake_stream sample_fake (\<lambda>_. None) \<lparr>rq_input = for_prompt [sample_call], rq_tools = []\<rparr> = Some (es, None) \<and> complete_stream es"
  using fake_model_accepts_prompts [of sample_fake "\<lambda>_. None" "[sample_call]" "[]"] by (simp add: sample_fake_def)

text \<open>
  A response that the service reports as failed, and a stream that is cut off before its completion, count as complete:
  the event \<open>response.failed\<close> is not among those the client knows, and the end of the body is taken for the end of the response.
\<close>

theorem failed_response_completes:
  "read_stream (\<lambda>_. Some (JObj [(''type'', JStr ''response.failed'')])) (\<lambda>_. None) (''data:x'', None) = ([plain_event ResponseCompleted], None) \<and>
   read_stream parse (\<lambda>_. None) ([], None) = ([plain_event ResponseCompleted], None)"
proof
  have "trim_space ''x'' = ''x''" by (rule trim_space_solid; simp add: solid_def byte_of_def is_space_def)
  moreover have "scan_upto sse_limit ''data:x'' = ([''data:x''], False)"
    by (simp add: scan_upto_def sse_limit_def text_lines_def newline_def drop_cr_def)
  moreover have "map_option sv_type (sse_event_of (JObj [(''type'', JStr ''response.failed'')])) = Some ''response.failed''" by code_simp
  then obtain ev where "sse_event_of (JObj [(''type'', JStr ''response.failed'')]) = Some ev" "sv_type ev = ''response.failed''" by blast
  ultimately show "read_stream (\<lambda>_. Some (JObj [(''type'', JStr ''response.failed'')])) (\<lambda>_. None) (''data:x'', None) =
      ([plain_event ResponseCompleted], None)"
    by (simp add: read_stream_def cut_prefix_def handle_sse_def send_response_event_def)
  show "read_stream parse (\<lambda>_. None) ([], None) = ([plain_event ResponseCompleted], None)"
    by (simp add: read_stream_def scan_upto_def sse_limit_def text_lines_def send_response_event_def)
qed

end
