(* ===== verification/McpOAuth.thy ===== *)
theory McpOAuth
  imports GoHttp Extensions
begin

section \<open>Login to servers: internal/mcp/oauth.go\<close>

text \<open>
  Tokens kept in the workspace, their renewal, and the login with a proof key. Every operation takes the file system
  and the state of the network and returns them.
\<close>

type_synonym 'w world = "fs \<times> 'w"

datatype web_error =
    OAuthRequired
  | WebText string
  | WebDisk os_error
  | WebDecode string       \<comment> \<open>the text that does not decode\<close>

text \<open>Times are nanoseconds since 1970; Go's zero time is the year 1.\<close>

definition zero_time :: int where "zero_time = - 62135596800000000000"

record oauth_token =
  tk_access :: string
  tk_refresh :: string
  tk_type :: string
  tk_expires :: int
  tk_token_url :: string
  tk_client_id :: string
  tk_client_secret :: string

definition no_token :: oauth_token where
  "no_token = \<lparr>tk_access = [], tk_refresh = [], tk_type = [], tk_expires = zero_time, tk_token_url = [], tk_client_id = [],
     tk_client_secret = []\<rparr>"

definition token_json :: "(int \<Rightarrow> string) \<Rightarrow> oauth_token \<Rightarrow> json" where
  "token_json time_text t = JObj ([str_entry ''access_token'' (tk_access t)] @ opt_string ''refresh_token'' (tk_refresh t) @
     opt_string ''token_type'' (tk_type t) @ [str_entry ''expires_at'' (time_text (tk_expires t))] @
     opt_string ''token_url'' (tk_token_url t) @ opt_string ''client_id'' (tk_client_id t) @
     opt_string ''client_secret'' (tk_client_secret t))"

fun dec_time :: "(string \<Rightarrow> int option) \<Rightarrow> json \<Rightarrow> int \<Rightarrow> int option" where
  "dec_time parse_time JNull old = Some old"
| "dec_time parse_time (JStr s) old = parse_time s"
| "dec_time parse_time _ old = None"

definition token_of_json :: "(string \<Rightarrow> int option) \<Rightarrow> json \<Rightarrow> oauth_token option" where
  "token_of_json parse_time v = do {
     a \<leftarrow> string_field ''access_token'' v; r \<leftarrow> string_field ''refresh_token'' v; k \<leftarrow> string_field ''token_type'' v;
     e \<leftarrow> json_field (dec_time parse_time) ''expires_at'' zero_time v; u \<leftarrow> string_field ''token_url'' v;
     i \<leftarrow> string_field ''client_id'' v; s \<leftarrow> string_field ''client_secret'' v;
     Some \<lparr>tk_access = a, tk_refresh = r, tk_type = k, tk_expires = e, tk_token_url = u, tk_client_id = i,
       tk_client_secret = s\<rparr> }"

subsection \<open>The token files\<close>

definition safe_rune :: "rune \<Rightarrow> rune" where
  "safe_rune r = (if r = byte_of (CHR ''/'') \<or> r = 92 \<or> r = byte_of (CHR '':'') then byte_of (CHR ''-'') else r)"

definition token_path :: "string \<Rightarrow> string \<Rightarrow> string" where
  "token_path workspace server = join_path [workspace, ''tmp'', ''mcp-oauth'', map_runes safe_rune server @ ''.json'']"

definition load_token :: "'w web \<Rightarrow> string \<Rightarrow> string \<Rightarrow> fs \<Rightarrow> oauth_token option" where
  "load_token wb workspace server d =
     (case read_text d (token_path workspace server) of
        Inl _ \<Rightarrow> None
      | Inr text \<Rightarrow>
        (case Option.bind (wb_parse wb text) (token_of_json (wb_parse_time wb)) of
           None \<Rightarrow> None
         | Some t \<Rightarrow> if tk_access t = [] then None else Some t))"

definition save_token :: "'w web \<Rightarrow> string \<Rightarrow> string \<Rightarrow> oauth_token \<Rightarrow> fs \<Rightarrow> os_error option \<times> fs" where
  "save_token wb workspace server t d =
     (let path = token_path workspace server; temporary = path @ ''.tmp'';
          text = wb_render_indent wb (token_json (wb_time_text wb) t) @ [newline]
      in case mkdir_all (apath_of (dir_name path)) d of
           Inl e \<Rightarrow> (Some e, d)
         | Inr d1 \<Rightarrow>
           (case write_file (apath_of temporary) text d1 of
              Inl e \<Rightarrow> (Some e, d1)
            | Inr d2 \<Rightarrow>
              (case rename_file (apath_of temporary) (apath_of path) d2 of
                 Inl e \<Rightarrow> (Some e, d2)
               | Inr d3 \<Rightarrow> (None, d3))))"

definition token_expired :: "int \<Rightarrow> oauth_token \<Rightarrow> bool" where
  "token_expired now t \<longleftrightarrow> tk_expires t \<noteq> zero_time \<and> tk_expires t - 30 * second < now"

definition authorization_header :: "oauth_token \<Rightarrow> string" where
  "authorization_header t = (if tk_type t = [] then ''Bearer'' else tk_type t) @ '' '' @ tk_access t"

subsection \<open>Requests\<close>

definition get_json :: "'w web \<Rightarrow> string \<Rightarrow> 'w \<Rightarrow> (string, string) result \<times> 'w" where
  "get_json wb url w =
     (case wb_bad_url wb url of
        Some e \<Rightarrow> (Inl e, w)
      | None \<Rightarrow>
        (case wb_send wb \<lparr>hq_method = ''GET'', hq_url = url, hq_headers = header_set ''Accept'' ''application/json'' [],
                 hq_body = []\<rparr> w of
           (Inl e, w') \<Rightarrow> (Inl e, w')
         | (Inr r, w') \<Rightarrow>
             (case hp_body r of
                Inl e \<Rightarrow> Inl e
              | Inr body \<Rightarrow>
                  if \<not> success_status r then Inl (''GET '' @ url @ '': '' @ hp_status_text r) else Inr body, w')))"

definition exchange_token :: "'w web \<Rightarrow> string \<Rightarrow> (string \<times> string) list \<Rightarrow> 'w \<Rightarrow> (web_error, oauth_token) result \<times> 'w" where
  "exchange_token wb url form w =
     (case wb_bad_url wb url of
        Some e \<Rightarrow> (Inl (WebText e), w)
      | None \<Rightarrow>
        (case wb_send wb \<lparr>hq_method = ''POST'', hq_url = url,
                 hq_headers = header_set ''Content-Type'' ''application/x-www-form-urlencoded'' [],
                 hq_body = encode_values form\<rparr> w of
           (Inl e, w') \<Rightarrow> (Inl (WebText e), w')
         | (Inr r, w') \<Rightarrow>
             (case hp_body r of
                Inl e \<Rightarrow> Inl (WebText e)
              | Inr body \<Rightarrow>
                if \<not> success_status r then
                  Inl (WebText (''OAuth token exchange '' @ hp_status_text r @ '': '' @ trim_space body))
                else
                  (case Option.bind (wb_parse wb body) (\<lambda>v. do {
                          a \<leftarrow> string_field ''access_token'' v; f \<leftarrow> string_field ''refresh_token'' v;
                          k \<leftarrow> string_field ''token_type'' v; n \<leftarrow> int_field ''expires_in'' v; Some (a, f, k, n) }) of
                     None \<Rightarrow> Inl (WebDecode body)
                   | Some (a, f, k, n) \<Rightarrow>
                       if a = [] then Inl (WebText ''OAuth token response missing access_token'')
                       else Inr (no_token\<lparr>tk_access := a, tk_refresh := f, tk_type := k,
                              tk_expires := (if 0 < n then wb_now wb w' + wrap64 (n * second) else zero_time)\<rparr>)), w')))"

definition refresh_form :: "oauth_token \<Rightarrow> (string \<times> string) list" where
  "refresh_form t = [(''grant_type'', ''refresh_token''), (''refresh_token'', tk_refresh t), (''client_id'', tk_client_id t)] @
     (if tk_client_secret t = [] then [] else [(''client_secret'', tk_client_secret t)])"

definition refresh_token :: "'w web \<Rightarrow> string \<Rightarrow> string \<Rightarrow> 'w world \<Rightarrow> (web_error, oauth_token) result \<times> 'w world" where
  "refresh_token wb workspace server s =
     (case load_token wb workspace server (fst s) of
        None \<Rightarrow> (Inl OAuthRequired, s)
      | Some t \<Rightarrow>
        if \<not> token_expired (wb_now wb (snd s)) t then (Inr t, s)
        else if tk_refresh t = [] \<or> tk_token_url t = [] then (Inl OAuthRequired, s)
        else (case exchange_token wb (tk_token_url t) (refresh_form t) (snd s) of
            (Inl e, w') \<Rightarrow> (Inl e, (fst s, w'))
          | (Inr fresh, w') \<Rightarrow>
              (let t' = fresh\<lparr>tk_refresh := (if tk_refresh fresh = [] then tk_refresh t else tk_refresh fresh),
                     tk_token_url := tk_token_url t, tk_client_id := tk_client_id t, tk_client_secret := tk_client_secret t\<rparr>
               in case save_token wb workspace server t' (fst s) of
                    (Some e, d) \<Rightarrow> (Inl (WebDisk e), (d, w'))
                  | (None, d) \<Rightarrow> (Inr t', (d, w')))))"

subsection \<open>Discovery and registration\<close>

record auth_metadata =
  am_authorization :: string
  am_token :: string
  am_registration :: string
  am_scopes :: "string list"

definition no_metadata :: auth_metadata where
  "no_metadata = \<lparr>am_authorization = [], am_token = [], am_registration = [], am_scopes = []\<rparr>"

text \<open>
  A document is decoded over what an earlier one left, and a field of a wrong type is an error that leaves the
  others set.
\<close>

definition lenient_string :: "json \<Rightarrow> string \<Rightarrow> string" where
  "lenient_string v old = (case v of JStr s \<Rightarrow> s | _ \<Rightarrow> old)"

definition lenient_field :: "(json \<Rightarrow> 'a \<Rightarrow> 'a) \<Rightarrow> string \<Rightarrow> json \<Rightarrow> 'a \<Rightarrow> 'a" where
  "lenient_field f name v old =
     (case v of
        JObj kvs \<Rightarrow> fold f (map snd (filter (\<lambda>(k, _). key_matches name k) kvs)) old
      | _ \<Rightarrow> old)"

definition metadata_over :: "json \<Rightarrow> auth_metadata \<Rightarrow> auth_metadata" where
  "metadata_over v m =
     \<lparr>am_authorization = lenient_field lenient_string ''authorization_endpoint'' v (am_authorization m),
      am_token = lenient_field lenient_string ''token_endpoint'' v (am_token m),
      am_registration = lenient_field lenient_string ''registration_endpoint'' v (am_registration m),
      am_scopes = lenient_field lenient_strings ''scopes_supported'' v (am_scopes m)\<rparr>"

definition metadata_fits :: "json \<Rightarrow> bool" where
  "metadata_fits v \<longleftrightarrow> string_field ''authorization_endpoint'' v \<noteq> None \<and> string_field ''token_endpoint'' v \<noteq> None \<and>
     string_field ''registration_endpoint'' v \<noteq> None \<and> strings_field ''scopes_supported'' v \<noteq> None"

fun find_metadata :: "'w web \<Rightarrow> string list \<Rightarrow> auth_metadata \<Rightarrow> 'w \<Rightarrow> auth_metadata option \<times> 'w" where
  "find_metadata wb [] m w = (None, w)"
| "find_metadata wb (url # urls) m w =
     (case get_json wb url w of
        (Inl _, w') \<Rightarrow> find_metadata wb urls m w'
      | (Inr body, w') \<Rightarrow>
        (case wb_parse wb body of
           None \<Rightarrow> find_metadata wb urls m w'
         | Some v \<Rightarrow>
             (let m' = metadata_over v m in
              if metadata_fits v \<and> am_authorization m' \<noteq> [] \<and> am_token m' \<noteq> [] then (Some m', w')
              else find_metadata wb urls m' w')))"

definition trim_right_slashes :: "string \<Rightarrow> string" where
  "trim_right_slashes s = rev (dropWhile (\<lambda>c. c = CHR ''/'') (rev s))"

definition discover_auth_server :: "'w web \<Rightarrow> string \<Rightarrow> 'w \<Rightarrow> (web_error, auth_metadata) result \<times> 'w" where
  "discover_auth_server wb server_url w =
     (case wb_parse_url wb server_url of
        Inl e \<Rightarrow> (Inl (WebText e), w)
      | Inr (scheme, host) \<Rightarrow>
        (let origin = scheme @ ''://'' @ host;
             (r, w1) = get_json wb (origin @ ''/.well-known/oauth-protected-resource'') w;
             servers = (case r of Inl _ \<Rightarrow> []
               | Inr body \<Rightarrow> (case wb_parse wb body of None \<Rightarrow> []
                   | Some v \<Rightarrow> lenient_field lenient_strings ''authorization_servers'' v []));
             issuer = (if servers = [] then origin else trim_right_slashes (hd servers))
         in case find_metadata wb [issuer @ ''/.well-known/oauth-authorization-server'',
                    issuer @ ''/.well-known/openid-configuration''] no_metadata w1 of
              (Some m, w2) \<Rightarrow> (Inr m, w2)
            | (None, w2) \<Rightarrow> (Inl (WebText (''MCP OAuth metadata not found for '' @ server_url)), w2)))"

definition registration_json :: "string \<Rightarrow> json" where
  "registration_json redirect = JObj [str_entry ''client_name'' ''LOB Codex'',
     (''grant_types'', JArr [JStr ''authorization_code'', JStr ''refresh_token'']), (''redirect_uris'', JArr [JStr redirect]),
     (''response_types'', JArr [JStr ''code'']), str_entry ''token_endpoint_auth_method'' ''none'']"

definition default_client :: "string \<times> string" where
  "default_client = (''lob-codex'', [])"

text \<open>A body that is cut off by an error does not decode.\<close>

definition register_client :: "'w web \<Rightarrow> string \<Rightarrow> string \<Rightarrow> 'w \<Rightarrow> (web_error, string \<times> string) result \<times> 'w" where
  "register_client wb endpoint redirect w =
     (if endpoint = [] then (Inr default_client, w)
      else case wb_bad_url wb endpoint of
        Some e \<Rightarrow> (Inl (WebText e), w)
      | None \<Rightarrow>
        (case wb_send wb \<lparr>hq_method = ''POST'', hq_url = endpoint, hq_headers = header_set ''Content-Type'' ''application/json'' [],
                 hq_body = wb_render wb (registration_json redirect)\<rparr> w of
           (Inl e, w') \<Rightarrow> (Inl (WebText e), w')
         | (Inr r, w') \<Rightarrow>
             (Inr (if \<not> success_status r then default_client
               else (case Option.bind (case hp_body r of Inl _ \<Rightarrow> None | Inr body \<Rightarrow> wb_parse wb body)
                         (\<lambda>v. do { i \<leftarrow> string_field ''client_id'' v; s \<leftarrow> string_field ''client_secret'' v; Some (i, s) }) of
                   None \<Rightarrow> default_client
                 | Some (i, s) \<Rightarrow> if i = [] then default_client else (i, s))), w')))"

subsection \<open>Login\<close>

record oauth_login =
  lg_server_name :: string
  lg_server_url :: string
  lg_workspace :: string
  lg_state :: string
  lg_verifier :: string
  lg_redirect :: string
  lg_authorize_url :: string
  lg_token_url :: string
  lg_client_id :: string
  lg_client_secret :: string

definition random_string :: "'w web \<Rightarrow> nat \<Rightarrow> 'w \<Rightarrow> (web_error, string) result \<times> 'w" where
  "random_string wb n w = (case wb_random wb n w of (Inl e, w') \<Rightarrow> (Inl (WebText e), w') | (Inr bytes, w') \<Rightarrow> (Inr (base64_url bytes), w'))"

definition challenge_of :: "'w web \<Rightarrow> string \<Rightarrow> string" where
  "challenge_of wb verifier = base64_url (wb_sha256 wb verifier)"

definition pkce :: "'w web \<Rightarrow> 'w \<Rightarrow> (web_error, string \<times> string) result \<times> 'w" where
  "pkce wb w = (case random_string wb 32 w of (Inl e, w') \<Rightarrow> (Inl e, w') | (Inr v, w') \<Rightarrow> (Inr (v, challenge_of wb v), w'))"

definition login_query :: "string \<Rightarrow> string \<Rightarrow> string \<Rightarrow> string \<Rightarrow> string \<Rightarrow> string list \<Rightarrow> (string \<times> string) list" where
  "login_query client_id redirect state challenge server_url scopes =
     [(''response_type'', ''code''), (''client_id'', client_id), (''redirect_uri'', redirect), (''state'', state),
      (''code_challenge'', challenge), (''code_challenge_method'', ''S256''), (''resource'', server_url)] @
     (if scopes = [] then [] else [(''scope'', join_with '' '' scopes)])"

definition begin_login :: "'w web \<Rightarrow> string \<Rightarrow> string \<Rightarrow> string \<Rightarrow> string \<Rightarrow> 'w \<Rightarrow> (web_error, oauth_login) result \<times> 'w" where
  "begin_login wb server_name server_url workspace redirect w =
     (case discover_auth_server wb server_url w of
        (Inl e, w1) \<Rightarrow> (Inl e, w1)
      | (Inr m, w1) \<Rightarrow>
        (case register_client wb (am_registration m) redirect w1 of
           (Inl e, w2) \<Rightarrow> (Inl e, w2)
         | (Inr (client_id, client_secret), w2) \<Rightarrow>
           (case pkce wb w2 of
              (Inl e, w3) \<Rightarrow> (Inl e, w3)
            | (Inr (verifier, challenge), w3) \<Rightarrow>
              (case random_string wb 16 w3 of
                 (Inl e, w4) \<Rightarrow> (Inl e, w4)
               | (Inr state, w4) \<Rightarrow>
                   (case wb_set_query wb (am_authorization m)
                           (encode_values (login_query client_id redirect state challenge server_url (am_scopes m))) of
                      Inl e \<Rightarrow> Inl (WebText e)
                    | Inr url \<Rightarrow> Inr \<lparr>lg_server_name = server_name, lg_server_url = server_url, lg_workspace = workspace,
                        lg_state = state, lg_verifier = verifier, lg_redirect = redirect, lg_authorize_url = url,
                        lg_token_url = am_token m, lg_client_id = client_id, lg_client_secret = client_secret\<rparr>, w4)))))"

definition login_form :: "oauth_login \<Rightarrow> string \<Rightarrow> (string \<times> string) list" where
  "login_form lg code =
     [(''grant_type'', ''authorization_code''), (''code'', code), (''redirect_uri'', lg_redirect lg),
      (''client_id'', lg_client_id lg), (''code_verifier'', lg_verifier lg), (''resource'', lg_server_url lg)] @
     (if lg_client_secret lg = [] then [] else [(''client_secret'', lg_client_secret lg)])"

definition complete_login :: "'w web \<Rightarrow> oauth_login \<Rightarrow> string \<Rightarrow> 'w world \<Rightarrow> (web_error, oauth_token) result \<times> 'w world" where
  "complete_login wb lg code s =
     (case exchange_token wb (lg_token_url lg) (login_form lg code) (snd s) of
        (Inl e, w') \<Rightarrow> (Inl e, (fst s, w'))
      | (Inr t, w') \<Rightarrow>
          (let t' = t\<lparr>tk_token_url := lg_token_url lg, tk_client_id := lg_client_id lg, tk_client_secret := lg_client_secret lg\<rparr>
           in case save_token wb (lg_workspace lg) (lg_server_name lg) t' (fst s) of
                (Some e, d) \<Rightarrow> (Inl (WebDisk e), (d, w'))
              | (None, d) \<Rightarrow> (Inr t', (d, w'))))"

definition oauth_challenge :: "string \<Rightarrow> bool" where
  "oauth_challenge header \<longleftrightarrow> contains ''bearer'' (lower_text header)"

subsection \<open>Tokens survive and stay in the workspace\<close>

lemma fold_token_keys: "map fold_name [''access_token'', ''refresh_token'', ''token_type'', ''expires_at'', ''token_url'', ''client_id'', ''client_secret''] = [''access_token'', ''refresh_token'', ''token_type'', ''expires_at'', ''token_url'', ''client_id'', ''client_secret'']"
  by code_simp

lemmas token_keys_match = key_matrix_of [OF fold_token_keys, simplified]

lemma token_inverse: "pt (tt (tk_expires t)) = Some (tk_expires t) \<Longrightarrow> token_of_json pt (token_json tt t) = Some t"
  by (simp add: token_of_json_def token_json_def event_hits token_keys_match)

lemma slash_char: "CHR ''/'' = char_of n \<Longrightarrow> n mod 256 = (47 :: nat)"
  by (drule arg_cong [of _ _ "of_char :: char \<Rightarrow> nat"]) simp

lemma encode_rune_slash: "CHR ''/'' \<in> set (encode_rune r) \<Longrightarrow> r = 47"
proof (rule ccontr)
  assume a: "CHR ''/'' \<in> set (encode_rune r)" "r \<noteq> 47"
  define k where "k = (if 1114111 < r \<or> (55296 \<le> r \<and> r \<le> 57343) then rune_error else r)"
  have k: "k \<le> 1114111" "k \<noteq> 47" using a(2) by (auto simp: k_def rune_error_def)
  have low: "CHR ''/'' \<noteq> char_of n" if "128 \<le> n" "n < 256" for n :: nat using slash_char [of n] that by auto
  have "CHR ''/'' \<noteq> char_of (128 + n mod 64)" for n :: nat by (rule low) auto
  moreover have "k < 2048 \<Longrightarrow> CHR ''/'' \<noteq> char_of (192 + k div 64)" by (rule low) auto
  moreover have "k < 65536 \<Longrightarrow> CHR ''/'' \<noteq> char_of (224 + k div 4096)" by (rule low) auto
  moreover have "CHR ''/'' \<noteq> char_of (240 + k div 262144)" by (rule low) (use k(1) in auto)
  moreover have "k < 128 \<Longrightarrow> CHR ''/'' \<noteq> char_of k" using slash_char [of k] k(2) by auto
  moreover have "CHR ''/'' \<in> set (if k < 128 then [char_of k]
      else if k < 2048 then [char_of (192 + k div 64), char_of (128 + k mod 64)]
      else if k < 65536 then [char_of (224 + k div 4096), char_of (128 + k div 64 mod 64), char_of (128 + k mod 64)]
      else [char_of (240 + k div 262144), char_of (128 + k div 4096 mod 64), char_of (128 + k div 64 mod 64), char_of (128 + k mod 64)])"
    using a(1) by (simp only: encode_rune_def k_def Let_def)
  ultimately show False by (auto split: if_splits)
qed

definition token_file :: "string \<Rightarrow> string" where
  "token_file server = map_runes safe_rune server @ ''.json''"

lemma token_file_seg: "wf_seg (token_file server)"
proof -
  have "CHR ''/'' \<notin> set (encode_rune (safe_rune r))" for r
    using encode_rune_slash [of "safe_rune r"] by (auto simp: safe_rune_def byte_of_def split: if_splits)
  then have "CHR ''/'' \<notin> set (map_runes safe_rune server)" by (auto simp: map_runes_def)
  moreover have "xs @ ''.json'' \<noteq> ''.''" "xs @ ''.json'' \<noteq> ''..''" for xs :: string
    by (auto dest: arg_cong [of _ _ length])
  ultimately show ?thesis by (simp add: wf_seg_def token_file_def)
qed

lemma token_path_below:
  assumes "is_abs w"
  shows "apath_of (token_path w server) = below (apath_of w) [''tmp'', ''mcp-oauth'', token_file server]"
    and "token_path w server = render_path True (segs w @ [''tmp'', ''mcp-oauth'', token_file server])"
    and "token_path w server \<noteq> []"
proof -
  have "\<forall>e \<in> set [''tmp'', ''mcp-oauth'', token_file server]. wf_seg e" using token_file_seg by (simp add: wf_seg_def)
  note j = join_path_below [OF assms _ this]
  show "apath_of (token_path w server) = below (apath_of w) [''tmp'', ''mcp-oauth'', token_file server]"
    and "token_path w server = render_path True (segs w @ [''tmp'', ''mcp-oauth'', token_file server])"
    and "token_path w server \<noteq> []"
    using j by (simp_all add: token_path_def token_file_def [symmetric] render_path_def)
qed

lemma token_dir:
  assumes "is_abs w"
  shows "apath_of (dir_name (token_path w server)) = below (apath_of w) [''tmp'', ''mcp-oauth'']"
    and "apath_of (token_path w server @ ''.tmp'') = below (apath_of w) [''tmp'', ''mcp-oauth'', token_file server @ ''.tmp'']"
proof -
  have wf: "\<forall>s \<in> set (segs w @ [''tmp'', ''mcp-oauth'']). wf_seg s" using segs_wf [OF assms] by (auto simp: wf_seg_def)
  have t: "token_path w server = render_path True ((segs w @ [''tmp'', ''mcp-oauth'']) @ [token_file server])"
    by (simp add: token_path_below(2) [OF assms])
  show "apath_of (dir_name (token_path w server)) = below (apath_of w) [''tmp'', ''mcp-oauth'']"
    unfolding t dir_name_render [OF wf token_file_seg] apath_of_render [OF wf] by (simp add: below_def apath_of_def)
  have "wf_seg (token_file server @ ''.tmp'')" using token_file_seg [of server]
    by (auto simp: wf_seg_def token_file_def dest: arg_cong [of _ _ length])
  with wf have wf': "\<forall>s \<in> set ((segs w @ [''tmp'', ''mcp-oauth'']) @ [token_file server @ ''.tmp'']). wf_seg s" by simp
  show "apath_of (token_path w server @ ''.tmp'') = below (apath_of w) [''tmp'', ''mcp-oauth'', token_file server @ ''.tmp'']"
    unfolding t render_path_snoc apath_of_render [OF wf'] by (simp add: below_def apath_of_def)
qed

lemma save_token_steps:
  assumes "save_token wb w server t d = (None, d')"
  obtains d1 d2 where "mkdir_all (apath_of (dir_name (token_path w server))) d = Inr d1"
    and "write_file (apath_of (token_path w server @ ''.tmp'')) (wb_render_indent wb (token_json (wb_time_text wb) t) @ [newline]) d1 = Inr d2"
    and "rename_file (apath_of (token_path w server @ ''.tmp'')) (apath_of (token_path w server)) d2 = Inr d'"
  using assms unfolding save_token_def by (auto simp: Let_def split: sum.splits)

lemma save_then_load:
  assumes "save_token wb w server t d = (None, d')" "is_abs w" "tk_access t \<noteq> []"
    and "wb_parse wb (wb_render_indent wb (token_json (wb_time_text wb) t) @ [newline]) = Some (token_json (wb_time_text wb) t)"
    and "wb_parse_time wb (wb_time_text wb (tk_expires t)) = Some (tk_expires t)"
  shows "load_token wb w server d' = Some t"
proof -
  from assms(1) obtain d1 d2 where "write_file (apath_of (token_path w server @ ''.tmp''))
      (wb_render_indent wb (token_json (wb_time_text wb) t) @ [newline]) d1 = Inr d2"
    and "rename_file (apath_of (token_path w server @ ''.tmp'')) (apath_of (token_path w server)) d2 = Inr d'"
    by (rule save_token_steps)
  then have "read_text d' (token_path w server) = Inr (wb_render_indent wb (token_json (wb_time_text wb) t) @ [newline])"
    using read_after_rename read_after_write token_path_below(3) [OF assms(2)] by (simp add: read_text_def)
  then show ?thesis
    using assms(3,4) token_inverse [of "wb_parse_time wb" "wb_time_text wb" t, OF assms(5)] by (simp add: load_token_def)
qed

text \<open>
  A saved token is the one that is loaded later, and saving touches only the token's own file, its temporary copy and the
  directories above them: whatever characters the name of the server has, the file lies directly in the
  token directory of the workspace.
\<close>

theorem token_survives:
  assumes "save_token wb w server t d = (None, d')" "is_abs w" "tk_access t \<noteq> []"
    and "wb_parse wb (wb_render_indent wb (token_json (wb_time_text wb) t) @ [newline]) = Some (token_json (wb_time_text wb) t)"
    and "wb_parse_time wb (wb_time_text wb (tk_expires t)) = Some (tk_expires t)"
  shows "load_token wb w server d' = Some t \<and>
    (\<exists>f. CHR ''/'' \<notin> set f \<and> (\<forall>q. node_at d' q \<noteq> node_at d q \<longrightarrow>
       q \<in> {below (apath_of w) [''tmp'', ''mcp-oauth'', f], below (apath_of w) [''tmp'', ''mcp-oauth'', f @ ''.tmp'']} \<or>
       q \<le> below (apath_of w) [''tmp'', ''mcp-oauth''] \<and> node_at d q = None))"
proof -
  let ?path = "apath_of (token_path w server)" and ?tmp = "apath_of (token_path w server @ ''.tmp'')"
  from assms(1) obtain d1 d2 where m: "mkdir_all (apath_of (dir_name (token_path w server))) d = Inr d1"
    and wr: "write_file ?tmp (wb_render_indent wb (token_json (wb_time_text wb) t) @ [newline]) d1 = Inr d2"
    and rn: "rename_file ?tmp ?path d2 = Inr d'"
    by (rule save_token_steps)
  note loaded = save_then_load [OF assms]
  have frame: "q \<in> {?path, ?tmp} \<or> q \<le> below (apath_of w) [''tmp'', ''mcp-oauth''] \<and> node_at d q = None"
    if "node_at d' q \<noteq> node_at d q" for q
    using that rename_file_frame [OF rn, of q] write_file_frame [OF wr, of q] mkdir_all_frame_le [OF m, of q]
    unfolding token_dir(1) [OF assms(2)] by (auto split: if_splits)
  show ?thesis
  proof (intro conjI loaded exI [of _ "token_file server"] allI impI)
    show "CHR ''/'' \<notin> set (token_file server)" by (rule wf_seg_free [OF token_file_seg])
  qed (use frame in \<open>unfold token_path_below(1) [OF assms(2)] token_dir(2) [OF assms(2)]\<close>)
qed

text \<open>The file does not tell two servers apart whose names differ in a slash, a backslash, a colon or a dash.\<close>

lemma token_files_collide: "token_path w ''a/b'' = token_path w ''a-b''"
  by (simp add: token_path_def map_runes_def runes_ascii is_ascii_def byte_of_def safe_rune_def)

lemma safe_name:
  assumes "is_ascii s" "\<forall>c \<in> set s. byte_of c \<notin> {47, 58, 92}"
  shows "map_runes safe_rune s = s"
proof -
  have "byte_of (CHR ''/'') = 47" "byte_of (CHR '':'') = 58" by (simp_all add: byte_of_def)
  then have "concat (map (encode_rune \<circ> safe_rune \<circ> byte_of) s) = s"
    using assms by (induction s) (simp_all add: is_ascii_def safe_rune_def encode_rune_ascii)
  then show ?thesis by (simp add: map_runes_def runes_ascii [OF assms(1)] comp_assoc)
qed

lemma refresh_is_stored:
  assumes "refresh_token wb w server s = (Inr t, s')" "is_abs w"
    and "\<And>t. wb_parse wb (wb_render_indent wb (token_json (wb_time_text wb) t) @ [newline]) = Some (token_json (wb_time_text wb) t)"
    and "\<And>i. wb_parse_time wb (wb_time_text wb i) = Some i"
  shows "load_token wb w server (fst s') = Some t"
proof -
  from assms(1) obtain t0 where "load_token wb w server (fst s) = Some t0" by (auto simp: refresh_token_def split: option.splits)
  with assms(1) consider "s' = s" "t = t0" "load_token wb w server (fst s) = Some t0"
    | "save_token wb w server t (fst s) = (None, fst s')" "tk_access t \<noteq> []"
    by (auto simp: refresh_token_def Let_def exchange_token_def split: if_splits sum.splits prod.splits option.splits)
  then show ?thesis
  proof cases
    case 2
    from save_then_load [OF 2(1) assms(2) 2(2) assms(3,4)] show ?thesis .
  qed simp
qed

definition sample_token :: oauth_token where
  "sample_token = \<lparr>tk_access = ''k'', tk_refresh = ''r'', tk_type = [], tk_expires = 0, tk_token_url = [], tk_client_id = [],
     tk_client_secret = []\<rparr>"

text \<open>A small environment, given a decoder and what sending a request does.\<close>

definition sample_web_with :: "(string \<Rightarrow> json option) \<Rightarrow> (http_request \<Rightarrow> 'w \<Rightarrow> (string, http_response) result \<times> 'w) \<Rightarrow> 'w web" where
  "sample_web_with parse send = \<lparr>wb_parse = parse, wb_render = (\<lambda>_. []), wb_render_indent = (\<lambda>_. []),
     wb_decode_error = (\<lambda>s. s), wb_disk_error = (\<lambda>_. []), wb_time_text = (\<lambda>_. ''0''), wb_parse_time = (\<lambda>_. Some 0),
     wb_bad_url = (\<lambda>_. None), wb_parse_url = (\<lambda>u. Inr ([], u)), wb_set_query = (\<lambda>u q. Inr (u @ ''?'' @ q)), wb_getenv = (\<lambda>_. []),
     wb_sha256 = (\<lambda>s. s), wb_send = send, wb_random = (\<lambda>n w. (Inr (replicate n (CHR ''r'')), w)),
     wb_now = (\<lambda>_. 0), wb_cancelled = (\<lambda>_. None)\<rparr>"

definition sample_web :: "unit web" where
  "sample_web = sample_web_with (\<lambda>_. Some (token_json (\<lambda>_. ''0'') sample_token)) (\<lambda>_ w. (Inl ''refused'', w))"

theorem token_survives_witness:
  "load_token sample_web ''/w'' ''s'' (snd (save_token sample_web ''/w'' ''s'' sample_token [(APath [], Dir)])) = Some sample_token"
proof -
  have p: "token_path ''/w'' ''s'' = ''/w/tmp/mcp-oauth/s.json''"
  proof -
    have name: "map_runes safe_rune ''s'' = ''s''" by (rule safe_name) (simp_all add: is_ascii_def byte_of_def)
    show ?thesis unfolding token_path_def name by code_simp
  qed
  have "fst (save_token sample_web ''/w'' ''s'' sample_token [(APath [], Dir)]) = None"
    unfolding save_token_def p by code_simp
  then have s: "save_token sample_web ''/w'' ''s'' sample_token [(APath [], Dir)] =
      (None, snd (save_token sample_web ''/w'' ''s'' sample_token [(APath [], Dir)]))" by (simp add: prod_eq_iff)
  have "is_abs ''/w''" "tk_access sample_token \<noteq> []" by (simp_all add: sample_token_def)
  from token_survives [OF s this] show ?thesis by (simp add: sample_web_def sample_web_with_def sample_token_def)
qed

end
