(* ===== verification/McpClient.thy ===== *)
theory McpClient
  imports McpOAuth ExecServer Router
begin

section \<open>The client of tool servers: internal/mcp/client.go and http.go\<close>

text \<open>
  A client speaks JSON-RPC with a server over the pipes of a process or over HTTP. First what arrives on its own
  (\<open>dispatchJSON\<close> and the calls that wait, as events on the state of the client), then the calls themselves: over HTTP
  with retries, and over the pipes, where what the wait ends with is an answer of the environment. The tools of a
  server are executors of the router.
\<close>

subsection \<open>What arrives: replies, requests and notifications\<close>

type_synonym rpc_reply = "json option \<times> (int \<times> string) option"

record envelope =
  en_id :: "int option"
  en_method :: string
  en_params :: "json option"
  en_result :: "json option"
  en_error :: "(int \<times> string) option"

definition envelope_of_json :: "json \<Rightarrow> envelope option" where
  "envelope_of_json v = do {
     i \<leftarrow> int_ptr_field ''id'' v; m \<leftarrow> string_field ''method'' v; p \<leftarrow> json_field dec_raw_message ''params'' None v;
     r \<leftarrow> json_field dec_raw_message ''result'' None v; e \<leftarrow> ptr_field rpc_error_of (0, []) ''error'' v;
     Some \<lparr>en_id = i, en_method = m, en_params = p, en_result = r, en_error = e\<rparr> }"

text \<open>
  The channels of a client: a waiting call has a place for one reply; requests and notifications are queues of
  limited length, which are closed when the client is.
\<close>

record mcp_channels =
  ch_next_id :: int
  ch_pending :: "(int \<times> rpc_reply option) list"
  ch_notifications :: "(string \<times> json option) list"
  ch_requests :: "(int \<times> string \<times> json option) list"
  ch_closed :: bool
  ch_panicked :: bool

definition new_channels :: mcp_channels where
  "new_channels = \<lparr>ch_next_id = 0, ch_pending = [], ch_notifications = [], ch_requests = [], ch_closed = False,
     ch_panicked = False\<rparr>"

text \<open>A send on a closed channel panics, also in a \<open>select\<close> with a default.\<close>

definition push_request :: "int \<times> string \<times> json option \<Rightarrow> mcp_channels \<Rightarrow> mcp_channels" where
  "push_request r c =
     (if ch_closed c then c\<lparr>ch_panicked := True\<rparr>
      else if length (ch_requests c) < 16 then c\<lparr>ch_requests := ch_requests c @ [r]\<rparr> else c)"

definition push_notification :: "string \<times> json option \<Rightarrow> mcp_channels \<Rightarrow> mcp_channels" where
  "push_notification n c =
     (if ch_closed c then c\<lparr>ch_panicked := True\<rparr>
      else if length (ch_notifications c) < 32 then c\<lparr>ch_notifications := ch_notifications c @ [n]\<rparr> else c)"

definition push_reply :: "int \<Rightarrow> rpc_reply \<Rightarrow> mcp_channels \<Rightarrow> mcp_channels" where
  "push_reply i r c =
     (case map_of (ch_pending c) i of
        Some None \<Rightarrow> c\<lparr>ch_pending := AList.update i (Some r) (ch_pending c)\<rparr>
      | _ \<Rightarrow> c)"

definition dispatch_envelope :: "envelope \<Rightarrow> mcp_channels \<Rightarrow> mcp_channels" where
  "dispatch_envelope e c =
     (case en_id e of
        Some i \<Rightarrow>
          if en_method e \<noteq> [] then push_request (i, en_method e, en_params e) c
          else push_reply i (en_result e, en_error e) c
      | None \<Rightarrow> if en_method e \<noteq> [] then push_notification (en_method e, en_params e) c else c)"

definition dispatch_json :: "(string \<Rightarrow> json option) \<Rightarrow> string \<Rightarrow> mcp_channels \<Rightarrow> mcp_channels" where
  "dispatch_json parse payload c =
     (case Option.bind (parse payload) envelope_of_json of None \<Rightarrow> c | Some e \<Rightarrow> dispatch_envelope e c)"

text \<open>
  The events at a client. Over pipes the reader itself closes the channels at the end of its input; over HTTP
  \<open>Close\<close> does, while the reader of the stream may still have lines.
\<close>

datatype call_end = CallReplied rpc_reply | CallStopped | CallCancelled string | CallUnwritten string

datatype mcp_event =
    BeginCall
  | EndCall int call_end
  | Arrives string
  | TakesRequest
  | TakesNotification
  | Closes

definition mcp_enabled :: "bool \<Rightarrow> mcp_event \<Rightarrow> mcp_channels \<Rightarrow> bool" where
  "mcp_enabled over_http ev c \<longleftrightarrow> \<not> ch_panicked c \<and>
     (case ev of
        BeginCall \<Rightarrow> True
      | EndCall i e \<Rightarrow> map_of (ch_pending c) i \<noteq> None \<and>
          (case e of CallReplied r \<Rightarrow> map_of (ch_pending c) i = Some (Some r) | CallStopped \<Rightarrow> ch_closed c | _ \<Rightarrow> True)
      | Arrives _ \<Rightarrow> over_http \<or> \<not> ch_closed c
      | TakesRequest \<Rightarrow> ch_requests c \<noteq> []
      | TakesNotification \<Rightarrow> ch_notifications c \<noteq> []
      | Closes \<Rightarrow> \<not> ch_closed c)"

fun mcp_effect :: "(string \<Rightarrow> json option) \<Rightarrow> mcp_event \<Rightarrow> mcp_channels \<Rightarrow> mcp_channels" where
  "mcp_effect parse BeginCall c =
     c\<lparr>ch_next_id := ch_next_id c + 1, ch_pending := AList.update (ch_next_id c + 1) None (ch_pending c)\<rparr>"
| "mcp_effect parse (EndCall i e) c = c\<lparr>ch_pending := AList.delete i (ch_pending c)\<rparr>"
| "mcp_effect parse (Arrives payload) c = dispatch_json parse payload c"
| "mcp_effect parse TakesRequest c = c\<lparr>ch_requests := tl (ch_requests c)\<rparr>"
| "mcp_effect parse TakesNotification c = c\<lparr>ch_notifications := tl (ch_notifications c)\<rparr>"
| "mcp_effect parse Closes c = c\<lparr>ch_closed := True\<rparr>"

text \<open>\<open>None\<close> when an event is not possible in the state it meets.\<close>

fun mcp_run :: "bool \<Rightarrow> (string \<Rightarrow> json option) \<Rightarrow> mcp_event list \<Rightarrow> mcp_channels \<Rightarrow> mcp_channels option" where
  "mcp_run over_http parse [] c = Some c"
| "mcp_run over_http parse (ev # evs) c =
     (if mcp_enabled over_http ev c then mcp_run over_http parse evs (mcp_effect parse ev c) else None)"

subsection \<open>A call gets its own answer\<close>

text \<open>The replies among the lines that arrive after call \<open>i\<close> began, when \<open>n\<close> calls have begun before.\<close>

fun replies_to :: "(string \<Rightarrow> json option) \<Rightarrow> int \<Rightarrow> int \<Rightarrow> mcp_event list \<Rightarrow> rpc_reply list" where
  "replies_to parse i n [] = []"
| "replies_to parse i n (BeginCall # evs) = replies_to parse i (n + 1) evs"
| "replies_to parse i n (Arrives payload # evs) =
     (case Option.bind (parse payload) envelope_of_json of
        Some e \<Rightarrow> if en_id e = Some i \<and> en_method e = [] \<and> i \<le> n then [(en_result e, en_error e)] else []
      | None \<Rightarrow> []) @ replies_to parse i n evs"
| "replies_to parse i n (ev # evs) = replies_to parse i n evs"

definition begins :: "mcp_event list \<Rightarrow> int" where
  "begins evs = int (length (filter (\<lambda>ev. ev = BeginCall) evs))"

lemma begins_simps [simp]:
  "begins [] = 0" "begins (BeginCall # evs) = begins evs + 1" "ev \<noteq> BeginCall \<Longrightarrow> begins (ev # evs) = begins evs"
  "begins (evs @ evs') = begins evs + begins evs'"
  by (simp_all add: begins_def)

lemma replies_to_append: "replies_to parse i n (evs @ evs') = replies_to parse i n evs @ replies_to parse i (n + begins evs) evs'"
  by (induction parse i n evs rule: replies_to.induct) (simp_all add: ac_simps)

lemma replies_to_later: "n + begins evs < i \<Longrightarrow> replies_to parse i n evs = []"
proof (induction parse i n evs rule: replies_to.induct)
  case (3 parse i n payload evs)
  have "0 \<le> begins evs" by (simp add: begins_def)
  with 3 show ?case by (auto split: option.splits)
qed (auto simp: begins_def)

lemma mcp_run_append: "mcp_run h parse (evs @ evs') c = Option.bind (mcp_run h parse evs c) (mcp_run h parse evs')"
  by (induction h parse evs c rule: mcp_run.induct) simp_all

text \<open>What holds of a client after the events \<open>evs\<close>.\<close>

definition first_of :: "'a list \<Rightarrow> 'a option" where
  "first_of xs = (case xs of [] \<Rightarrow> None | x # _ \<Rightarrow> Some x)"

lemma first_of_Some: "first_of xs = Some x \<longleftrightarrow> (\<exists>ys. xs = x # ys)"
  by (auto simp: first_of_def split: list.splits)

lemma first_of_simps [simp]: "first_of [] = None" "first_of (x # xs) = Some x" "first_of xs = None \<longleftrightarrow> xs = []"
  by (simp_all add: first_of_def split: list.splits)

lemma first_of_append: "first_of (xs @ ys) = (case first_of xs of None \<Rightarrow> first_of ys | Some x \<Rightarrow> Some x)"
  by (cases xs) simp_all

definition channels_ok :: "(string \<Rightarrow> json option) \<Rightarrow> mcp_event list \<Rightarrow> mcp_channels \<Rightarrow> bool" where
  "channels_ok parse evs c \<longleftrightarrow> ch_next_id c = begins evs \<and>
     (\<forall>i slot. map_of (ch_pending c) i = Some slot \<longrightarrow> 0 < i \<and> i \<le> begins evs \<and> slot = first_of (replies_to parse i 0 evs) \<and>
        (\<forall>e. EndCall i e \<notin> set evs)) \<and>
     (\<forall>i e. EndCall i e \<in> set evs \<longrightarrow> i \<le> begins evs) \<and>
     length (ch_requests c) \<le> 16 \<and> length (ch_notifications c) \<le> 32"

lemma channels_ok_new: "channels_ok parse [] new_channels"
  by (simp add: channels_ok_def new_channels_def)

lemma dispatch_keeps:
  "ch_next_id (dispatch_json parse payload c) = ch_next_id c"
  "length (ch_requests c) \<le> 16 \<Longrightarrow> length (ch_requests (dispatch_json parse payload c)) \<le> 16"
  "length (ch_notifications c) \<le> 32 \<Longrightarrow> length (ch_notifications (dispatch_json parse payload c)) \<le> 32"
  by (auto simp: dispatch_json_def dispatch_envelope_def push_request_def push_notification_def push_reply_def split: option.splits)

lemma dispatch_pending:
  "map_of (ch_pending (dispatch_json parse payload c)) i =
     (case map_of (ch_pending c) i of
        Some None \<Rightarrow> Some (case Option.bind (parse payload) envelope_of_json of
            Some e \<Rightarrow> if en_id e = Some i \<and> en_method e = [] then Some (en_result e, en_error e) else None
          | None \<Rightarrow> None)
      | x \<Rightarrow> x)"
  by (auto simp: dispatch_json_def dispatch_envelope_def push_request_def push_notification_def push_reply_def update_conv'
      split: option.splits)

lemma channels_ok_step:
  assumes "channels_ok parse evs c" "mcp_enabled h ev c"
  shows "channels_ok parse (evs @ [ev]) (mcp_effect parse ev c)"
proof -
  have n: "ch_next_id c = begins evs" "0 \<le> begins evs" and q: "length (ch_requests c) \<le> 16" "length (ch_notifications c) \<le> 32"
    and p: "\<And>i slot. map_of (ch_pending c) i = Some slot \<Longrightarrow> 0 < i \<and> i \<le> begins evs \<and> slot = first_of (replies_to parse i 0 evs) \<and>
        (\<forall>e. EndCall i e \<notin> set evs)"
    and e: "\<And>i e. EndCall i e \<in> set evs \<Longrightarrow> i \<le> begins evs"
    using assms(1) by (auto simp: channels_ok_def begins_def)
  show ?thesis
  proof (cases ev)
    case BeginCall
    have "replies_to parse (begins evs + 1) 0 evs = []" by (rule replies_to_later) simp
    then show ?thesis
      using n q p e unfolding channels_ok_def BeginCall
      by (auto simp: update_conv' replies_to_append split: if_splits) force+
  next
    case (EndCall i e0)
    with assms(2) p [of i] have "i \<le> begins evs" by (auto simp: mcp_enabled_def)
    then show ?thesis
      using n q p e unfolding channels_ok_def EndCall by (auto simp: delete_conv' replies_to_append split: if_splits)
  next
    case (Arrives payload)
    have "map_of (ch_pending c) i = Some slot0 \<Longrightarrow> map_of (ch_pending (dispatch_json parse payload c)) i = Some slot \<Longrightarrow>
        slot = first_of (replies_to parse i 0 (evs @ [Arrives payload]))" for i slot slot0
      using p [of i slot0] by (auto simp: dispatch_pending replies_to_append first_of_append split: option.splits if_splits)
    moreover have "\<exists>slot0. map_of (ch_pending c) i = Some slot0"
      if "map_of (ch_pending (dispatch_json parse payload c)) i = Some slot" for i slot
      using that by (auto simp: dispatch_pending split: option.splits)
    ultimately show ?thesis
      using n q p e unfolding channels_ok_def Arrives by (auto simp: dispatch_keeps) blast+
  qed (use n q p e in \<open>auto simp: channels_ok_def replies_to_append\<close>)
qed

lemma channels_ok_run: "mcp_run h parse evs new_channels = Some c \<Longrightarrow> channels_ok parse evs c"
proof (induction evs arbitrary: c rule: rev_induct)
  case (snoc ev evs)
  then show ?case by (auto simp: mcp_run_append intro: channels_ok_step split: bind_splits if_splits)
qed (simp add: channels_ok_new)


text \<open>
  A request that arrives at a full queue is dropped and never answered. Over pipes no order of events panics, over
  HTTP a message of the stream that is read as the client closes does.
\<close>

lemma pipes_never_panic:
  assumes "mcp_run False parse evs c = Some c'" "\<not> ch_panicked c"
  shows "\<not> ch_panicked c'"
proof -
  have "\<not> ch_panicked (mcp_effect parse ev c)" if "mcp_enabled False ev c" for ev c
    using that by (cases ev) (auto simp: mcp_enabled_def dispatch_json_def dispatch_envelope_def push_request_def
        push_notification_def push_reply_def split: option.splits)
  with assms show ?thesis by (induction evs arbitrary: c) (auto split: if_splits)
qed

definition sample_message :: "json option \<Rightarrow> json" where
  "sample_message i = JObj ((case i of None \<Rightarrow> [] | Some v \<Rightarrow> [(''id'', v)]) @ [(''method'', JStr ''m'')])"

text \<open>
  Closing a client of a server over HTTP can panic the program: \<open>Close\<close> closes the channels of requests and
  notifications without waiting for the reader of the event stream, which then sends on them. Over pipes no
  sequence of events panics.
\<close>

theorem http_close_panics:
  "(\<exists>c. mcp_run True (\<lambda>_. Some (sample_message None)) [Closes, Arrives payload] new_channels = Some c \<and> ch_panicked c) \<and>
   (\<forall>parse evs c. mcp_run False parse evs new_channels = Some c \<longrightarrow> \<not> ch_panicked c)"
proof
  have "envelope_of_json (sample_message None) = Some \<lparr>en_id = None, en_method = ''m'', en_params = None, en_result = None, en_error = None\<rparr>"
    by code_simp
  then show "\<exists>c. mcp_run True (\<lambda>_. Some (sample_message None)) [Closes, Arrives payload] new_channels = Some c \<and> ch_panicked c"
    by (simp add: mcp_enabled_def new_channels_def dispatch_json_def dispatch_envelope_def push_notification_def)
  show "\<forall>parse evs c. mcp_run False parse evs new_channels = Some c \<longrightarrow> \<not> ch_panicked c"
    using pipes_never_panic [where c = new_channels] by (simp add: new_channels_def)
qed

subsection \<open>Requests over HTTP\<close>

record 'w mcp_env =
  mv_web :: "'w web"
  mv_refloat :: "string \<Rightarrow> json"
  mv_environ :: "string list"
  mv_spawn :: "string \<Rightarrow> string list \<Rightarrow> string \<Rightarrow> string list \<Rightarrow> 'w \<Rightarrow> string option \<times> 'w"
  mv_exchange :: "string \<Rightarrow> 'w \<Rightarrow> call_end \<times> 'w"
  mv_write :: "string \<Rightarrow> 'w \<Rightarrow> string option \<times> 'w"
  mv_kill :: "'w \<Rightarrow> 'w"

text \<open>
  The fields of a client that are not channels. Writing to the pipes, with what the wait for the reply ends with, is
  \<open>mv_exchange\<close>.
\<close>

record mcp_client =
  cl_name :: string
  cl_workspace :: string
  cl_url :: string
  cl_headers :: "(string \<times> string) list"
  cl_next_id :: int
  cl_session_id :: string
  cl_authorization :: string
  cl_closed :: bool

definition web_error_text :: "'w web \<Rightarrow> web_error \<Rightarrow> string" where
  "web_error_text wb e =
     (case e of
        OAuthRequired \<Rightarrow> ''MCP OAuth login required''
      | WebText t \<Rightarrow> t
      | WebDisk d \<Rightarrow> wb_disk_error wb d
      | WebDecode b \<Rightarrow> wb_decode_error wb b)"

definition retryable :: "string \<Rightarrow> bool" where
  "retryable error_text \<longleftrightarrow> list_ex (\<lambda>w. contains w (lower_text error_text)) [''timeout'', ''connection'', ''503'', ''502'', ''429'']"

definition apply_headers :: "'w web \<Rightarrow> mcp_client \<Rightarrow> (string \<times> string) list \<Rightarrow> (string \<times> string) list" where
  "apply_headers wb cl hs =
     (let hs1 = fold (\<lambda>(k, v). header_set k (expand_env (wb_getenv wb) v)) (cl_headers cl) hs;
          hs2 = (if cl_session_id cl = [] then hs1 else header_set ''Mcp-Session-Id'' (cl_session_id cl) hs1)
      in if cl_authorization cl = [] then hs2 else header_set ''Authorization'' (cl_authorization cl) hs2)"

text \<open>The first line of data in a stream of events.\<close>

definition first_sse_data :: "string \<Rightarrow> string" where
  "first_sse_data body =
     (case find (prefix ''data:'') (split_on newline body) of
        None \<Rightarrow> []
      | Some l \<Rightarrow> trim_space (drop 5 l))"

text \<open>The envelope of a reply; \<open>target\<close> tells whether the result fits what it is decoded into, if it is.\<close>

definition http_reply :: "'w web \<Rightarrow> (json \<Rightarrow> bool) option \<Rightarrow> string \<Rightarrow> (web_error, json option) result" where
  "http_reply wb target body =
     (case target of
        None \<Rightarrow> Inr None
      | Some fits \<Rightarrow>
        (case Option.bind (wb_parse wb body) (\<lambda>v. do {
               r \<leftarrow> json_field dec_raw_message ''Result'' None v; e \<leftarrow> ptr_field rpc_error_of (0, []) ''Error'' v; Some (r, e) }) of
           None \<Rightarrow> Inl (WebDecode body)
         | Some (_, Some (_, message)) \<Rightarrow> Inl (WebText (''MCP HTTP: '' @ message))
         | Some (None, None) \<Rightarrow> Inr None
         | Some (Some v, None) \<Rightarrow> if fits v then Inr (Some v) else Inl (WebDecode body)))"

definition body_limit :: nat where "body_limit = 8388608"

definition http_answer :: "'w web \<Rightarrow> (json \<Rightarrow> bool) option \<Rightarrow> http_response \<Rightarrow> (web_error, json option) result" where
  "http_answer wb target r =
     (if hp_status r = 401 \<and> oauth_challenge (header_get ''WWW-Authenticate'' (hp_headers r)) then Inl OAuthRequired
      else case hp_body r of
        Inl e \<Rightarrow> Inl (WebText e)
      | Inr full \<Rightarrow>
        (let body = take body_limit full in
         if \<not> success_status r then Inl (WebText (''MCP HTTP '' @ hp_status_text r @ '': '' @ trim_space body))
         else if trim_space body = [] then Inr None
         else if contains ''text/event-stream'' (header_get ''Content-Type'' (hp_headers r)) then
           (if first_sse_data body = [] then Inr None else http_reply wb target (first_sse_data body))
         else http_reply wb target body))"

definition do_http :: "'w web \<Rightarrow> string \<Rightarrow> (json \<Rightarrow> bool) option \<Rightarrow> mcp_client \<Rightarrow> 'w \<Rightarrow>
    (web_error, json option) result \<times> mcp_client \<times> 'w" where
  "do_http wb payload target cl w =
     (case wb_bad_url wb (cl_url cl) of
        Some e \<Rightarrow> (Inl (WebText e), cl, w)
      | None \<Rightarrow>
        (case wb_send wb \<lparr>hq_method = ''POST'', hq_url = cl_url cl,
                hq_headers = apply_headers wb cl (header_set ''Accept'' ''application/json, text/event-stream''
                  (header_set ''Content-Type'' ''application/json'' [])),
                hq_body = payload\<rparr> w of
           (Inl e, w') \<Rightarrow> (Inl (WebText e), cl, w')
         | (Inr r, w') \<Rightarrow>
             (let i = header_get ''Mcp-Session-Id'' (hp_headers r) in
              (http_answer wb target r, if i = [] then cl else cl\<lparr>cl_session_id := i\<rparr>, w'))))"

definition refresh_authorization :: "'w web \<Rightarrow> mcp_client \<Rightarrow> 'w world \<Rightarrow> bool \<times> mcp_client \<times> 'w world" where
  "refresh_authorization wb cl s =
     (if cl_workspace cl = [] then (False, cl, s)
      else case refresh_token wb (cl_workspace cl) (cl_name cl) s of
        (Inl e, s') \<Rightarrow> (False, cl, s')
      | (Inr t, s') \<Rightarrow> (True, cl\<lparr>cl_authorization := authorization_header t\<rparr>, s'))"

definition load_authorization :: "'w web \<Rightarrow> mcp_client \<Rightarrow> 'w world \<Rightarrow> mcp_client \<times> 'w world" where
  "load_authorization wb cl s = snd (refresh_authorization wb cl s)"

text \<open>The attempts of \<open>callHTTP\<close>, of which \<open>n\<close> are left; \<open>cancelled\<close> tells whether the context ends before the next.\<close>

primrec http_attempts :: "'w web \<Rightarrow> ('w \<Rightarrow> string option) \<Rightarrow> string \<Rightarrow> (json \<Rightarrow> bool) option \<Rightarrow> nat \<Rightarrow> web_error \<Rightarrow> mcp_client \<Rightarrow>
    'w world \<Rightarrow> (web_error, json option) result \<times> mcp_client \<times> 'w world" where
  "http_attempts wb cancelled payload target 0 err cl s = (Inl err, cl, s)"
| "http_attempts wb cancelled payload target (Suc n) err cl s =
     (case (if n < 2 then cancelled (snd s) else None) of
        Some e \<Rightarrow> (Inl (WebText e), cl, s)
      | None \<Rightarrow>
        (case do_http wb payload target cl (snd s) of
           (Inr x, cl1, w) \<Rightarrow> (Inr x, cl1, (fst s, w))
         | (Inl e, cl1, w) \<Rightarrow>
             if e = OAuthRequired then
               (case refresh_authorization wb cl1 (fst s, w) of
                  (True, cl2, s2) \<Rightarrow> http_attempts wb cancelled payload target n e cl2 s2
                | (False, cl2, s2) \<Rightarrow> (Inl e, cl2, s2))
             else if retryable (web_error_text wb e) then http_attempts wb cancelled payload target n e cl1 (fst s, w)
             else (Inl e, cl1, (fst s, w))))"

definition call_http :: "'w web \<Rightarrow> ('w \<Rightarrow> string option) \<Rightarrow> string \<Rightarrow> (json \<Rightarrow> bool) option \<Rightarrow> mcp_client \<Rightarrow> 'w world \<Rightarrow>
    (web_error, json option) result \<times> mcp_client \<times> 'w world" where
  "call_http wb cancelled payload target = http_attempts wb cancelled payload target 3 (WebText [])"

text \<open>The messages of an event stream: the data lines up to each empty line. A last line without its end counts.\<close>

fun sse_messages :: "string list \<Rightarrow> string list \<Rightarrow> string list" where
  "sse_messages held [] = (if held = [] then [] else [join_with [newline] held])"
| "sse_messages held (l # ls) =
     (if l = [] then (if held = [] then [] else [join_with [newline] held]) @ sse_messages [] ls
      else if prefix ''data:'' l then sse_messages (held @ [trim_space (drop 5 l)]) ls
      else sse_messages held ls)"

definition read_sse :: "(string \<Rightarrow> json option) \<Rightarrow> string list \<Rightarrow> mcp_channels \<Rightarrow> mcp_channels" where
  "read_sse parse ls c = fold (dispatch_json parse) (sse_messages [] ls) c"

subsection \<open>Calls\<close>

definition call_json :: "int \<Rightarrow> string \<Rightarrow> json \<Rightarrow> json" where
  "call_json i m params = JObj [int_entry ''id'' i, str_entry ''jsonrpc'' ''2.0'', str_entry ''method'' m, (''params'', params)]"

definition mcp_call :: "'w mcp_env \<Rightarrow> string \<Rightarrow> json \<Rightarrow> (json \<Rightarrow> bool) \<Rightarrow> mcp_client \<Rightarrow> 'w world \<Rightarrow>
    (web_error, json option) result \<times> mcp_client \<times> 'w world" where
  "mcp_call mv m params fits cl s =
     (let wb = mv_web mv; i = cl_next_id cl + 1; cl1 = cl\<lparr>cl_next_id := i\<rparr>; request = wb_render wb (call_json i m params)
      in if cl_url cl \<noteq> [] then call_http wb (wb_cancelled wb) request (Some fits) cl1 s
         else (case mv_exchange mv (request @ [newline]) (snd s) of
             (e, w) \<Rightarrow>
               (case e of
                  CallUnwritten t \<Rightarrow> Inl (WebText t)
                | CallCancelled t \<Rightarrow> Inl (WebText t)
                | CallStopped \<Rightarrow> Inl (WebText (''MCP server '' @ cl_name cl @ '' stopped''))
                | CallReplied (_, Some (_, message)) \<Rightarrow> Inl (WebText (''MCP '' @ m @ '': '' @ message))
                | CallReplied (None, None) \<Rightarrow> Inr None
                | CallReplied (Some v, None) \<Rightarrow> if fits v then Inr (Some v) else Inl (WebDecode (wb_render wb v)),
                cl1, (fst s, w))))"

text \<open>A message without a reply: over HTTP it is a request whose answer is not looked at and that nothing cancels.\<close>

definition send_message :: "'w mcp_env \<Rightarrow> json \<Rightarrow> mcp_client \<Rightarrow> 'w world \<Rightarrow> web_error option \<times> mcp_client \<times> 'w world" where
  "send_message mv v cl s =
     (let wb = mv_web mv in
      if cl_url cl \<noteq> [] then
        (case call_http wb (\<lambda>_. None) (wb_render wb v) None cl s of
           (Inl e, r) \<Rightarrow> (Some e, r)
         | (Inr _, r) \<Rightarrow> (None, r))
      else (case mv_write mv (wb_render wb v @ [newline]) (snd s) of (e, w) \<Rightarrow> (map_option WebText e, cl, (fst s, w))))"

definition mcp_notify :: "'w mcp_env \<Rightarrow> string \<Rightarrow> json \<Rightarrow> mcp_client \<Rightarrow> 'w world \<Rightarrow> web_error option \<times> mcp_client \<times> 'w world" where
  "mcp_notify mv m params = send_message mv (JObj [str_entry ''jsonrpc'' ''2.0'', str_entry ''method'' m, (''params'', params)])"

definition mcp_respond :: "'w mcp_env \<Rightarrow> int \<Rightarrow> (string, json) result \<Rightarrow> mcp_client \<Rightarrow> 'w world \<Rightarrow>
    web_error option \<times> mcp_client \<times> 'w world" where
  "mcp_respond mv i r = send_message mv (JObj (case r of
       Inl e \<Rightarrow> [(''error'', JObj [int_entry ''code'' (- 32000), str_entry ''message'' e]), int_entry ''id'' i, str_entry ''jsonrpc'' ''2.0'']
     | Inr v \<Rightarrow> [int_entry ''id'' i, str_entry ''jsonrpc'' ''2.0'', (''result'', v)]))"

definition close_client :: "'w mcp_env \<Rightarrow> mcp_client \<Rightarrow> 'w world \<Rightarrow> mcp_client \<times> 'w world" where
  "close_client mv cl s =
     (if cl_closed cl then (cl, s)
      else (cl\<lparr>cl_closed := True\<rparr>, if cl_url cl = [] then (fst s, mv_kill mv (snd s)) else s))"

subsection \<open>Tools of a server\<close>

definition dec_any_map :: "(string \<Rightarrow> json) \<Rightarrow> json \<Rightarrow> json \<Rightarrow> json option" where
  "dec_any_map refloat v old =
     (case v of
        JNull \<Rightarrow> Some JNull
      | JObj kvs \<Rightarrow> Some (JObj (sort_entries ((case old of JObj before \<Rightarrow> before | _ \<Rightarrow> []) @ map (map_prod id (any_json refloat)) kvs)))
      | _ \<Rightarrow> None)"

definition dec_annotations :: "json \<Rightarrow> bool \<Rightarrow> bool option" where
  "dec_annotations v old =
     (case v of
        JNull \<Rightarrow> Some old
      | JObj _ \<Rightarrow> json_field dec_bool ''readOnlyHint'' old v
      | _ \<Rightarrow> None)"

definition tool_of_json :: "(string \<Rightarrow> json) \<Rightarrow> json \<Rightarrow> mcp_tool option" where
  "tool_of_json refloat v = do {
     n \<leftarrow> string_field ''Name'' v; ds \<leftarrow> string_field ''Description'' v;
     i \<leftarrow> json_field (dec_any_map refloat) ''inputSchema'' JNull v; r \<leftarrow> json_field dec_annotations ''annotations'' False v;
     Some \<lparr>mt_name = n, mt_description = ds, mt_input_schema = i, mt_read_only = r\<rparr> }"

definition tools_of_json :: "(string \<Rightarrow> json) \<Rightarrow> json \<Rightarrow> mcp_tool list option" where
  "tools_of_json refloat v = json_field (dec_list (tool_of_json refloat)) ''tools'' [] v"

definition list_tools :: "'w mcp_env \<Rightarrow> mcp_client \<Rightarrow> 'w world \<Rightarrow> (web_error, mcp_tool list) result \<times> mcp_client \<times> 'w world" where
  "list_tools mv cl s =
     (case mcp_call mv ''tools/list'' (JObj []) (\<lambda>v. tools_of_json (mv_refloat mv) v \<noteq> None) cl s of
        (Inl e, r) \<Rightarrow> (Inl e, r)
      | (Inr None, r) \<Rightarrow> (Inr [], r)
      | (Inr (Some v), r) \<Rightarrow> (Inr (the (tools_of_json (mv_refloat mv) v)), r))"

text \<open>The result of a tool: the texts of its contents (\<open>None\<close> for a nil slice), and whether it is an error.\<close>

definition tool_content_of_json :: "json \<Rightarrow> (string \<times> string) option" where
  "tool_content_of_json v = do { k \<leftarrow> string_field ''Type'' v; t \<leftarrow> string_field ''Text'' v; Some (k, t) }"

definition dec_contents :: "json \<Rightarrow> (string \<times> string) list option \<Rightarrow> (string \<times> string) list option option" where
  "dec_contents v old = (if v = JNull then Some None else map_option Some (dec_list tool_content_of_json v []))"

definition tool_result_of_json :: "json \<Rightarrow> ((string \<times> string) list option \<times> bool) option" where
  "tool_result_of_json v = do {
     c \<leftarrow> json_field dec_contents ''content'' None v; e \<leftarrow> bool_field ''isError'' v; Some (c, e) }"

definition tool_result_json :: "(string \<times> string) list option \<times> bool \<Rightarrow> json" where
  "tool_result_json r = JObj
     [(''content'', case fst r of None \<Rightarrow> JNull
        | Some cs \<Rightarrow> JArr (map (\<lambda>(k, t). JObj [str_entry ''Type'' k, str_entry ''Text'' t]) cs)),
      (''isError'', JBool (snd r))]"

text \<open>\<open>CallTool\<close> returns a text and an error, both when the tool reports an error.\<close>

definition call_tool :: "'w mcp_env \<Rightarrow> string \<Rightarrow> json \<Rightarrow> mcp_client \<Rightarrow> 'w world \<Rightarrow>
    (string \<times> web_error option) \<times> mcp_client \<times> 'w world" where
  "call_tool mv name arguments cl s =
     (case mcp_call mv ''tools/call'' (JObj [(''arguments'', arguments), str_entry ''name'' name])
             (\<lambda>v. tool_result_of_json v \<noteq> None) cl s of
        (Inl e, r) \<Rightarrow> (([], Some e), r)
      | (Inr v, r) \<Rightarrow>
          (let result = (case v of None \<Rightarrow> (None, False) | Some j \<Rightarrow> the (tool_result_of_json j))
           in ((wb_render (mv_web mv) (tool_result_json result),
                if snd result then Some (WebText (''MCP tool '' @ name @ '' failed'')) else None), r)))"

definition mcp_approvals :: "string list" where
  "mcp_approvals = [''approved'', ''approved_for_session'', ''approved_with_amendment'']"

text \<open>\<open>Executor.Execute\<close> as the router uses it, which drops the text when there is an error.\<close>

definition mcp_execute :: "'w mcp_env \<Rightarrow> environment \<Rightarrow> reviewer \<Rightarrow> string \<Rightarrow> mcp_tool \<Rightarrow> call \<Rightarrow> mcp_client \<Rightarrow> 'w world \<Rightarrow>
    (tool_error, string) result \<times> mcp_client \<times> 'w world" where
  "mcp_execute mv env reviewer server tool c cl s =
     (let run = (let arguments = (if call_arguments c = [] then Some (JObj [])
                       else map_option (any_json (mv_refloat mv)) (wb_parse (mv_web mv) (call_arguments c)))
            in case arguments of
                 None \<Rightarrow> (Inl (McpFailed (wb_decode_error (mv_web mv) (call_arguments c))), cl, s)
               | Some v \<Rightarrow>
                 (case call_tool mv (mt_name tool) v cl s of
                    ((output, None), r) \<Rightarrow> (Inr output, r)
                  | ((output, Some e), r) \<Rightarrow> (Inl (McpFailed (web_error_text (mv_web mv) e)), r)))
      in if mt_read_only tool then run
         else case reviewer of
           None \<Rightarrow> (Inl (McpFailed (''MCP tool '' @ mt_name tool @ '' requires approval'')), cl, s)
         | Some review \<Rightarrow>
           (case review \<lparr>ar_call_id = call_id c,
                  ar_command = ''mcp__'' @ server @ ''__'' @ mt_name tool @ '' '' @ call_arguments c,
                  ar_working_directory = env_working_directory env, ar_reason = ''MCP tool may modify external state'',
                  ar_proposed_prefix = []\<rparr> of
              Inl e \<Rightarrow> (Inl (ReviewerError e), cl, s)
            | Inr decision \<Rightarrow>
                if decision \<notin> set mcp_approvals then (Inr ''MCP tool call denied by user'', cl, s) else run))"

text \<open>The fields of a form that a server asks for, in the order in which Go visits the map.\<close>

definition property_text :: "string \<Rightarrow> json \<Rightarrow> string \<Rightarrow> string" where
  "property_text k property fallback =
     (case property of
        JObj kvs \<Rightarrow> (case map_of kvs k of Some (JStr t) \<Rightarrow> if t = [] then fallback else t | _ \<Rightarrow> fallback)
      | _ \<Rightarrow> fallback)"

definition schema_fields :: "(string list \<Rightarrow> string list) \<Rightarrow> json \<Rightarrow> elicitation_field list" where
  "schema_fields order schema =
     (case schema of
        JObj kvs \<Rightarrow>
          (case map_of kvs ''properties'' of
             Some (JObj ps) \<Rightarrow> map (\<lambda>name. let p = the (map_of ps name) in
                 \<lparr>ef_name = name, ef_type = property_text ''type'' p ''string'', ef_title = property_text ''title'' p [],
                  ef_description = property_text ''description'' p []\<rparr>) (order (map fst ps))
           | _ \<Rightarrow> [])
      | _ \<Rightarrow> [])"

subsection \<open>Starting\<close>

definition initialize_json :: json where
  "initialize_json = JObj [(''capabilities'', JObj [(''elicitation'', JObj [])]),
     (''clientInfo'', JObj [str_entry ''name'' ''lob-codex'', str_entry ''version'' ''0.1'']),
     str_entry ''protocolVersion'' ''2025-06-18'']"

definition new_client :: "mcp_server \<Rightarrow> string \<Rightarrow> mcp_client" where
  "new_client config cwd = \<lparr>cl_name = ms_name config, cl_workspace = cwd, cl_url = ms_url config,
     cl_headers = (if ms_url config = [] then [] else ms_headers config), cl_next_id = 0, cl_session_id = [],
     cl_authorization = [], cl_closed = False\<rparr>"

definition start_once :: "'w mcp_env \<Rightarrow> mcp_server \<Rightarrow> string \<Rightarrow> 'w world \<Rightarrow> (web_error, mcp_client) result \<times> 'w world" where
  "start_once mv config cwd s =
     (if ms_url config \<noteq> [] then
        (let (cl, s1) = load_authorization (mv_web mv) (new_client config cwd) s
         in case mcp_call mv ''initialize'' initialize_json (\<lambda>_. True) cl s1 of
              (Inl e, _, s2) \<Rightarrow> (Inl e, s2)
            | (Inr _, cl2, s2) \<Rightarrow> (case mcp_notify mv ''notifications/initialized'' (JObj []) cl2 s2 of (_, cl3, s3) \<Rightarrow> (Inr cl3, s3)))
      else
        (case mv_spawn mv (ms_command config) (ms_args config)
                (if ms_working_directory config = [] then cwd else ms_working_directory config)
                (mv_environ mv @ map (\<lambda>(k, v). k @ ''='' @ v) (ms_env config)) (snd s) of
           (Some e, w) \<Rightarrow> (Inl (WebText e), (fst s, w))
         | (None, w) \<Rightarrow>
             (case mcp_call mv ''initialize'' initialize_json (\<lambda>_. True) (new_client config cwd) (fst s, w) of
                (Inl e, cl2, s2) \<Rightarrow> (Inl e, snd (close_client mv cl2 s2))
              | (Inr _, cl2, s2) \<Rightarrow> (case mcp_notify mv ''notifications/initialized'' (JObj []) cl2 s2 of (_, cl3, s3) \<Rightarrow> (Inr cl3, s3)))))"

primrec start_attempts :: "'w mcp_env \<Rightarrow> mcp_server \<Rightarrow> string \<Rightarrow> nat \<Rightarrow> web_error \<Rightarrow> 'w world \<Rightarrow>
    (web_error, mcp_client) result \<times> 'w world" where
  "start_attempts mv config cwd 0 err s = (Inl err, s)"
| "start_attempts mv config cwd (Suc n) err s =
     (case (if n < 2 then wb_cancelled (mv_web mv) (snd s) else None) of
        Some e \<Rightarrow> (Inl (WebText e), s)
      | None \<Rightarrow>
        (case start_once mv config cwd s of
           (Inr cl, s1) \<Rightarrow> (Inr cl, s1)
         | (Inl e, s1) \<Rightarrow>
             if e = OAuthRequired then (Inl e, s1)
             else if \<not> retryable (web_error_text (mv_web mv) e) \<and> n = 2 \<and>
                     \<not> contains ''start'' (lower_text (web_error_text (mv_web mv) e)) then (Inl e, s1)
             else start_attempts mv config cwd n e s1))"

definition mcp_start :: "'w mcp_env \<Rightarrow> mcp_server \<Rightarrow> string \<Rightarrow> 'w world \<Rightarrow> (web_error, mcp_client) result \<times> 'w world" where
  "mcp_start mv config cwd = start_attempts mv config cwd 3 (WebText [])"

subsection \<open>What calls guarantee and what they do not\<close>

text \<open>
  Property C21. A tool of a server runs only if the server declares it read-only or the user has approved this call: if
  anything has been sent, or a file or the client has changed, the reviewer was asked with the name of the tool
  and its whole arguments and answered with one of the three approvals.
\<close>

theorem mcp_tool_needs_approval:
  assumes "mcp_execute mv env reviewer server tool c cl s = (r, cl', s')" "(cl', s') \<noteq> (cl, s)" "\<not> mt_read_only tool"
  shows "\<exists>review decision. reviewer = Some review \<and> decision \<in> set mcp_approvals \<and>
    review \<lparr>ar_call_id = call_id c, ar_command = executor_name (McpExecutor k server tool) @ '' '' @ call_arguments c,
      ar_working_directory = env_working_directory env, ar_reason = ''MCP tool may modify external state'',
      ar_proposed_prefix = []\<rparr> = Inr decision"
  using assms by (auto simp: mcp_execute_def Let_def split: option.splits sum.splits if_splits)

lemma lower_text_ascii: "is_ascii a \<Longrightarrow> lower_text (a @ b) = map lower_char a @ lower_text b"
  by (induction a) (auto simp: is_ascii_def)

lemma contains_middle: "contains p (a @ p @ b)"
  unfolding contains_iff by blast

lemma busy_retryable: "retryable (''MCP HTTP 503 Service Unavailable'' @ t)"
proof -
  have lower: "map lower_char ''MCP HTTP 503 Service Unavailable'' = ''mcp http '' @ ''503'' @ '' service unavailable''"
    by code_simp
  have ascii: "is_ascii ''MCP HTTP 503 Service Unavailable''" by code_simp
  have hit: "contains ''503'' (lower_text (''MCP HTTP 503 Service Unavailable'' @ t))"
    unfolding lower_text_ascii [OF ascii] lower append_assoc by (rule contains_middle)
  show ?thesis unfolding retryable_def list_ex_iff by (rule bexI [where x = "''503''"], rule hit) simp
qed

text \<open>
  A call to a server over HTTP is not sent at most once: a server, or a gateway before it, that
  answers each request with the status 503 receives the same message three times, whatever it does with it and whatever
  the message asks for.
\<close>

theorem busy_call_sent_thrice:
  assumes "\<And>q w. wb_send wb q w = (Inr \<lparr>hp_status = 503, hp_status_text = ''503 Service Unavailable'', hp_headers = [], hp_body = Inr body\<rparr>, step (hq_body q) w)"
    and "wb_bad_url wb (cl_url cl) = None" and "\<And>w. cancelled w = None"
  shows "call_http wb cancelled payload target cl (d, w) =
    (Inl (WebText (''MCP HTTP 503 Service Unavailable: '' @ trim_space (take body_limit body))), cl,
     (d, step payload (step payload (step payload w))))"
proof -
  let ?e = "WebText (''MCP HTTP 503 Service Unavailable: '' @ trim_space (take body_limit body))"
  have "do_http wb payload target cl w = (Inl ?e, cl, step payload w)" for w
    by (simp add: do_http_def assms(1,2) http_answer_def header_get_def success_status_def Let_def)
  moreover have "retryable (web_error_text wb ?e)"
    using busy_retryable [of "'': '' @ trim_space (take body_limit body)"] by (simp add: web_error_text_def)
  ultimately show ?thesis by (simp add: call_http_def numeral_3_eq_3 assms(3))
qed

text \<open>
  A reply in an event stream is lost when a notification precedes it: only the first line of data is looked at, so a
  server whose answer to \<open>tools/list\<close> starts with a message without a result is taken to have no tools, without an
  error.
\<close>

theorem first_event_hides_result:
  assumes "\<And>q w. wb_send (mv_web mv) q w = (Inr \<lparr>hp_status = 200, hp_status_text = ''200 OK'',
        hp_headers = [(canonical_key ''Content-Type'', ''text/event-stream'')], hp_body = Inr body\<rparr>, w)"
    and "cl_url cl \<noteq> []" "wb_bad_url (mv_web mv) (cl_url cl) = None"
    and "trim_space (take body_limit body) \<noteq> []" "first_sse_data (take body_limit body) = note" "note \<noteq> []"
    and "wb_parse (mv_web mv) note = Some (JObj [(''jsonrpc'', JStr ''2.0''), (''method'', JStr m)])"
  shows "fst (list_tools mv cl s) = Inr []"
proof -
  let ?wb = "mv_web mv"
  have reply_keys: "\<not> key_matches ''Result'' ''jsonrpc''" "\<not> key_matches ''Result'' ''method''"
    "\<not> key_matches ''Error'' ''jsonrpc''" "\<not> key_matches ''Error'' ''method''" by code_simp+
  have keys: "canonical_key ''Mcp-Session-Id'' \<noteq> canonical_key ''Content-Type''" by code_simp
  have fields: "json_field dec_raw_message ''Result'' None (JObj [(''jsonrpc'', JStr ''2.0''), (''method'', JStr m)]) = Some None"
    "ptr_field rpc_error_of (0, []) ''Error'' (JObj [(''jsonrpc'', JStr ''2.0''), (''method'', JStr m)]) = Some None"
    using reply_keys by (simp_all add: json_field_def ptr_field_def)
  have "http_reply ?wb (Some fits) note = Inr None" for fits
    by (simp add: http_reply_def assms(7) fields)
  then have "do_http ?wb payload (Some fits) cl' w = (Inr None, cl', w)" if "cl_url cl' = cl_url cl" for payload fits cl' w
    using that assms(3-6) keys
    by (simp add: do_http_def assms(1) http_answer_def header_get_def success_status_def Let_def contains_middle [of _ "[]" "[]", simplified])
  then have "fst (call_http ?wb cancelled payload (Some fits) cl' s) = Inr None" if "cl_url cl' = cl_url cl" for cancelled payload fits cl'
    using that by (simp add: call_http_def numeral_3_eq_3)
  then have "fst (mcp_call mv ''tools/list'' (JObj []) (\<lambda>v. tools_of_json (mv_refloat mv) v \<noteq> None) cl s) = Inr None"
    using assms(2) by (simp add: mcp_call_def Let_def)
  then show ?thesis
    by (cases "mcp_call mv ''tools/list'' (JObj []) (\<lambda>v. tools_of_json (mv_refloat mv) v \<noteq> None) cl s") (simp add: list_tools_def)
qed

subsection \<open>Small runs\<close>


theorem http_close_panics_witness:
  "\<not> ch_panicked (the (mcp_run False (\<lambda>_. None) [BeginCall, Closes, EndCall 1 CallStopped] new_channels))"
proof -
  have "\<exists>c. mcp_run False (\<lambda>_. None) [BeginCall, Closes, EndCall 1 CallStopped] new_channels = Some c"
    by (simp add: mcp_enabled_def new_channels_def)
  then obtain c where c: "mcp_run False (\<lambda>_. None) [BeginCall, Closes, EndCall 1 CallStopped] new_channels = Some c" ..
  from http_close_panics [THEN conjunct2, rule_format, OF c] show ?thesis unfolding c by simp
qed

definition sample_tool :: mcp_tool where
  "sample_tool = \<lparr>mt_name = ''t'', mt_description = [], mt_input_schema = JNull, mt_read_only = False\<rparr>"

definition sample_client :: mcp_client where
  "sample_client = \<lparr>cl_name = ''s'', cl_workspace = [], cl_url = ''u'', cl_headers = [], cl_next_id = 0, cl_session_id = [],
     cl_authorization = [], cl_closed = False\<rparr>"

definition sample_busy :: "string list web" where
  "sample_busy = sample_web_with (\<lambda>_. None) (\<lambda>q w. (Inr \<lparr>hp_status = 503, hp_status_text = ''503 Service Unavailable'', hp_headers = [],
     hp_body = Inr ''b''\<rparr>, w @ [hq_body q]))"

theorem busy_call_sent_thrice_witness:
  "snd (snd (snd (call_http sample_busy (\<lambda>_. None) ''p'' None sample_client ([], [])))) = [''p'', ''p'', ''p'']"
  using busy_call_sent_thrice [of sample_busy "''b''" "\<lambda>p w. w @ [p]" sample_client "\<lambda>_. None" "''p''" None "[]" "[]"]
  by (simp add: sample_busy_def sample_web_with_def sample_client_def)

definition mcp_env_of :: "'w web \<Rightarrow> (string \<Rightarrow> 'w \<Rightarrow> call_end \<times> 'w) \<Rightarrow> 'w mcp_env" where
  "mcp_env_of wb exchange = \<lparr>mv_web = wb, mv_refloat = JFloat, mv_environ = [], mv_spawn = (\<lambda>_ _ _ _ w. (None, w)),
     mv_exchange = exchange, mv_write = (\<lambda>_ w. (None, w)), mv_kill = (\<lambda>w. w)\<rparr>"

definition sample_stream :: "unit mcp_env" where
  "sample_stream = mcp_env_of (sample_web_with (\<lambda>_. Some (JObj [(''jsonrpc'', JStr ''2.0''), (''method'', JStr ''m'')]))
     (\<lambda>_ w. (Inr \<lparr>hp_status = 200, hp_status_text = ''200 OK'', hp_headers = [(canonical_key ''Content-Type'', ''text/event-stream'')],
        hp_body = Inr ''data:n''\<rparr>, w))) (\<lambda>_ w. (CallStopped, w))"

theorem first_event_hides_result_witness: "fst (list_tools sample_stream sample_client ([], ())) = Inr []"
proof (rule first_event_hides_result)
  have solid: "trim_space ''data:n'' = ''data:n''" "trim_space ''n'' = ''n''"
    by (rule trim_space_solid; simp add: solid_def byte_of_def is_space_def)+
  have body: "take body_limit ''data:n'' = ''data:n''" by (simp add: body_limit_def)
  show "trim_space (take body_limit ''data:n'') \<noteq> []" by (simp add: body solid)
  have "split_on newline ''data:n'' = [''data:n'']" by code_simp
  then show "first_sse_data (take body_limit ''data:n'') = ''n''" by (simp add: body first_sse_data_def solid)
qed (simp_all add: sample_stream_def mcp_env_of_def sample_web_with_def sample_client_def)

definition sample_review :: approval_request where
  "sample_review = \<lparr>ar_call_id = ''c'', ar_command = ''mcp__s__t '', ar_working_directory = [],
     ar_reason = ''MCP tool may modify external state'', ar_proposed_prefix = []\<rparr>"

definition sample_reviewer :: reviewer where
  "sample_reviewer = Some (\<lambda>r. if r = sample_review then Inr ''approved'' else Inl ''other'')"

theorem mcp_tool_needs_approval_witness:
  "\<exists>review decision. sample_reviewer = Some review \<and> decision \<in> set mcp_approvals \<and> review sample_review = Inr decision"
proof -
  let ?env = "\<lparr>env_working_directory = [], env_workspace_root = [], env_exec_server = []\<rparr>"
  let ?c = "\<lparr>call_id = ''c'', call_name = ''mcp__s__t'', call_arguments = []\<rparr>"
  let ?mv = "mcp_env_of (sample_web_with (\<lambda>_. None) (\<lambda>_ w. (Inl [], w))) (\<lambda>_ w. (CallStopped, w))" and ?cl = "sample_client\<lparr>cl_url := []\<rparr>"
  have "mcp_execute ?mv ?env sample_reviewer ''s'' sample_tool ?c ?cl ([], ()) =
      (Inl (McpFailed ''MCP server s stopped''), ?cl\<lparr>cl_next_id := 1\<rparr>, ([], ()))"
    by (simp add: mcp_execute_def sample_reviewer_def sample_review_def sample_tool_def sample_client_def mcp_approvals_def
        call_tool_def mcp_call_def mcp_env_of_def sample_web_with_def web_error_text_def Let_def)
  then have "\<exists>review decision. sample_reviewer = Some review \<and> decision \<in> set mcp_approvals \<and>
    review \<lparr>ar_call_id = call_id ?c, ar_command = executor_name (McpExecutor 0 ''s'' sample_tool) @ '' '' @ call_arguments ?c,
      ar_working_directory = env_working_directory ?env, ar_reason = ''MCP tool may modify external state'',
      ar_proposed_prefix = []\<rparr> = Inr decision"
    by (rule mcp_tool_needs_approval) (simp_all add: sample_client_def sample_tool_def)
  then show ?thesis by (simp add: sample_tool_def sample_review_def)
qed

end
