(* ===== verification/Session.thy ===== *)
theory Session
  imports Turn
begin

section \<open>The session: internal/session/session.go, task.go, types.go\<close>

text \<open>
  A Session runs one submission loop beside at most one task, the tool calls of the task and the
  listeners of the connected servers. The theory models what these do to each other: starting, steering and
  aborting a task, asking the client for an approval or for input and handing its answer to the one who waits,
  and stopping. Each interaction is one step of a transition relation; what a task does between its
  interactions is the subject of the theory of turns.
\<close>

subsection \<open>Answers to waiting calls\<close>

text \<open>
  The maps \<open>approvals\<close> and \<open>elicitations\<close>: a call that waits makes a channel for one value and enters it under
  a key; a response is looked up by the key, checked, and put into the channel unless that already
  holds one. Channels are numbered in the order in which they are made.
\<close>

record 'a reply_box =
  rb_table :: "(string \<times> string \<times> nat) list"   \<comment> \<open>key, turn, channel\<close>
  rb_chans :: "'a option list"                    \<comment> \<open>the buffers, by number\<close>
  rb_waits :: "(nat \<times> string) list"             \<comment> \<open>who waits: channel and key\<close>

definition empty_box :: "'a reply_box" where
  "empty_box = \<lparr>rb_table = [], rb_chans = [], rb_waits = []\<rparr>"

definition rb_open :: "string \<Rightarrow> string \<Rightarrow> 'a reply_box \<Rightarrow> 'a reply_box" where
  "rb_open key turn b =
     (let c = length (rb_chans b) in
      b\<lparr>rb_table := AList.update key (turn, c) (rb_table b), rb_chans := rb_chans b @ [None],
        rb_waits := rb_waits b @ [(c, key)]\<rparr>)"

definition rb_respond :: "string \<Rightarrow> (string \<Rightarrow> bool) \<Rightarrow> 'a \<Rightarrow> 'a reply_box \<Rightarrow> 'a reply_box" where
  "rb_respond key turn_ok v b =
     (case map_of (rb_table b) key of
        None \<Rightarrow> b
      | Some (turn, c) \<Rightarrow>
          if \<not> turn_ok turn then b
          else if rb_chans b ! c = None then b\<lparr>rb_chans := (rb_chans b)[c := Some v]\<rparr> else b)"

text \<open>The one who waits on channel \<open>c\<close> leaves: its deferred call deletes whatever is entered under its key.\<close>

definition rb_leave :: "nat \<Rightarrow> string \<Rightarrow> 'a reply_box \<Rightarrow> 'a reply_box" where
  "rb_leave c key b =
     b\<lparr>rb_table := AList.delete key (rb_table b), rb_waits := filter (\<lambda>w. w \<noteq> (c, key)) (rb_waits b)\<rparr>"

subsection \<open>State\<close>

datatype task_phase = Starting | Running | Ending

record running_task =
  rk_turn_id :: string
  rk_phase :: task_phase
  rk_cancelled :: bool
  rk_abort_reason :: string
  rk_pending_input :: "turn_input list"
  rk_accepting_input :: bool

record elicitation_response =
  el_id :: string
  el_action :: string
  el_content :: "json option"

record exec_approval_response =
  ap_call_id :: string
  ap_turn_id :: string
  ap_decision :: string

text \<open>What the loop does once the task it aborts is done.\<close>

datatype loop_state = Receiving | AwaitsInterrupt | AwaitsStop | Stopped

record session_state =
  ss_active :: "running_task option"
  ss_loop :: loop_state
  ss_events :: "(string \<times> event_msg) list"
  ss_approvals :: "string reply_box"
  ss_elicitations :: "elicitation_response reply_box"
  ss_panicked :: bool

definition new_session_state :: session_state where
  "new_session_state = \<lparr>ss_active = None, ss_loop = Receiving, ss_events = [], ss_approvals = empty_box,
     ss_elicitations = empty_box, ss_panicked = False\<rparr>"

definition active_turn_id :: "session_state \<Rightarrow> string" where
  "active_turn_id s = (case ss_active s of None \<Rightarrow> [] | Some k \<Rightarrow> rk_turn_id k)"

text \<open>
  \<open>sendEventRaw\<close>. When the loop has stopped, the context is cancelled and the channel is closed; the
  \<open>select\<close> is then free to take either case, and sending on the closed channel panics. \<open>pick_send\<close> is that choice.
\<close>

definition send_event_raw :: "bool \<Rightarrow> string \<Rightarrow> event_msg \<Rightarrow> session_state \<Rightarrow> session_state" where
  "send_event_raw pick_send i m s =
     (if ss_loop s = Stopped then (if pick_send then s\<lparr>ss_panicked := True\<rparr> else s)
      else s\<lparr>ss_events := ss_events s @ [(i, m)]\<rparr>)"

subsection \<open>Submissions\<close>

definition validate_input :: "string \<Rightarrow> bool" where
  "validate_input text \<longleftrightarrow> trim_space text \<noteq> []"

definition validate_turn_input :: "turn_input \<Rightarrow> bool" where
  "validate_turn_input input \<longleftrightarrow> \<not> (trim_space (ti_text input) = [] \<and> ti_image_urls input = [])"

datatype session_op =
    OpTurnInput "turn_input list" string     \<comment> \<open>the turn to steer, or empty\<close>
  | OpExecApproval "exec_approval_response option"
  | OpElicitation "elicitation_response option"
  | OpInterrupt string
  | OpRefreshExtensions
  | OpCleanBackgroundTerminals
  | OpShutdown
  | OpUnsupported string

datatype admission_error =
    InputRequired
  | OtherTurnActive string string    \<comment> \<open>the active turn, the expected one\<close>
  | TurnCompleting
  | NoActiveTurn

datatype admission = Started string | Steered string | Refused admission_error

definition new_task :: "string \<Rightarrow> running_task" where
  "new_task turn_id = \<lparr>rk_turn_id = turn_id, rk_phase = Starting, rk_cancelled = False, rk_abort_reason = [],
     rk_pending_input = [], rk_accepting_input = True\<rparr>"

definition rk_enqueue :: "turn_input list \<Rightarrow> running_task \<Rightarrow> running_task option" where
  "rk_enqueue input k =
     (if \<not> rk_accepting_input k then None else Some (k\<lparr>rk_pending_input := rk_pending_input k @ input\<rparr>))"

definition rk_take :: "bool \<Rightarrow> running_task \<Rightarrow> turn_input list \<times> running_task" where
  "rk_take keep_open k =
     (rk_pending_input k,
      k\<lparr>rk_pending_input := [],
        rk_accepting_input := (if rk_pending_input k = [] \<and> \<not> keep_open then False else rk_accepting_input k)\<rparr>)"

definition rk_abort :: "string \<Rightarrow> running_task \<Rightarrow> running_task" where
  "rk_abort reason k = k\<lparr>rk_abort_reason := reason, rk_cancelled := True\<rparr>"

definition input_required :: string where "input_required = ''prompt or image is required''"

text \<open>\<open>handleTurnInput\<close>: the state, and the admission that goes to the sender if it asked for one.\<close>

definition handle_turn_input :: "string \<Rightarrow> turn_input list \<Rightarrow> string \<Rightarrow> session_state \<Rightarrow>
    admission \<times> session_state" where
  "handle_turn_input sub_id input expected s =
     (if length input \<noteq> 1 \<or> \<not> validate_turn_input (hd input)
      then (Refused InputRequired, send_event_raw False sub_id (ErrorEvent input_required) s)
      else (case ss_active s of
        Some k \<Rightarrow>
          if expected \<noteq> [] \<and> expected \<noteq> rk_turn_id k
          then (Refused (OtherTurnActive (rk_turn_id k) expected), s)
          else (case rk_enqueue input k of
                  None \<Rightarrow> (Refused TurnCompleting, s)
                | Some k' \<Rightarrow> (Steered (rk_turn_id k), s\<lparr>ss_active := Some k'\<rparr>))
      | None \<Rightarrow>
          if expected \<noteq> [] then (Refused NoActiveTurn, s)
          else (Started sub_id, s\<lparr>ss_active := Some (new_task sub_id)\<rparr>)))"

definition handle_exec_approval :: "exec_approval_response option \<Rightarrow> session_state \<Rightarrow> session_state" where
  "handle_exec_approval response s =
     (case response of
        None \<Rightarrow> s
      | Some r \<Rightarrow> s\<lparr>ss_approvals :=
          rb_respond (ap_call_id r) (\<lambda>turn. turn = ap_turn_id r) (ap_decision r) (ss_approvals s)\<rparr>)"

definition handle_elicitation :: "elicitation_response option \<Rightarrow> session_state \<Rightarrow> session_state" where
  "handle_elicitation response s =
     (case response of
        None \<Rightarrow> s
      | Some r \<Rightarrow> s\<lparr>ss_elicitations := rb_respond (el_id r) (\<lambda>_. True) r (ss_elicitations s)\<rparr>)"

text \<open>\<open>abortActive\<close> cancels the task and waits; without a task the loop goes on at once.\<close>

definition abort_active :: "string \<Rightarrow> loop_state \<Rightarrow> loop_state \<Rightarrow> session_state \<Rightarrow> session_state" where
  "abort_active reason waiting next s =
     (case ss_active s of
        None \<Rightarrow> s\<lparr>ss_loop := next\<rparr>
      | Some k \<Rightarrow> s\<lparr>ss_active := Some (rk_abort reason k), ss_loop := waiting\<rparr>)"

definition unsupported :: "string \<Rightarrow> string" where
  "unsupported op_text = ''unsupported operation '' @ op_text"

text \<open>One submission; extensions and processes are outside of this state.\<close>

definition handle_submission :: "string \<Rightarrow> session_op \<Rightarrow> session_state \<Rightarrow> session_state" where
  "handle_submission sub_id op s =
     (case op of
        OpTurnInput input expected \<Rightarrow> snd (handle_turn_input sub_id input expected s)
      | OpExecApproval r \<Rightarrow> handle_exec_approval r s
      | OpElicitation r \<Rightarrow> handle_elicitation r s
      | OpInterrupt expected \<Rightarrow>
          if expected \<noteq> [] \<and> active_turn_id s \<noteq> expected then s
          else abort_active ''interrupted'' AwaitsInterrupt Receiving s
      | OpRefreshExtensions \<Rightarrow> s
      | OpCleanBackgroundTerminals \<Rightarrow> s
      | OpShutdown \<Rightarrow> abort_active ''shutdown'' AwaitsStop Stopped s
      | OpUnsupported t \<Rightarrow> send_event_raw False sub_id (ErrorEvent (unsupported t)) s)"

subsection \<open>The other goroutines\<close>

definition request_approval :: "string \<Rightarrow> event_msg \<Rightarrow> session_state \<Rightarrow> session_state" where
  "request_approval cid request s =
     send_event_raw False (active_turn_id s) request
       (s\<lparr>ss_approvals := rb_open cid (active_turn_id s) (ss_approvals s)\<rparr>)"

definition request_elicitation :: "bool \<Rightarrow> string \<Rightarrow> string \<Rightarrow> string \<Rightarrow> elicitation_field list \<Rightarrow> json \<Rightarrow>
    session_state \<Rightarrow> session_state" where
  "request_elicitation pick_send eid server message fds schema s =
     send_event_raw pick_send (active_turn_id s) (McpElicitationRequest eid server message fds schema)
       (s\<lparr>ss_elicitations := rb_open eid [] (ss_elicitations s)\<rparr>)"

text \<open>The last event of a task.\<close>

definition ending_event :: "running_task \<Rightarrow> task_times \<Rightarrow> task_result \<Rightarrow> event_msg" where
  "ending_event k tt r =
     finished_event \<lparr>te_turn_id = rk_turn_id k, te_window = 0, te_instructions = (\<lambda>_. []), te_render = (\<lambda>_. [])\<rparr>
       tt (if rk_cancelled k then Some (rk_abort_reason k) else None) r"

text \<open>The task is gone: the active task is cleared, and the loop goes on if it waited for that.\<close>

definition task_gone :: "session_state \<Rightarrow> session_state" where
  "task_gone s =
     s\<lparr>ss_active := None,
       ss_loop := (case ss_loop s of AwaitsInterrupt \<Rightarrow> Receiving | AwaitsStop \<Rightarrow> Stopped | l \<Rightarrow> l)\<rparr>"

fun lifecycle :: "event_msg \<Rightarrow> bool" where
  "lifecycle (TurnStarted t at) = True"
| "lifecycle (TurnComplete c) = True"
| "lifecycle (TurnAborted a) = True"
| "lifecycle _ = False"

subsection \<open>Steps\<close>

datatype session_event_label =
    Submit string session_op
  | SubmissionsClosed
  | TaskStarts int
  | TaskSends event_msg
  | TaskTakes bool
  | TaskEnds task_times task_result
  | TaskGone
  | AsksApproval string string event_msg       \<comment> \<open>call, turn, request\<close>
  | ApprovalAnswered nat string
  | ApprovalCancelled nat
  | AsksElicitation bool string string string "elicitation_field list" json
  | ElicitationAnswered nat elicitation_response
  | ElicitationCancelled nat
  | LateEvent bool string event_msg            \<comment> \<open>of a process that outlives its turn\<close>

inductive session_step :: "session_state \<Rightarrow> session_event_label \<Rightarrow> session_state \<Rightarrow> bool" where
  submit: "ss_loop s = Receiving \<Longrightarrow> session_step s (Submit i op) (handle_submission i op s)"
| closed: "ss_loop s = Receiving \<Longrightarrow>
    session_step s SubmissionsClosed (abort_active ''session channel closed'' AwaitsStop Stopped s)"
| starts: "ss_active s = Some k \<Longrightarrow> rk_phase k = Starting \<Longrightarrow>
    session_step s (TaskStarts at)
      (send_event_raw False (rk_turn_id k) (TurnStarted (rk_turn_id k) at)
        (s\<lparr>ss_active := Some (k\<lparr>rk_phase := Running\<rparr>)\<rparr>))"
| sends: "ss_active s = Some k \<Longrightarrow> rk_phase k = Running \<Longrightarrow> \<not> lifecycle m \<Longrightarrow>
    session_step s (TaskSends m) (send_event_raw False (rk_turn_id k) m s)"
| takes: "ss_active s = Some k \<Longrightarrow> rk_phase k = Running \<Longrightarrow>
    session_step s (TaskTakes b) (s\<lparr>ss_active := Some (snd (rk_take b k))\<rparr>)"
| ends: "ss_active s = Some k \<Longrightarrow> rk_phase k = Running \<Longrightarrow> rb_waits (ss_approvals s) = [] \<Longrightarrow>
    session_step s (TaskEnds tt r)
      (send_event_raw False (rk_turn_id k) (ending_event k tt r)
        (s\<lparr>ss_active := Some (k\<lparr>rk_phase := Ending\<rparr>)\<rparr>))"
| gone: "ss_active s = Some k \<Longrightarrow> rk_phase k = Ending \<Longrightarrow> session_step s TaskGone (task_gone s)"
| asks: "ss_active s = Some k \<Longrightarrow> rk_phase k = Running \<Longrightarrow> turn = rk_turn_id k \<Longrightarrow>
    request = new_exec_approval_request cid turn cmd dir reason proposed at \<Longrightarrow>
    session_step s (AsksApproval cid turn request) (request_approval cid request s)"
| answered: "(c, cid) \<in> set (rb_waits (ss_approvals s)) \<Longrightarrow> rb_chans (ss_approvals s) ! c = Some d \<Longrightarrow>
    session_step s (ApprovalAnswered c d) (s\<lparr>ss_approvals := rb_leave c cid (ss_approvals s)\<rparr>)"
| cancelled: "(c, cid) \<in> set (rb_waits (ss_approvals s)) \<Longrightarrow> ss_active s = Some k \<Longrightarrow> rk_cancelled k \<Longrightarrow>
    session_step s (ApprovalCancelled c) (s\<lparr>ss_approvals := rb_leave c cid (ss_approvals s)\<rparr>)"
| elicits: "session_step s (AsksElicitation b eid server message fds schema)
    (request_elicitation b eid server message fds schema s)"
| elicited: "(c, eid) \<in> set (rb_waits (ss_elicitations s)) \<Longrightarrow> rb_chans (ss_elicitations s) ! c = Some r \<Longrightarrow>
    session_step s (ElicitationAnswered c r) (s\<lparr>ss_elicitations := rb_leave c eid (ss_elicitations s)\<rparr>)"
| unelicited: "(c, eid) \<in> set (rb_waits (ss_elicitations s)) \<Longrightarrow> ss_loop s = Stopped \<Longrightarrow>
    session_step s (ElicitationCancelled c) (s\<lparr>ss_elicitations := rb_leave c eid (ss_elicitations s)\<rparr>)"
| late: "\<not> lifecycle m \<Longrightarrow> session_step s (LateEvent b turn m) (send_event_raw b turn m s)"

inductive_cases session_stepE: "session_step s l s'"

text \<open>A run, with its labels in order; a panic ends the program.\<close>

inductive session_run :: "session_event_label list \<Rightarrow> session_state \<Rightarrow> bool" where
  run_start: "session_run [] new_session_state"
| run_step: "session_run ls s \<Longrightarrow> \<not> ss_panicked s \<Longrightarrow> session_step s l s' \<Longrightarrow> session_run (ls @ [l]) s'"

lemmas step_state_defs =
  handle_submission_def handle_turn_input_def handle_exec_approval_def handle_elicitation_def
  abort_active_def send_event_raw_def request_approval_def request_elicitation_def task_gone_def

subsection \<open>Turns do not overlap\<close>

text \<open>
  Reading the events in order: the open turn, or \<open>None\<close> of the outer option when a turn starts while one is open or
  a turn ends that is not the open one.
\<close>

fun turn_scan :: "string option \<Rightarrow> (string \<times> event_msg) list \<Rightarrow> string option option" where
  "turn_scan open [] = Some open"
| "turn_scan open ((i, m) # es) =
     (case m of
        TurnStarted t _ \<Rightarrow> if open = None \<and> t = i then turn_scan (Some i) es else None
      | TurnComplete c \<Rightarrow> if open = Some i \<and> tc_turn_id c = i then turn_scan None es else None
      | TurnAborted a \<Rightarrow> if open = Some i \<and> ta_turn_id a = i then turn_scan None es else None
      | _ \<Rightarrow> turn_scan open es)"

lemma turn_scan_append:
  "turn_scan o0 (es @ fs) = (case turn_scan o0 es of None \<Rightarrow> None | Some o1 \<Rightarrow> turn_scan o1 fs)"
  by (induction o0 es rule: turn_scan.induct) (auto split: event_msg.splits)

lemma turn_scan_other: "\<not> lifecycle m \<Longrightarrow> turn_scan open [(i, m)] = Some open"
  by (cases m) simp_all

definition open_turn :: "session_state \<Rightarrow> string option" where
  "open_turn s = (case ss_active s of
     Some k \<Rightarrow> if rk_phase k = Running then Some (rk_turn_id k) else None | None \<Rightarrow> None)"

text \<open>What holds in every state of a run.\<close>

definition session_ok :: "session_state \<Rightarrow> bool" where
  "session_ok s \<longleftrightarrow>
     turn_scan None (ss_events s) = Some (open_turn s) \<and>
     (ss_loop s = Stopped \<longrightarrow> ss_active s = None) \<and>
     (ss_loop s \<in> {AwaitsInterrupt, AwaitsStop} \<longrightarrow> (\<exists>k. ss_active s = Some k \<and> rk_cancelled k)) \<and>
     (\<forall>k. ss_active s = Some k \<longrightarrow> \<not> rk_accepting_input k \<longrightarrow> rk_pending_input k = [])"

lemma session_ok_new: "session_ok new_session_state"
  by (simp add: session_ok_def new_session_state_def open_turn_def)

lemma sent_fields [simp, frame_simps]:
  "ss_active (send_event_raw b i m s) = ss_active s" "ss_loop (send_event_raw b i m s) = ss_loop s"
  "ss_approvals (send_event_raw b i m s) = ss_approvals s"
  "ss_elicitations (send_event_raw b i m s) = ss_elicitations s"
  "open_turn (send_event_raw b i m s) = open_turn s"
  by (simp_all add: send_event_raw_def open_turn_def)

lemma sent_scan:
  "turn_scan None (ss_events (send_event_raw b i m s)) =
     (if ss_loop s = Stopped then turn_scan None (ss_events s)
      else (case turn_scan None (ss_events s) of None \<Rightarrow> None | Some o1 \<Rightarrow> turn_scan o1 [(i, m)]))"
  by (simp add: send_event_raw_def turn_scan_append)

text \<open>An event outside the lifecycle does not matter, and neither do the pending answers.\<close>

lemma session_ok_send: "\<not> lifecycle m \<Longrightarrow> session_ok (send_event_raw b i m s) \<longleftrightarrow> session_ok s"
proof -
  assume "\<not> lifecycle m"
  from turn_scan_other [OF this, of _ i] have
    "turn_scan None (ss_events (send_event_raw b i m s)) = turn_scan None (ss_events s)"
    unfolding sent_scan by (auto simp del: turn_scan.simps split: option.splits)
  then show ?thesis by (simp add: session_ok_def)
qed

lemma session_ok_boxes [simp]:
  "session_ok (s\<lparr>ss_approvals := b\<rparr>) \<longleftrightarrow> session_ok s" "session_ok (s\<lparr>ss_elicitations := e\<rparr>) \<longleftrightarrow> session_ok s"
  by (simp_all add: session_ok_def open_turn_def)

lemma session_ok_abort:
  "session_ok s \<Longrightarrow> ss_loop s = Receiving \<Longrightarrow> (waiting, next) \<in> {(AwaitsInterrupt, Receiving), (AwaitsStop, Stopped)} \<Longrightarrow>
    session_ok (abort_active reason waiting next s)"
  by (auto simp: session_ok_def abort_active_def rk_abort_def open_turn_def split: option.splits)

lemma session_ok_turn_input:
  assumes "session_ok s" "ss_loop s = Receiving"
  shows "session_ok (snd (handle_turn_input i input expected s))"
proof (cases "length input \<noteq> 1 \<or> \<not> validate_turn_input (hd input)")
  case True
  with assms show ?thesis by (simp add: handle_turn_input_def session_ok_send)
next
  case False
  with assms show ?thesis
    by (cases "ss_active s")
       (auto simp: handle_turn_input_def session_ok_def open_turn_def new_task_def rk_enqueue_def
         split: if_splits)
qed

lemma session_ok_submission:
  "session_ok s \<Longrightarrow> ss_loop s = Receiving \<Longrightarrow> session_ok (handle_submission i op s)"
  by (cases op)
     (auto simp: handle_submission_def session_ok_turn_input session_ok_send session_ok_abort
       handle_exec_approval_def handle_elicitation_def split: option.splits)

lemma ending_scan: "turn_scan (Some (rk_turn_id k)) [(rk_turn_id k, ending_event k tt r)] = Some None"
  by (simp add: ending_event_def finished_event_def)

lemma session_ok_step:
  assumes "session_step s l s'" "session_ok s"
  shows "session_ok s'"
  using assms
proof (cases rule: session_step.cases)
  case (starts k at)
  with assms(2) have "ss_loop s \<noteq> Stopped" by (auto simp: session_ok_def)
  with starts assms(2) show ?thesis by (auto simp: session_ok_def sent_scan open_turn_def)
next
  case (takes k b)
  with assms(2) show ?thesis by (auto simp: session_ok_def open_turn_def rk_take_def)
next
  case (ends k tt r)
  with assms(2) have "ss_loop s \<noteq> Stopped" by (auto simp: session_ok_def)
  with ends assms(2) show ?thesis by (auto simp: session_ok_def sent_scan open_turn_def ending_scan simp del: turn_scan.simps)
next
  case (gone k)
  with assms(2) show ?thesis
    by (auto simp: session_ok_def task_gone_def open_turn_def split: loop_state.splits)
next
  case closed
  with assms(2) show ?thesis by (simp add: session_ok_abort)
next
  case (asks k turn request cid cmd dir reason proposed at)
  then have "\<not> lifecycle request" by (simp add: new_exec_approval_request_def)
  with asks assms(2) show ?thesis by (simp add: request_approval_def session_ok_send)
next
  case (elicits b eid server message fds schema)
  with assms(2) show ?thesis by (simp add: request_elicitation_def session_ok_send)
qed (simp_all add: session_ok_submission session_ok_send)

lemma session_run_ok: "session_run ls s \<Longrightarrow> session_ok s"
  by (induction rule: session_run.induct) (auto intro: session_ok_new session_ok_step)

text \<open>
  Property C3. Turns do not overlap: in every run of the session, however submissions, the task, approvals,
  servers and processes interleave, the events the client reads form complete turns one after another, a turn
  starts only after the one before has completed or aborted, with its own identifier, and the turn that
  is open is the one of the active task; once the loop has stopped no turn is open.
\<close>

theorem turns_do_not_overlap:
  assumes "session_run ls s"
  shows "turn_scan None (ss_events s) = Some (open_turn s) \<and> (ss_loop s = Stopped \<longrightarrow> open_turn s = None)"
  using session_run_ok [OF assms] by (auto simp: session_ok_def open_turn_def)

subsection \<open>Runs of steps\<close>

inductive session_steps :: "session_state \<Rightarrow> session_event_label list \<Rightarrow> session_state \<Rightarrow> bool" where
  none: "session_steps s [] s"
| more: "\<not> ss_panicked s \<Longrightarrow> session_step s l s1 \<Longrightarrow> session_steps s1 ls s' \<Longrightarrow> session_steps s (l # ls) s'"

lemma session_run_steps:
  assumes "session_steps s ls' s'"
  shows "session_run ls s \<Longrightarrow> session_run (ls @ ls') s'"
  using assms
proof (induction arbitrary: ls rule: session_steps.induct)
  case (more s l s1 ls'' s')
  from more.IH [OF run_step [OF more.prems more.hyps(1,2)]] show ?case by simp
qed simp

lemma session_steps_append: "session_steps s ls s1 \<Longrightarrow> session_steps s1 ls' s' \<Longrightarrow> session_steps s (ls @ ls') s'"
  by (induction rule: session_steps.induct) (auto intro: session_steps.more)

text \<open>A session with one turn that completes, and is then stopped.\<close>

definition image_input :: turn_input where
  "image_input = \<lparr>ti_text = [], ti_image_urls = [''data:'']\<rparr>"

definition one_turn :: "session_event_label list" where
  "one_turn = [Submit ''t1'' (OpTurnInput [image_input] []), TaskStarts 1, TaskEnds sample_times turn_start, TaskGone]"

definition one_turn_events :: "(string \<times> event_msg) list" where
  "one_turn_events = [(''t1'', TurnStarted ''t1'' 1),
     (''t1'', ending_event (new_task ''t1'') sample_times turn_start)]"

lemma one_turn_run: "session_run one_turn (new_session_state\<lparr>ss_events := one_turn_events\<rparr>)"
proof -
  let ?k = "new_task ''t1''"
  let ?s1 = "new_session_state\<lparr>ss_active := Some ?k\<rparr>"
  let ?s2 = "new_session_state\<lparr>ss_active := Some (?k\<lparr>rk_phase := Running\<rparr>),
    ss_events := [(''t1'', TurnStarted ''t1'' 1)]\<rparr>"
  let ?s3 = "new_session_state\<lparr>ss_active := Some (?k\<lparr>rk_phase := Ending\<rparr>), ss_events := one_turn_events\<rparr>"
  have 1: "session_step new_session_state (Submit ''t1'' (OpTurnInput [image_input] [])) ?s1"
    using submit [of new_session_state "''t1''" "OpTurnInput [image_input] []"]
    by (simp add: handle_submission_def handle_turn_input_def new_session_state_def image_input_def
        validate_turn_input_def)
  have 2: "session_step ?s1 (TaskStarts 1) ?s2"
    using starts [of ?s1 ?k 1]
    by (simp add: new_task_def send_event_raw_def new_session_state_def)
  have 3: "session_step ?s2 (TaskEnds sample_times turn_start) ?s3"
    using ends [of ?s2 "?k\<lparr>rk_phase := Running\<rparr>" sample_times turn_start]
    by (simp add: new_task_def send_event_raw_def new_session_state_def one_turn_events_def ending_event_def
        empty_box_def)
  have 4: "session_step ?s3 TaskGone (new_session_state\<lparr>ss_events := one_turn_events\<rparr>)"
    using gone [of ?s3 "?k\<lparr>rk_phase := Ending\<rparr>"]
    by (simp add: new_task_def task_gone_def new_session_state_def)
  have "session_steps new_session_state one_turn (new_session_state\<lparr>ss_events := one_turn_events\<rparr>)"
    unfolding one_turn_def
    by (intro session_steps.more [OF _ 1] session_steps.more [OF _ 2] session_steps.more [OF _ 3]
        session_steps.more [OF _ 4] session_steps.none)
       (simp_all add: new_session_state_def)
  from session_run_steps [OF this run_start] show ?thesis by simp
qed

theorem turns_do_not_overlap_witness: "turn_scan None one_turn_events = Some None"
  using turns_do_not_overlap [OF one_turn_run] by (simp add: new_session_state_def open_turn_def)

subsection \<open>Approvals\<close>

text \<open>The approvals asked for, in order; the number of a request is the number of its channel.\<close>

fun asked :: "session_event_label \<Rightarrow> (string \<times> string) list" where
  "asked (AsksApproval cid turn m) = [(cid, turn)]"
| "asked _ = []"

definition requests :: "session_event_label list \<Rightarrow> (string \<times> string) list" where
  "requests ls = concat (map asked ls)"

lemma requests_append [simp]: "requests (ls @ ls') = requests ls @ requests ls'"
  by (simp add: requests_def)

text \<open>Among the steps there is, after request \<open>c\<close>, a response with its call and its turn.\<close>

definition responded :: "session_event_label list \<Rightarrow> nat \<Rightarrow> string \<Rightarrow> bool" where
  "responded ls c d \<longleftrightarrow> (\<exists>ls1 i r ls2. ls = ls1 @ Submit i (OpExecApproval (Some r)) # ls2 \<and>
     c < length (requests ls1) \<and> (ap_call_id r, ap_turn_id r) = requests ls ! c \<and> ap_decision r = d)"

definition approvals_ok :: "session_event_label list \<Rightarrow> string reply_box \<Rightarrow> bool" where
  "approvals_ok ls b \<longleftrightarrow>
     length (rb_chans b) = length (requests ls) \<and>
     (\<forall>key turn c. map_of (rb_table b) key = Some (turn, c) \<longrightarrow>
        c < length (requests ls) \<and> requests ls ! c = (key, turn)) \<and>
     (\<forall>w \<in> set (rb_waits b). fst w < length (requests ls)) \<and>
     (\<forall>c < length (requests ls). \<forall>d. rb_chans b ! c = Some d \<longrightarrow> responded ls c d)"

lemma responded_more:
  assumes "responded ls c d" "c < length (requests ls)"
  shows "responded (ls @ [l]) c d"
proof -
  from assms(1) obtain ls1 i r ls2 where "ls = ls1 @ Submit i (OpExecApproval (Some r)) # ls2"
    "c < length (requests ls1)" "(ap_call_id r, ap_turn_id r) = requests ls ! c" "ap_decision r = d"
    unfolding responded_def by blast
  with assms(2) show ?thesis
    unfolding responded_def
    by (intro exI [of _ ls1] exI [of _ i] exI [of _ r] exI [of _ "ls2 @ [l]"]) (simp add: nth_append)
qed

lemma approvals_ok_same:
  "approvals_ok ls b \<Longrightarrow> asked l = [] \<Longrightarrow> approvals_ok (ls @ [l]) b"
  using responded_more [of ls] by (auto simp: approvals_ok_def requests_def)

lemma approvals_ok_leave: "approvals_ok ls b \<Longrightarrow> approvals_ok ls (rb_leave c cid b)"
  by (auto simp: approvals_ok_def rb_leave_def delete_conv')

lemma approvals_ok_open:
  assumes "approvals_ok ls b"
  shows "approvals_ok (ls @ [AsksApproval cid turn m]) (rb_open cid turn b)"
proof -
  have req: "requests [AsksApproval cid turn m] = [(cid, turn)]" by (simp add: requests_def)
  show ?thesis
    using assms responded_more [of ls]
    by (auto simp: approvals_ok_def req rb_open_def Let_def update_conv' nth_append less_Suc_eq)
qed

lemma approvals_ok_respond:
  assumes "approvals_ok ls b"
  shows "approvals_ok (ls @ [Submit i (OpExecApproval (Some r))])
    (rb_respond (ap_call_id r) (\<lambda>turn. turn = ap_turn_id r) (ap_decision r) b)"
proof -
  let ?l = "Submit i (OpExecApproval (Some r))"
  have same: "approvals_ok (ls @ [?l]) b" by (rule approvals_ok_same [OF assms]) simp
  show ?thesis
  proof (cases "map_of (rb_table b) (ap_call_id r)")
    case (Some tc)
    obtain turn c where tc: "tc = (turn, c)" by fastforce
    show ?thesis
    proof (cases "turn = ap_turn_id r \<and> rb_chans b ! c = None")
      case True
      from assms Some have c: "c < length (requests ls)" "requests ls ! c = (ap_call_id r, turn)"
        by (auto simp: approvals_ok_def tc)
      have "responded (ls @ [?l]) c (ap_decision r)"
        unfolding responded_def using c True
        by (intro exI [of _ ls] exI [of _ i] exI [of _ r] exI [of _ "[]"]) (simp add: nth_append)
      with same True Some c show ?thesis
        by (auto simp: approvals_ok_def rb_respond_def tc nth_list_update requests_def)
    qed (use same Some in \<open>auto simp: rb_respond_def tc\<close>)
  qed (use same in \<open>simp add: rb_respond_def\<close>)
qed

lemma approvals_submission:
  "ss_approvals (handle_submission i op s) =
     (case op of OpExecApproval (Some r) \<Rightarrow>
        rb_respond (ap_call_id r) (\<lambda>turn. turn = ap_turn_id r) (ap_decision r) (ss_approvals s)
      | _ \<Rightarrow> ss_approvals s)"
  by (auto simp: handle_submission_def handle_turn_input_def handle_exec_approval_def handle_elicitation_def
      abort_active_def split: session_op.splits option.splits)

lemma approvals_ok_step:
  assumes "session_step s l s'" "approvals_ok ls (ss_approvals s)"
  shows "approvals_ok (ls @ [l]) (ss_approvals s')"
  using assms
proof (cases rule: session_step.cases)
  case (submit i op)
  show ?thesis
  proof (cases "\<exists>r. op = OpExecApproval (Some r)")
    case True
    with submit assms(2) show ?thesis by (auto simp: approvals_submission approvals_ok_respond)
  next
    case False
    then have "ss_approvals s' = ss_approvals s"
      using submit by (auto simp: approvals_submission split: session_op.splits option.splits)
    with assms(2) submit show ?thesis by (simp add: approvals_ok_same)
  qed
next
  case (asks k turn request cid cmd dir reason proposed at)
  with assms(2) show ?thesis by (simp add: request_approval_def approvals_ok_open active_turn_id_def)
next
  case (answered c cid d)
  with assms(2) show ?thesis by (simp add: approvals_ok_same approvals_ok_leave)
next
  case (cancelled c cid k)
  with assms(2) show ?thesis by (simp add: approvals_ok_same approvals_ok_leave)
qed (simp_all add: approvals_ok_same task_gone_def request_elicitation_def abort_active_def split: option.splits)

lemma session_run_approvals: "session_run ls s \<Longrightarrow> approvals_ok ls (ss_approvals s)"
proof (induction rule: session_run.induct)
  case run_start
  then show ?case by (simp add: approvals_ok_def requests_def new_session_state_def empty_box_def)
qed (rule approvals_ok_step)

lemma session_run_snoc:
  "session_run (ls @ [l]) s' \<Longrightarrow> \<exists>s. session_run ls s \<and> \<not> ss_panicked s \<and> session_step s l s'"
  by (erule session_run.cases) auto

text \<open>
  Property C14. Nobody else's answer: when a call that waits for approval goes on with a decision, the client
  has sent, after that request, a response with this decision that names the call and the turn the request was made in.
\<close>

theorem approval_was_given:
  assumes "session_run (ls @ [ApprovalAnswered c d]) s"
  shows "c < length (requests ls) \<and> responded ls c d"
proof -
  from session_run_snoc [OF assms] obtain s0 where run: "session_run ls s0"
    and step: "session_step s0 (ApprovalAnswered c d) s" by blast
  from step obtain cid where "(c, cid) \<in> set (rb_waits (ss_approvals s0))" "rb_chans (ss_approvals s0) ! c = Some d"
    by (auto elim: session_step.cases)
  with session_run_approvals [OF run] show ?thesis by (fastforce simp: approvals_ok_def)
qed

definition sample_request :: event_msg where
  "sample_request = new_exec_approval_request ''c1'' ''t1'' ''make'' ''/w'' [] [] 1"

definition sample_response :: exec_approval_response where
  "sample_response = \<lparr>ap_call_id = ''c1'', ap_turn_id = ''t1'', ap_decision = ''approved''\<rparr>"

definition running_state :: session_state where
  "running_state = new_session_state\<lparr>ss_active := Some (new_task ''t1''\<lparr>rk_phase := Running\<rparr>),
     ss_events := [(''t1'', TurnStarted ''t1'' 1)]\<rparr>"

lemma running_run: "session_run [Submit ''t1'' (OpTurnInput [image_input] []), TaskStarts 1] running_state"
proof -
  let ?s1 = "new_session_state\<lparr>ss_active := Some (new_task ''t1'')\<rparr>"
  have 1: "session_step new_session_state (Submit ''t1'' (OpTurnInput [image_input] [])) ?s1"
    using submit [of new_session_state "''t1''" "OpTurnInput [image_input] []"]
    by (simp add: handle_submission_def handle_turn_input_def new_session_state_def image_input_def
        validate_turn_input_def)
  have 2: "session_step ?s1 (TaskStarts 1) running_state"
    using starts [of ?s1 "new_task ''t1''" 1]
    by (simp add: new_task_def send_event_raw_def new_session_state_def running_state_def)
  have "session_steps new_session_state [Submit ''t1'' (OpTurnInput [image_input] []), TaskStarts 1] running_state"
    by (intro session_steps.more [OF _ 1] session_steps.more [OF _ 2] session_steps.none)
       (simp_all add: new_session_state_def)
  from session_run_steps [OF this run_start] show ?thesis by simp
qed

definition approval_run :: "session_event_label list" where
  "approval_run = [Submit ''t1'' (OpTurnInput [image_input] []), TaskStarts 1,
     AsksApproval ''c1'' ''t1'' sample_request, Submit ''s2'' (OpExecApproval (Some sample_response))]"

lemma approval_run_answered: "\<exists>s. session_run (approval_run @ [ApprovalAnswered 0 ''approved'']) s"
proof -
  let ?s3 = "request_approval ''c1'' sample_request running_state"
  let ?s4 = "handle_submission ''s2'' (OpExecApproval (Some sample_response)) ?s3"
  have 3: "session_step running_state (AsksApproval ''c1'' ''t1'' sample_request) ?s3"
    by (rule asks [where k = "new_task ''t1''\<lparr>rk_phase := Running\<rparr>"])
       (simp_all add: running_state_def new_task_def sample_request_def)
  have 4: "session_step ?s3 (Submit ''s2'' (OpExecApproval (Some sample_response))) ?s4"
    by (rule submit) (simp add: request_approval_def running_state_def new_session_state_def)
  have "rb_waits (ss_approvals ?s4) = [(0, ''c1'')]" "rb_chans (ss_approvals ?s4) = [Some ''approved'']"
    by (simp_all add: approvals_submission request_approval_def running_state_def new_session_state_def
        rb_open_def rb_respond_def empty_box_def sample_response_def active_turn_id_def new_task_def)
  then have 5: "session_step ?s4 (ApprovalAnswered 0 ''approved'') (?s4\<lparr>ss_approvals := rb_leave 0 ''c1'' (ss_approvals ?s4)\<rparr>)"
    by (intro answered) simp_all
  have "session_steps running_state [AsksApproval ''c1'' ''t1'' sample_request,
      Submit ''s2'' (OpExecApproval (Some sample_response)), ApprovalAnswered 0 ''approved'']
      (?s4\<lparr>ss_approvals := rb_leave 0 ''c1'' (ss_approvals ?s4)\<rparr>)"
    by (intro session_steps.more [OF _ 3] session_steps.more [OF _ 4] session_steps.more [OF _ 5] session_steps.none)
       (simp_all add: handle_submission_def handle_exec_approval_def request_approval_def send_event_raw_def
         running_state_def new_session_state_def)
  from session_run_steps [OF this running_run] show ?thesis by (auto simp: approval_run_def)
qed

theorem approval_was_given_witness: "responded approval_run 0 ''approved''"
  using approval_run_answered approval_was_given by blast

subsection \<open>Aborting and stopping come to an end\<close>

text \<open>What the goroutines of the task do once it is cancelled.\<close>

fun winds_down :: "session_event_label \<Rightarrow> bool" where
  "winds_down (ApprovalCancelled c) = True"
| "winds_down (TaskStarts at) = True"
| "winds_down (TaskEnds tt r) = True"
| "winds_down TaskGone = True"
| "winds_down _ = False"

text \<open>Cancelling leaves the waiting calls one by one.\<close>

lemma waits_drain:
  assumes "ss_active s = Some k" "rk_cancelled k" "\<not> ss_panicked s"
  shows "\<exists>ls b. session_steps s ls (s\<lparr>ss_approvals := b\<rparr>) \<and> rb_waits b = [] \<and> list_all winds_down ls \<and>
    length ls \<le> length (rb_waits (ss_approvals s))"
  using assms
proof (induction "length (rb_waits (ss_approvals s))" arbitrary: s rule: less_induct)
  case less
  show ?case
  proof (cases "rb_waits (ss_approvals s)")
    case Nil
    then show ?thesis by (intro exI [of _ "[]"] exI [of _ "ss_approvals s"]) (simp add: session_steps.none)
  next
    case (Cons w ws)
    obtain c cid where w: "w = (c, cid)" by fastforce
    let ?s1 = "s\<lparr>ss_approvals := rb_leave c cid (ss_approvals s)\<rparr>"
    have step: "session_step s (ApprovalCancelled c) ?s1"
      using Cons less.prems by (intro cancelled) (simp_all add: w)
    have shorter: "length (rb_waits (ss_approvals ?s1)) < length (rb_waits (ss_approvals s))"
      using Cons by (simp add: rb_leave_def w less_Suc_eq_le)
    from less.hyps [OF shorter] less.prems obtain ls b where
      "session_steps ?s1 ls (s\<lparr>ss_approvals := b\<rparr>)" "rb_waits b = []" "list_all winds_down ls"
      "length ls \<le> length (rb_waits (ss_approvals ?s1))" by auto
    with shorter step less.prems(3) show ?thesis
      by (intro exI [of _ "ApprovalCancelled c # ls"] exI [of _ b]) (auto intro: session_steps.more)
  qed
qed

lemma running_ends:
  assumes "ss_active s = Some k" "rk_phase k = Running" "rb_waits (ss_approvals s) = []" "\<not> ss_panicked s"
  shows "\<exists>s'. session_steps s [TaskEnds tt r, TaskGone] s' \<and> ss_active s' = None \<and>
    ss_loop s' = ss_loop (task_gone s)"
proof -
  let ?s1 = "send_event_raw False (rk_turn_id k) (ending_event k tt r)
    (s\<lparr>ss_active := Some (k\<lparr>rk_phase := Ending\<rparr>)\<rparr>)"
  have 1: "session_step s (TaskEnds tt r) ?s1" by (rule ends [OF assms(1,2,3)])
  have 2: "session_step ?s1 TaskGone (task_gone ?s1)" by (rule gone [where k = "k\<lparr>rk_phase := Ending\<rparr>"]) simp_all
  have "\<not> ss_panicked ?s1" using assms(4) by (simp add: send_event_raw_def)
  with assms(4) have "session_steps s [TaskEnds tt r, TaskGone] (task_gone ?s1)"
    by (intro session_steps.more [OF _ 1] session_steps.more [OF _ 2] session_steps.none)
  then show ?thesis by (intro exI [of _ "task_gone ?s1"]) (simp add: task_gone_def)
qed


lemma shutdown_while_running:
  "session_run [Submit ''t1'' (OpTurnInput [image_input] []), TaskStarts 1, Submit ''s2'' OpShutdown]
     (handle_submission ''s2'' OpShutdown running_state)"
  using run_step [OF running_run _ submit [of running_state "''s2''" OpShutdown]]
  by (simp add: running_state_def new_session_state_def)


text \<open>
  A process that outlives the session can bring the program down: once the loop has stopped, the
  output of a process is an event for a closed channel, and the \<open>select\<close> that should give up because the context
  is done may as well take the send, which panics.
\<close>

theorem late_output_panics:
  assumes "session_run ls s" and "ss_loop s = Stopped" and "\<not> ss_panicked s"
  shows "\<exists>s'. session_run (ls @ [LateEvent True turn (ExecCommandOutputDelta cid stream chunk)]) s' \<and> ss_panicked s'"
proof -
  have "session_step s (LateEvent True turn (ExecCommandOutputDelta cid stream chunk)) (s\<lparr>ss_panicked := True\<rparr>)"
    using late [of "ExecCommandOutputDelta cid stream chunk" s True turn] assms(2) by (simp add: send_event_raw_def)
  from run_step [OF assms(1,3) this] show ?thesis by auto
qed

theorem late_output_panics_witness:
  "\<exists>s. session_run [Submit ''s1'' OpShutdown, LateEvent True ''t1'' (ExecCommandOutputDelta ''c1'' ''stdout'' ''x'')] s \<and>
     ss_panicked s"
proof -
  have "session_run [Submit ''s1'' OpShutdown] (new_session_state\<lparr>ss_loop := Stopped\<rparr>)"
    using run_step [OF run_start _ submit [of new_session_state "''s1''" OpShutdown]]
    by (simp add: handle_submission_def abort_active_def new_session_state_def)
  from late_output_panics [OF this] show ?thesis by (simp add: new_session_state_def)
qed

text \<open>
  Two calls with the same identifier can hang: the second request takes over the entry of the first, the
  answer goes to the second, and when the second leaves it deletes the entry; no response reaches the first any more.
\<close>

theorem duplicate_call_hangs:
  "let b = rb_leave 1 cid (rb_respond cid ok v (rb_open cid turn (rb_open cid turn empty_box))) in
   (0, cid) \<in> set (rb_waits b) \<and> rb_chans b ! 0 = None \<and>
   (\<forall>ok' v'. rb_respond cid ok' v' b = b)"
  by (simp add: rb_leave_def rb_respond_def rb_open_def empty_box_def update_conv' delete_conv' Let_def)

text \<open>Input that arrives while the task completes is dropped without a word unless the sender asked for an admission.\<close>

lemma completing_drops_input:
  "ss_active s = Some k \<Longrightarrow> \<not> rk_accepting_input k \<Longrightarrow> validate_turn_input i \<Longrightarrow>
    handle_turn_input sub_id [i] [] s = (Refused TurnCompleting, s)"
  by (simp add: handle_turn_input_def rk_enqueue_def)

end
