(* ===== verification/SessionExt.thy ===== *)
theory SessionExt
  imports McpClient Session
begin

section \<open>The extensions of a session: the rest of internal/session/session.go\<close>

text \<open>
  A session connects the servers of its catalog, registers their tools with the router and keeps the status of each;
  it refreshes all of this between turns, follows the notifications of the servers, answers their
  requests and runs the hooks of plugins. A client is a number, its place in the list of all clients started; the
  executors of the router name it.
\<close>

record mcp_status =
  st_name :: string
  st_state :: string
  st_source_path :: string
  st_tools :: "mcp_tool list"
  st_error :: string
  st_needs_auth :: bool

record ext_session =
  xs_workspace_root :: string
  xs_extension_root :: string
  xs_router :: router
  xs_clients :: "mcp_client list"
  xs_open :: "nat list"               \<comment> \<open>\<open>mcpClients\<close>\<close>
  xs_statuses :: "(string \<times> mcp_status) list"
  xs_catalog :: catalog

text \<open>What surrounds a session: files and their decoding, servers, the host, and the shell that runs hooks.\<close>

record 'w session_env =
  se_ext :: ext_env
  se_mcp :: "'w mcp_env"
  se_host :: host
  se_hook :: "string list \<Rightarrow> string \<Rightarrow> 'w world \<Rightarrow> 'w world"

definition set_mcp_status :: "mcp_status \<Rightarrow> ext_session \<Rightarrow> ext_session" where
  "set_mcp_status st xs = xs\<lparr>xs_statuses := AList.update (st_name st) st (xs_statuses xs)\<rparr>"

definition failed_status :: "'w session_env \<Rightarrow> web_error \<Rightarrow> mcp_status \<Rightarrow> mcp_status" where
  "failed_status se e st =
     (let st1 = st\<lparr>st_state := ''failed'', st_error := web_error_text (mv_web (se_mcp se)) e\<rparr>
      in if e = OAuthRequired then st1\<lparr>st_state := ''oauth_required'', st_needs_auth := True\<rparr> else st1)"

text \<open>Registering the listed tools stops at the first name that is taken.\<close>

fun register_tools :: "nat \<Rightarrow> string \<Rightarrow> mcp_tool list \<Rightarrow> router \<Rightarrow> router \<times> string option" where
  "register_tools k server [] rt = (rt, None)"
| "register_tools k server (t # ts) rt =
     (case register (McpExecutor k server t) rt of
        None \<Rightarrow> (rt, Some (executor_name (McpExecutor k server t)))
      | Some rt' \<Rightarrow> register_tools k server ts rt')"

definition connect_server :: "'w session_env \<Rightarrow> mcp_server \<Rightarrow> ext_session \<times> 'w world \<Rightarrow> ext_session \<times> 'w world" where
  "connect_server se config xw =
     (let xs0 = fst xw; mv = se_mcp se;
          st = \<lparr>st_name = ms_name config, st_state = ''starting'', st_source_path = ms_source_path config, st_tools = [],
                st_error = [], st_needs_auth = False\<rparr>;
          xs = set_mcp_status st xs0
      in case mcp_start mv config (xs_extension_root xs) (snd xw) of
           (Inl e, s1) \<Rightarrow> (set_mcp_status (failed_status se e st) xs, s1)
         | (Inr cl, s1) \<Rightarrow>
             (let k = length (xs_clients xs) in
              case list_tools mv cl s1 of
                (Inl e, cl2, s2) \<Rightarrow>
                  (let (cl3, s3) = close_client mv cl2 s2
                   in (set_mcp_status (st\<lparr>st_state := ''failed'', st_error := web_error_text (mv_web mv) e\<rparr>)
                         (xs\<lparr>xs_clients := xs_clients xs @ [cl3]\<rparr>), s3))
              | (Inr listed, cl2, s2) \<Rightarrow>
                  (case register_tools k (ms_name config) listed (xs_router xs) of
                     (rt, Some used_name) \<Rightarrow>
                       (let (cl3, s3) = close_client mv cl2 s2
                        in (set_mcp_status (st\<lparr>st_state := ''failed'',
                                st_error := ''tool '' @ xe_quote (se_ext se) used_name @ '' is already registered''\<rparr>)
                              (xs\<lparr>xs_clients := xs_clients xs @ [cl3], xs_router := rt\<rparr>), s3))
                   | (rt, None) \<Rightarrow>
                       (set_mcp_status (st\<lparr>st_state := ''ready'', st_tools := listed\<rparr>)
                          (xs\<lparr>xs_clients := xs_clients xs @ [cl2], xs_router := rt, xs_open := xs_open xs @ [k]\<rparr>), s2))))"

definition connect_mcp_servers :: "'w session_env \<Rightarrow> mcp_server list \<Rightarrow> ext_session \<times> 'w world \<Rightarrow> ext_session \<times> 'w world" where
  "connect_mcp_servers se configs xw = fold (connect_server se) configs xw"

definition hook_argv :: "host \<Rightarrow> string \<Rightarrow> string list" where
  "hook_argv h command = (if h = Windows then [''cmd'', ''/C'', command] else [''sh'', ''-c'', command])"

definition runs_on :: "string \<Rightarrow> hook \<Rightarrow> bool" where
  "runs_on event hk \<longleftrightarrow> equal_fold (hk_event hk) event \<and> hk_type hk = ''command'' \<and> trim_space (hk_command hk) \<noteq> []"

definition run_hooks :: "'w session_env \<Rightarrow> string \<Rightarrow> ext_session \<times> 'w world \<Rightarrow> ext_session \<times> 'w world" where
  "run_hooks se event xw =
     (fst xw, fold (\<lambda>hk s. if runs_on event hk then se_hook se (hook_argv (se_host se) (hk_command hk)) (xs_workspace_root (fst xw)) s else s)
        (catalog_hooks (xs_catalog (fst xw))) (snd xw))"

definition close_open :: "'w session_env \<Rightarrow> ext_session \<times> 'w world \<Rightarrow> ext_session \<times> 'w world" where
  "close_open se xw = fold (\<lambda>k (xs, s). case close_client (se_mcp se) (xs_clients xs ! k) s of
       (cl, s') \<Rightarrow> (xs\<lparr>xs_clients := (xs_clients xs)[k := cl]\<rparr>, s')) (xs_open (fst xw)) xw"

datatype refresh_error = RefreshDuringTurn | RefreshFailed ext_error

definition refresh_extensions :: "'w session_env \<Rightarrow> bool \<Rightarrow> ext_session \<times> 'w world \<Rightarrow> refresh_error option \<times> ext_session \<times> 'w world" where
  "refresh_extensions se turn_active xw =
     (if turn_active then (Some RefreshDuringTurn, xw)
      else case load_catalog (se_ext se) (fst (snd xw)) (xs_extension_root (fst xw)) of
        (_, Some e) \<Rightarrow> (Some (RefreshFailed e), xw)
      | (ct, None) \<Rightarrow>
          (let (xs1, s1) = close_open se xw;
               xs2 = xs1\<lparr>xs_open := [], xs_router := unregister_prefix ''mcp__'' (xs_router xs1), xs_statuses := [], xs_catalog := ct\<rparr>
           in (None, run_hooks se ''session_start'' (run_hooks se ''sessionStart''
                 (connect_mcp_servers se (ct_servers ct) (xs2, s1))))))"

text \<open>A notification of the client \<open>k\<close>. The tools are listed again only between turns.\<close>

definition zero_status :: mcp_status where
  "zero_status = \<lparr>st_name = [], st_state = [], st_source_path = [], st_tools = [], st_error = [], st_needs_auth = False\<rparr>"

definition status_of :: "ext_session \<Rightarrow> string \<Rightarrow> mcp_status" where
  "status_of xs name = (case map_of (xs_statuses xs) name of None \<Rightarrow> zero_status | Some st \<Rightarrow> st)"

definition handle_notification :: "'w session_env \<Rightarrow> bool \<Rightarrow> mcp_server \<Rightarrow> nat \<Rightarrow> string \<Rightarrow> ext_session \<times> 'w world \<Rightarrow> ext_session \<times> 'w world" where
  "handle_notification se turn_active config k notified xw =
     (let (xs, s) = xw; mv = se_mcp se; name = ms_name config in
      if notified \<noteq> ''notifications/tools/list_changed'' then xw
      else if turn_active then (xs\<lparr>xs_statuses := AList.update name ((status_of xs name)\<lparr>st_state := ''stale''\<rparr>) (xs_statuses xs)\<rparr>, s)
      else case list_tools mv (xs_clients xs ! k) s of
        (Inl e, cl, s1) \<Rightarrow>
          (let xs1 = xs\<lparr>xs_clients := (xs_clients xs)[k := cl]\<rparr> in (set_mcp_status (failed_status se e (status_of xs1 name)) xs1, s1))
      | (Inr listed, cl, s1) \<Rightarrow>
          (let rt = fold (\<lambda>t rt. case register (McpExecutor k name t) rt of None \<Rightarrow> rt | Some rt' \<Rightarrow> rt') listed
                      (unregister_prefix (''mcp__'' @ name @ ''__'') (xs_router xs));
               xs1 = xs\<lparr>xs_clients := (xs_clients xs)[k := cl], xs_router := rt\<rparr>
           in (set_mcp_status ((status_of xs1 name)\<lparr>st_state := ''ready'', st_tools := listed, st_error := []\<rparr>) xs1, s1)))"

text \<open>
  A request of a server. \<open>ask\<close> is \<open>requestElicitation\<close>, which Session models: the response, or the error if the
  session stops first. Parameters that do not decode count as empty.
\<close>

definition elicitation_params :: "(string \<Rightarrow> json) \<Rightarrow> json option \<Rightarrow> string \<times> json" where
  "elicitation_params refloat params =
     (case params of
        None \<Rightarrow> ([], JNull)
      | Some v \<Rightarrow> (lenient_field lenient_string ''message'' v [],
          lenient_field (\<lambda>x old. case dec_any_map refloat x old of None \<Rightarrow> old | Some m \<Rightarrow> m) ''requestedSchema'' v JNull))"

definition elicitation_answer :: "elicitation_response \<Rightarrow> json" where
  "elicitation_answer r =
     (if el_action r = ''accept'' then
        JObj [str_entry ''action'' ''accept'', (''content'', case el_content r of None \<Rightarrow> JObj [] | Some v \<Rightarrow> v)]
      else JObj [str_entry ''action'' ''decline''])"

definition handle_mcp_request :: "'w session_env \<Rightarrow> (string \<Rightarrow> string \<Rightarrow> json \<Rightarrow> (string, elicitation_response) result) \<Rightarrow>
    mcp_server \<Rightarrow> nat \<Rightarrow> int \<times> string \<times> json option \<Rightarrow> ext_session \<times> 'w world \<Rightarrow> ext_session \<times> 'w world" where
  "handle_mcp_request se ask config k request xw =
     (let (i, m, params) = request; (xs, s) = xw; mv = se_mcp se;
          reply = (if m \<noteq> ''elicitation/create'' then Inl (''unsupported MCP request '' @ m)
            else (let (message, schema) = elicitation_params (mv_refloat mv) params
              in case ask (ms_name config) message schema of
                   Inl e \<Rightarrow> Inl e
                 | Inr response \<Rightarrow> Inr (elicitation_answer response)))
      in case mcp_respond mv i reply (xs_clients xs ! k) s of
           (_, cl, s1) \<Rightarrow> (xs\<lparr>xs_clients := (xs_clients xs)[k := cl]\<rparr>, s1))"

text \<open>What clients of the session see, the entries of maps in the order in which Go visits them.\<close>

record extension_inventory =
  ei_extension_root :: string
  ei_workspace_root :: string
  ei_skills :: "skill list"
  ei_plugins :: "plugin list"
  ei_servers :: "mcp_status list"
  ei_hooks :: "hook list"
  ei_apps :: "app list"
  ei_commands :: "slash_command list"
  ei_agents :: "agent list"

definition inventory_of :: "(string list \<Rightarrow> string list) \<Rightarrow> ext_session \<Rightarrow> extension_inventory" where
  "inventory_of order xs =
     (let ct = xs_catalog xs; ps = filter pl_enabled (ct_plugins ct) in
      \<lparr>ei_extension_root = xs_extension_root xs, ei_workspace_root = xs_workspace_root xs,
       ei_skills = map (\<lambda>n. (the (map_of (ct_skills ct) n))\<lparr>sk_instructions := []\<rparr>) (order (map fst (ct_skills ct))),
       ei_plugins = ct_plugins ct,
       ei_servers = map (\<lambda>n. the (map_of (xs_statuses xs) n)) (order (map fst (xs_statuses xs))),
       ei_hooks = concat (map pl_hooks ps), ei_apps = concat (map pl_apps ps), ei_commands = concat (map pl_commands ps),
       ei_agents = concat (map pl_agents ps)\<rparr>)"

subsection \<open>A new session\<close>

datatype new_session_error =
    WorkspaceUnresolved os_error
  | WorkspaceNotDirectory
  | ExtensionRootUnresolved os_error
  | ExtensionRootNotDirectory
  | ExtensionsFailed ext_error
  | RolloutFailed rollout_error

text \<open>Without symbolic links, \<open>EvalSymlinks\<close> only looks the path up.\<close>

definition resolve_root :: "string \<Rightarrow> fs \<Rightarrow> string \<Rightarrow> (os_error, string \<times> node) result" where
  "resolve_root wd d p = (case stat d (apath_of (abs_path wd p)) of Inl e \<Rightarrow> Inl e | Inr x \<Rightarrow> Inr (abs_path wd p, x))"

definition new_ext_session :: "string \<Rightarrow> string \<Rightarrow> catalog \<Rightarrow> ext_session" where
  "new_ext_session workspace extension_root ct = \<lparr>xs_workspace_root = workspace, xs_extension_root = extension_root,
     xs_router = the new_default_router, xs_clients = [], xs_open = [], xs_statuses = [], xs_catalog = ct\<rparr>"

definition new_session :: "'w session_env \<Rightarrow> string \<Rightarrow> string \<Rightarrow> string \<Rightarrow> string \<Rightarrow> 'w world \<Rightarrow>
    (new_session_error, ext_session \<times> rollout_recorder option \<times> response_item list) result \<times> 'w world" where
  "new_session se now workspace rollout_path extension_root s =
     (let xe = se_ext se in
      case resolve_root (xe_wd xe) (fst s) workspace of
        Inl e \<Rightarrow> (Inl (WorkspaceUnresolved e), s)
      | Inr (ws, wn) \<Rightarrow>
        if wn \<noteq> Dir then (Inl WorkspaceNotDirectory, s)
        else case resolve_root (xe_wd xe) (fst s) extension_root of
          Inl e \<Rightarrow> (Inl (ExtensionRootUnresolved e), s)
        | Inr (er, en) \<Rightarrow>
          if en \<noteq> Dir then (Inl ExtensionRootNotDirectory, s)
          else case load_catalog xe (fst s) er of
            (_, Some e) \<Rightarrow> (Inl (ExtensionsFailed e), s)
          | (ct, None) \<Rightarrow>
            (case run_hooks se ''session_start'' (run_hooks se ''sessionStart''
                    (connect_mcp_servers se (ct_servers ct) (new_ext_session ws er ct, s))) of
               (xs, (d, w)) \<Rightarrow>
                 if rollout_path = [] then (Inr (xs, None, []), (d, w))
                 else (case open_rollout (xe_parse xe) rollout_path d of
                     (Inl e, d1) \<Rightarrow> (Inl (RolloutFailed e), (d1, w))
                   | (Inr (rr, items), d1) \<Rightarrow>
                       (case record_session_meta (xe_render xe) now ws (rr, d1) of
                          (rr', d2) \<Rightarrow> (Inr (xs, Some rr', restore items []), (d2, w))))))"

subsection \<open>What connecting keeps\<close>

lemma http_attempts_closed:
  "http_attempts wb c p t n e cl s = (r, cl', s') \<Longrightarrow> cl_closed cl' = cl_closed cl"
proof (induction n arbitrary: e cl s)
  case (Suc n)
  obtain r1 cl1 w where d: "do_http wb p t cl (snd s) = (r1, cl1, w)" by (cases "do_http wb p t cl (snd s)")
  then have c1: "cl_closed cl1 = cl_closed cl" by (auto simp: do_http_def Let_def split: option.splits prod.splits sum.splits if_splits)
  obtain b cl2 s2 where f: "refresh_authorization wb cl1 (fst s, w) = (b, cl2, s2)" by (cases "refresh_authorization wb cl1 (fst s, w)")
  then have c2: "cl_closed cl2 = cl_closed cl1" by (auto simp: refresh_authorization_def split: prod.splits sum.splits if_splits)
  from Suc.prems Suc.IH c1 c2 show ?case
    by (auto simp: d f split: option.splits sum.splits bool.splits if_splits)
qed simp

lemma mcp_call_closed: "mcp_call mv m p f cl s = (r, cl', s') \<Longrightarrow> cl_closed cl' = cl_closed cl"
  by (auto simp: mcp_call_def call_http_def Let_def dest!: http_attempts_closed split: prod.splits if_splits)

lemma list_tools_closed: "list_tools mv cl s = (r, cl', s') \<Longrightarrow> cl_closed cl' = cl_closed cl"
  by (auto simp: list_tools_def dest!: mcp_call_closed split: prod.splits sum.splits option.splits)

lemma notify_closed: "mcp_notify mv m p cl s = (r, cl', s') \<Longrightarrow> cl_closed cl' = cl_closed cl"
  by (auto simp: mcp_notify_def send_message_def call_http_def Let_def dest!: http_attempts_closed split: prod.splits sum.splits if_splits)

lemma start_once_open: "start_once mv config cwd s = (Inr cl, s') \<Longrightarrow> \<not> cl_closed cl"
  by (auto simp: start_once_def load_authorization_def refresh_authorization_def new_client_def
      dest!: mcp_call_closed notify_closed split: prod.splits sum.splits if_splits option.splits)

lemma mcp_start_open: "mcp_start mv config cwd s = (Inr cl, s') \<Longrightarrow> \<not> cl_closed cl"
proof -
  have "start_attempts mv config cwd n e s = (Inr cl, s') \<Longrightarrow> \<not> cl_closed cl" for n e s
    by (induction n arbitrary: e s) (auto dest: start_once_open split: option.splits prod.splits sum.splits if_splits)
  then show "mcp_start mv config cwd s = (Inr cl, s') \<Longrightarrow> \<not> cl_closed cl" by (simp add: mcp_start_def)
qed

text \<open>Registering adds entries and changes none.\<close>

definition extends :: "router \<Rightarrow> router \<Rightarrow> bool" where
  "extends rt rt' \<longleftrightarrow> (\<forall>n x. map_of (rt_registry rt) n = Some x \<longrightarrow> map_of (rt_registry rt') n = Some x)"

lemma register_extends: "register x rt = Some rt' \<Longrightarrow> extends rt rt' \<and> map_of (rt_registry rt') (executor_name x) = Some x"
  by (auto simp: register_def extends_def update_conv' split: if_splits)

lemma register_only: "register x rt = Some rt' \<Longrightarrow> map_of (rt_registry rt') n = Some y \<Longrightarrow> y = x \<or> map_of (rt_registry rt) n = Some y"
  by (auto simp: register_def update_conv' split: if_splits)

lemma register_tools_effect:
  assumes "register_tools k sv ts rt = (rt', r)" "router_ok rt"
  shows "router_ok rt' \<and> extends rt rt' \<and>
    (\<forall>n x. map_of (rt_registry rt') n = Some x \<longrightarrow> map_of (rt_registry rt) n = Some x \<or> (\<exists>t \<in> set ts. x = McpExecutor k sv t)) \<and>
    (r = None \<longrightarrow> (\<forall>t \<in> set ts. map_of (rt_registry rt') (executor_name (McpExecutor k sv t)) = Some (McpExecutor k sv t)))"
  using assms
proof (induction ts arbitrary: rt)
  case (Cons t ts)
  show ?case
  proof (cases "register (McpExecutor k sv t) rt")
    case (Some rt1)
    note reg = register_extends [OF Some] register_only [OF Some]
    from Cons.prems(1) Some have "register_tools k sv ts rt1 = (rt', r)" by simp
    from Cons.IH [OF this register_ok [OF Cons.prems(2) Some]] reg show ?thesis
      unfolding extends_def by (auto simp del: executor_name.simps) blast+
  qed (use Cons.prems in \<open>auto simp: extends_def\<close>)
qed (simp add: extends_def)

text \<open>
  A well-formed session: executors and open clients name clients that exist, and a server that is shown as ready has
  an open client to which every tool it lists is registered.
\<close>

definition ext_ok :: "ext_session \<Rightarrow> bool" where
  "ext_ok xs \<longleftrightarrow> router_ok (xs_router xs) \<and>
     (\<forall>n k sv t. map_of (rt_registry (xs_router xs)) n = Some (McpExecutor k sv t) \<longrightarrow> k < length (xs_clients xs)) \<and>
     (\<forall>k \<in> set (xs_open xs). k < length (xs_clients xs))"

definition served_by :: "ext_session \<Rightarrow> nat \<Rightarrow> string \<Rightarrow> mcp_tool list \<Rightarrow> bool" where
  "served_by xs k name ts \<longleftrightarrow> k \<in> set (xs_open xs) \<and> k < length (xs_clients xs) \<and> \<not> cl_closed (xs_clients xs ! k) \<and>
     (\<forall>t \<in> set ts. map_of (rt_registry (xs_router xs)) (executor_name (McpExecutor k name t)) = Some (McpExecutor k name t))"

definition ready_served :: "ext_session \<Rightarrow> bool" where
  "ready_served xs \<longleftrightarrow> (\<forall>name st. map_of (xs_statuses xs) name = Some st \<and> st_state st = ''ready'' \<longrightarrow>
     (\<exists>k. served_by xs k name (st_tools st)))"

definition grown :: "ext_session \<Rightarrow> ext_session \<Rightarrow> bool" where
  "grown xs xs' \<longleftrightarrow> extends (xs_router xs) (xs_router xs') \<and> (\<exists>new. xs_clients xs' = xs_clients xs @ new) \<and>
     set (xs_open xs) \<subseteq> set (xs_open xs') \<and> xs_catalog xs' = xs_catalog xs \<and>
     (\<forall>n x. map_of (rt_registry (xs_router xs')) n = Some x \<longrightarrow> map_of (rt_registry (xs_router xs)) n = Some x \<or>
        (\<exists>k sv t. x = McpExecutor k sv t \<and> length (xs_clients xs) \<le> k)) \<and>
     (\<forall>k \<in> set (xs_open xs'). k \<in> set (xs_open xs) \<or> length (xs_clients xs) \<le> k)"

lemma grown_refl: "grown xs xs"
  by (simp add: grown_def extends_def)

lemma grown_trans:
  assumes "grown xs ys" "grown ys zs"
  shows "grown xs zs"
proof -
  have le: "length (xs_clients ys) \<le> k \<Longrightarrow> length (xs_clients xs) \<le> k" for k using assms(1) by (auto simp: grown_def)
  have "extends (xs_router xs) (xs_router zs)" using assms by (simp add: grown_def extends_def)
  moreover have "\<exists>new. xs_clients zs = xs_clients xs @ new" using assms by (auto simp: grown_def)
  moreover have "map_of (rt_registry (xs_router xs)) n = Some x \<or> (\<exists>k sv t. x = McpExecutor k sv t \<and> length (xs_clients xs) \<le> k)"
    if "map_of (rt_registry (xs_router zs)) n = Some x" for n x
  proof -
    from that assms(2) consider "map_of (rt_registry (xs_router ys)) n = Some x"
      | k sv t where "x = McpExecutor k sv t" "length (xs_clients ys) \<le> k" unfolding grown_def by blast
    then show ?thesis using assms(1) le by cases (auto simp: grown_def)
  qed
  moreover have "k \<in> set (xs_open xs) \<or> length (xs_clients xs) \<le> k" if "k \<in> set (xs_open zs)" for k
    using that assms le unfolding grown_def by blast
  ultimately show ?thesis using assms by (auto simp: grown_def)
qed

lemma grown_status [simp]: "grown xs (set_mcp_status st ys) \<longleftrightarrow> grown xs ys" "grown (set_mcp_status st xs) ys \<longleftrightarrow> grown xs ys"
  by (simp_all add: grown_def set_mcp_status_def)

lemma ext_ok_status [simp]: "ext_ok (set_mcp_status st xs) \<longleftrightarrow> ext_ok xs"
  by (simp add: ext_ok_def set_mcp_status_def)

lemma served_grown: "served_by xs k name ts \<Longrightarrow> grown xs ys \<Longrightarrow> served_by ys k name ts"
  by (auto simp: served_by_def grown_def extends_def nth_append)

lemma ready_status:
  assumes "ready_served xs" "grown xs ys" "xs_statuses ys = xs_statuses xs" "st_state st = ''ready'' \<Longrightarrow> \<exists>k. served_by ys k (st_name st) (st_tools st)"
  shows "ready_served (set_mcp_status st ys)"
proof -
  have "served_by (set_mcp_status st ys) k name ts \<longleftrightarrow> served_by ys k name ts" for k name ts
    by (simp add: served_by_def set_mcp_status_def)
  with assms served_grown show ?thesis
    by (auto simp: ready_served_def set_mcp_status_def update_conv' split: if_splits) blast+
qed

lemma grown_client: "grown xs (xs\<lparr>xs_clients := xs_clients xs @ [cl]\<rparr>)"
  by (simp add: grown_def extends_def)

lemma grown_tools:
  assumes "register_tools (length (xs_clients xs)) sv ts (xs_router xs) = (rt, r)" "router_ok (xs_router xs)"
    "opened = xs_open xs \<or> opened = xs_open xs @ [length (xs_clients xs)]"
  shows "grown xs (xs\<lparr>xs_clients := xs_clients xs @ [cl], xs_router := rt, xs_open := opened\<rparr>)"
proof -
  note effect = register_tools_effect [OF assms(1,2)]
  from effect have "map_of (rt_registry (xs_router xs)) n = Some x \<or> (\<exists>k sv t. x = McpExecutor k sv t \<and> length (xs_clients xs) \<le> k)"
    if "map_of (rt_registry rt) n = Some x" for n x using that by (meson order_refl)
  with effect assms(3) show ?thesis by (auto simp: grown_def simp del: executor_name.simps)
qed

lemma ext_ok_tools:
  assumes "register_tools (length (xs_clients xs)) sv ts (xs_router xs) = (rt, r)" "ext_ok xs"
    "opened = xs_open xs \<or> opened = xs_open xs @ [length (xs_clients xs)]"
  shows "ext_ok (xs\<lparr>xs_clients := xs_clients xs @ [cl], xs_router := rt, xs_open := opened\<rparr>)"
  using register_tools_effect [OF assms(1)] assms(2,3) unfolding ext_ok_def by (auto simp: less_Suc_eq) blast+

lemma connect_server_keeps:
  assumes "connect_server se config (xs, s) = (xs', s')" "ext_ok xs" "ready_served xs"
  shows "ext_ok xs' \<and> grown xs xs' \<and> ready_served xs'"
proof -
  let ?st = "\<lparr>st_name = ms_name config, st_state = ''starting'', st_source_path = ms_source_path config, st_tools = [],
                st_error = [], st_needs_auth = False\<rparr>"
  define ys where "ys = set_mcp_status ?st xs"
  have ys: "ext_ok ys" "ready_served ys" "grown xs ys"
    using assms(2,3) ready_status [OF assms(3) grown_refl refl, of ?st] by (simp_all add: ys_def grown_refl)
  have fields: "xs_extension_root ys = xs_extension_root xs" "xs_clients ys = xs_clients xs" "xs_router ys = xs_router xs"
    "xs_open ys = xs_open xs" by (simp_all add: ys_def set_mcp_status_def)
  note run = assms(1) [unfolded connect_server_def Let_def fst_conv snd_conv, folded ys_def]
  obtain r s1 where started: "mcp_start (se_mcp se) config (xs_extension_root ys) s = (r, s1)" by (metis surj_pair)
  show ?thesis
  proof (cases r)
    case (Inl e)
    with run started have xs': "xs' = set_mcp_status (failed_status se e ?st) ys" by simp
    have "st_state (failed_status se e ?st) \<noteq> ''ready''" by (simp add: failed_status_def Let_def)
    with ys show ?thesis unfolding xs' by (auto intro: ready_status grown_refl)
  next
    case (Inr cl)
    obtain l cl2 s2 where listed: "list_tools (se_mcp se) cl s1 = (l, cl2, s2)" by (metis prod.collapse)
    have open_cl: "\<not> cl_closed cl2" using list_tools_closed [OF listed] mcp_start_open started Inr by simp
    show ?thesis
    proof (cases l)
      case (Inl e)
      with run started Inr listed obtain cl3 st where xs': "xs' = set_mcp_status st (ys\<lparr>xs_clients := xs_clients ys @ [cl3]\<rparr>)"
        "st_state st = ''failed''" by (auto split: prod.splits)
      have "ext_ok (ys\<lparr>xs_clients := xs_clients ys @ [cl3]\<rparr>)" using ys(1) by (auto simp: ext_ok_def less_Suc_eq)
      with ys grown_client [of ys cl3] xs'(2) show ?thesis unfolding xs'(1)
        by (auto intro: grown_trans ready_status)
    next
      case (Inr ts)
      obtain rt e where reg: "register_tools (length (xs_clients ys)) (ms_name config) ts (xs_router ys) = (rt, e)" by (metis surj_pair)
      have rok: "router_ok (xs_router ys)" using ys(1) by (simp add: ext_ok_def)
      show ?thesis
      proof (cases e)
        case (Some n)
        with run started \<open>r = Inr cl\<close> listed Inr reg obtain cl3 st where
          xs': "xs' = set_mcp_status st (ys\<lparr>xs_clients := xs_clients ys @ [cl3], xs_router := rt, xs_open := xs_open ys\<rparr>)"
            "st_state st = ''failed''" by (auto split: prod.splits)
        from ext_ok_tools [OF reg ys(1), of "xs_open ys" cl3] grown_tools [OF reg rok, of "xs_open ys" cl3] ys xs'(2)
        show ?thesis unfolding xs'(1) by (auto intro: grown_trans ready_status)
      next
        case None
        let ?new = "ys\<lparr>xs_clients := xs_clients ys @ [cl2], xs_router := rt, xs_open := xs_open ys @ [length (xs_clients ys)]\<rparr>"
        have xs': "xs' = set_mcp_status (?st\<lparr>st_state := ''ready'', st_tools := ts\<rparr>) ?new"
          using run started \<open>r = Inr cl\<close> listed Inr reg None by simp
        have "served_by ?new (length (xs_clients ys)) (ms_name config) ts"
          using register_tools_effect [OF reg rok] None open_cl by (simp add: served_by_def del: executor_name.simps)
        with ext_ok_tools [OF reg ys(1), of "xs_open ys @ [length (xs_clients ys)]" cl2]
          grown_tools [OF reg rok, of "xs_open ys @ [length (xs_clients ys)]" cl2] ys
        show ?thesis unfolding xs' by (auto intro: grown_trans intro!: ready_status)
      qed
    qed
  qed
qed

lemma connect_all_keeps:
  assumes "connect_mcp_servers se configs (xs, s) = (xs', s')" "ext_ok xs" "ready_served xs"
  shows "ext_ok xs' \<and> grown xs xs' \<and> ready_served xs'"
  using assms unfolding connect_mcp_servers_def
proof (induction configs arbitrary: xs s)
  case (Cons config configs)
  obtain xs1 s1 where one: "connect_server se config (xs, s) = (xs1, s1)" by (metis surj_pair)
  note step = connect_server_keeps [OF one Cons.prems(2,3)]
  from Cons.prems(1) one have "fold (connect_server se) configs (xs1, s1) = (xs', s')" by simp
  from Cons.IH [OF this] step show ?case by (blast intro: grown_trans)
qed (simp add: grown_refl)

lemma close_open_effect:
  assumes "close_open se (xs, s) = (xs', s')" "\<forall>k \<in> set (xs_open xs). k < length (xs_clients xs)"
  shows "length (xs_clients xs') = length (xs_clients xs) \<and> xs_router xs' = xs_router xs \<and>
    (\<forall>k \<in> set (xs_open xs). cl_closed (xs_clients xs' ! k))"
proof -
  let ?f = "\<lambda>k (xs, s). case close_client (se_mcp se) (xs_clients xs ! k) s of (cl, s') \<Rightarrow> (xs\<lparr>xs_clients := (xs_clients xs)[k := cl]\<rparr>, s')"
  have "fold ?f ks (ys, u) = (ys', u') \<Longrightarrow> \<forall>k \<in> set ks. k < length (xs_clients ys) \<Longrightarrow>
      length (xs_clients ys') = length (xs_clients ys) \<and> xs_router ys' = xs_router ys \<and>
      (\<forall>k < length (xs_clients ys). k \<in> set ks \<or> cl_closed (xs_clients ys ! k) \<longrightarrow> cl_closed (xs_clients ys' ! k))" for ks ys u ys' u'
  proof (induction ks arbitrary: ys u)
    case (Cons k ks)
    obtain cl v where c: "close_client (se_mcp se) (xs_clients ys ! k) u = (cl, v)" by (metis surj_pair)
    then have closed: "cl_closed cl" by (auto simp: close_client_def split: if_splits)
    from Cons.prems(1) c have "fold ?f ks (ys\<lparr>xs_clients := (xs_clients ys)[k := cl]\<rparr>, v) = (ys', u')" by simp
    from Cons.IH [OF this] Cons.prems(2) closed show ?case by (auto simp: nth_list_update)
  qed simp
  from this [of "xs_open xs" xs s xs' s'] assms show ?thesis by (auto simp: close_open_def)
qed

lemma run_hooks_fst [simp]: "fst (run_hooks se event xw) = fst xw"
  by (simp add: run_hooks_def)

lemma run_hooks_eq: "run_hooks se event xw = (xs, s) \<Longrightarrow> fst xw = xs"
  using run_hooks_fst [of se event xw] by simp

lemma mcp_prefix: "prefix ''mcp__'' (executor_name (McpExecutor k sv t))"
  by simp

text \<open>
  Property C19. Refreshing the extensions replaces the tools of servers as a whole: it happens only between turns, every client
  that was open is closed and no tool leads to it any more, the tools that remain are the session's
  own, unchanged, and those of clients started now, and a server shown as ready has an open
  client to which every tool it lists is registered.
\<close>

theorem refresh_replaces_tools:
  assumes "refresh_extensions se active (xs, s) = (None, xs', s')" "ext_ok xs"
  shows "\<not> active \<and> ext_ok xs' \<and> ready_served xs' \<and>
    (\<forall>k \<in> set (xs_open xs). cl_closed (xs_clients xs' ! k) \<and> k \<notin> set (xs_open xs') \<and>
       (\<forall>n sv t. map_of (rt_registry (xs_router xs')) n \<noteq> Some (McpExecutor k sv t))) \<and>
    (\<forall>n x. map_of (rt_registry (xs_router xs')) n = Some x \<longrightarrow> (\<forall>k sv t. x \<noteq> McpExecutor k sv t) \<longrightarrow>
       map_of (rt_registry (xs_router xs)) n = Some x) \<and>
    (\<forall>n x. map_of (rt_registry (xs_router xs)) n = Some x \<longrightarrow> \<not> prefix ''mcp__'' n \<longrightarrow>
       map_of (rt_registry (xs_router xs')) n = Some x)"
proof -
  from assms(1) obtain ct where inactive: "\<not> active" and ct: "load_catalog (se_ext se) (fst s) (xs_extension_root xs) = (ct, None)"
    by (auto simp: refresh_extensions_def split: if_splits prod.splits option.splits)
  obtain xs1 s1 where closed: "close_open se (xs, s) = (xs1, s1)" by (metis surj_pair)
  define xs2 where "xs2 = xs1\<lparr>xs_open := [], xs_router := unregister_prefix ''mcp__'' (xs_router xs1), xs_statuses := [], xs_catalog := ct\<rparr>"
  obtain xs3 s3 where conn: "connect_mcp_servers se (ct_servers ct) (xs2, s1) = (xs3, s3)" by (metis surj_pair)
  have "xs' = fst (run_hooks se ''session_start'' (run_hooks se ''sessionStart'' (xs3, s3)))"
    using assms(1) inactive ct closed conn by (simp add: refresh_extensions_def xs2_def)
  then have xs': "xs' = xs3" by simp
  have bounds: "\<forall>k \<in> set (xs_open xs). k < length (xs_clients xs)" using assms(2) by (simp add: ext_ok_def)
  note c = close_open_effect [OF closed bounds]
  have rok: "router_ok (xs_router xs)" using assms(2) by (simp add: ext_ok_def)
  have reg: "map_of (rt_registry (xs_router xs2)) n = (if prefix ''mcp__'' n then None else map_of (rt_registry (xs_router xs)) n)" for n
    using c rok by (auto simp: xs2_def unregister_prefix_def fold_delete_prefix router_ok_def dom_def)
  have own: "\<not> (\<exists>k sv t. map_of (rt_registry (xs_router xs2)) n = Some (McpExecutor k sv t))" for n
  proof
    assume "\<exists>k sv t. map_of (rt_registry (xs_router xs2)) n = Some (McpExecutor k sv t)"
    then obtain k sv t where "map_of (rt_registry (xs_router xs)) n = Some (McpExecutor k sv t)" "\<not> prefix ''mcp__'' n"
      using reg [of n] by (auto split: if_splits)
    with rok mcp_prefix [of k sv t] show False unfolding router_ok_def by metis
  qed
  have len: "length (xs_clients xs2) = length (xs_clients xs)" using c by (simp add: xs2_def)
  have "router_ok (xs_router xs2)" unfolding xs2_def using unregister_ok [OF rok] c by simp
  then have ok2: "ext_ok xs2" using own by (simp add: ext_ok_def xs2_def)
  have "ready_served xs2" by (simp add: ready_served_def xs2_def)
  note keeps = connect_all_keeps [OF conn ok2 this]
  then obtain new where new: "xs_clients xs3 = xs_clients xs2 @ new" and only: "\<And>n x. map_of (rt_registry (xs_router xs3)) n = Some x \<Longrightarrow>
      map_of (rt_registry (xs_router xs2)) n = Some x \<or> (\<exists>k sv t. x = McpExecutor k sv t \<and> length (xs_clients xs) \<le> k)"
    and opened: "\<And>k. k \<in> set (xs_open xs3) \<Longrightarrow> length (xs_clients xs) \<le> k"
    and ext: "extends (xs_router xs2) (xs_router xs3)"
    unfolding grown_def len by (auto simp: xs2_def)
  have old: "cl_closed (xs_clients xs3 ! k) \<and> k \<notin> set (xs_open xs3) \<and>
      (\<forall>n sv t. map_of (rt_registry (xs_router xs3)) n \<noteq> Some (McpExecutor k sv t))" if "k \<in> set (xs_open xs)" for k
  proof (intro conjI allI)
    have "k < length (xs_clients xs)" using that bounds by blast
    then show "cl_closed (xs_clients xs3 ! k)" "k \<notin> set (xs_open xs3)"
      using that c new len opened [of k] by (auto simp: nth_append xs2_def)
    show "map_of (rt_registry (xs_router xs3)) n \<noteq> Some (McpExecutor k sv t)" for n sv t
      using only [of n "McpExecutor k sv t"] own [of n] \<open>k < length (xs_clients xs)\<close> by auto
  qed
  have keep: "map_of (rt_registry (xs_router xs)) n = Some x"
    if "map_of (rt_registry (xs_router xs3)) n = Some x" "\<forall>k sv t. x \<noteq> McpExecutor k sv t" for n x
    using only [OF that(1)] that(2) reg [of n] by (auto split: if_splits)
  have stay: "map_of (rt_registry (xs_router xs3)) n = Some x"
    if "map_of (rt_registry (xs_router xs)) n = Some x" "\<not> prefix ''mcp__'' n" for n x
    using that ext reg [of n] by (simp add: extends_def)
  show ?thesis unfolding xs' using inactive keeps old keep stay by blast
qed

lemma new_ext_session_ok: "ext_ok (new_ext_session ws er ct)" "ready_served (new_ext_session ws er ct)"
proof -
  obtain rt where rt: "new_default_router = Some rt" "router_reach rt"
    "rt_order rt = [''echo'', ''exec_command'', ''write_stdin'', ''apply_patch'']" using default_router by blast
  have ok: "router_ok rt" by (rule router_reach_ok [OF rt(2)])
  have "map_of (rt_registry rt) n \<noteq> Some (McpExecutor k sv t)" for n k sv t
  proof
    assume m: "map_of (rt_registry rt) n = Some (McpExecutor k sv t)"
    with ok have "n = executor_name (McpExecutor k sv t)" "n \<in> set (rt_order rt)" unfolding router_ok_def by (metis, blast)
    with rt(3) show False by auto
  qed
  with ok show "ext_ok (new_ext_session ws er ct)" by (simp add: ext_ok_def new_ext_session_def rt(1))
  show "ready_served (new_ext_session ws er ct)" by (simp add: ready_served_def new_ext_session_def)
qed

text \<open>A session that starts is well formed: the state from which refreshing is reasoned about.\<close>

lemma new_session_ok:
  assumes "new_session se now workspace path root s = (Inr (xs, rr, h), s')"
  shows "ext_ok xs \<and> ready_served xs"
proof -
  from assms obtain ws er ct where xs: "fst (connect_mcp_servers se (ct_servers ct) (new_ext_session ws er ct, s)) = xs"
    by (auto simp: new_session_def Let_def dest!: run_hooks_eq split: sum.splits prod.splits if_splits option.splits)
  obtain ys u where c: "connect_mcp_servers se (ct_servers ct) (new_ext_session ws er ct, s) = (ys, u)" by (metis surj_pair)
  from connect_all_keeps [OF c new_ext_session_ok] show ?thesis using xs by (simp add: c)
qed

subsection \<open>Small sessions\<close>

definition sample_session_env :: "unit session_env" where
  "sample_session_env = \<lparr>se_ext = sample_ext_env,
     se_mcp = mcp_env_of (sample_web_with (\<lambda>_. None) (\<lambda>_ w. (Inl [], w))) (\<lambda>_ w. (CallReplied (None, None), w)),
     se_host = Linux, se_hook = (\<lambda>_ _ s. s)\<rparr>"

text \<open>Clients of servers over pipes, each ready with the tool \<open>sample_tool\<close>.\<close>

definition sample_status :: "string \<Rightarrow> mcp_status" where
  "sample_status name = \<lparr>st_name = name, st_state = ''ready'', st_source_path = [], st_tools = [sample_tool], st_error = [],
     st_needs_auth = False\<rparr>"

definition sample_ext :: "string list \<Rightarrow> ext_session" where
  "sample_ext names = \<lparr>xs_workspace_root = ''/w'', xs_extension_root = ''/w'',
     xs_router = \<lparr>rt_registry = map (\<lambda>k. (executor_name (McpExecutor k (names ! k) sample_tool), McpExecutor k (names ! k) sample_tool)) [0..<length names],
       rt_order = map (\<lambda>k. executor_name (McpExecutor k (names ! k) sample_tool)) [0..<length names]\<rparr>,
     xs_clients = map (\<lambda>n. sample_client\<lparr>cl_name := n, cl_url := []\<rparr>) names, xs_open = [0..<length names],
     xs_statuses = map (\<lambda>n. (n, sample_status n)) names, xs_catalog = empty_catalog\<rparr>"

lemma refresh_runs:
  "load_catalog (se_ext se) (fst s) (xs_extension_root xs) = (ct, None) \<Longrightarrow>
    \<exists>xs' s'. refresh_extensions se False (xs, s) = (None, xs', s')"
  by (cases "close_open se (xs, s)") (simp add: refresh_extensions_def, metis surj_pair)

theorem refresh_replaces_tools_witness:
  "\<forall>n sv t. map_of (rt_registry (xs_router (fst (snd (refresh_extensions sample_session_env False (sample_ext [''s''], (sample_ext_fs, ()))))))) n \<noteq>
     Some (McpExecutor 0 sv t)"
proof -
  have "xs_extension_root (sample_ext [''s'']) = ''/w''" "se_ext sample_session_env = sample_ext_env"
    by (simp_all add: sample_ext_def sample_session_env_def)
  with refresh_runs [of sample_session_env "(sample_ext_fs, ())" "sample_ext [''s'']"] sample_loads
  obtain xs' s' where r: "refresh_extensions sample_session_env False (sample_ext [''s''], (sample_ext_fs, ())) = (None, xs', s')"
    by auto
  have ok: "ext_ok (sample_ext [''s''])"
    by (auto simp: ext_ok_def router_ok_def sample_ext_def split: if_splits)
  have zero: "0 \<in> set (xs_open (sample_ext [''s'']))" by (simp add: sample_ext_def)
  have "\<forall>n sv t. map_of (rt_registry (xs_router xs')) n \<noteq> Some (McpExecutor 0 sv t)"
    using refresh_replaces_tools [OF r ok] zero by blast
  then show ?thesis by (simp only: r fst_conv snd_conv simp_thms)
qed

definition sample_config :: "string \<Rightarrow> mcp_server" where
  "sample_config name = \<lparr>ms_name = name, ms_command = ''c'', ms_args = [], ms_env = [], ms_url = [], ms_headers = [],
     ms_startup_timeout = 0, ms_source_path = [], ms_working_directory = []\<rparr>"

text \<open>
  A server that lists its tools again can take away the tools of another: they are dropped by the prefix
  \<open>mcp__<name>__\<close>, which the tools of a server have too whose name begins with \<open><name>__\<close>. That server is still
  shown as ready and has lost its tools.
\<close>

theorem list_changed_drops_other_server:
  "ext_ok (sample_ext [''a'', ''a__b'']) \<and> ready_served (sample_ext [''a'', ''a__b'']) \<and>
   \<not> ready_served (fst (handle_notification sample_session_env False (sample_config ''a'') 0 ''notifications/tools/list_changed''
     (sample_ext [''a'', ''a__b''], ([], ()))))"
proof (intro conjI)
  let ?x = "sample_ext [''a'', ''a__b'']"
  show "ext_ok ?x" by (auto simp: ext_ok_def router_ok_def sample_ext_def less_Suc_eq sample_tool_def split: if_splits)
  show "ready_served ?x"
    by (auto simp: ready_served_def served_by_def sample_ext_def less_Suc_eq sample_tool_def sample_status_def sample_client_def split: if_splits)
  let ?y = "fst (handle_notification sample_session_env False (sample_config ''a'') 0 ''notifications/tools/list_changed'' (?x, ([], ())))"
  have "map_of (xs_statuses ?y) ''a__b'' = Some (sample_status ''a__b'')" "rt_registry (xs_router ?y) = []"
    by code_simp+
  then have "\<not> (\<exists>k. served_by ?y k ''a__b'' (st_tools (sample_status ''a__b'')))" "st_state (sample_status ''a__b'') = ''ready''"
    by (simp_all add: served_by_def sample_status_def)
  then show "\<not> ready_served ?y" using \<open>map_of (xs_statuses ?y) ''a__b'' = _\<close> unfolding ready_served_def by blast
qed

end
