(* ===== verification/ThreadStore.thy ===== *)
theory ThreadStore
  imports SessionExt GoConv
begin

section \<open>The threads of the application: internal/appserver/thread_store.go\<close>

text \<open>
  A thread is a conversation: a file of metadata and a rollout in the directory \<open>tmp/threads\<close> of the application, and a mark
  for a thread that is not to be shown. The store works on the file systems of GoFiles; the main lemmas say what \<open>list\<close> finds
  after \<open>create\<close> and after \<open>remove\<close>.
\<close>

record thread_metadata =
  tm_id :: string
  tm_workspace_root :: string
  tm_working_directory :: string
  tm_created_at_ms :: int
  tm_title :: string

definition metadata_json :: "thread_metadata \<Rightarrow> json" where
  "metadata_json m = JObj ([str_entry ''id'' (tm_id m), str_entry ''workspace_root'' (tm_workspace_root m),
     str_entry ''working_directory'' (tm_working_directory m), int_entry ''created_at_ms'' (tm_created_at_ms m)] @
     opt_string ''title'' (tm_title m))"

definition metadata_of_json :: "json \<Rightarrow> thread_metadata option" where
  "metadata_of_json v = do {
     i \<leftarrow> string_field ''id'' v;
     r \<leftarrow> string_field ''workspace_root'' v;
     d \<leftarrow> string_field ''working_directory'' v;
     t \<leftarrow> int_field ''created_at_ms'' v;
     n \<leftarrow> string_field ''title'' v;
     Some \<lparr>tm_id = i, tm_workspace_root = r, tm_working_directory = d, tm_created_at_ms = t, tm_title = n\<rparr> }"

datatype thread_error =
    WorkspaceRequired
  | CanonicalizeWorkspace os_error
  | WorkspaceNoDirectory
  | GenerateThreadId string
  | CreateThreads os_error
  | WriteThread os_error
  | ReplaceThread os_error
  | ReadThreads os_error
  | ReadThread string os_error
  | DecodeThread string

subsection \<open>Files of a thread\<close>

definition store_directory :: "string \<Rightarrow> string" where
  "store_directory root = join_path [root, ''tmp'', ''threads'']"

definition rollout_path :: "string \<Rightarrow> string \<Rightarrow> string" where
  "rollout_path dir i = join_path [dir, i @ ''.jsonl'']"

definition metadata_path :: "string \<Rightarrow> string \<Rightarrow> string" where
  "metadata_path dir i = join_path [dir, i @ ''.json'']"

definition hidden_path :: "string \<Rightarrow> string \<Rightarrow> string" where
  "hidden_path dir i = join_path [dir, i @ ''.hidden'']"

text \<open>\<open>os.Remove\<close> with its error ignored.\<close>

definition remove_quietly :: "string \<Rightarrow> fs \<Rightarrow> fs" where
  "remove_quietly path d = (case remove_file (apath_of path) d of Inl e \<Rightarrow> d | Inr d' \<Rightarrow> d')"

definition remove_thread :: "string \<Rightarrow> string \<Rightarrow> fs \<Rightarrow> fs" where
  "remove_thread dir i d = remove_quietly (rollout_path dir i) (remove_quietly (metadata_path dir i) d)"

definition hide_thread :: "string \<Rightarrow> string \<Rightarrow> fs \<Rightarrow> fs" where
  "hide_thread dir i d =
     (case mkdir_all (apath_of dir) d of
        Inl e \<Rightarrow> d
      | Inr d1 \<Rightarrow> (case write_file (apath_of (hidden_path dir i)) [] d1 of Inl e \<Rightarrow> d1 | Inr d2 \<Rightarrow> d2))"

definition unhide_thread :: "string \<Rightarrow> string \<Rightarrow> fs \<Rightarrow> fs" where
  "unhide_thread dir i d = remove_quietly (hidden_path dir i) d"

definition hidden_thread :: "string \<Rightarrow> string \<Rightarrow> fs \<Rightarrow> bool" where
  "hidden_thread dir i d = (case stat d (apath_of (hidden_path dir i)) of Inl e \<Rightarrow> False | Inr x \<Rightarrow> True)"

subsection \<open>Creating and listing\<close>

definition validate_workspace :: "string \<Rightarrow> fs \<Rightarrow> string \<Rightarrow> (thread_error, string) result" where
  "validate_workspace wd d workspace =
     (if workspace = [] then Inl WorkspaceRequired
      else case resolve_root wd d workspace of
        Inl e \<Rightarrow> Inl (CanonicalizeWorkspace e)
      | Inr (root, x) \<Rightarrow> if x \<noteq> Dir then Inl WorkspaceNoDirectory else Inr root)"

definition write_thread :: "(json \<Rightarrow> string) \<Rightarrow> string \<Rightarrow> thread_metadata \<Rightarrow> fs \<Rightarrow> thread_error option \<times> fs" where
  "write_thread render_indent dir m d =
     (case mkdir_all (apath_of dir) d of
        Inl e \<Rightarrow> (Some (CreateThreads e), d)
      | Inr d1 \<Rightarrow>
        (let path = metadata_path dir (tm_id m); temporary = path @ ''.tmp'' in
         case write_file (apath_of temporary) (render_indent (metadata_json m) @ [newline]) d1 of
           Inl e \<Rightarrow> (Some (WriteThread e), d1)
         | Inr d2 \<Rightarrow>
           (case rename_file (apath_of temporary) (apath_of path) d2 of
              Inl e \<Rightarrow> (Some (ReplaceThread e), d2)
            | Inr d3 \<Rightarrow> (None, d3))))"

definition create_thread :: "'w session_env \<Rightarrow> string \<Rightarrow> string \<Rightarrow> 'w world \<Rightarrow> (thread_error, thread_metadata) result \<times> 'w world" where
  "create_thread se dir workspace s =
     (let wb = mv_web (se_mcp se) in
      case validate_workspace (xe_wd (se_ext se)) (fst s) workspace of
        Inl e \<Rightarrow> (Inl e, s)
      | Inr root \<Rightarrow>
        (case wb_random wb 16 (snd s) of
           (Inl e, w) \<Rightarrow> (Inl (GenerateThreadId e), (fst s, w))
         | (Inr bytes, w) \<Rightarrow>
             (let m = \<lparr>tm_id = hex_encode bytes, tm_workspace_root = root, tm_working_directory = root,
                       tm_created_at_ms = wb_now wb w div 1000000, tm_title = []\<rparr>
              in case write_thread (wb_render_indent wb) dir m (fst s) of
                   (Some e, d) \<Rightarrow> (Inl e, (d, w))
                 | (None, d) \<Rightarrow> (Inr m, (d, w)))))"

definition thread_file :: "string \<times> bool \<Rightarrow> bool" where
  "thread_file entry \<longleftrightarrow> \<not> snd entry \<and> path_ext (fst entry) = ''.json''"

definition read_thread :: "(string \<Rightarrow> json option) \<Rightarrow> fs \<Rightarrow> string \<Rightarrow> string \<Rightarrow> (thread_error, thread_metadata) result" where
  "read_thread parse d dir name =
     (case read_file d (apath_of (join_path [dir, name])) of
        Inl e \<Rightarrow> Inl (ReadThread name e)
      | Inr text \<Rightarrow> (case Option.bind (parse text) metadata_of_json of None \<Rightarrow> Inl (DecodeThread name) | Some m \<Rightarrow> Inr m))"

fun read_threads :: "(string \<Rightarrow> json option) \<Rightarrow> fs \<Rightarrow> string \<Rightarrow> (string \<times> bool) list \<Rightarrow> (thread_error, thread_metadata list) result" where
  "read_threads parse d dir [] = Inr []"
| "read_threads parse d dir (entry # entries) =
     (if \<not> thread_file entry then read_threads parse d dir entries
      else case read_thread parse d dir (fst entry) of
        Inl e \<Rightarrow> Inl e
      | Inr m \<Rightarrow> (case read_threads parse d dir entries of Inl e \<Rightarrow> Inl e | Inr ms \<Rightarrow> Inr (m # ms)))"

text \<open>The newest first; threads of the same millisecond are left in the order of their files.\<close>

definition list_threads :: "(string \<Rightarrow> json option) \<Rightarrow> string \<Rightarrow> fs \<Rightarrow> (thread_error, thread_metadata list) result" where
  "list_threads parse dir d =
     (case read_dir d (apath_of dir) of
        Inl NotExist \<Rightarrow> Inr []
      | Inl e \<Rightarrow> Inl (ReadThreads e)
      | Inr entries \<Rightarrow>
          (case read_threads parse d dir entries of
             Inl e \<Rightarrow> Inl e
           | Inr ms \<Rightarrow> Inr (sort_key (\<lambda>m. - tm_created_at_ms m) ms)))"

subsection \<open>What listing finds\<close>

lemma fold_metadata_keys: "map fold_name [''id'', ''workspace_root'', ''working_directory'', ''created_at_ms'', ''title''] =
    [''id'', ''workspace_root'', ''working_directory'', ''created_at_ms'', ''title'']"
  by code_simp

lemmas metadata_keys_match = key_matrix_of [OF fold_metadata_keys, simplified]

lemma metadata_inverse: "int64 (tm_created_at_ms m) \<Longrightarrow> metadata_of_json (metadata_json m) = Some m"
  by (simp add: metadata_of_json_def metadata_json_def int_field_def event_hits metadata_keys_match)

lemma read_threads_Inr:
  "read_threads parse d dir es = Inr ms \<Longrightarrow>
    (\<forall>e \<in> set es. thread_file e \<longrightarrow> (\<exists>m. read_thread parse d dir (fst e) = Inr m)) \<and>
    set ms = {m. \<exists>e \<in> set es. thread_file e \<and> read_thread parse d dir (fst e) = Inr m}"
proof (induction es arbitrary: ms)
  case (Cons e es)
  show ?case
  proof (cases "thread_file e")
    case True
    with Cons.prems obtain m ms' where "read_thread parse d dir (fst e) = Inr m" "read_threads parse d dir es = Inr ms'" "ms = m # ms'"
      by (auto split: sum.splits)
    with Cons.IH True show ?thesis by auto
  next
    case False
    with Cons show ?thesis by auto
  qed
qed simp

lemma read_threads_total:
  "(\<And>e. e \<in> set es \<Longrightarrow> thread_file e \<Longrightarrow> \<exists>m. read_thread parse d dir (fst e) = Inr m) \<Longrightarrow>
    \<exists>ms. read_threads parse d dir es = Inr ms"
proof (induction es)
  case (Cons e es)
  then obtain ms where ms: "read_threads parse d dir es = Inr ms" by auto
  show ?case
  proof (cases "thread_file e")
    case True
    with Cons.prems [of e] obtain m where "read_thread parse d dir (fst e) = Inr m" by auto
    with True ms show ?thesis by simp
  qed (simp add: ms)
qed simp

lemma path_ext_suffix: "CHR ''/'' \<notin> set i \<Longrightarrow> path_ext (i @ ''.json'') = ''.json''"
  by (simp add: path_ext_def split_on_free)

lemma path_ext_temporary: "CHR ''/'' \<notin> set i \<Longrightarrow> path_ext (i @ ''.json.tmp'') = ''.tmp''"
  by (simp add: path_ext_def split_on_free)

lemma less_child: "a < GoDirs.child p n \<longleftrightarrow> a \<le> p"
proof -
  have "GoDirs.child p n \<noteq> APath []" by (simp add: GoDirs.child_def)
  from ancestors_parent [OF this] have "ancestors (GoDirs.child p n) = ancestors p @ [p]" by simp
  then have "a < GoDirs.child p n \<longleftrightarrow> a \<in> set (ancestors p @ [p])" unfolding ancestors_iff [symmetric] by simp
  then show ?thesis by (auto simp: ancestors_iff order_le_less)
qed

definition dirs_to :: "fs \<Rightarrow> apath \<Rightarrow> bool" where
  "dirs_to d p \<longleftrightarrow> (\<forall>a. a \<le> p \<longrightarrow> node_at d a = Some Dir)"

lemma read_child: "dirs_to d p \<Longrightarrow> read_file d (GoDirs.child p n) = Inr c \<longleftrightarrow> node_at d (GoDirs.child p n) = Some (File c)"
  by (auto simp: read_file_Inr ancestors_iff less_child dirs_to_def)

lemma dirs_to_iff: "dirs_to d p \<longleftrightarrow> blocked d p = None \<and> node_at d p = Some Dir"
  by (auto simp: dirs_to_def blocked_None ancestors_iff order_le_less)

lemma stat_dir: "dirs_to d p \<longleftrightarrow> stat d p = Inr Dir"
  by (auto simp: dirs_to_iff stat_def split: option.splits)

lemma below_single: "below p [n] = GoDirs.child p n"
  by (simp add: below_def GoDirs.child_def)

lemma join_segment: "is_abs dir \<Longrightarrow> wf_seg n \<Longrightarrow> apath_of (join_path [dir, n]) = GoDirs.child (apath_of dir) n"
  using join_path_below(1) [of dir "[n]"] by (simp add: below_single)

text \<open>The metadata in the files of a directory, whatever the order in which they are read.\<close>

definition threads_in :: "(string \<Rightarrow> json option) \<Rightarrow> fs \<Rightarrow> apath \<Rightarrow> string \<Rightarrow> thread_metadata option" where
  "threads_in parse d p n =
     (case node_at d (GoDirs.child p n) of Some (File c) \<Rightarrow> Option.bind (parse c) metadata_of_json | _ \<Rightarrow> None)"

definition names_ok :: "fs \<Rightarrow> apath \<Rightarrow> bool" where
  "names_ok d p \<longleftrightarrow> (\<forall>n. node_at d (GoDirs.child p n) \<noteq> None \<longrightarrow> wf_seg n)"

lemma read_thread_child:
  assumes "dirs_to d (apath_of dir)" "is_abs dir" "wf_seg n"
  shows "read_thread parse d dir n = Inr m \<longleftrightarrow> threads_in parse d (apath_of dir) n = Some m"
proof -
  have "read_thread parse d dir n = Inr m \<longleftrightarrow>
      (\<exists>c. read_file d (GoDirs.child (apath_of dir) n) = Inr c \<and> Option.bind (parse c) metadata_of_json = Some m)"
    unfolding read_thread_def join_segment [OF assms(2,3)] by (auto split: sum.splits option.splits)
  then show ?thesis unfolding read_child [OF assms(1)] by (auto simp: threads_in_def split: option.splits node.splits)
qed

lemma thread_file_entry:
  "dirs_to d p \<Longrightarrow> read_dir d p = Inr (map (\<lambda>n. (n, is_dir d (GoDirs.child p n))) (child_names d p))"
  by (simp add: read_dir_def stat_dir)

lemma list_threads_set:
  assumes "dirs_to d (apath_of dir)" "is_abs dir" "names_ok d (apath_of dir)"
  shows "(\<exists>ms. list_threads parse dir d = Inr ms) \<longleftrightarrow>
      (\<forall>n c. path_ext n = ''.json'' \<and> node_at d (GoDirs.child (apath_of dir) n) = Some (File c) \<longrightarrow> threads_in parse d (apath_of dir) n \<noteq> None)"
    and "list_threads parse dir d = Inr ms \<Longrightarrow> set ms = {m. \<exists>n. path_ext n = ''.json'' \<and> threads_in parse d (apath_of dir) n = Some m}"
proof -
  let ?p = "apath_of dir"
  let ?es = "map (\<lambda>n. (n, is_dir d (GoDirs.child ?p n))) (child_names d ?p)"
  have list: "list_threads parse dir d =
      (case read_threads parse d dir ?es of Inl e \<Rightarrow> Inl e | Inr ms \<Rightarrow> Inr (sort_key (\<lambda>m. - tm_created_at_ms m) ms))"
    by (simp add: list_threads_def thread_file_entry [OF assms(1)])
  have entry: "(e \<in> set ?es \<and> thread_file e) \<longleftrightarrow>
      path_ext (fst e) = ''.json'' \<and> \<not> snd e \<and> (\<exists>c. node_at d (GoDirs.child ?p (fst e)) = Some (File c))" for e
  proof -
    obtain n b where e: "e = (n, b)" by (cases e)
    show ?thesis
    proof (cases "node_at d (GoDirs.child ?p n)")
      case (Some x)
      then have "n \<in> set (child_names d ?p)" by (simp add: child_names_iff)
      with Some show ?thesis by (cases x) (auto simp: e thread_file_def is_dir_def)
    next
      case None
      then have "n \<notin> set (child_names d ?p)" by (simp add: child_names_iff)
      with None show ?thesis by (auto simp: e)
    qed
  qed
  have read: "read_thread parse d dir n = Inr m \<longleftrightarrow> threads_in parse d ?p n = Some m" if "node_at d (GoDirs.child ?p n) \<noteq> None" for n m
    using read_thread_child [OF assms(1,2)] assms(3) that unfolding names_ok_def by blast
  have ex: "threads_in parse d ?p n = Some m \<Longrightarrow> \<exists>c. node_at d (GoDirs.child ?p n) = Some (File c)" for n m
    by (auto simp: threads_in_def split: option.splits node.splits)
  show "set ms = {m. \<exists>n. path_ext n = ''.json'' \<and> threads_in parse d ?p n = Some m}" if "list_threads parse dir d = Inr ms"
  proof -
    from that list obtain ms' where r: "read_threads parse d dir ?es = Inr ms'" "set ms = set ms'" by (auto split: sum.splits)
    have "m \<in> set ms' \<longleftrightarrow> (\<exists>n. path_ext n = ''.json'' \<and> threads_in parse d ?p n = Some m)" for m
    proof -
      have "m \<in> set ms' \<longleftrightarrow> (\<exists>e. (e \<in> set ?es \<and> thread_file e) \<and> read_thread parse d dir (fst e) = Inr m)"
        using read_threads_Inr [OF r(1)] by blast
      also have "\<dots> \<longleftrightarrow> (\<exists>n. path_ext n = ''.json'' \<and> threads_in parse d ?p n = Some m)" unfolding entry
      proof
        assume "\<exists>n. path_ext n = ''.json'' \<and> threads_in parse d ?p n = Some m"
        then obtain n c where n: "path_ext n = ''.json''" "threads_in parse d ?p n = Some m" "node_at d (GoDirs.child ?p n) = Some (File c)"
          using ex by blast
        then have "read_thread parse d dir n = Inr m" using read [of n m] by simp
        with n show "\<exists>e. (path_ext (fst e) = ''.json'' \<and> \<not> snd e \<and> (\<exists>c. node_at d (GoDirs.child ?p (fst e)) = Some (File c))) \<and>
            read_thread parse d dir (fst e) = Inr m" by (intro exI [of _ "(n, False)"]) simp
      qed (use read in force)
      finally show ?thesis .
    qed
    then show ?thesis using r(2) by blast
  qed
  show "(\<exists>ms. list_threads parse dir d = Inr ms) \<longleftrightarrow>
      (\<forall>n c. path_ext n = ''.json'' \<and> node_at d (GoDirs.child ?p n) = Some (File c) \<longrightarrow> threads_in parse d ?p n \<noteq> None)"
  proof
    assume "\<exists>ms. list_threads parse dir d = Inr ms"
    then obtain ms' where r: "read_threads parse d dir ?es = Inr ms'" unfolding list by (auto split: sum.splits)
    show "\<forall>n c. path_ext n = ''.json'' \<and> node_at d (GoDirs.child ?p n) = Some (File c) \<longrightarrow> threads_in parse d ?p n \<noteq> None"
    proof (intro allI impI)
      fix n c assume n: "path_ext n = ''.json'' \<and> node_at d (GoDirs.child ?p n) = Some (File c)"
      then have "(n, False) \<in> set ?es \<and> thread_file (n, False)" using entry [of "(n, False)"] by simp
      with read_threads_Inr [OF r] obtain m where "read_thread parse d dir n = Inr m" by fastforce
      with read [of n m] n show "threads_in parse d ?p n \<noteq> None" by simp
    qed
  next
    assume all: "\<forall>n c. path_ext n = ''.json'' \<and> node_at d (GoDirs.child ?p n) = Some (File c) \<longrightarrow> threads_in parse d ?p n \<noteq> None"
    have "\<exists>m. read_thread parse d dir (fst e) = Inr m" if "e \<in> set ?es" "thread_file e" for e
      using entry [of e] that all read [of "fst e"] by fastforce
    from read_threads_total [of ?es, OF this] show "\<exists>ms. list_threads parse dir d = Inr ms" unfolding list by auto
  qed
qed

subsection \<open>A thread that is created is listed, and one that is removed is not\<close>

lemma json_seg: "CHR ''/'' \<notin> set i \<Longrightarrow> wf_seg (i @ ''.json'') \<and> wf_seg (i @ ''.json.tmp'') \<and> wf_seg (i @ ''.jsonl'')"
  by (auto simp: wf_seg_def dest: arg_cong [of _ _ length])

lemma thread_paths:
  assumes "is_abs dir" "CHR ''/'' \<notin> set i"
  shows "apath_of (metadata_path dir i) = GoDirs.child (apath_of dir) (i @ ''.json'')"
    and "apath_of (metadata_path dir i @ ''.tmp'') = GoDirs.child (apath_of dir) (i @ ''.json.tmp'')"
    and "apath_of (rollout_path dir i) = GoDirs.child (apath_of dir) (i @ ''.jsonl'')"
proof -
  have wf: "wf_seg (i @ ''.json'')" "wf_seg (i @ ''.json.tmp'')" "wf_seg (i @ ''.jsonl'')" using json_seg [OF assms(2)] by simp_all
  show "apath_of (metadata_path dir i) = GoDirs.child (apath_of dir) (i @ ''.json'')"
    and "apath_of (rollout_path dir i) = GoDirs.child (apath_of dir) (i @ ''.jsonl'')"
    using join_segment [OF assms(1)] wf by (simp_all add: metadata_path_def rollout_path_def)
  have "metadata_path dir i = render_path True (segs dir @ [i @ ''.json''])"
    using join_path_below(3) [of dir "[i @ ''.json'']"] assms(1) wf by (simp add: metadata_path_def)
  moreover have "\<forall>s \<in> set (segs dir @ [i @ ''.json.tmp'']). wf_seg s" using segs_wf [OF assms(1)] wf by auto
  ultimately show "apath_of (metadata_path dir i @ ''.tmp'') = GoDirs.child (apath_of dir) (i @ ''.json.tmp'')"
    using apath_of_render [of "segs dir @ [i @ ''.json.tmp'']"]
    by (simp add: render_path_snoc GoDirs.child_def apath_of_def)
qed

lemma write_thread_effect:
  assumes "write_thread ri dir m d = (None, d')" "is_abs dir" "CHR ''/'' \<notin> set (tm_id m)"
  shows "dirs_to d' (apath_of dir)"
    and "node_at d' q = (if q = GoDirs.child (apath_of dir) (tm_id m @ ''.json'') then Some (File (ri (metadata_json m) @ [newline]))
      else if q = GoDirs.child (apath_of dir) (tm_id m @ ''.json.tmp'') then None
      else if q \<le> apath_of dir then Some Dir else node_at d q)"
proof -
  let ?p = "GoDirs.child (apath_of dir) (tm_id m @ ''.json'')" and ?t = "GoDirs.child (apath_of dir) (tm_id m @ ''.json.tmp'')"
  let ?c = "ri (metadata_json m) @ [newline]"
  note paths = thread_paths [OF assms(2,3)]
  from assms(1) obtain d1 d2 where mk: "mkdir_all (apath_of dir) d = Inr d1" and wr: "write_file ?t ?c d1 = Inr d2"
    and rn: "rename_file ?t ?p d2 = Inr d'"
    unfolding write_thread_def Let_def paths by (auto split: sum.splits)
  have ne: "?t \<noteq> ?p" by simp
  from rn ne obtain d3 where w3: "write_file ?p ?c d2 = Inr d3" and d': "d' = AList.delete ?t d3"
    using read_after_write [OF wr] by (auto simp: rename_file_def split: sum.splits)
  have not_le: "\<not> ?p \<le> apath_of dir" "\<not> ?t \<le> apath_of dir" using child_less less_le_not_le by blast+
  have dirs: "node_at d1 a = Some Dir" if "a \<le> apath_of dir" for a
    using mkdir_all_dir [OF mk, of a] that by (auto simp: ancestors_iff order_le_less)
  have nodes: "node_at d' q = (if q = ?p then Some (File ?c) else if q = ?t then None
      else if q \<le> apath_of dir then Some Dir else node_at d q)" for q
    using write_file_frame [OF w3, of q] write_file_frame [OF wr, of q] mkdir_all_frame_le [OF mk, of q] dirs [of q] ne
    by (auto simp: d' delete_conv')
  then show "node_at d' q = (if q = ?p then Some (File ?c) else if q = ?t then None
      else if q \<le> apath_of dir then Some Dir else node_at d q)" by blast
  show "dirs_to d' (apath_of dir)" using nodes not_le by (auto simp: dirs_to_def)
qed

lemma remove_quietly_file:
  "dirs_to d p \<Longrightarrow> node_at d (GoDirs.child p n) = Some (File c) \<Longrightarrow> apath_of path = GoDirs.child p n \<Longrightarrow>
    node_at (remove_quietly path d) q = (if q = GoDirs.child p n then None else node_at d q)"
proof -
  assume d: "dirs_to d p" "node_at d (GoDirs.child p n) = Some (File c)" and p: "apath_of path = GoDirs.child p n"
  have "blocked d (GoDirs.child p n) = None" using d(1) by (simp add: blocked_None ancestors_iff less_child dirs_to_def)
  with d(2) have "remove_file (GoDirs.child p n) d = Inr (AList.delete (GoDirs.child p n) d)" by (simp add: remove_file_def)
  then show ?thesis by (simp add: remove_quietly_def p delete_conv')
qed

lemma remove_quietly_frame: "q \<noteq> apath_of path \<Longrightarrow> node_at (remove_quietly path d) q = node_at d q"
  by (auto simp: remove_quietly_def frame_simps split: sum.splits)

lemma list_before:
  assumes "list_threads parse dir d = Inr ms" "is_abs dir" "fs_ok d" "names_ok d (apath_of dir)"
  shows "(\<forall>n c. path_ext n = ''.json'' \<and> node_at d (GoDirs.child (apath_of dir) n) = Some (File c) \<longrightarrow> threads_in parse d (apath_of dir) n \<noteq> None) \<and>
    set ms = {m. \<exists>n. path_ext n = ''.json'' \<and> threads_in parse d (apath_of dir) n = Some m}"
proof (cases "dirs_to d (apath_of dir)")
  case True
  from list_threads_set [OF this assms(2,4)] assms(1) show ?thesis by blast
next
  case False
  have up: "node_at d (GoDirs.child (apath_of dir) n) \<noteq> None \<Longrightarrow> a \<le> apath_of dir \<Longrightarrow> node_at d a = Some Dir" for a n
    using assms(3) less_child [of a "apath_of dir" n] unfolding fs_ok_def ancestors_iff by blast
  have "node_at d (GoDirs.child (apath_of dir) n) = None" for n
  proof (rule ccontr)
    assume "node_at d (GoDirs.child (apath_of dir) n) \<noteq> None"
    with up have "dirs_to d (apath_of dir)" unfolding dirs_to_def by blast
    with False show False by contradiction
  qed
  moreover from this have "threads_in parse d (apath_of dir) n = None" for n by (simp add: threads_in_def)
  moreover have "ms = []" using assms(1) False stat_dir [of d "apath_of dir"]
    by (auto simp: list_threads_def read_dir_def split: sum.splits os_error.splits node.splits)
  ultimately show ?thesis by simp
qed

text \<open>
  Property C39. A thread that is created is found by the next listing beside all that were there, newest first, and removing it leaves the
  listing as it was: creating touches no file but the thread's own, and so does removing.
\<close>

theorem created_thread_is_listed:
  assumes "create_thread se dir workspace (d, w) = (Inr m, (d', w'))" "is_abs dir" "fs_ok d" "names_ok d (apath_of dir)"
    and "list_threads (wb_parse (mv_web (se_mcp se))) dir d = Inr ms"
    and "wb_parse (mv_web (se_mcp se)) (wb_render_indent (mv_web (se_mcp se)) (metadata_json m) @ [newline]) = Some (metadata_json m)"
    and "int64 (tm_created_at_ms m)" "node_at d (apath_of (metadata_path dir (tm_id m))) = None"
  shows "\<exists>ms' ms''. list_threads (wb_parse (mv_web (se_mcp se))) dir d' = Inr ms' \<and> set ms' = insert m (set ms) \<and>
    sorted (map (\<lambda>m. - tm_created_at_ms m) ms') \<and>
    list_threads (wb_parse (mv_web (se_mcp se))) dir (remove_thread dir (tm_id m) d') = Inr ms'' \<and> set ms'' = set ms"
proof -
  let ?wb = "mv_web (se_mcp se)" and ?p = "apath_of dir" and ?i = "tm_id m"
  let ?parse = "wb_parse ?wb" and ?c = "wb_render_indent ?wb (metadata_json m) @ [newline]"
  from assms(1) obtain bytes root where id: "?i = hex_encode bytes" and wt: "write_thread (wb_render_indent ?wb) dir m d = (None, d')"
    by (auto simp: create_thread_def Let_def split: sum.splits prod.splits option.splits)
  have slash: "CHR ''/'' \<notin> set ?i" using hex_encode_chars [of bytes] by (auto simp: id)
  note paths = thread_paths [OF assms(2) slash]
  note eff = write_thread_effect [OF wt assms(2) slash]
  have child_nodes: "node_at d' (GoDirs.child ?p n) = (if n = ?i @ ''.json'' then Some (File ?c)
      else if n = ?i @ ''.json.tmp'' then None else node_at d (GoDirs.child ?p n))" for n
    using eff(2) [of "GoDirs.child ?p n"] child_less [of ?p n] by (auto simp: less_le_not_le)
  have names': "names_ok d' ?p" using assms(4) json_seg [OF slash] unfolding names_ok_def child_nodes by auto
  have own: "threads_in ?parse d' ?p (?i @ ''.json'') = Some m"
    using assms(6) metadata_inverse [OF assms(7)] by (simp add: threads_in_def child_nodes)
  have fresh: "threads_in ?parse d ?p (?i @ ''.json'') = None" using assms(8) by (simp add: threads_in_def paths)
  have same: "threads_in ?parse d' ?p n = threads_in ?parse d ?p n" if "path_ext n = ''.json''" "n \<noteq> ?i @ ''.json''" for n
    using that path_ext_temporary [OF slash] by (auto simp: threads_in_def child_nodes)
  note before = list_before [OF assms(5,2,3,4)]
  have ext: "path_ext (?i @ ''.json'') = ''.json''" by (rule path_ext_suffix [OF slash])
  have decodes': "threads_in ?parse d' ?p n \<noteq> None"
    if "path_ext n = ''.json''" "node_at d' (GoDirs.child ?p n) = Some (File c)" for n c
  proof (cases "n = ?i @ ''.json''")
    case False
    with that child_nodes [of n] have "node_at d (GoDirs.child ?p n) = Some (File c)" by (simp split: if_splits)
    with before that(1) same [OF that(1) False] show ?thesis by simp
  qed (simp add: own)
  then obtain ms' where ms': "list_threads ?parse dir d' = Inr ms'"
    using list_threads_set(1) [OF eff(1) assms(2) names'] by blast
  have set': "set ms' = insert m (set ms)"
  proof -
    have "(\<exists>n. path_ext n = ''.json'' \<and> threads_in ?parse d' ?p n = Some x) \<longleftrightarrow>
        x = m \<or> (\<exists>n. path_ext n = ''.json'' \<and> threads_in ?parse d ?p n = Some x)" for x
    proof (cases "x = m")
      case True
      with own ext show ?thesis by blast
    next
      case False
      have "threads_in ?parse d' ?p n = Some x \<longleftrightarrow> threads_in ?parse d ?p n = Some x" if "path_ext n = ''.json''" for n
        using False own fresh same [OF that] by (cases "n = ?i @ ''.json''") auto
      with False show ?thesis by blast
    qed
    note now = this
    have "set ms' = {x. \<exists>n. path_ext n = ''.json'' \<and> threads_in ?parse d' ?p n = Some x}"
      by (rule list_threads_set(2) [OF eff(1) assms(2) names' ms'])
    also have "\<dots> = insert m {x. \<exists>n. path_ext n = ''.json'' \<and> threads_in ?parse d ?p n = Some x}" unfolding now by blast
    also have "\<dots> = insert m (set ms)" using before by simp
    finally show ?thesis .
  qed
  have sorted: "sorted (map (\<lambda>m. - tm_created_at_ms m) ms')"
    using ms' by (auto simp: list_threads_def split: sum.splits os_error.splits)
  let ?d2 = "remove_thread dir ?i d'"
  have rm: "node_at ?d2 q = (if q = GoDirs.child ?p (?i @ ''.json'') then None else node_at d' q)"
    if "q \<noteq> GoDirs.child ?p (?i @ ''.jsonl'')" for q
    using that remove_quietly_file [OF eff(1), of "?i @ ''.json''" ?c "metadata_path dir ?i" q] child_nodes [of "?i @ ''.json''"]
      remove_quietly_frame [of q "rollout_path dir ?i"] paths by (simp add: remove_thread_def)
  have jsonl: "path_ext (?i @ ''.jsonl'') = ''.jsonl''" using slash by (simp add: path_ext_def split_on_free)
  have dirs2: "dirs_to ?d2 ?p" unfolding dirs_to_def
  proof (intro allI impI)
    fix a assume a: "a \<le> ?p"
    then have "a \<noteq> GoDirs.child ?p n" for n using child_less [of ?p n] by (auto simp: less_le_not_le)
    with rm [of a] eff(1) a show "node_at ?d2 a = Some Dir" by (simp add: dirs_to_def)
  qed
  have sub: "node_at ?d2 q \<noteq> None \<Longrightarrow> node_at d' q \<noteq> None" for q
    by (auto simp: remove_thread_def remove_quietly_def frame_simps split: sum.splits if_splits)
  have names2: "names_ok ?d2 ?p" using names' sub unfolding names_ok_def by blast
  have gone: "threads_in ?parse ?d2 ?p n = threads_in ?parse d ?p n" if "path_ext n = ''.json''" for n
  proof (cases "n = ?i @ ''.json''")
    case True
    have "node_at ?d2 (GoDirs.child ?p (?i @ ''.json'')) = None" using rm [of "GoDirs.child ?p (?i @ ''.json'')"] by simp
    with fresh True show ?thesis by (simp add: threads_in_def)
  next
    case False
    have "n \<noteq> ?i @ ''.jsonl''" using that jsonl by auto
    with rm [of "GoDirs.child ?p n"] False have "node_at ?d2 (GoDirs.child ?p n) = node_at d' (GoDirs.child ?p n)" by simp
    with same [OF that False] show ?thesis by (simp add: threads_in_def)
  qed
  have "threads_in ?parse ?d2 ?p n \<noteq> None"
    if "path_ext n = ''.json''" "node_at ?d2 (GoDirs.child ?p n) = Some (File c)" for n c
  proof -
    have ne: "n \<noteq> ?i @ ''.jsonl''" using that(1) jsonl by auto
    with rm [of "GoDirs.child ?p n"] that(2) have "n \<noteq> ?i @ ''.json''" "node_at d' (GoDirs.child ?p n) = Some (File c)"
      by (auto split: if_splits)
    then show ?thesis using gone [OF that(1)] same [OF that(1)] decodes' [OF that(1)] by simp
  qed
  then obtain ms'' where ms'': "list_threads ?parse dir ?d2 = Inr ms''"
    using list_threads_set(1) [OF dirs2 assms(2) names2] by blast
  have "set ms'' = set ms"
  proof -
    have "(\<exists>n. path_ext n = ''.json'' \<and> threads_in ?parse ?d2 ?p n = Some x) \<longleftrightarrow>
        (\<exists>n. path_ext n = ''.json'' \<and> threads_in ?parse d ?p n = Some x)" for x
      using gone by fastforce
    note now = this
    have "set ms'' = {x. \<exists>n. path_ext n = ''.json'' \<and> threads_in ?parse ?d2 ?p n = Some x}"
      by (rule list_threads_set(2) [OF dirs2 assms(2) names2 ms''])
    then show ?thesis unfolding now using before by simp
  qed
  with ms' set' sorted ms'' show ?thesis by blast
qed

definition sample_thread :: thread_metadata where
  "sample_thread = \<lparr>tm_id = concat (replicate 16 ''72''), tm_workspace_root = ''/w'', tm_working_directory = ''/w'',
     tm_created_at_ms = 0, tm_title = []\<rparr>"

definition sample_store_env :: "unit session_env" where
  "sample_store_env = sample_session_env\<lparr>se_mcp := mcp_env_of (sample_web_with (\<lambda>_. Some (metadata_json sample_thread)) (\<lambda>_ w. (Inl [], w)))
     (\<lambda>_ w. (CallReplied (None, None), w))\<rparr>"

definition sample_store :: fs where
  "sample_store = [(APath [], Dir), (APath [''w''], Dir)]"

lemma sample_thread_created:
  "fst (create_thread sample_store_env ''/w/t'' ''/w'' (sample_store, ())) = Inr sample_thread"
  by code_simp

theorem created_thread_is_listed_witness:
  "\<exists>ms. list_threads (\<lambda>_. Some (metadata_json sample_thread)) ''/w/t''
     (fst (snd (create_thread sample_store_env ''/w/t'' ''/w'' (sample_store, ())))) = Inr ms \<and> set ms = {sample_thread}"
proof -
  obtain d' w' where c: "create_thread sample_store_env ''/w/t'' ''/w'' (sample_store, ()) = (Inr sample_thread, (d', w'))"
    using sample_thread_created by (metis fst_conv prod.collapse)
  have p: "apath_of ''/w/t'' = APath [''w'', ''t'']" by code_simp
  have ok: "fs_ok sample_store" by (rule fs_ok_list) code_simp
  have names: "names_ok sample_store (apath_of ''/w/t'')" by (simp add: names_ok_def p sample_store_def GoDirs.child_def)
  have parse: "wb_parse (mv_web (se_mcp sample_store_env)) = (\<lambda>_. Some (metadata_json sample_thread))"
    by (simp add: sample_store_env_def mcp_env_of_def sample_web_with_def)
  have listed: "list_threads (wb_parse (mv_web (se_mcp sample_store_env))) ''/w/t'' sample_store = Inr []" by code_simp
  have none: "node_at sample_store (apath_of (metadata_path ''/w/t'' (tm_id sample_thread))) = None" by code_simp
  have "int64 (tm_created_at_ms sample_thread)" by (simp add: sample_thread_def int64_def)
  from created_thread_is_listed [OF c _ ok names listed _ this none]
  show ?thesis by (auto simp: c parse)
qed

end
