(* ===== verification/SessionIO.thy ===== *)
theory SessionIO
  imports ThreadStore RolloutViews
begin

section \<open>The client's end of a session: the type IO of internal/session/session.go\<close>

text \<open>
  A client submits operations and reads events; every operation gets a fresh identifier, and some wait for a reply. The session
  runs beside its clients, so what a \<open>select\<close> ends with is an answer of the environment: it is a function of the world, which has the
  running sessions in it. A running session is named by a number. Theory Session says what the other end does.
\<close>

datatype send_outcome = Taken | SendCancelled string | SendStopped
datatype 'a wait = Waited 'a | WaitCancelled string | WaitStopped

record 'w io_env =
  ie_session :: "'w session_env"
  ie_spawn :: "ext_session \<times> rollout_recorder option \<times> response_item list \<Rightarrow> 'w world \<Rightarrow> nat \<times> 'w world"
  ie_offer :: "nat \<Rightarrow> string \<Rightarrow> session_op \<Rightarrow> 'w world \<Rightarrow> send_outcome \<times> 'w world"
  ie_admission :: "nat \<Rightarrow> string \<Rightarrow> 'w world \<Rightarrow> admission wait \<times> 'w world"
  ie_result :: "nat \<Rightarrow> string \<Rightarrow> 'w world \<Rightarrow> (string, string option) result \<times> 'w world"
  ie_event :: "nat \<Rightarrow> 'w world \<Rightarrow> (string, (string \<times> event_msg) option) result \<times> 'w world"   \<comment> \<open>\<open>None\<close>: closed\<close>
  ie_done :: "nat \<Rightarrow> 'w world \<Rightarrow> string option \<times> 'w world"
  ie_extensions :: "nat \<Rightarrow> 'w world \<Rightarrow> ext_session"
  ie_active :: "nat \<Rightarrow> 'w world \<Rightarrow> string"
  ie_now_text :: "'w \<Rightarrow> string"

record session_io =
  io_handle :: nat
  io_shut :: bool          \<comment> \<open>\<open>shutdownOnce\<close>\<close>

definition io_web :: "'w io_env \<Rightarrow> 'w web" where
  "io_web env = mv_web (se_mcp (ie_session env))"

definition stopped_text :: string where "stopped_text = ''session stopped''"

definition new_submission_id :: "'w io_env \<Rightarrow> 'w world \<Rightarrow> (string, string) result \<times> 'w world" where
  "new_submission_id env s =
     (case wb_random (io_web env) 16 (snd s) of
        (Inl e, w) \<Rightarrow> (Inl (''generate submission ID: '' @ e), (fst s, w))
      | (Inr bytes, w) \<Rightarrow> (Inr (hex_encode bytes), (fst s, w)))"

definition io_submit :: "'w io_env \<Rightarrow> session_io \<Rightarrow> session_op \<Rightarrow> 'w world \<Rightarrow> (string, string) result \<times> 'w world" where
  "io_submit env io op s =
     (case new_submission_id env s of
        (Inl e, s1) \<Rightarrow> (Inl e, s1)
      | (Inr i, s1) \<Rightarrow>
        (case ie_offer env (io_handle io) i op s1 of
           (SendCancelled e, s2) \<Rightarrow> (Inl e, s2)
         | (SendStopped, s2) \<Rightarrow> (Inl stopped_text, s2)
         | (Taken, s2) \<Rightarrow> (Inr i, s2)))"

definition submit_turn_input_with_images :: "'w io_env \<Rightarrow> session_io \<Rightarrow> string \<Rightarrow> string list \<Rightarrow> 'w world \<Rightarrow>
    (string, string) result \<times> 'w world" where
  "submit_turn_input_with_images env io text urls s =
     io_submit env io (OpTurnInput [\<lparr>ti_text = text, ti_image_urls = urls\<rparr>] []) s"

definition submit_turn_input :: "'w io_env \<Rightarrow> session_io \<Rightarrow> string \<Rightarrow> 'w world \<Rightarrow> (string, string) result \<times> 'w world" where
  "submit_turn_input env io text s = submit_turn_input_with_images env io text [] s"

definition admission_text :: "(string \<Rightarrow> string) \<Rightarrow> admission_error \<Rightarrow> string" where
  "admission_text quote e =
     (case e of
        InputRequired \<Rightarrow> input_required
      | OtherTurnActive active expected \<Rightarrow> ''active turn is '' @ quote active @ '', expected '' @ quote expected
      | TurnCompleting \<Rightarrow> ''active turn is completing and no longer accepts steer input''
      | NoActiveTurn \<Rightarrow> ''no active turn to steer'')"

definition io_steer :: "'w io_env \<Rightarrow> session_io \<Rightarrow> string \<Rightarrow> string \<Rightarrow> 'w world \<Rightarrow> (string, string) result \<times> 'w world" where
  "io_steer env io expected text s =
     (case io_submit env io (OpTurnInput [\<lparr>ti_text = text, ti_image_urls = []\<rparr>] expected) s of
        (Inl e, s1) \<Rightarrow> (Inl e, s1)
      | (Inr i, s1) \<Rightarrow>
        (case ie_admission env (io_handle io) i s1 of
           (WaitCancelled e, s2) \<Rightarrow> (Inl e, s2)
         | (WaitStopped, s2) \<Rightarrow> (Inl stopped_text, s2)
         | (Waited (Started t), s2) \<Rightarrow> (Inr t, s2)
         | (Waited (Steered t), s2) \<Rightarrow> (Inr t, s2)
         | (Waited (Refused e), s2) \<Rightarrow> (Inl (admission_text (xe_quote (se_ext (ie_session env))) e), s2)))"

text \<open>Operations without a reply.\<close>

definition io_send :: "'w io_env \<Rightarrow> session_io \<Rightarrow> session_op \<Rightarrow> 'w world \<Rightarrow> string option \<times> 'w world" where
  "io_send env io op s = (case io_submit env io op s of (Inl e, s1) \<Rightarrow> (Some e, s1) | (Inr i, s1) \<Rightarrow> (None, s1))"

definition respond_exec_approval :: "'w io_env \<Rightarrow> session_io \<Rightarrow> exec_approval_response \<Rightarrow> 'w world \<Rightarrow> string option \<times> 'w world" where
  "respond_exec_approval env io r s = io_send env io (OpExecApproval (Some r)) s"

definition respond_elicitation :: "'w io_env \<Rightarrow> session_io \<Rightarrow> elicitation_response \<Rightarrow> 'w world \<Rightarrow> string option \<times> 'w world" where
  "respond_elicitation env io r s = io_send env io (OpElicitation (Some r)) s"

definition io_interrupt :: "'w io_env \<Rightarrow> session_io \<Rightarrow> 'w world \<Rightarrow> string option \<times> 'w world" where
  "io_interrupt env io s = io_send env io (OpInterrupt []) s"

text \<open>
  Operations that wait for their result. The wait does not look at whether the session has stopped.
\<close>

definition io_ask :: "'w io_env \<Rightarrow> session_io \<Rightarrow> session_op \<Rightarrow> 'w world \<Rightarrow> string option \<times> 'w world" where
  "io_ask env io op s =
     (case io_submit env io op s of
        (Inl e, s1) \<Rightarrow> (Some e, s1)
      | (Inr i, s1) \<Rightarrow>
        (case ie_result env (io_handle io) i s1 of (Inl e, s2) \<Rightarrow> (Some e, s2) | (Inr e, s2) \<Rightarrow> (e, s2)))"

definition interrupt_turn :: "'w io_env \<Rightarrow> session_io \<Rightarrow> string \<Rightarrow> 'w world \<Rightarrow> string option \<times> 'w world" where
  "interrupt_turn env io expected s = io_ask env io (OpInterrupt expected) s"

definition io_refresh_extensions :: "'w io_env \<Rightarrow> session_io \<Rightarrow> 'w world \<Rightarrow> string option \<times> 'w world" where
  "io_refresh_extensions env io s = io_ask env io OpRefreshExtensions s"

definition clean_background_terminals :: "'w io_env \<Rightarrow> session_io \<Rightarrow> 'w world \<Rightarrow> string option \<times> 'w world" where
  "clean_background_terminals env io s = io_ask env io OpCleanBackgroundTerminals s"

definition next_event :: "'w io_env \<Rightarrow> session_io \<Rightarrow> 'w world \<Rightarrow> (string, string \<times> event_msg) result \<times> 'w world" where
  "next_event env io s =
     (case ie_event env (io_handle io) s of
        (Inl e, s1) \<Rightarrow> (Inl e, s1)
      | (Inr None, s1) \<Rightarrow> (Inl stopped_text, s1)
      | (Inr (Some ev), s1) \<Rightarrow> (Inr ev, s1))"

text \<open>Stopping: only the first call submits, and every call waits for the end of the loop.\<close>

definition io_shutdown :: "'w io_env \<Rightarrow> session_io \<Rightarrow> 'w world \<Rightarrow> string option \<times> session_io \<times> 'w world" where
  "io_shutdown env io s =
     (let (submitted, s1) = (if io_shut io then (None, s) else io_send env io OpShutdown s);
          io' = io\<lparr>io_shut := True\<rparr>
      in if submitted \<noteq> None \<and> submitted \<noteq> Some stopped_text then (submitted, io', s1)
         else (case ie_done env (io_handle io) s1 of (e, s2) \<Rightarrow> (e, io', s2)))"

subsection \<open>Starting\<close>

definition start_session :: "'w io_env \<Rightarrow> string \<Rightarrow> string \<Rightarrow> string \<Rightarrow> 'w world \<Rightarrow> (new_session_error, session_io) result \<times> 'w world" where
  "start_session env workspace rollout extension_root s =
     (case SessionExt.new_session (ie_session env) (ie_now_text env (snd s)) workspace rollout extension_root s of
        (Inl e, s1) \<Rightarrow> (Inl e, s1)
      | (Inr parts, s1) \<Rightarrow> (case ie_spawn env parts s1 of (k, s2) \<Rightarrow> (Inr \<lparr>io_handle = k, io_shut = False\<rparr>, s2)))"

definition new_in_workspace_with_rollout :: "'w io_env \<Rightarrow> string \<Rightarrow> string \<Rightarrow> 'w world \<Rightarrow> (new_session_error, session_io) result \<times> 'w world" where
  "new_in_workspace_with_rollout env workspace rollout s = start_session env workspace rollout workspace s"

definition new_in_workspace :: "'w io_env \<Rightarrow> string \<Rightarrow> 'w world \<Rightarrow> (new_session_error, session_io) result \<times> 'w world" where
  "new_in_workspace env workspace s = new_in_workspace_with_rollout env workspace [] s"

subsection \<open>One prompt from the command line: \<open>runPrompt\<close> of main.go\<close>

text \<open>
  The events of the turn are read until it ends, \<open>n\<close> of them at most: \<open>None\<close> means that the call is still waiting. The result is what
  is printed and the error. \<open>Shutdown\<close> is deferred.
\<close>

primrec prompt_events :: "'w io_env \<Rightarrow> session_io \<Rightarrow> string \<Rightarrow> nat \<Rightarrow> string \<Rightarrow> 'w world \<Rightarrow> ((string \<times> string option) \<times> 'w world) option" where
  "prompt_events env io turn 0 out s = None"
| "prompt_events env io turn (Suc n) out s =
     (case next_event env io s of
        (Inl e, s1) \<Rightarrow> Some ((out, Some e), s1)
      | (Inr (i, m), s1) \<Rightarrow>
          if i \<noteq> turn then prompt_events env io turn n out s1
          else (case m of
              AgentMessageContentDelta t delta \<Rightarrow> prompt_events env io turn n (out @ delta) s1
            | TurnComplete c \<Rightarrow> Some ((out @ [newline], tc_error c), s1)
            | TurnAborted a \<Rightarrow> Some ((out, Some (''turn aborted: '' @ ta_reason a)), s1)
            | _ \<Rightarrow> prompt_events env io turn n out s1))"

definition run_prompt :: "'w io_env \<Rightarrow> string \<Rightarrow> nat \<Rightarrow> string \<Rightarrow> 'w world \<Rightarrow>
    ((new_session_error, string \<times> string option) result \<times> 'w world) option" where
  "run_prompt env wd n prompt s =
     (case new_in_workspace env wd s of
        (Inl e, s1) \<Rightarrow> Some (Inl e, s1)
      | (Inr io, s1) \<Rightarrow>
        (case (case submit_turn_input env io prompt s1 of
                 (Inl e, s2) \<Rightarrow> Some (([], Some e), s2)
               | (Inr turn, s2) \<Rightarrow> prompt_events env io turn n [] s2) of
           None \<Rightarrow> None
         | Some (r, s3) \<Rightarrow> Some (Inr r, snd (snd (io_shutdown env io s3)))))"

subsection \<open>Waiting for the wrong turn\<close>

text \<open>What input submitted while a turn runs becomes: input of that turn, under whose identifier all further events are sent.\<close>

lemma input_joins_active_turn:
  assumes "ss_active s = Some k" "validate_turn_input input" "rk_accepting_input k"
  shows "fst (handle_turn_input i [input] [] s) = Steered (rk_turn_id k) \<and>
    ss_events (snd (handle_turn_input i [input] [] s)) = ss_events s"
  using assms by (simp add: handle_turn_input_def rk_enqueue_def)

end
