(* ===== verification/Plugins.thy ===== *)
theory Plugins
  imports Extensions
begin

section \<open>Installing plugins: internal/extensions/marketplace.go\<close>

text \<open>
  Marketplaces list plugins; installing copies the tree of a plugin into the workspace and enables it, uninstalling
  removes it. Also the laws of the settings file of Extensions. \<open>filepath.Walk\<close> recurses along directories that
  it may be changing itself, so \<open>copy_walk\<close> carries fuel; \<open>tree_depth\<close> bounds it wherever the destination is not
  below the source.
\<close>

record marketplace_entry =
  me_name :: string
  me_path :: string
  me_category :: string
  me_installed :: bool
  me_marketplace :: string

record marketplace =
  mk_name :: string
  mk_display_name :: string
  mk_path :: string
  mk_plugins :: "marketplace_entry list"

definition marketplace_roots :: "ext_env \<Rightarrow> string \<Rightarrow> string list" where
  "marketplace_roots xe workspace =
     [join_path [workspace, ''.agents'', ''plugins'', ''marketplace.json'']] @
     (case xe_home xe of None \<Rightarrow> [] | Some home \<Rightarrow> [join_path [home, ''.agents'', ''plugins'', ''marketplace.json'']])"

text \<open>The documents as decoded; an object given twice is decoded over the first.\<close>

record raw_entry =
  re_name :: string
  re_category :: string
  re_source_path :: string

definition dec_source :: "json \<Rightarrow> string \<Rightarrow> string option" where
  "dec_source v old =
     (case v of
        JNull \<Rightarrow> Some old
      | JObj _ \<Rightarrow> do { _ \<leftarrow> string_field ''source'' v; json_field dec_string ''path'' old v }
      | _ \<Rightarrow> None)"

definition raw_entry_of_json :: "json \<Rightarrow> raw_entry option" where
  "raw_entry_of_json v = do {
     n \<leftarrow> string_field ''name'' v; c \<leftarrow> string_field ''category'' v; p \<leftarrow> json_field dec_source ''source'' [] v;
     Some \<lparr>re_name = n, re_category = c, re_source_path = p\<rparr> }"

definition dec_interface :: "json \<Rightarrow> string \<Rightarrow> string option" where
  "dec_interface v old =
     (case v of
        JNull \<Rightarrow> Some old
      | JObj _ \<Rightarrow> json_field dec_string ''displayName'' old v
      | _ \<Rightarrow> None)"

definition marketplace_of_json :: "json \<Rightarrow> (string \<times> string \<times> raw_entry list) option" where
  "marketplace_of_json v = do {
     n \<leftarrow> string_field ''name'' v; i \<leftarrow> json_field dec_interface ''interface'' [] v;
     ps \<leftarrow> json_field (dec_list raw_entry_of_json) ''plugins'' [] v;
     Some (n, i, ps) }"

definition marketplace_entry_of :: "string \<Rightarrow> string \<Rightarrow> string list \<Rightarrow> raw_entry \<Rightarrow> marketplace_entry" where
  "marketplace_entry_of root name installed entry =
     (let resolved = resolve_plugin_path root (re_source_path entry);
          plugin_path = (if resolved = [] then join_path [root, ''plugins'', re_name entry] else resolved)
      in \<lparr>me_name = re_name entry, me_path = plugin_path, me_category = re_category entry,
          me_installed = (re_name entry \<in> set installed), me_marketplace = name\<rparr>)"

definition load_marketplace_file :: "ext_env \<Rightarrow> fs \<Rightarrow> string list \<Rightarrow> string \<Rightarrow> (ext_error, marketplace) result" where
  "load_marketplace_file xe d installed path =
     (case read_text d path of
        Inl e \<Rightarrow> Inl (ReadFailed e)
      | Inr text \<Rightarrow>
        (case Option.bind (xe_parse xe text) marketplace_of_json of
           None \<Rightarrow> Inl (DecodeMarketplace path)
         | Some (raw_name, display, entries) \<Rightarrow>
             (let root = dir_name path; name = (if raw_name = [] then base_name root else raw_name)
              in Inr \<lparr>mk_name = name, mk_display_name = display, mk_path = path,
                   mk_plugins = map (marketplace_entry_of root name installed) entries\<rparr>)))"

fun load_marketplace_files :: "ext_env \<Rightarrow> fs \<Rightarrow> string list \<Rightarrow> string list \<Rightarrow> (ext_error, marketplace list) result" where
  "load_marketplace_files xe d installed [] = Inr []"
| "load_marketplace_files xe d installed (path # paths) =
     (case load_marketplace_file xe d installed path of
        Inl e \<Rightarrow> if e = ReadFailed NotExist then load_marketplace_files xe d installed paths else Inl e
      | Inr m \<Rightarrow> (case load_marketplace_files xe d installed paths of Inl e \<Rightarrow> Inl e | Inr ms \<Rightarrow> Inr (m # ms)))"

definition load_marketplaces :: "ext_env \<Rightarrow> fs \<Rightarrow> string \<Rightarrow> (ext_error, marketplace list) result" where
  "load_marketplaces xe d workspace =
     (case load_catalog xe d workspace of
        (_, Some e) \<Rightarrow> Inl e
      | (ct, None) \<Rightarrow> load_marketplace_files xe d (map pl_name (ct_plugins ct)) (marketplace_roots xe workspace))"

subsection \<open>Copying a tree\<close>

text \<open>Steps that may fail or run out of fuel, with the file system they leave.\<close>

type_synonym copy_result = "(os_error option \<times> fs) option"

fun each :: "('a \<Rightarrow> fs \<Rightarrow> copy_result) \<Rightarrow> 'a list \<Rightarrow> fs \<Rightarrow> copy_result" where
  "each f [] d = Some (None, d)"
| "each f (x # xs) d =
     (case f x d of
        Some (None, d') \<Rightarrow> each f xs d'
      | r \<Rightarrow> r)"

definition copy_file :: "apath \<Rightarrow> apath \<Rightarrow> fs \<Rightarrow> os_error option \<times> fs" where
  "copy_file path target d =
     (case read_file d path of
        Inl e \<Rightarrow> (Some e, d)
      | Inr data \<Rightarrow>
        (case mkdir_all (parent target) d of
           Inl e \<Rightarrow> (Some e, d)
         | Inr d1 \<Rightarrow> (case write_file target data d1 of Inl e \<Rightarrow> (Some e, d1) | Inr d2 \<Rightarrow> (None, d2))))"

text \<open>
  \<open>filepath.Walk\<close> with the function of \<open>copyTree\<close>: \<open>r\<close> are the segments of the path below the source. The names of
  a directory are read before the function runs on it.
\<close>

primrec copy_walk :: "nat \<Rightarrow> apath \<Rightarrow> apath \<Rightarrow> string list \<Rightarrow> fs \<Rightarrow> copy_result" where
  "copy_walk 0 source destination r d = None"
| "copy_walk (Suc n) source destination r d =
     (let path = below source r; target = below destination r
      in case stat d path of
           Inl e \<Rightarrow> Some (Some e, d)
         | Inr (File _) \<Rightarrow> Some (copy_file path target d)
         | Inr Dir \<Rightarrow>
             (let names = child_names d path in
              case mkdir_all target d of
                Inl e \<Rightarrow> Some (Some e, d)
              | Inr d1 \<Rightarrow> each (\<lambda>name. copy_walk n source destination (r @ [name])) names d1))"

definition tree_depth :: "fs \<Rightarrow> nat" where
  "tree_depth d = Suc (foldr (\<lambda>(p, _). max (length (apath_segs p))) d 0)"

definition copy_tree :: "nat \<Rightarrow> apath \<Rightarrow> apath \<Rightarrow> fs \<Rightarrow> copy_result" where
  "copy_tree fuel source destination d = copy_walk fuel source destination [] d"

definition removed :: "apath \<Rightarrow> fs \<Rightarrow> fs" where
  "removed p d = (case remove_all p d of Inl _ \<Rightarrow> d | Inr d' \<Rightarrow> d')"

text \<open>\<open>None\<close> when the copy does not return within the fuel.\<close>

definition install_plugin :: "ext_env \<Rightarrow> nat \<Rightarrow> string \<Rightarrow> string \<Rightarrow> fs \<Rightarrow> ((ext_error, plugin) result \<times> fs) option" where
  "install_plugin xe fuel workspace source_path d =
     (let source = abs_path (xe_wd xe) source_path;
          manifest = join_path [source, ''.codex-plugin'', ''plugin.json'']
      in case read_text d manifest of
           Inl e \<Rightarrow> Some (Inl (ReadManifest e), d)
         | Inr text \<Rightarrow>
           (case Option.bind (xe_parse xe text) (string_field ''name'') of
              None \<Rightarrow> Some (Inl NameRequired, d)
            | Some name \<Rightarrow>
              if name = [] then Some (Inl NameRequired, d)
              else (let destination = join_path [workspace, ''.agents'', ''plugins'', name] in
                case stat d (apath_of destination) of
                  Inr _ \<Rightarrow> Some (Inl (AlreadyInstalled name), d)
                | Inl _ \<Rightarrow>
                  (case copy_tree fuel (apath_of source) (apath_of destination) d of
                     None \<Rightarrow> None
                   | Some (Some e, d1) \<Rightarrow> Some (Inl (WriteFailed e), removed (apath_of destination) d1)
                   | Some (None, d1) \<Rightarrow>
                     (case set_plugin_enabled xe workspace name True d1 of
                        (Some e, d2) \<Rightarrow> Some (Inl e, d2)
                      | (None, d2) \<Rightarrow>
                        (case load_catalog xe d2 workspace of
                           (_, Some e) \<Rightarrow> Some (Inl e, d2)
                         | (ct, None) \<Rightarrow>
                             Some (Inr (case find (\<lambda>p. pl_name p = name) (ct_plugins ct) of
                                 Some p \<Rightarrow> p
                               | None \<Rightarrow> \<lparr>pl_name = name, pl_version = [], pl_description = [], pl_path = destination,
                                   pl_enabled = True, pl_installed = True, pl_source = ''marketplace'',
                                   pl_hooks = [], pl_apps = [], pl_commands = [], pl_agents = []\<rparr>), d2)))))))"

definition uninstall_plugin :: "ext_env \<Rightarrow> string \<Rightarrow> string \<Rightarrow> fs \<Rightarrow> ext_error option \<times> fs" where
  "uninstall_plugin xe workspace name d =
     (if trim_space name = [] then (Some PluginNameRequired, d)
      else case load_catalog xe d workspace of
        (_, Some e) \<Rightarrow> (Some e, d)
      | (ct, None) \<Rightarrow>
        (case find (\<lambda>p. pl_name p = name) (ct_plugins ct) of
           None \<Rightarrow> (Some (UnknownPlugin name), d)
         | Some target \<Rightarrow>
           (case rel (join_path [workspace, ''.agents'', ''plugins'']) (pl_path target) of
              None \<Rightarrow> (Some (NotInstalled name), d)
            | Some r \<Rightarrow>
              if prefix ''..'' r then (Some (NotInstalled name), d)
              else (case remove_all (apath_of (pl_path target)) d of
                  Inl e \<Rightarrow> (Some (WriteFailed e), d)
                | Inr d1 \<Rightarrow> set_plugin_enabled xe workspace name True d1))))"

subsection \<open>Copying terminates and copies\<close>

lemma mkdir_list_ok:
  "\<forall>a \<in> set as. \<forall>c. node_at d a \<noteq> Some (File c) \<Longrightarrow> \<exists>d'. mkdir_list as d = Inr d'"
  by (induction as arbitrary: d) (auto simp: update_conv' split: option.splits node.splits)

lemma mkdir_all_ok:
  "(\<And>a c. a \<le> p \<Longrightarrow> node_at d a \<noteq> Some (File c)) \<Longrightarrow> \<exists>d'. mkdir_all p d = Inr d'"
  unfolding mkdir_all_def by (rule mkdir_list_ok) (auto simp: ancestors_iff dest: order_less_imp_le)

lemma less_iff_parent: "p \<noteq> APath [] \<Longrightarrow> q < p \<longleftrightarrow> q \<le> parent p"
  using ancestors_parent [of p] by (auto simp: ancestors_iff [symmetric] order_le_less)

text \<open>
  The state of a copy of the tree at \<open>s\<close> in \<open>d\<close> to the fresh path \<open>t\<close> when exactly the nodes \<open>S\<close> have been copied.
\<close>

definition copied :: "fs \<Rightarrow> apath \<Rightarrow> apath \<Rightarrow> string list set \<Rightarrow> fs \<Rightarrow> bool" where
  "copied d s t S d' \<longleftrightarrow>
     (\<forall>r. node_at d' (below t r) = (if r \<in> S then node_at d (below s r) else None)) \<and>
     (\<forall>q. \<not> t \<le> q \<longrightarrow> node_at d' q = (if q < t \<and> S \<noteq> {} \<and> node_at d q = None then Some Dir else node_at d q))"

definition copyable :: "fs \<Rightarrow> apath \<Rightarrow> apath \<Rightarrow> bool" where
  "copyable d s t \<longleftrightarrow> fs_ok d \<and> \<not> s \<le> t \<and> node_at d s \<noteq> None \<and> stat d t = Inl NotExist"

lemma blocked_in_first:
  "blocked_in d as = Some NotExist \<Longrightarrow> \<exists>i < length as. node_at d (as ! i) = None \<and> (\<forall>j < i. node_at d (as ! j) = Some Dir)"
proof (induction as)
  case (Cons a as)
  then consider "node_at d a = None" | "node_at d a = Some Dir" "blocked_in d as = Some NotExist"
    by (auto split: option.splits node.splits)
  then show ?case
  proof cases
    case 2
    with Cons.IH obtain i where "i < length as" "node_at d (as ! i) = None" "\<forall>j < i. node_at d (as ! j) = Some Dir" by blast
    with 2(1) show ?thesis by (intro exI [of _ "Suc i"]) (auto simp: nth_Cons split: nat.splits)
  qed (intro exI [of _ 0], simp)
qed simp

lemma not_exist_path:
  assumes "fs_ok d" "stat d t = Inl NotExist" "a \<le> t"
  shows "node_at d a \<noteq> Some (File c)"
proof
  assume isfile: "node_at d a = Some (File c)"
  from assms(2) consider "blocked d t = None" "node_at d t = None" | "blocked d t = Some NotExist"
    by (auto simp: stat_def split: option.splits)
  then show False
  proof cases
    case 1
    with isfile assms(3) show False by (auto simp: blocked_None ancestors_iff order_le_less)
  next
    case 2
    then obtain i where i: "i < length (apath_segs t)" "node_at d (APath (take i (apath_segs t))) = None"
        "\<forall>j < i. node_at d (APath (take j (apath_segs t))) = Some Dir"
      using blocked_in_first [of d "ancestors t"] by (auto simp: blocked_def ancestors_def)
    from assms(3) obtain k where k: "a = APath (take k (apath_segs t))" "k \<le> length (apath_segs t)"
      unfolding less_eq_apath_def by (cases a) (auto simp: prefix_def intro: that [of "length (apath_segs a)"])
    show False
    proof (cases "k \<le> i")
      case True
      with i k isfile show ?thesis by (cases "k = i") auto
    next
      case False
      then have "take k (apath_segs t) = take i (apath_segs t) @ drop i (take k (apath_segs t))"
        using append_take_drop_id [of i "take k (apath_segs t)"] by (simp add: min_def)
      moreover have "length (take i (apath_segs t)) < length (take k (apath_segs t))" using False k(2) by simp
      ultimately have "APath (take i (apath_segs t)) < a"
        unfolding k(1) less_apath_def strict_prefix_def by (metis apath.sel less_irrefl prefixI)
      with assms(1) isfile i(2) show False unfolding fs_ok_def ancestors_iff by force
    qed
  qed
qed

lemma fs_ok_below: "fs_ok d \<Longrightarrow> node_at d q \<noteq> None \<Longrightarrow> a < q \<Longrightarrow> node_at d a = Some Dir"
  unfolding fs_ok_def ancestors_iff by blast

lemma fs_ok_stat: "fs_ok d \<Longrightarrow> node_at d p = Some x \<Longrightarrow> stat d p = Inr x"
  using fs_ok_below [of d p] by (auto simp: stat_def ancestors_iff blocked_None split: option.splits dest!: iffD2 [OF blocked_None])

lemma copied_outside: "copied d s t S d' \<Longrightarrow> \<not> t \<le> q \<Longrightarrow> node_at d q \<noteq> None \<Longrightarrow> node_at d' q = node_at d q"
  by (auto simp: copied_def)

text \<open>One node more: what a directory or a file of the walk does to the state.\<close>

lemma copied_insert:
  assumes "copied d s t S d0" "node_at d (below s r) = Some x" "fs_ok d" "\<And>q. strict_prefix q r \<Longrightarrow> q \<in> S"
    and step: "\<And>q. node_at d' q = (if q = below t r then Some x else if q < below t r \<and> node_at d0 q = None then Some Dir else node_at d0 q)"
  shows "copied d s t (insert r S) d'"
  unfolding copied_def
proof (intro conjI allI impI)
  fix r'
  have "node_at d' (below t r') = node_at d0 (below t r')" if "r' \<noteq> r"
  proof (cases "strict_prefix r' r")
    case True
    then have "r' \<in> S" "node_at d (below s r') = Some Dir"
      using assms(2,3,4) fs_ok_below [of d "below s r" "below s r'"] by auto
    then have "node_at d0 (below t r') = Some Dir" using assms(1) by (auto simp: copied_def)
    with step that show ?thesis by auto
  qed (use step that in auto)
  moreover have "node_at d0 (below t r') = (if r' \<in> S then node_at d (below s r') else None)"
    using assms(1) by (simp add: copied_def)
  moreover have "node_at d' (below t r) = node_at d (below s r)" using assms(2) by (simp add: step)
  ultimately show "node_at d' (below t r') = (if r' \<in> insert r S then node_at d (below s r') else None)"
    by (cases "r' = r") simp_all
next
  fix q assume q: "\<not> t \<le> q"
  then have "q \<noteq> below t r" "q < below t r \<longleftrightarrow> q < t"
    using apath_total [of q "below t r" t] below_le [of t r]
    by (auto intro: order_less_le_trans simp: order_less_imp_le order_le_neq_trans)
  moreover have "S = {} \<Longrightarrow> r = []" using assms(4) [of "[]"] by (auto simp: strict_prefix_def)
  moreover have "node_at d0 q = (if q < t \<and> S \<noteq> {} \<and> node_at d q = None then Some Dir else node_at d q)"
    using assms(1) q by (simp add: copied_def)
  ultimately show "node_at d' q = (if q < t \<and> insert r S \<noteq> {} \<and> node_at d q = None then Some Dir else node_at d q)"
    using step by auto
qed

lemma copied_absent:
  assumes "copied d s t S d'" "S \<noteq> {}" "\<And>r. r \<in> T \<Longrightarrow> r \<notin> S \<Longrightarrow> node_at d (below s r) = None"
  shows "copied d s t (S \<union> T) d'"
  using assms unfolding copied_def by auto

lemma copyable_fresh:
  assumes "copyable d s t"
  shows "node_at d (below t r) = None" "\<not> t \<le> below s r" "\<not> s \<le> t" "fs_ok d" "a \<le> t \<Longrightarrow> node_at d a \<noteq> Some (File c)"
proof -
  have c: "fs_ok d" "\<not> s \<le> t" "node_at d s \<noteq> None" "stat d t = Inl NotExist" using assms by (auto simp: copyable_def)
  show "\<not> s \<le> t" "fs_ok d" using c by auto
  show "a \<le> t \<Longrightarrow> node_at d a \<noteq> Some (File c)" by (rule not_exist_path [OF c(1,4)])
  have none: "node_at d t = None" using c(4) fs_ok_stat [OF c(1), of t] by (cases "node_at d t") auto
  then have all: "node_at d q = None" if "t \<le> q" for q
    using that none fs_ok_below [OF c(1), of q t] by (cases "node_at d q") (auto simp: order_le_less)
  then show "node_at d (below t r) = None" by simp
  show "\<not> t \<le> below s r"
  proof
    assume "t \<le> below s r"
    with c(2) have "t \<le> s" using apath_total [of t "below s r" s] by auto
    then show False using all [of s] c(3) by simp
  qed
qed

lemma copied_start: "copyable d s t \<Longrightarrow> copied d s t {} d"
  by (simp add: copied_def copyable_fresh(1))

lemma tree_depth_gt: "node_at d p \<noteq> None \<Longrightarrow> length (apath_segs p) < tree_depth d"
  by (induction d) (auto simp: tree_depth_def less_Suc_eq_le split: if_splits)

text \<open>The children of a copied directory, one after another.\<close>

lemma copied_each:
  assumes "copied d s t S d0" "distinct names" "\<And>q. prefix q r \<Longrightarrow> q \<in> S"
    and "\<And>n q. n \<in> set names \<Longrightarrow> q \<in> S \<Longrightarrow> \<not> prefix (r @ [n]) q"
    and step: "\<And>S d1 n. n \<in> set names \<Longrightarrow> copied d s t S d1 \<Longrightarrow> (\<And>q. prefix q r \<Longrightarrow> q \<in> S) \<Longrightarrow> (\<And>q. q \<in> S \<Longrightarrow> \<not> prefix (r @ [n]) q) \<Longrightarrow>
      \<exists>d'. f n d1 = Some (None, d') \<and> copied d s t (S \<union> {q. prefix (r @ [n]) q}) d'"
  shows "\<exists>d'. each f names d0 = Some (None, d') \<and> copied d s t (S \<union> {q. \<exists>n \<in> set names. prefix (r @ [n]) q}) d'"
  using assms
proof (induction names arbitrary: S d0)
  case (Cons n names)
  from Cons.prems(5) [of n S d0] Cons.prems(1,3,4)
  obtain d1 where d1: "f n d0 = Some (None, d1)" "copied d s t (S \<union> {q. prefix (r @ [n]) q}) d1" by auto
  have apart: "\<not> prefix (r @ [m]) q" if "m \<in> set names" "q \<in> S \<union> {q. prefix (r @ [n]) q}" for m q
  proof
    assume m: "prefix (r @ [m]) q"
    with that(1,2) Cons.prems(4) [of m q] have "prefix (r @ [n]) q" by auto
    with m have "m = n" by (auto simp: prefix_def)
    with Cons.prems(2) that(1) show False by simp
  qed
  have "\<exists>d'. each f names d1 = Some (None, d') \<and>
      copied d s t (S \<union> {q. prefix (r @ [n]) q} \<union> {q. \<exists>n \<in> set names. prefix (r @ [n]) q}) d'"
    by (rule Cons.IH) (use d1(2) Cons.prems apart in auto)
  moreover have "S \<union> {q. prefix (r @ [n]) q} \<union> {q. \<exists>n \<in> set names. prefix (r @ [n]) q} =
      S \<union> {q. \<exists>n \<in> set (n # names). prefix (r @ [n]) q}" by auto
  ultimately show ?case using d1(1) by simp
qed simp

lemma copied_walk:
  assumes "copyable d s t"
  shows "copied d s t S d0 \<Longrightarrow> node_at d (below s r) \<noteq> None \<Longrightarrow> (\<And>q. strict_prefix q r \<Longrightarrow> q \<in> S) \<Longrightarrow>
    (\<And>q. q \<in> S \<Longrightarrow> \<not> prefix r q) \<Longrightarrow> tree_depth d \<le> n + length (apath_segs s) + length r \<Longrightarrow>
    \<exists>d'. copy_walk n s t r d0 = Some (None, d') \<and> copied d s t (S \<union> {q. prefix r q}) d'"
proof (induction n arbitrary: S d0 r)
  case 0
  then show ?case using tree_depth_gt [of d "below s r"] by (simp add: below_def)
next
  case (Suc n)
  note fresh = copyable_fresh [OF assms]
  from Suc.prems(2) obtain x where x: "node_at d (below s r) = Some x" by blast
  have dirs: "node_at d0 a = Some Dir" if "a < below s r" for a
  proof -
    have "\<not> t \<le> a" using that fresh(2) [of r] by (meson order.trans order_less_imp_le)
    with copied_outside [OF Suc.prems(1)] fs_ok_below [OF fresh(4) Suc.prems(2) that] show ?thesis by simp
  qed
  have x0: "node_at d0 (below s r) = Some x" using copied_outside [OF Suc.prems(1) fresh(2) Suc.prems(2)] x by simp
  with dirs have st: "stat d0 (below s r) = Inr x" "blocked d0 (below s r) = None"
    by (auto simp: stat_def blocked_None ancestors_iff split: option.splits dest!: blocked_in_first [unfolded ancestors_def])
  have none: "node_at d0 (below t r) = None" using Suc.prems(1,4) by (auto simp: copied_def)
  have mkdir: "\<exists>d1. mkdir_all p d0 = Inr d1" if "p \<le> below t r" "x = Dir \<or> p \<noteq> below t r" for p
  proof (rule mkdir_all_ok)
    fix a c assume a: "a \<le> p"
    show "node_at d0 a \<noteq> Some (File c)"
    proof (cases "t \<le> a")
      case True
      then obtain q where q: "a = below t q" by (rule le_belowE)
      with a that(1) have "prefix q r" by (metis below_mono order.trans)
      with Suc.prems(1) fs_ok_below [OF fresh(4) Suc.prems(2), of "below s q"] x a that q none show ?thesis
        by (cases "q = r") (auto simp: copied_def strict_prefix_def)
    next
      case False
      with a that(1) have "a \<le> t" using apath_total [of a "below t r" t] by auto
      with Suc.prems(1) False fresh(5) show ?thesis by (auto simp: copied_def)
    qed
  qed
  have grown: "copied d s t (insert r S) d'"
    if "\<And>q. node_at d' q = (if q = below t r then Some x else if q < below t r \<and> node_at d0 q = None then Some Dir else node_at d0 q)" for d'
    using Suc.prems(1) x fresh(4) Suc.prems(3) that by (rule copied_insert)
  have whole: "S \<union> {q. prefix r q} = insert r S \<union> {q. prefix r q}" by auto
  show ?case
  proof (cases x)
    case (File c)
    have root: "below t r \<noteq> APath []" using fresh(2) [of "[]"] by (auto simp: below_def less_eq_apath_def)
    obtain d1 where d1: "mkdir_all (parent (below t r)) d0 = Inr d1"
      using mkdir [of "parent (below t r)"] less_iff_parent [OF root] by (metis order_less_imp_le order_less_irrefl order_refl)
    have d1q: "node_at d1 q = (if q < below t r \<and> node_at d0 q = None then Some Dir else node_at d0 q)" for q
      using mkdir_all_frame_le [OF d1, of q] less_iff_parent [OF root, of q] by simp
    let ?d2 = "AList.update (below t r) (File c) d1"
    have "copy_file (below s r) (below t r) d0 = (None, ?d2)"
      using st x0 d1 none d1q [of "below t r"] write_after_mkdir [OF root d1, of c] File by (simp add: copy_file_def read_file_def)
    moreover have "copied d s t (insert r S \<union> {q. prefix r q}) ?d2"
    proof (rule copied_absent)
      show "copied d s t (insert r S) ?d2" by (rule grown) (simp add: update_conv' d1q File)
      fix q assume "q \<in> {q. prefix r q}" "q \<notin> insert r S"
      then have "below s r < below s q" by (auto simp: strict_prefix_def)
      then show "node_at d (below s q) = None"
        using fs_ok_below [OF fresh(4), of "below s q" "below s r"] x File by (cases "node_at d (below s q)") auto
    qed simp
    ultimately show ?thesis using st File unfolding whole by simp
  next
    case Dir
    obtain d1 where d1: "mkdir_all (below t r) d0 = Inr d1" using mkdir [of "below t r"] Dir by auto
    have c1: "copied d s t (insert r S) d1"
      by (rule grown) (use mkdir_all_frame_le [OF d1] none Dir in \<open>auto simp: order_le_less\<close>)
    let ?names = "child_names d0 (below s r)"
    have exists: "m \<in> set ?names \<longleftrightarrow> node_at d (below s (r @ [m])) \<noteq> None" for m
    proof -
      have "\<not> below s (r @ [m]) < t" using fresh(3) below_le [of s "r @ [m]"] by (meson order.trans order_less_imp_le)
      then show ?thesis using Suc.prems(1) fresh(2) by (simp add: child_names_iff below_child copied_def)
    qed
    have "\<exists>d'. each (\<lambda>name. copy_walk n s t (r @ [name])) ?names d1 = Some (None, d') \<and>
        copied d s t (insert r S \<union> {q. \<exists>m \<in> set ?names. prefix (r @ [m]) q}) d'"
    proof (rule copied_each [OF c1 child_names_distinct])
      show "q \<in> insert r S" if "prefix q r" for q using that Suc.prems(3) by (auto simp: strict_prefix_def)
      show "\<not> prefix (r @ [m]) q" if "q \<in> insert r S" for m q using that Suc.prems(4) by (auto simp: prefix_def)
      fix S' d2 m
      assume "m \<in> set ?names" "copied d s t S' d2" "\<And>q. prefix q r \<Longrightarrow> q \<in> S'" "\<And>q. q \<in> S' \<Longrightarrow> \<not> prefix (r @ [m]) q"
      with Suc.prems(5) exists show "\<exists>d'. copy_walk n s t (r @ [m]) d2 = Some (None, d') \<and> copied d s t (S' \<union> {q. prefix (r @ [m]) q}) d'"
        by (intro Suc.IH) (auto simp: strict_prefix_def)
    qed
    then obtain d' where d': "each (\<lambda>name. copy_walk n s t (r @ [name])) ?names d1 = Some (None, d')"
        "copied d s t (insert r S \<union> {q. \<exists>m \<in> set ?names. prefix (r @ [m]) q}) d'" by blast
    have "copied d s t (insert r S \<union> {q. \<exists>m \<in> set ?names. prefix (r @ [m]) q} \<union> {q. prefix r q}) d'"
    proof (rule copied_absent [OF d'(2)])
      fix q assume q: "q \<in> {q. prefix r q}" "q \<notin> insert r S \<union> {q. \<exists>m \<in> set ?names. prefix (r @ [m]) q}"
      then obtain m q' where "q = (r @ [m]) @ q'" by (auto simp: prefix_def) (metis append_Nil2 list.exhaust)
      with q(2) have "m \<notin> set ?names" "below s (r @ [m]) \<le> below s q" by auto
      then show "node_at d (below s q) = None"
        using exists [of m] fs_ok_below [OF fresh(4), of "below s q" "below s (r @ [m])"]
        by (cases "node_at d (below s q)") (auto simp: order_le_less)
    qed simp
    moreover have "insert r S \<union> {q. \<exists>m \<in> set ?names. prefix (r @ [m]) q} \<union> {q. prefix r q} = S \<union> {q. prefix r q}"
      by (auto simp: prefix_def)
    ultimately show ?thesis using st Dir d1 d'(1) by simp
  qed
qed

text \<open>
  Property C23. Copying a plugin always comes to an end: when the destination is new and not inside the source, the walk
  returns without an error although it lists directories while it creates others; the destination then holds the
  tree of the source, and nothing else has changed but for the directories made above it.
\<close>

theorem copy_tree_returns_copy:
  assumes "fs_ok d" "stat d s = Inr x" "stat d t = Inl NotExist" "\<not> s \<le> t" "tree_depth d \<le> fuel"
  shows "\<exists>d'. copy_tree fuel s t d = Some (None, d') \<and>
    (\<forall>r. node_at d' (below t r) = node_at d (below s r)) \<and>
    (\<forall>q. \<not> t \<le> q \<longrightarrow> node_at d' q = (if q < t \<and> node_at d q = None then Some Dir else node_at d q))"
proof -
  from assms(2) have "node_at d s \<noteq> None" by (auto simp: stat_def split: option.splits)
  with assms have c: "copyable d s t" by (simp add: copyable_def)
  obtain d' where d': "copy_walk fuel s t [] d = Some (None, d')" "copied d s t ({} \<union> {q. prefix [] q}) d'"
    using copied_walk [OF c copied_start [OF c], of "[]" fuel] \<open>node_at d s \<noteq> None\<close> assms(5) by auto
  then show ?thesis by (auto simp: copy_tree_def copied_def)
qed

subsection \<open>Settings and removal\<close>

lemma settings_path_nonempty: "is_abs w \<Longrightarrow> settings_path w \<noteq> []"
  using join_path_below(2) [of w "[''.codex'', ''extensions.json'']"] by (auto simp: settings_path_def wf_seg_def is_abs_def)

lemma set_plugin_enabled_effect:
  assumes "set_plugin_enabled xe w name enabled d = (None, d')"
  shows "is_abs w \<Longrightarrow> read_text d' (settings_path w) = Inr (xe_render xe (settings_json (xe_order xe
      (let old = load_disabled_plugins xe d w in if enabled then filter (\<lambda>x. x \<noteq> name) old
       else if name \<in> set old then old else old @ [name]))) @ [newline])" (is "_ \<Longrightarrow> _ = Inr ?text")
    and "node_at d q \<noteq> None \<or> \<not> q \<le> apath_of (join_path [w, ''.codex'']) \<Longrightarrow>
      q \<notin> apath_of ` {settings_path w, join_path [join_path [w, ''.codex''], ''extensions.json.tmp'']} \<Longrightarrow>
      node_at d' q = node_at d q"
proof -
  let ?tmp = "apath_of (join_path [join_path [w, ''.codex''], ''extensions.json.tmp''])"
  from assms obtain d1 d2 where m: "mkdir_all (apath_of (join_path [w, ''.codex''])) d = Inr d1"
    and wr: "write_file ?tmp ?text d1 = Inr d2" and rn: "rename_file ?tmp (apath_of (settings_path w)) d2 = Inr d'"
    unfolding set_plugin_enabled_def by (auto simp: Let_def split: sum.splits)
  show "read_text d' (settings_path w) = Inr ?text" if "is_abs w"
    using that read_after_rename [OF rn read_after_write [OF wr]] settings_path_nonempty by (simp add: read_text_def)
  show "node_at d' q = node_at d q"
    if "node_at d q \<noteq> None \<or> \<not> q \<le> apath_of (join_path [w, ''.codex''])"
      "q \<notin> apath_of ` {settings_path w, join_path [join_path [w, ''.codex''], ''extensions.json.tmp'']}"
    using that rename_file_frame [OF rn, of q] write_file_frame [OF wr, of q] mkdir_all_frame_le [OF m, of q] by auto
qed

lemma disabled_of_settings [simp]: "disabled_of_json (settings_json ns) = ns"
  by (simp add: disabled_of_json_def settings_json_def lenient_strings_def comp_def)

text \<open>
  Property C25. Enabling or disabling a plugin takes effect for every later load: the set of disabled names read back from the
  settings is the old one without, or with, the name, whatever order the names were written in, and no
  file but the settings file and its temporary copy has changed.
\<close>

theorem plugin_setting_persists:
  assumes "set_plugin_enabled xe w name enabled d = (None, d')"
    and "is_abs w" and "\<And>ns. set (xe_order xe ns) = set ns"
    and "\<And>ns. set ns \<subseteq> insert name (set (load_disabled_plugins xe d w)) \<Longrightarrow>
      xe_parse xe (xe_render xe (settings_json ns) @ [newline]) = Some (settings_json ns)"
  shows "set (load_disabled_plugins xe d' w) =
      (if enabled then set (load_disabled_plugins xe d w) - {name} else insert name (set (load_disabled_plugins xe d w))) \<and>
    (\<forall>q. node_at d q \<noteq> None \<longrightarrow>
       q \<notin> apath_of ` {settings_path w, join_path [join_path [w, ''.codex''], ''extensions.json.tmp'']} \<longrightarrow>
       node_at d' q = node_at d q)"
proof (intro conjI allI impI)
  let ?names = "let old = load_disabled_plugins xe d w in if enabled then filter (\<lambda>x. x \<noteq> name) old
       else if name \<in> set old then old else old @ [name]"
  have "set ?names = (if enabled then set (load_disabled_plugins xe d w) - {name} else insert name (set (load_disabled_plugins xe d w)))"
    by (auto simp: Let_def)
  moreover have "xe_parse xe (xe_render xe (settings_json (xe_order xe ?names)) @ [newline]) = Some (settings_json (xe_order xe ?names))"
    by (rule assms(4)) (use assms(3) [of ?names] in \<open>auto simp: Let_def split: if_splits\<close>)
  then have "set (load_disabled_plugins xe d' w) = set ?names"
    unfolding load_disabled_plugins_def [of xe d'] set_plugin_enabled_effect(1) [OF assms(1) assms(2)] by (simp add: assms(3))
  ultimately show "set (load_disabled_plugins xe d' w) =
      (if enabled then set (load_disabled_plugins xe d w) - {name} else insert name (set (load_disabled_plugins xe d w)))" by simp
qed (rule set_plugin_enabled_effect(2) [OF assms(1)], simp_all)

lemma dropWhile_snoc: "\<not> P c \<Longrightarrow> \<exists>ys. dropWhile P (xs @ [c]) = ys @ [c]"
  by (induction xs) auto

lemma is_abs_dir_name [simp]: "is_abs p \<Longrightarrow> is_abs (dir_name p)"
proof -
  assume "is_abs p"
  then obtain t where p: "p = CHR ''/'' # t" by (auto simp: is_abs_def prefix_def)
  obtain ys where "dropWhile (\<lambda>c. c \<noteq> CHR ''/'') (rev t @ [CHR ''/'']) = ys @ [CHR ''/'']"
    using dropWhile_snoc [of "\<lambda>c. c \<noteq> CHR ''/''"] by blast
  then show ?thesis by (simp add: dir_name_def p)
qed

lemma load_plugin_paths:
  assumes "load_plugin xe d w disabled m ct = Inr ct'" "is_abs m" "\<forall>p \<in> set (ct_plugins ct). is_abs (pl_path p)"
  shows "\<forall>p \<in> set (ct_plugins ct'). is_abs (pl_path p)"
proof -
  have "is_abs (dir_name (dir_name m))" using assms(2) by simp
  then show ?thesis using assms(1,3)
    by (auto simp: load_plugin_def Let_def plugin_of_def dest!: load_plugin_parts_rest(1) split: sum.splits option.splits if_splits)
qed

lemma load_plugins_paths:
  "load_plugins xe d w disabled ms ct = Inr ct' \<Longrightarrow> \<forall>m \<in> set ms. is_abs m \<Longrightarrow> \<forall>p \<in> set (ct_plugins ct). is_abs (pl_path p) \<Longrightarrow>
    \<forall>p \<in> set (ct_plugins ct'). is_abs (pl_path p)"
proof (induction ms arbitrary: ct)
  case (Cons m ms)
  from Cons.prems(1) obtain ct1 where ct1: "load_plugin xe d w disabled m ct = Inr ct1"
    "load_plugins xe d w disabled ms ct1 = Inr ct'" by (auto split: sum.splits)
  from load_plugin_paths [OF ct1(1)] Cons.prems(2,3) have "\<forall>p \<in> set (ct_plugins ct1). is_abs (pl_path p)" by simp
  with Cons.IH [OF ct1(2)] Cons.prems(2) show ?case by simp
qed simp

lemma load_catalog_paths:
  assumes "load_catalog xe d w = (ct, None)" "p \<in> set (ct_plugins ct)"
  shows "is_abs (pl_path p)"
proof -
  from assms(1) obtain ct3 where three: "load_mcp_file xe d (join_path [w, ''.mcp.json''])
      (load_skills d (join_path [w, ''.agents'', ''skills'']) [] (load_skills d (join_path [w, ''.codex'', ''skills'']) [] empty_catalog)) = Inr ct3"
    and ps: "load_plugins xe d w (load_disabled_plugins xe d w) (plugin_manifests d w) (set_working_directory 0 w ct3) = Inr ct"
    by (auto simp: load_catalog_def Let_def split: sum.splits prod.splits)
  have "\<forall>m \<in> set (plugin_manifests d w). is_abs m" by (auto simp: plugin_manifests_def path_text_def)
  moreover have "ct_plugins (set_working_directory 0 w ct3) = []"
    using load_mcp_file_rest [OF three] by (simp add: set_working_directory_def empty_catalog_def)
  ultimately show ?thesis using load_plugins_paths [OF ps] assms(2) by simp
qed

text \<open>
  Property C24. Uninstalling a plugin removes the plugin and nothing else: when it succeeds, a listed plugin of that name had its
  directory under the workspace's own plugins, everything there is gone, and every other path is as before but
  for the settings file, its temporary copy and the directories above them.
\<close>

theorem uninstall_confined:
  assumes "uninstall_plugin xe w name d = (None, d')" "is_abs w" "fs_ok d"
  shows "\<exists>p \<in> set (ct_plugins (fst (load_catalog xe d w))). pl_name p = name \<and>
    apath_of (join_path [w, ''.agents'', ''plugins'']) \<le> apath_of (pl_path p) \<and>
    (\<forall>q. apath_of (pl_path p) \<le> q \<longrightarrow> node_at d' q = None) \<and>
    (\<forall>q. \<not> apath_of (pl_path p) \<le> q \<longrightarrow> node_at d q \<noteq> None \<or> \<not> q \<le> apath_of (join_path [w, ''.codex'']) \<longrightarrow>
       q \<notin> apath_of ` {settings_path w, join_path [join_path [w, ''.codex''], ''extensions.json.tmp'']} \<longrightarrow>
       node_at d' q = node_at d q)"
proof -
  let ?root = "join_path [w, ''.agents'', ''plugins'']"
  from assms(1) obtain ct p r d1 where cat: "load_catalog xe d w = (ct, None)" and p: "find (\<lambda>p. pl_name p = name) (ct_plugins ct) = Some p"
    and r: "rel ?root (pl_path p) = Some r" "\<not> prefix ''..'' r"
    and rm: "remove_all (apath_of (pl_path p)) d = Inr d1" and set: "set_plugin_enabled xe w name True d1 = (None, d')"
    unfolding uninstall_plugin_def by (auto split: if_splits prod.splits option.splits sum.splits)
  have pin: "p \<in> set (ct_plugins ct)" "pl_name p = name" using p by (auto simp: find_Some_iff)
  have root: "apath_of ?root = below (apath_of w) [''.agents'', ''plugins'']" "is_abs ?root"
    by (rule join_path_below [OF assms(2)]; simp add: wf_seg_def)+
  have le: "apath_of ?root \<le> apath_of (pl_path p)"
  proof (rule ccontr)
    assume "\<not> ?thesis"
    then have "r = ''..'' \<or> prefix ''../'' r"
      using rel_outside [OF root(2) load_catalog_paths [OF cat pin(1)]] r(1) by (auto simp: apath_le_iff)
    with r(2) show False by (auto simp: prefix_def)
  qed
  note effect = set_plugin_enabled_effect(2) [OF set]
  have dir: "apath_of (join_path [w, ''.codex'']) = below (apath_of w) [''.codex'']" "is_abs (join_path [w, ''.codex''])"
    by (rule join_path_below [OF assms(2)]; simp add: wf_seg_def)+
  have tmp: "apath_of (join_path [join_path [w, ''.codex''], ''extensions.json.tmp'']) = below (apath_of w) [''.codex'', ''extensions.json.tmp'']"
    by (subst join_path_below [OF dir(2)]) (simp_all add: wf_seg_def dir(1) below_def)
  have settings: "apath_of (settings_path w) = below (apath_of w) [''.codex'', ''extensions.json'']"
    unfolding settings_path_def by (rule join_path_below [OF assms(2)]; simp add: wf_seg_def)
  have apart: "\<not> q \<le> apath_of (join_path [w, ''.codex''])"
      "q \<notin> apath_of ` {settings_path w, join_path [join_path [w, ''.codex''], ''extensions.json.tmp'']}"
    if "apath_of (pl_path p) \<le> q" for q
  proof -
    have root_q: "below (apath_of w) [''.agents'', ''plugins''] \<le> q" using le that unfolding root(1) by (rule order.trans)
    then obtain t where q: "q = below (below (apath_of w) [''.agents'', ''plugins'']) t" by (rule le_belowE)
    show "\<not> q \<le> apath_of (join_path [w, ''.codex''])"
      "q \<notin> apath_of ` {settings_path w, join_path [join_path [w, ''.codex''], ''extensions.json.tmp'']}"
      unfolding dir tmp settings image_insert image_empty by (simp_all add: q below_def less_eq_apath_def)
  qed
  show ?thesis
  proof (intro bexI [of _ p] conjI allI impI)
    show "node_at d' q = None" if "apath_of (pl_path p) \<le> q" for q
      using effect [of q] apart [OF that] remove_all_gone [OF rm assms(3) that] by simp
    show "node_at d' q = node_at d q" if "\<not> apath_of (pl_path p) \<le> q" "node_at d q \<noteq> None \<or> \<not> q \<le> apath_of (join_path [w, ''.codex''])"
        "q \<notin> apath_of ` {settings_path w, join_path [join_path [w, ''.codex''], ''extensions.json.tmp'']}" for q
      using effect [of q] that remove_all_frame [OF rm that(1)] by simp
  qed (use pin le cat in simp_all)
qed

subsection \<open>The small workspace of Extensions\<close>

lemma sample_fs_ok: "fs_ok sample_ext_fs"
  by (rule fs_ok_list) code_simp

theorem copy_tree_returns_copy_witness:
  "\<exists>d'. copy_tree 7 (APath [''w'', ''.agents'', ''plugins'', ''y'']) (APath [''w'', ''.agents'', ''plugins'', ''z'']) sample_ext_fs = Some (None, d') \<and>
    node_at d' (APath [''w'', ''.agents'', ''plugins'', ''z'', ''hooks.json'']) = Some (File ''H'')"
proof -
  let ?s = "APath [''w'', ''.agents'', ''plugins'', ''y'']" and ?t = "APath [''w'', ''.agents'', ''plugins'', ''z'']"
  have "stat sample_ext_fs ?s = Inr Dir" "stat sample_ext_fs ?t = Inl NotExist" "tree_depth sample_ext_fs \<le> 7"
    "node_at sample_ext_fs (below ?s [''hooks.json'']) = Some (File ''H'')"
    by code_simp+
  moreover have "\<not> ?s \<le> ?t" by (simp add: less_eq_apath_def)
  ultimately obtain d' where "copy_tree 7 ?s ?t sample_ext_fs = Some (None, d')"
      "node_at d' (below ?t [''hooks.json'']) = Some (File ''H'')"
    using copy_tree_returns_copy [OF sample_fs_ok, of ?s Dir ?t 7] by auto
  then show ?thesis by (auto simp: below_def)
qed

theorem plugin_setting_persists_witness:
  "set (load_disabled_plugins sample_ext_env (snd (set_plugin_enabled sample_ext_env ''/w'' ''x'' True sample_ext_fs)) ''/w'') = {}"
proof -
  have "fst (set_plugin_enabled sample_ext_env ''/w'' ''x'' True sample_ext_fs) = None" by code_simp
  then have s: "set_plugin_enabled sample_ext_env ''/w'' ''x'' True sample_ext_fs =
      (None, snd (set_plugin_enabled sample_ext_env ''/w'' ''x'' True sample_ext_fs))" by (simp add: prod_eq_iff)
  have old: "load_disabled_plugins sample_ext_env sample_ext_fs ''/w'' = [''x'']" by code_simp
  have codec: "xe_parse sample_ext_env (xe_render sample_ext_env (settings_json ns) @ [newline]) = Some (settings_json ns)"
    if "set ns \<subseteq> {''x''}" for ns
  proof -
    have "ns = replicate (length ns) ''x''" using that by (induction ns) auto
    then show ?thesis by (cases "length ns") (auto simp: sample_ext_env_def newline_def map_replicate_const)
  qed
  have "is_abs ''/w''" by simp
  from plugin_setting_persists [OF s this] codec show ?thesis
    by (simp add: old sample_ext_env_def [THEN arg_cong [of _ _ xe_order]])
qed

theorem uninstall_confined_witness:
  "node_at (snd (uninstall_plugin sample_ext_env ''/w'' ''y'' sample_ext_fs)) (APath [''w'', ''.agents'', ''plugins'', ''x'', ''.codex-plugin'', ''plugin.json'']) =
    Some (File ''X'')"
proof -
  let ?py = "''/w/.agents/plugins/y''"
  have "trim_space ''y'' = ''y''" by (rule trim_space_solid) (simp add: solid_def byte_of_def is_space_def)
  then have y: "trim_space ''y'' \<noteq> []" by simp
  have "rel (join_path [''/w'', ''.agents'', ''plugins'']) ?py = Some ''y''" by code_simp
  moreover have "(case remove_all (apath_of ?py) sample_ext_fs of Inl _ \<Rightarrow> False
      | Inr d1 \<Rightarrow> fst (set_plugin_enabled sample_ext_env ''/w'' ''y'' True d1) = None)" by code_simp
  then have "\<exists>d1 d2. remove_all (apath_of ?py) sample_ext_fs = Inr d1 \<and> set_plugin_enabled sample_ext_env ''/w'' ''y'' True d1 = (None, d2)"
    by (auto simp: prod_eq_iff split: sum.splits)
  ultimately obtain d' where u: "uninstall_plugin sample_ext_env ''/w'' ''y'' sample_ext_fs = (None, d')"
    unfolding uninstall_plugin_def sample_loads by (auto simp: y sample_plugin_def)
  have "is_abs ''/w''" by simp
  from uninstall_confined [OF u this sample_fs_ok]
  have frame: "\<not> apath_of ?py \<le> q \<Longrightarrow> node_at sample_ext_fs q \<noteq> None \<or> \<not> q \<le> apath_of (join_path [''/w'', ''.codex'']) \<Longrightarrow>
       q \<notin> apath_of ` {settings_path ''/w'', join_path [join_path [''/w'', ''.codex''], ''extensions.json.tmp'']} \<Longrightarrow>
       node_at d' q = node_at sample_ext_fs q" for q
    unfolding sample_loads fst_conv by (auto simp: sample_plugin_def)
  let ?q = "APath [''w'', ''.agents'', ''plugins'', ''x'', ''.codex-plugin'', ''plugin.json'']"
  have "apath_of ''/w/.agents/plugins/y'' = APath [''w'', ''.agents'', ''plugins'', ''y'']"
    "node_at sample_ext_fs ?q = Some (File ''X'')"
    "apath_of (settings_path ''/w'') \<noteq> ?q" "apath_of (join_path [join_path [''/w'', ''.codex''], ''extensions.json.tmp'']) \<noteq> ?q"
    by code_simp+
  with frame [of ?q] show ?thesis by (simp add: u less_eq_apath_def)
qed

end
