(* ===== verification/AppServer.thy ===== *)
theory AppServer
  imports SessionIO Plugins
begin

section \<open>The application server: internal/appserver/server.go and extensions.go\<close>

text \<open>
  Threads are served over HTTP: each has its metadata and, once it is used, a running session. A request is a function from the
  server's state and the world to a reply, the new state and the new world; requests of one thread that read its events or its files wait
  for each other in the code (\<open>chatMu\<close>), and the map of threads is only touched under its lock, so each request is one step here, with
  whatever else happens meanwhile in the world's answers. A reply carries the value that the code encodes; \<open>None\<close> stands for a
  request that is still waiting for events after \<open>n\<close> of them.
\<close>

record thread_runtime =
  tr_metadata :: thread_metadata
  tr_io :: "session_io option"

record app_state =
  ap_root :: string                     \<comment> \<open>of the store and of the extensions\<close>
  ap_threads :: "(string \<times> thread_runtime) list"
  ap_logins :: "(string \<times> oauth_login \<times> string) list"

datatype app_error =
    InvalidJson
  | UnknownThread string
  | StartThread string new_session_error
  | SessionSays string
  | ThreadFails thread_error
  | ExtensionsFail ext_error
  | RolloutFails rollout_error
  | FlowFails flow_error
  | OAuthFails web_error
  | PickerFails string
  | InvalidDecision
  | PromptRequired
  | InputMissing
  | TurnIdRequired
  | TooManyImages
  | NotBase64Image
  | ImagesTooLarge
  | OutsideHistory
  | NotRemovable
  | WorkspaceRootRequired
  | WorkspaceNotRemovable
  | SourceRequired
  | UrlRequired
  | UnknownLogin

text \<open>A thread as the second interface shows it.\<close>

record v2_thread =
  vt_id :: string
  vt_name :: string
  vt_cwd :: string
  vt_path :: string
  vt_status :: string
  vt_turns :: "stored_turn list"
  vt_created_at_ms :: int

datatype app_body =
    NoBody
  | DocThreads "thread_metadata list option"    \<comment> \<open>\<open>None\<close> is a nil slice\<close>
  | DocMetadata thread_metadata
  | DocItems "response_item list"
  | DocFlow "flow_event list" flow_summary string string string
  | DocInventory extension_inventory
  | DocMarketplaces "marketplace list"
  | DocPlugin plugin
  | DocText string string                       \<comment> \<open>an object with one member\<close>
  | DocLogin string string
  | DocPage
  | DocStream string "json list" "string option"   \<comment> \<open>the turn, the lines, and the error that ended them\<close>
  | DocV2Threads "v2_thread list"
  | DocV2Thread v2_thread
  | DocV2Events "stored_event list" int
  | DocNotifications "json list"
  | DocEmptyObject

datatype app_reply = Failed int app_error | Replied int app_body

text \<open>What a handler asks of the host beside the sessions.\<close>

record 'w app_env =
  ae_io :: "'w io_env"
  ae_decode :: "nat \<Rightarrow> string \<Rightarrow> json option"        \<comment> \<open>the first document of a body, read up to a limit\<close>
  ae_write :: "json \<Rightarrow> 'w world \<Rightarrow> string option \<times> 'w world"
  ae_choose :: "'w world \<Rightarrow> (string, string option) result \<times> 'w world"   \<comment> \<open>the dialog; \<open>None\<close>: cancelled\<close>
  ae_depth :: nat                                    \<comment> \<open>fuel for copying a plugin\<close>

type_synonym 'w app_step = "app_state \<times> 'w world \<Rightarrow> app_reply \<times> app_state \<times> 'w world"

definition default_thread_id :: string where "default_thread_id = ''current-workspace''"

definition ae_web :: "'w app_env \<Rightarrow> 'w web" where "ae_web env = io_web (ae_io env)"
definition ae_ext :: "'w app_env \<Rightarrow> ext_env" where "ae_ext env = se_ext (ie_session (ae_io env))"

definition threads_dir :: "app_state \<Rightarrow> string" where "threads_dir ap = store_directory (ap_root ap)"

definition thread_rollout :: "app_state \<Rightarrow> string \<Rightarrow> string" where "thread_rollout ap i = rollout_path (threads_dir ap) i"

subsection \<open>Starting\<close>

definition new_thread :: "thread_metadata \<Rightarrow> thread_runtime" where
  "new_thread m = \<lparr>tr_metadata = m, tr_io = None\<rparr>"

definition enter_thread :: "thread_metadata \<Rightarrow> app_state \<Rightarrow> app_state" where
  "enter_thread m ap = ap\<lparr>ap_threads := AList.update (tm_id m) (new_thread m) (ap_threads ap)\<rparr>"

text \<open>\<open>NewHandler\<close>; \<open>None\<close> is its panic when the stored threads cannot be listed.\<close>

definition new_app_handler :: "'w app_env \<Rightarrow> fs \<Rightarrow> app_state option" where
  "new_app_handler env d =
     (let root = xe_wd (ae_ext env);
          home = \<lparr>tm_id = default_thread_id, tm_workspace_root = root, tm_working_directory = root, tm_created_at_ms = 0, tm_title = []\<rparr>;
          ap = enter_thread home \<lparr>ap_root = root, ap_threads = [], ap_logins = []\<rparr>
      in case list_threads (wb_parse (ae_web env)) (threads_dir ap) d of
           Inl e \<Rightarrow> None
         | Inr ms \<Rightarrow> Some (fold enter_thread ms ap))"

subsection \<open>Threads and their sessions\<close>

definition find_thread :: "app_state \<Rightarrow> string \<Rightarrow> (app_error, string \<times> thread_runtime) result" where
  "find_thread ap i =
     (let key = (if i = [] then default_thread_id else i) in
      case map_of (ap_threads ap) key of None \<Rightarrow> Inl (UnknownThread key) | Some rt \<Rightarrow> Inr (key, rt))"

definition set_io :: "string \<Rightarrow> session_io option \<Rightarrow> app_state \<Rightarrow> app_state" where
  "set_io key io ap =
     ap\<lparr>ap_threads := AList.map_entry key (\<lambda>rt. rt\<lparr>tr_io := io\<rparr>) (ap_threads ap)\<rparr>"

text \<open>\<open>sessionIO\<close>: the running session of a thread, started on first use.\<close>

definition session_of :: "'w app_env \<Rightarrow> string \<Rightarrow> thread_runtime \<Rightarrow> app_state \<times> 'w world \<Rightarrow> (app_error, session_io) result \<times> app_state \<times> 'w world" where
  "session_of env key rt st =
     (let (ap, s) = st in
      case tr_io rt of
        Some io \<Rightarrow> (Inr io, ap, s)
      | None \<Rightarrow>
        (case start_session (ae_io env) (tm_workspace_root (tr_metadata rt)) (thread_rollout ap (tm_id (tr_metadata rt))) (ap_root ap) s of
           (Inl e, s1) \<Rightarrow> (Inl (StartThread (tm_id (tr_metadata rt)) e), ap, s1)
         | (Inr io, s1) \<Rightarrow> (Inr io, set_io key (Some io) ap, s1)))"

text \<open>The common beginning of most handlers: look the thread up, then get its session.\<close>

definition with_thread :: "string \<Rightarrow> (string \<Rightarrow> thread_runtime \<Rightarrow> 'w app_step) \<Rightarrow> 'w app_step" where
  "with_thread i f st =
     (case find_thread (fst st) i of Inl e \<Rightarrow> (Failed 404 e, st) | Inr (key, rt) \<Rightarrow> f key rt st)"

definition with_session :: "'w app_env \<Rightarrow> string \<Rightarrow> (string \<Rightarrow> session_io \<Rightarrow> 'w app_step) \<Rightarrow> 'w app_step" where
  "with_session env i f st =
     with_thread i (\<lambda>key rt st. case session_of env key rt st of
        (Inl e, st1) \<Rightarrow> (Failed 409 e, st1)
      | (Inr io, st1) \<Rightarrow> f key io st1) st"

text \<open>An operation of the session that answers with an error or nothing.\<close>

definition finish_op :: "(session_io \<Rightarrow> 'w world \<Rightarrow> string option \<times> 'w world) \<Rightarrow> session_io \<Rightarrow> 'w app_step" where
  "finish_op op io st =
     (case op io (snd st) of
        (Some e, s1) \<Rightarrow> (Failed 409 (SessionSays e), fst st, s1)
      | (None, s1) \<Rightarrow> (Replied 204 NoBody, fst st, s1))"

definition refresh_extensions_request :: "'w app_env \<Rightarrow> string \<Rightarrow> 'w app_step" where
  "refresh_extensions_request env i = with_session env i (\<lambda>_. finish_op (io_refresh_extensions (ae_io env)))"

definition clean_terminals_request :: "'w app_env \<Rightarrow> string \<Rightarrow> 'w app_step" where
  "clean_terminals_request env i = with_session env i (\<lambda>_. finish_op (clean_background_terminals (ae_io env)))"

definition interrupt_request :: "'w app_env \<Rightarrow> string \<Rightarrow> 'w app_step" where
  "interrupt_request env i = with_session env i (\<lambda>_. finish_op (io_interrupt (ae_io env)))"

definition inventory_request :: "'w app_env \<Rightarrow> string \<Rightarrow> 'w app_step" where
  "inventory_request env i = with_session env i (\<lambda>_ io st.
     (Replied 200 (DocInventory (inventory_of (xe_order (ae_ext env)) (ie_extensions (ae_io env) (io_handle io) (snd st)))), st))"

definition set_enabled_request :: "'w app_env \<Rightarrow> string \<Rightarrow> string \<Rightarrow> string \<Rightarrow> 'w app_step" where
  "set_enabled_request env i name body st =
     (case Option.bind (ae_decode env 16384 body) (bool_field ''enabled'') of
        None \<Rightarrow> (Failed 400 InvalidJson, st)
      | Some enabled \<Rightarrow>
        with_thread i (\<lambda>key rt (ap, (d, w)).
          case set_plugin_enabled (ae_ext env) (ap_root ap) name enabled d of
            (Some e, d1) \<Rightarrow> (Failed 500 (ExtensionsFail e), ap, (d1, w))
          | (None, d1) \<Rightarrow>
              (case session_of env key rt (ap, (d1, w)) of
                 (Inl e, st1) \<Rightarrow> (Failed 409 e, st1)
               | (Inr io, st1) \<Rightarrow> finish_op (io_refresh_extensions (ae_io env)) io st1)) st)"

definition steer_request :: "'w app_env \<Rightarrow> string \<Rightarrow> string \<Rightarrow> string \<Rightarrow> 'w app_step" where
  "steer_request env i expected body st =
     (case Option.bind (ae_decode env 1048576 body) (string_field ''prompt'') of
        None \<Rightarrow> (Failed 400 InvalidJson, st)
      | Some prompt \<Rightarrow>
          if \<not> validate_input prompt then (Failed 400 PromptRequired, st)
          else with_session env i (\<lambda>key io (ap, s).
            if expected = [] then (Failed 400 TurnIdRequired, ap, s)
            else case io_steer (ae_io env) io expected (trim_space prompt) s of
                (Inl e, s1) \<Rightarrow> (Failed 409 (SessionSays e), ap, s1)
              | (Inr turn, s1) \<Rightarrow> (Replied 202 (DocText ''turn_id'' turn), ap, s1)) st)"

definition approval_decisions :: "string list" where
  "approval_decisions = [''approved'', ''approved_for_session'', ''approved_with_amendment'', ''denied'']"

definition approval_request_of :: "json \<Rightarrow> (string \<times> string \<times> string) option" where
  "approval_request_of v = do {
     t \<leftarrow> string_field ''turn_id'' v; i \<leftarrow> string_field ''thread_id'' v; d \<leftarrow> string_field ''decision'' v; Some (t, i, d) }"

definition approval_request_handler :: "'w app_env \<Rightarrow> string \<Rightarrow> string \<Rightarrow> 'w app_step" where
  "approval_request_handler env cid body st =
     (case Option.bind (ae_decode env 16384 body) approval_request_of of
        None \<Rightarrow> (Failed 400 InvalidJson, st)
      | Some (turn, i, decision) \<Rightarrow>
          if decision \<notin> set approval_decisions then (Failed 400 InvalidDecision, st)
          else with_session env i (\<lambda>_. finish_op (\<lambda>io. respond_exec_approval (ae_io env) io
                 \<lparr>ap_call_id = cid, ap_turn_id = turn, ap_decision = decision\<rparr>)) st)"

subsection \<open>Stopping\<close>

text \<open>\<open>Close\<close>: the first error ends it.\<close>

fun close_threads :: "'w app_env \<Rightarrow> string list \<Rightarrow> app_state \<times> 'w world \<Rightarrow> string option \<times> app_state \<times> 'w world" where
  "close_threads env [] st = (None, st)"
| "close_threads env (key # keys) st =
     (case Option.bind (map_of (ap_threads (fst st)) key) tr_io of
        None \<Rightarrow> close_threads env keys st
      | Some io \<Rightarrow>
        (case io_shutdown (ae_io env) io (snd st) of
           (Some e, io', s1) \<Rightarrow> (Some e, set_io key (Some io') (fst st), s1)
         | (None, io', s1) \<Rightarrow> close_threads env keys (set_io key (Some io') (fst st), s1)))"

definition close_handler :: "'w app_env \<Rightarrow> app_state \<times> 'w world \<Rightarrow> string option \<times> app_state \<times> 'w world" where
  "close_handler env st = close_threads env (xe_order (ae_ext env) (map fst (ap_threads (fst st)))) st"

text \<open>\<open>shutdownThread\<close> on a runtime that is no longer, or still, in the map: it loses its session before that is stopped.\<close>

definition shutdown_runtime :: "'w app_env \<Rightarrow> thread_runtime \<Rightarrow> 'w world \<Rightarrow> string option \<times> 'w world" where
  "shutdown_runtime env rt s =
     (case tr_io rt of
        None \<Rightarrow> (None, s)
      | Some io \<Rightarrow> (case io_shutdown (ae_io env) io s of (e, _, s1) \<Rightarrow> (e, s1)))"

definition remove_thread_request :: "'w app_env \<Rightarrow> string \<Rightarrow> 'w app_step" where
  "remove_thread_request env i st =
     (let (ap, s) = st in
      if i = [] then (Failed 400 NotRemovable, st)
      else case map_of (ap_threads ap) i of
        None \<Rightarrow> (Failed 404 (UnknownThread i), st)
      | Some rt \<Rightarrow>
          (case shutdown_runtime env rt s of
             (Some e, s1) \<Rightarrow> (Failed 409 (SessionSays e), set_io i None ap, s1)
           | (None, (d, w)) \<Rightarrow>
               (Replied 204 NoBody,
                if i = default_thread_id then set_io i None ap else ap\<lparr>ap_threads := AList.delete i (ap_threads ap)\<rparr>,
                (remove_thread (threads_dir ap) i d, w))))"

definition same_workspace :: "string \<Rightarrow> string \<Rightarrow> bool" where
  "same_workspace left right \<longleftrightarrow> clean left = clean right"

fun shutdown_all :: "'w app_env \<Rightarrow> thread_runtime list \<Rightarrow> 'w world \<Rightarrow> string option \<times> 'w world" where
  "shutdown_all env [] s = (None, s)"
| "shutdown_all env (rt # rts) s =
     (case shutdown_runtime env rt s of (Some e, s1) \<Rightarrow> (Some e, s1) | (None, s1) \<Rightarrow> shutdown_all env rts s1)"

definition remove_workspace_request :: "'w app_env \<Rightarrow> string \<Rightarrow> 'w app_step" where
  "remove_workspace_request env body st =
     (let (ap, s) = st in
      case Option.bind (ae_decode env 16384 body) (string_field ''workspace_root'') of
        None \<Rightarrow> (Failed 400 InvalidJson, st)
      | Some text \<Rightarrow>
        (let root = trim_space text in
         if root = [] then (Failed 400 WorkspaceRootRequired, st)
         else (let hit = (\<lambda>(key, rt). same_workspace (tm_workspace_root (tr_metadata rt)) root);
                   home = list_ex (\<lambda>t. fst t = default_thread_id \<and> hit t) (ap_threads ap);
                   gone = filter (\<lambda>t. fst t \<noteq> default_thread_id \<and> hit t) (ap_threads ap);
                   order = xe_order (ae_ext env) (map fst gone);
                   removed = map (\<lambda>k. the (map_of gone k)) order;
                   ap1 = ap\<lparr>ap_threads := filter (\<lambda>t. fst t = default_thread_id \<or> \<not> hit t) (ap_threads ap)\<rparr>
           in if gone = [] \<and> \<not> home then (Failed 404 WorkspaceNotRemovable, st)
              else case shutdown_all env removed s of
                (Some e, s1) \<Rightarrow> (Failed 409 (SessionSays e), ap1, s1)
              | (None, s1) \<Rightarrow>
                (case (if home then (case map_of (ap_threads ap1) default_thread_id of
                         None \<Rightarrow> (None, ap1, s1)
                       | Some rt \<Rightarrow>
                           (case shutdown_runtime env rt s1 of
                              (Some e, s2) \<Rightarrow> (Some e, set_io default_thread_id None ap1, s2)
                            | (None, (d, w)) \<Rightarrow>
                                (None, set_io default_thread_id None ap1,
                                 (hide_thread (threads_dir ap) default_thread_id (remove_thread (threads_dir ap) default_thread_id d), w))))
                       else (None, ap1, s1)) of
                   (Some e, st2) \<Rightarrow> (Failed 409 (SessionSays e), st2)
                 | (None, ap2, (d, w)) \<Rightarrow>
                     (Replied 204 NoBody, ap2,
                      (fold (\<lambda>rt. remove_thread (threads_dir ap) (tm_id (tr_metadata rt))) removed d, w))))))"

subsection \<open>Listing, creating, forking, reading\<close>

definition image_title :: string where "image_title = concat (map encode_rune [22270, 29255, 23545, 35805])"
definition ellipsis :: string where "ellipsis = encode_rune 8230"

definition title_of :: "response_item list \<Rightarrow> string" where
  "title_of items =
     (case filter (\<lambda>i. ri_type i = ''message'' \<and> ri_role i = ''user'') items of
        [] \<Rightarrow> []
      | item # _ \<Rightarrow>
          (let title = trim_space (item_text item); rs = runes title in
           if title = [] then image_title
           else if 24 < length rs then concat (map encode_rune (take 24 rs)) @ ellipsis
           else title))"

definition thread_title :: "'w app_env \<Rightarrow> app_state \<Rightarrow> fs \<Rightarrow> string \<Rightarrow> string" where
  "thread_title env ap d i =
     (case read_rollout (wb_parse (ae_web env)) d (apath_of (thread_rollout ap i)) of Inl e \<Rightarrow> [] | Inr (items, _) \<Rightarrow> title_of items)"

definition list_threads_request :: "'w app_env \<Rightarrow> 'w app_step" where
  "list_threads_request env st =
     (let (ap, (d, w)) = st in
      case list_threads (wb_parse (ae_web env)) (threads_dir ap) d of
        Inl e \<Rightarrow> (Failed 500 (ThreadFails e), st)
      | Inr stored \<Rightarrow>
          (let ap1 = fold (\<lambda>m ap. if map_of (ap_threads ap) (tm_id m) = None then enter_thread m ap else ap) stored ap;
               titled = (\<lambda>m. m\<lparr>tm_title := thread_title env ap d (tm_id m)\<rparr>);
               listed = map titled stored;
               docs = (case map_of (ap_threads ap1) default_thread_id of
                   None \<Rightarrow> Some listed
                 | Some rt \<Rightarrow>
                     (let current = titled (tr_metadata rt) in
                      if tm_title current \<noteq> [] \<or> \<not> hidden_thread (threads_dir ap) default_thread_id d then Some (current # listed)
                      else if read_dir d (apath_of (threads_dir ap)) = Inl NotExist then None
                      else Some listed))
           in (Replied 200 (DocThreads docs), ap1, (d, w))))"

definition start_thread_request :: "'w app_env \<Rightarrow> string \<Rightarrow> 'w app_step" where
  "start_thread_request env body st =
     (let (ap, s) = st in
      case Option.bind (ae_decode env 16384 body) (string_field ''workspace_root'') of
        None \<Rightarrow> (Failed 400 InvalidJson, st)
      | Some text \<Rightarrow>
        (case create_thread (ie_session (ae_io env)) (threads_dir ap) (trim_space text) s of
           (Inl e, s1) \<Rightarrow> (Failed 400 (ThreadFails e), ap, s1)
         | (Inr m, s1) \<Rightarrow> (Replied 201 (DocMetadata m), enter_thread m ap, s1)))"

definition history_request :: "'w app_env \<Rightarrow> string \<Rightarrow> 'w app_step" where
  "history_request env i = with_thread i (\<lambda>key rt (ap, (d, w)).
     case read_rollout (wb_parse (ae_web env)) d (apath_of (thread_rollout ap i)) of
       Inl e \<Rightarrow> (Failed 500 (RolloutFails e), ap, (d, w))
     | Inr (items, _) \<Rightarrow> (Replied 200 (DocItems items), ap, (d, w)))"

definition flow_request :: "'w app_env \<Rightarrow> string \<Rightarrow> 'w app_step" where
  "flow_request env i = with_thread i (\<lambda>key rt (ap, (d, w)).
     case read_rollout_flow (wb_parse (ae_web env)) (wb_parse_time (ae_web env)) d (apath_of (thread_rollout ap i)) of
       Inl e \<Rightarrow> (Failed 500 (FlowFails e), ap, (d, w))
     | Inr (events, summary) \<Rightarrow>
         (Replied 200 (DocFlow events summary i (tm_workspace_root (tr_metadata rt)) (thread_rollout ap i)), ap, (d, w)))"

definition fork_thread_request :: "'w app_env \<Rightarrow> string \<Rightarrow> string \<Rightarrow> 'w app_step" where
  "fork_thread_request env i body = with_thread i (\<lambda>key rt (ap, (d, w)).
     case Option.bind (ae_decode env 16384 body) (int_ptr_field ''item_count'') of
       None \<Rightarrow> (Failed 400 InvalidJson, ap, (d, w))
     | Some item_count \<Rightarrow>
       (case read_rollout (wb_parse (ae_web env)) d (apath_of (thread_rollout ap (tm_id (tr_metadata rt)))) of
          Inl e \<Rightarrow> (Failed 500 (RolloutFails e), ap, (d, w))
        | Inr (items, _) \<Rightarrow>
          (let count = (case item_count of None \<Rightarrow> int (length items) | Some n \<Rightarrow> n) in
           if count < 0 \<or> int (length items) < count then (Failed 400 OutsideHistory, ap, (d, w))
           else case create_thread (ie_session (ae_io env)) (threads_dir ap) (tm_workspace_root (tr_metadata rt)) (d, w) of
               (Inl e, s1) \<Rightarrow> (Failed 500 (ThreadFails e), ap, s1)
             | (Inr m, (d1, w1)) \<Rightarrow>
               (case write_rollout (wb_render (ae_web env)) (wb_parse (ae_web env)) (ie_now_text (ae_io env) w1)
                       (thread_rollout ap (tm_id m)) (tm_workspace_root m) (take (nat count) items) d1 of
                  (Some e, d2) \<Rightarrow> (Failed 500 (RolloutFails e), ap, (remove_thread (threads_dir ap) (tm_id m) d2, w1))
                | (None, d2) \<Rightarrow> (Replied 201 (DocMetadata m), enter_thread m ap, (d2, w1))))))"

definition select_workspace_request :: "'w app_env \<Rightarrow> 'w app_step" where
  "select_workspace_request env st =
     (let (ap, s) = st in
      case ae_choose env s of
        (Inl e, s1) \<Rightarrow> (Failed 500 (PickerFails e), ap, s1)
      | (Inr None, s1) \<Rightarrow> (Replied 204 NoBody, ap, s1)
      | (Inr (Some root), s1) \<Rightarrow>
          (case validate_workspace (xe_wd (ae_ext env)) (fst s1) root of
             Inl e \<Rightarrow> (Failed 400 (ThreadFails e), ap, s1)
           | Inr r \<Rightarrow> (Replied 200 (DocText ''workspace_root'' r), ap, s1)))"

subsection \<open>A turn as a stream\<close>

definition max_images :: nat where "max_images = 4"
definition image_bytes :: nat where "image_bytes = 16 * 1024 * 1024"

definition image_url_ok :: "string \<Rightarrow> bool" where
  "image_url_ok u \<longleftrightarrow> prefix ''data:image/'' u \<and> contains '';base64,'' (take 128 u)"

definition validate_image_urls :: "string list \<Rightarrow> app_error option" where
  "validate_image_urls urls =
     (if max_images < length urls then Some TooManyImages
      else if \<not> list_all image_url_ok urls then Some NotBase64Image
      else if image_bytes < sum_list (map length urls) then Some ImagesTooLarge
      else None)"

text \<open>The line that an event becomes; fields that are empty are left out.\<close>

definition opt_int :: "string \<Rightarrow> int \<Rightarrow> (string \<times> json) list" where
  "opt_int k n = (if n = 0 then [] else [(k, JInt n)])"

definition chat_event :: "event_msg \<Rightarrow> json option" where
  "chat_event m =
     (case m of
        AgentMessageContentDelta t delta \<Rightarrow> Some (JObj (str_entry ''type'' ''assistant_delta'' # opt_string ''delta'' delta))
      | ToolCallStarted c n a \<Rightarrow> Some (JObj (str_entry ''type'' ''tool_call_started'' # opt_string ''call_id'' c @ opt_string ''name'' n @
          opt_string ''arguments'' a))
      | ToolCallCompleted c n out \<Rightarrow> Some (JObj (str_entry ''type'' ''tool_call_completed'' # opt_string ''call_id'' c @ opt_string ''name'' n @
          opt_string ''output'' out))
      | ExecApprovalRequest a \<Rightarrow> Some (JObj (str_entry ''type'' ''exec_approval_request'' # opt_string ''call_id'' (ae_call_id a) @
          opt_string ''turn_id'' (ae_turn_id a) @ opt_array ''command'' (map JStr (ae_command a)) @ opt_string ''cwd'' (ae_cwd a) @
          opt_string ''reason'' (ae_reason a) @ opt_array ''proposed_prefix_rule'' (map JStr (ae_proposed_prefix a))))
      | McpElicitationRequest i server message fs schema \<Rightarrow> Some (JObj (str_entry ''type'' ''mcp_elicitation_request'' #
          opt_string ''message'' message @ opt_string ''elicitation_id'' i @ opt_string ''server'' server @
          opt_array ''fields'' (map elicitation_field_json fs) @ [(''schema'', schema)]))
      | ExecCommandOutputDelta c stream chunk \<Rightarrow> Some (JObj (str_entry ''type'' ''exec_command_output_delta'' # opt_string ''call_id'' c @
          opt_string ''stream'' stream @ opt_string ''chunk'' (base64 chunk)))
      | TerminalInteraction c p stdin \<Rightarrow> Some (JObj (str_entry ''type'' ''terminal_interaction'' # opt_string ''call_id'' c @
          opt_string ''process_id'' p @ opt_string ''stdin'' stdin))
      | ContextCompaction t before after \<Rightarrow> Some (JObj (str_entry ''type'' ''context_compaction'' # opt_int ''before_tokens'' before @
          opt_int ''after_tokens'' after))
      | _ \<Rightarrow> None)"

text \<open>How an event ends the stream, if it does: without an error or with one.\<close>

definition chat_end :: "event_msg \<Rightarrow> string option option" where
  "chat_end m =
     (case m of
        TurnComplete c \<Rightarrow> Some (tc_error c)
      | TurnAborted a \<Rightarrow> Some (Some (''turn aborted: '' @ ta_reason a))
      | _ \<Rightarrow> None)"

primrec stream_events :: "'w app_env \<Rightarrow> session_io \<Rightarrow> string \<Rightarrow> nat \<Rightarrow> json list \<Rightarrow> 'w world \<Rightarrow> ((json list \<times> string option) \<times> 'w world) option" where
  "stream_events env io turn 0 docs s = None"
| "stream_events env io turn (Suc n) docs s =
     (case next_event (ae_io env) io s of
        (Inl e, s1) \<Rightarrow> Some ((docs, Some e), s1)
      | (Inr (i, m), s1) \<Rightarrow>
          if i \<noteq> turn then stream_events env io turn n docs s1
          else case chat_event m of
            Some doc \<Rightarrow>
              (case ae_write env doc s1 of
                 (Some e, s2) \<Rightarrow> Some ((docs, Some e), s2)
               | (None, s2) \<Rightarrow> stream_events env io turn n (docs @ [doc]) s2)
          | None \<Rightarrow>
              (case chat_end m of
                 Some e \<Rightarrow> Some ((docs, e), s1)
               | None \<Rightarrow> stream_events env io turn n docs s1))"

definition stream_turn :: "'w app_env \<Rightarrow> session_io \<Rightarrow> nat \<Rightarrow> string \<Rightarrow> string list \<Rightarrow> 'w world \<Rightarrow>
    ((string \<times> json list \<times> string option) \<times> 'w world) option" where
  "stream_turn env io n prompt urls s =
     (case submit_turn_input_with_images (ae_io env) io prompt urls s of
        (Inl e, s1) \<Rightarrow> Some (([], [], Some e), s1)
      | (Inr turn, s1) \<Rightarrow> map_option (\<lambda>((docs, e), s2). ((turn, docs, e), s2)) (stream_events env io turn n [] s1))"

definition chat_input_of :: "json \<Rightarrow> (string \<times> string \<times> string list) option" where
  "chat_input_of v = do {
     p \<leftarrow> string_field ''prompt'' v; i \<leftarrow> string_field ''thread_id'' v; us \<leftarrow> strings_field ''image_urls'' v; Some (p, i, us) }"

definition chat_error_doc :: "string \<Rightarrow> json" where
  "chat_error_doc e = JObj (str_entry ''type'' ''error'' # opt_string ''message'' e)"

definition chat_request :: "'w app_env \<Rightarrow> nat \<Rightarrow> string \<Rightarrow> app_state \<times> 'w world \<Rightarrow> (app_reply \<times> app_state \<times> 'w world) option" where
  "chat_request env n body st =
     (case Option.bind (ae_decode env (20 * 1024 * 1024) body) chat_input_of of
        None \<Rightarrow> Some (Failed 400 InvalidJson, st)
      | Some (raw, i, urls) \<Rightarrow>
        (let prompt = trim_space raw in
         case validate_image_urls urls of
           Some e \<Rightarrow> Some (Failed 400 e, st)
         | None \<Rightarrow>
           if \<not> validate_turn_input \<lparr>ti_text = prompt, ti_image_urls = urls\<rparr> then Some (Failed 400 InputMissing, st)
           else case find_thread (fst st) i of
             Inl e \<Rightarrow> Some (Failed 404 e, st)
           | Inr (key, rt) \<Rightarrow>
             (let (ap, (d, w)) = st;
                  d1 = unhide_thread (threads_dir ap) (tm_id (tr_metadata rt)) d
              in case session_of env key rt (ap, (d1, w)) of
                   (Inl e, st1) \<Rightarrow> Some (Failed 409 e, st1)
                 | (Inr io, (ap1, s1)) \<Rightarrow>
                   (case stream_turn env io n prompt urls s1 of
                      None \<Rightarrow> None
                    | Some ((turn, docs, None), s2) \<Rightarrow> Some (Replied 200 (DocStream turn docs None), ap1, s2)
                    | Some ((turn, docs, Some e), s2) \<Rightarrow>
                        if docs = [] then Some (Failed 502 (SessionSays e), ap1, s2)
                        else (case ae_write env (chat_error_doc e) s2 of
                            (None, s3) \<Rightarrow> Some (Replied 200 (DocStream turn (docs @ [chat_error_doc e]) (Some e)), ap1, s3)
                          | (Some _, s3) \<Rightarrow> Some (Replied 200 (DocStream turn docs (Some e)), ap1, s3))))))"

subsection \<open>Plugins and logins: appserver/extensions.go\<close>

definition refresh_thread_extensions :: "'w app_env \<Rightarrow> string \<Rightarrow> thread_runtime \<Rightarrow> app_state \<times> 'w world \<Rightarrow> app_error option \<times> app_state \<times> 'w world" where
  "refresh_thread_extensions env key rt st =
     (case session_of env key rt st of
        (Inl e, st1) \<Rightarrow> (Some e, st1)
      | (Inr io, (ap, s)) \<Rightarrow>
        (case io_refresh_extensions (ae_io env) io s of (e, s1) \<Rightarrow> (map_option SessionSays e, ap, s1)))"

definition marketplace_request :: "'w app_env \<Rightarrow> string \<Rightarrow> 'w app_step" where
  "marketplace_request env i = with_thread i (\<lambda>key rt (ap, s).
     case load_marketplaces (ae_ext env) (fst s) (ap_root ap) of
       Inl e \<Rightarrow> (Failed 500 (ExtensionsFail e), ap, s)
     | Inr ms \<Rightarrow> (Replied 200 (DocMarketplaces ms), ap, s))"

definition install_input_of :: "json \<Rightarrow> (string \<times> string \<times> string) option" where
  "install_input_of v = do {
     p \<leftarrow> string_field ''path'' v; m \<leftarrow> string_field ''marketplace_path'' v; n \<leftarrow> string_field ''plugin_name'' v; Some (p, m, n) }"

text \<open>The entry that the request names: the last one of the marketplaces with that path or name.\<close>

definition marketplace_source :: "string \<Rightarrow> string \<Rightarrow> marketplace list \<Rightarrow> string" where
  "marketplace_source place name ms =
     fold (\<lambda>m source. if mk_path m \<noteq> place \<and> mk_name m \<noteq> place then source
        else fold (\<lambda>e source. if me_name e = name then me_path e else source) (mk_plugins m) source) ms []"

definition install_request :: "'w app_env \<Rightarrow> string \<Rightarrow> string \<Rightarrow> app_state \<times> 'w world \<Rightarrow> (app_reply \<times> app_state \<times> 'w world) option" where
  "install_request env i body st =
     (case Option.bind (ae_decode env 16384 body) install_input_of of
        None \<Rightarrow> Some (Failed 400 InvalidJson, st)
      | Some (path, place, name) \<Rightarrow>
        (case find_thread (fst st) i of
           Inl e \<Rightarrow> Some (Failed 404 e, st)
         | Inr (key, rt) \<Rightarrow>
           (let (ap, (d, w)) = st;
                found = (if trim_space path = [] \<and> place \<noteq> [] \<and> name \<noteq> [] then
                    (case load_marketplaces (ae_ext env) d (ap_root ap) of Inl e \<Rightarrow> Inl e | Inr ms \<Rightarrow> Inr (marketplace_source place name ms))
                  else Inr (trim_space path))
            in case found of
                 Inl e \<Rightarrow> Some (Failed 500 (ExtensionsFail e), st)
               | Inr source \<Rightarrow>
                   if source = [] then Some (Failed 400 SourceRequired, st)
                   else (case install_plugin (ae_ext env) (ae_depth env) (ap_root ap) source d of
                       None \<Rightarrow> None
                     | Some (Inl e, d1) \<Rightarrow> Some (Failed 400 (ExtensionsFail e), ap, (d1, w))
                     | Some (Inr p, d1) \<Rightarrow>
                         (case refresh_thread_extensions env key rt (ap, (d1, w)) of
                            (Some e, st1) \<Rightarrow> Some (Failed 409 e, st1)
                          | (None, st1) \<Rightarrow> Some (Replied 201 (DocPlugin p), st1))))))"

definition uninstall_request :: "'w app_env \<Rightarrow> string \<Rightarrow> string \<Rightarrow> 'w app_step" where
  "uninstall_request env i name = with_thread i (\<lambda>key rt (ap, (d, w)).
     case uninstall_plugin (ae_ext env) (ap_root ap) name d of
       (Some e, d1) \<Rightarrow> (Failed 400 (ExtensionsFail e), ap, (d1, w))
     | (None, d1) \<Rightarrow>
         (case refresh_thread_extensions env key rt (ap, (d1, w)) of
            (Some e, st1) \<Rightarrow> (Failed 409 e, st1)
          | (None, st1) \<Rightarrow> (Replied 204 NoBody, st1)))"

definition callback_url :: "string \<Rightarrow> bool \<Rightarrow> string" where
  "callback_url host tls =
     (if tls then ''https'' else ''http'') @ ''://'' @ (if host = [] then ''127.0.0.1'' else host) @ ''/oauth/mcp/callback''"

definition start_oauth_request :: "'w app_env \<Rightarrow> string \<Rightarrow> string \<Rightarrow> string \<Rightarrow> bool \<Rightarrow> 'w app_step" where
  "start_oauth_request env i server host tls = with_thread i (\<lambda>key rt st.
     case session_of env key rt st of
       (Inl e, st1) \<Rightarrow> (Failed 409 e, st1)
     | (Inr io, (ap, (d, w))) \<Rightarrow>
       (let statuses = xs_statuses (ie_extensions (ae_io env) (io_handle io) (d, w));
            shown = (case map_of statuses server of None \<Rightarrow> [] | Some st \<Rightarrow> trim_space (st_source_path st))
        in case load_catalog (ae_ext env) d (ap_root ap) of
             (_, Some e) \<Rightarrow> (Failed 500 (ExtensionsFail e), ap, (d, w))
           | (ct, None) \<Rightarrow>
               (let url = (case find (\<lambda>c. ms_name c = server) (ct_servers ct) of None \<Rightarrow> shown | Some c \<Rightarrow> ms_url c) in
                if url = [] then (Failed 400 UrlRequired, ap, (d, w))
                else case begin_login (ae_web env) server url (ap_root ap) (callback_url host tls) w of
                    (Inl e, w1) \<Rightarrow> (Failed 502 (OAuthFails e), ap, (d, w1))
                  | (Inr lg, w1) \<Rightarrow>
                      (Replied 200 (DocLogin (lg_authorize_url lg) (lg_state lg)),
                       ap\<lparr>ap_logins := AList.update (lg_state lg) (lg, tm_id (tr_metadata rt)) (ap_logins ap)\<rparr>, (d, w1)))))"

text \<open>The callback of the authorization server: the login is taken out whatever comes of it.\<close>

definition complete_oauth_request :: "'w app_env \<Rightarrow> string \<Rightarrow> string \<Rightarrow> 'w app_step" where
  "complete_oauth_request env state code st =
     (let (ap, s) = st in
      case map_of (ap_logins ap) state of
        None \<Rightarrow> (Failed 400 UnknownLogin, st)
      | Some (lg, i) \<Rightarrow>
        (let ap1 = ap\<lparr>ap_logins := AList.delete state (ap_logins ap)\<rparr> in
         if code = [] then (Failed 400 UnknownLogin, ap1, s)
         else case complete_login (ae_web env) lg code s of
             (Inl e, s1) \<Rightarrow> (Failed 502 (OAuthFails e), ap1, s1)
           | (Inr token, s1) \<Rightarrow>
               (Replied 200 DocPage,
                case find_thread ap1 i of
                  Inl e \<Rightarrow> (ap1, s1)
                | Inr (key, rt) \<Rightarrow> snd (refresh_thread_extensions env key rt (ap1, s1)))))"

definition elicitation_input_of :: "(string \<Rightarrow> json) \<Rightarrow> json \<Rightarrow> (string \<times> string \<times> json) option" where
  "elicitation_input_of refloat v = do {
     i \<leftarrow> string_field ''thread_id'' v; a \<leftarrow> string_field ''action'' v;
     c \<leftarrow> json_field (dec_any_map refloat) ''content'' JNull v; Some (i, a, c) }"

definition elicitation_request :: "'w app_env \<Rightarrow> string \<Rightarrow> string \<Rightarrow> 'w app_step" where
  "elicitation_request env eid body st =
     (case Option.bind (ae_decode env 1048576 body) (elicitation_input_of (mv_refloat (se_mcp (ie_session (ae_io env))))) of
        None \<Rightarrow> (Failed 400 InvalidJson, st)
      | Some (i, action, content) \<Rightarrow>
          with_session env i (\<lambda>_. finish_op (\<lambda>io. respond_elicitation (ae_io env) io
            \<lparr>el_id = eid, el_action = (if action = [] then ''accept'' else action),
             el_content = (if content = JNull then None else Some content)\<rparr>)) st)"

end
