(* ===== verification/AppServerV2.thy ===== *)
theory AppServerV2
  imports AppServer
begin

section \<open>The second interface and all requests: internal/appserver/v2.go\<close>

text \<open>
  The second interface shows threads with their turns and streams a turn as notifications. The keys of their objects are in the order
  in which the encoder writes a map. A notification that cannot be written is lost without a trace, so the stream goes on until the
  turn ends or no further event can be read. The end of the theory puts all requests of both interfaces together.
\<close>

subsection \<open>Reading\<close>

definition v2_thread_object :: "'w app_env \<Rightarrow> thread_runtime \<Rightarrow> bool \<Rightarrow> app_state \<times> 'w world \<Rightarrow> (rollout_error, v2_thread) result" where
  "v2_thread_object env rt include_turns st =
     (let (ap, s) = st; m = tr_metadata rt;
          status = (case tr_io rt of
              None \<Rightarrow> ''notLoaded''
            | Some io \<Rightarrow> if ie_active (ae_io env) (io_handle io) s = [] then ''idle'' else ''active'');
          t = \<lparr>vt_id = tm_id m, vt_name = thread_title env ap (fst s) (tm_id m), vt_cwd = tm_workspace_root m,
               vt_path = thread_rollout ap (tm_id m), vt_status = status, vt_turns = [], vt_created_at_ms = tm_created_at_ms m\<rparr>
      in if \<not> include_turns then Inr t
         else (case read_rollout_turns (wb_parse (ae_web env)) (fst s) (apath_of (vt_path t)) of
             Inl e \<Rightarrow> Inl e
           | Inr turns \<Rightarrow> Inr (t\<lparr>vt_turns := turns,
               vt_status := (if turns \<noteq> [] \<and> sn_status (last turns) = ''inProgress'' then ''active'' else status)\<rparr>)))"

definition v2_list_request :: "'w app_env \<Rightarrow> 'w app_step" where
  "v2_list_request env st =
     (Replied 200 (DocV2Threads (concat (map (\<lambda>k. case map_of (ap_threads (fst st)) k of
          None \<Rightarrow> []
        | Some rt \<Rightarrow> (case v2_thread_object env rt False st of Inl e \<Rightarrow> [] | Inr t \<Rightarrow> [t]))
        (xe_order (ae_ext env) (map fst (ap_threads (fst st))))))), st)"

definition v2_start_thread_request :: "'w app_env \<Rightarrow> string \<Rightarrow> 'w app_step" where
  "v2_start_thread_request env body st =
     (let (ap, s) = st in
      case Option.bind (ae_decode env 16384 body) (string_field ''cwd'') of
        None \<Rightarrow> (Failed 400 InvalidJson, st)
      | Some text \<Rightarrow>
        (case create_thread (ie_session (ae_io env)) (threads_dir ap) (trim_space text) s of
           (Inl e, s1) \<Rightarrow> (Failed 400 (ThreadFails e), ap, s1)
         | (Inr m, s1) \<Rightarrow>
             (let ap1 = enter_thread m ap in
              case v2_thread_object env (new_thread m) False (ap1, s1) of
                Inl e \<Rightarrow> (Failed 500 (RolloutFails e), ap1, s1)   \<comment> \<open>does not occur without the turns\<close>
              | Inr t \<Rightarrow> (Replied 201 (DocV2Thread t), ap1, s1))))"

definition v2_read_request :: "'w app_env \<Rightarrow> string \<Rightarrow> string \<Rightarrow> 'w app_step" where
  "v2_read_request env i include_turns = with_thread i (\<lambda>key rt st.
     case v2_thread_object env rt (include_turns = ''true'') st of
       Inl e \<Rightarrow> (Failed 500 (RolloutFails e), st)
     | Inr t \<Rightarrow> (Replied 200 (DocV2Thread t), st))"

definition v2_events_request :: "'w app_env \<Rightarrow> string \<Rightarrow> string \<Rightarrow> 'w app_step" where
  "v2_events_request env i from = with_thread i (\<lambda>key rt (ap, s).
     case read_rollout_events (wb_parse (ae_web env)) (fst s) (apath_of (thread_rollout ap (tm_id (tr_metadata rt))))
         (int (fst (parse_uint from))) of
       (_, Some e) \<Rightarrow> (Failed 500 (RolloutFails e), ap, s)
     | ((events, cursor), None) \<Rightarrow> (Replied 200 (DocV2Events events cursor), ap, s))"

subsection \<open>A turn as notifications\<close>

record v2_input =
  vi_type :: string
  vi_text :: string
  vi_url :: string

definition v2_input_of :: "json \<Rightarrow> v2_input option" where
  "v2_input_of v = do {
     t \<leftarrow> string_field ''Type'' v; x \<leftarrow> string_field ''Text'' v; u \<leftarrow> string_field ''URL'' v;
     Some \<lparr>vi_type = t, vi_text = x, vi_url = u\<rparr> }"

definition v2_input_json :: "v2_input \<Rightarrow> json" where
  "v2_input_json i = JObj [str_entry ''Type'' (vi_type i), str_entry ''Text'' (vi_text i), str_entry ''URL'' (vi_url i)]"

definition v2_inputs_of :: "json \<Rightarrow> v2_input list option" where
  "v2_inputs_of v = json_field (dec_list v2_input_of) ''input'' [] v"

text \<open>The inputs of a steer have no address.\<close>

definition v2_steer_inputs_of :: "json \<Rightarrow> v2_input list option" where
  "v2_steer_inputs_of v = json_field (dec_list (\<lambda>j. do {
       t \<leftarrow> string_field ''type'' j; x \<leftarrow> string_field ''text'' j; Some \<lparr>vi_type = t, vi_text = x, vi_url = []\<rparr> }))
     ''input'' [] v"

definition v2_text :: "v2_input list \<Rightarrow> string" where
  "v2_text is = concat (map vi_text (filter (\<lambda>i. vi_type i = ''text'') is))"

definition v2_images :: "v2_input list \<Rightarrow> string list" where
  "v2_images is = map vi_url (filter (\<lambda>i. vi_type i = ''image'') is)"

definition v2_note :: "string \<Rightarrow> (string \<times> json) list \<Rightarrow> json" where
  "v2_note method params = JObj [str_entry ''method'' method, (''params'', JObj params)]"

definition v2_item_note :: "string \<Rightarrow> string \<Rightarrow> string \<Rightarrow> (string \<times> json) list \<Rightarrow> json" where
  "v2_item_note method thread turn item =
     v2_note method [(''item'', JObj item), str_entry ''threadId'' thread, str_entry ''turnId'' turn]"

definition v2_turn_note :: "string \<Rightarrow> string \<Rightarrow> (string \<times> json) list \<Rightarrow> json" where
  "v2_turn_note method thread turn = v2_note method [str_entry ''threadId'' thread, (''turn'', JObj turn)]"

definition v2_opening :: "string \<Rightarrow> string \<Rightarrow> v2_input list \<Rightarrow> json list" where
  "v2_opening thread turn is =
     (let item = [(''content'', JArr (map v2_input_json is)), str_entry ''id'' (''user-'' @ turn), str_entry ''type'' ''userMessage''] in
      [v2_turn_note ''turn/started'' thread [str_entry ''id'' turn, (''items'', JArr []), str_entry ''status'' ''inProgress''],
       v2_item_note ''item/started'' thread turn item, v2_item_note ''item/completed'' thread turn item])"

definition v2_agent_item :: "string \<Rightarrow> string \<Rightarrow> string \<Rightarrow> (string \<times> json) list" where
  "v2_agent_item turn status t = [str_entry ''id'' (''agent-'' @ turn), str_entry ''status'' status, str_entry ''text'' t,
     str_entry ''type'' ''agentMessage'']"

definition or_null :: "('a \<Rightarrow> json) \<Rightarrow> 'a option \<Rightarrow> json" where
  "or_null f x = (case x of None \<Rightarrow> JNull | Some y \<Rightarrow> f y)"

text \<open>The notifications of an event, whether a message of the agent has started, and whether the stream ends.\<close>

definition v2_event :: "string \<Rightarrow> string \<Rightarrow> bool \<Rightarrow> event_msg \<Rightarrow> json list \<times> bool \<times> bool" where
  "v2_event thread turn started m =
     (let ids = [str_entry ''threadId'' thread, str_entry ''turnId'' turn] in
      case m of
        AgentMessageContentDelta t delta \<Rightarrow>
          ((if started then [] else [v2_item_note ''item/started'' thread turn (v2_agent_item turn ''inProgress'' [])]) @
           [v2_note ''item/agentMessage/delta'' (str_entry ''delta'' delta # ids)], True, False)
      | ToolCallStarted c n a \<Rightarrow>
          ([v2_item_note ''item/started'' thread turn [str_entry ''arguments'' a, str_entry ''id'' c, str_entry ''name'' n,
             str_entry ''status'' ''inProgress'', str_entry ''type'' ''toolCall'']], started, False)
      | ToolCallCompleted c n out \<Rightarrow>
          ([v2_item_note ''item/completed'' thread turn [str_entry ''id'' c, str_entry ''name'' n, str_entry ''output'' out,
             str_entry ''status'' ''completed'', str_entry ''type'' ''toolCall'']], started, False)
      | ExecCommandOutputDelta c stream chunk \<Rightarrow>
          ([v2_note ''item/commandExecution/outputDelta'' (str_entry ''chunk'' (base64 chunk) # str_entry ''itemId'' c #
             str_entry ''stream'' stream # ids)], started, False)
      | TerminalInteraction c p stdin \<Rightarrow>
          ([v2_note ''item/commandExecution/terminalInteraction'' (str_entry ''itemId'' c # str_entry ''processId'' p #
             str_entry ''stdin'' stdin # ids)], started, False)
      | ExecApprovalRequest a \<Rightarrow>
          ([v2_note ''item/commandExecution/requestApproval'' ((''availableDecisions'', JArr (map JStr (ae_available_decisions a))) #
             (''command'', JArr (map JStr (ae_command a))) # str_entry ''cwd'' (ae_cwd a) # str_entry ''itemId'' (ae_call_id a) #
             str_entry ''reason'' (ae_reason a) # ids)], started, False)
      | ContextCompaction t before after \<Rightarrow>
          ([v2_note ''item/contextCompaction/completed'' (int_entry ''afterTokens'' after # int_entry ''beforeTokens'' before # ids)],
           started, False)
      | TurnComplete c \<Rightarrow>
          ((if started then [v2_item_note ''item/completed'' thread turn
              (v2_agent_item turn ''completed'' (case tc_last_agent_message c of None \<Rightarrow> [] | Some t \<Rightarrow> t))] else []) @
           [v2_turn_note ''turn/completed'' thread [(''error'', or_null error_json (tc_error c)), str_entry ''id'' turn,
              (''items'', JArr []), str_entry ''status'' (if tc_error c = None then ''completed'' else ''failed''),
              (''usage'', or_null usage_json (tc_usage c))]], started, True)
      | TurnAborted a \<Rightarrow>
          ([v2_turn_note ''turn/completed'' thread [str_entry ''id'' turn, (''items'', JArr []), str_entry ''status'' ''interrupted'']],
           started, True)
      | _ \<Rightarrow> ([], started, False))"

text \<open>\<open>writeV2Notification\<close> for each; a failure is ignored.\<close>

definition write_notes :: "'w app_env \<Rightarrow> json list \<Rightarrow> 'w world \<Rightarrow> 'w world" where
  "write_notes env docs s = fold (\<lambda>doc s. snd (ae_write env doc s)) docs s"

primrec v2_turn_events :: "'w app_env \<Rightarrow> session_io \<Rightarrow> string \<Rightarrow> string \<Rightarrow> nat \<Rightarrow> bool \<Rightarrow> json list \<Rightarrow> 'w world \<Rightarrow>
    (json list \<times> 'w world) option" where
  "v2_turn_events env io thread turn 0 started docs s = None"
| "v2_turn_events env io thread turn (Suc n) started docs s =
     (case next_event (ae_io env) io s of
        (Inl e, s1) \<Rightarrow> Some (docs, s1)
      | (Inr (i, m), s1) \<Rightarrow>
          if i \<noteq> turn then v2_turn_events env io thread turn n started docs s1
          else (case v2_event thread turn started m of
              (written_notes, started', True) \<Rightarrow> Some (docs @ written_notes, write_notes env written_notes s1)
            | (written_notes, started', False) \<Rightarrow> v2_turn_events env io thread turn n started' (docs @ written_notes) (write_notes env written_notes s1)))"

definition v2_start_turn_request :: "'w app_env \<Rightarrow> nat \<Rightarrow> string \<Rightarrow> string \<Rightarrow> app_state \<times> 'w world \<Rightarrow>
    (app_reply \<times> app_state \<times> 'w world) option" where
  "v2_start_turn_request env n i body st =
     (case Option.bind (ae_decode env (20 * 1024 * 1024) body) v2_inputs_of of
        None \<Rightarrow> Some (Failed 400 InvalidJson, st)
      | Some is \<Rightarrow>
          if \<not> validate_turn_input \<lparr>ti_text = v2_text is, ti_image_urls = v2_images is\<rparr> then Some (Failed 400 InputMissing, st)
          else (case find_thread (fst st) i of
              Inl e \<Rightarrow> Some (Failed 404 e, st)
            | Inr (key, rt) \<Rightarrow>
              (case session_of env key rt st of
                 (Inl e, st1) \<Rightarrow> Some (Failed 409 e, st1)
               | (Inr io, (ap1, s1)) \<Rightarrow>
                 (case submit_turn_input_with_images (ae_io env) io (v2_text is) (v2_images is) s1 of
                    (Inl e, s2) \<Rightarrow> Some (Failed 409 (SessionSays e), ap1, s2)
                  | (Inr turn, s2) \<Rightarrow>
                      (let thread = tm_id (tr_metadata rt); docs = v2_opening thread turn is in
                       map_option (\<lambda>(all, s3). (Replied 200 (DocNotifications all), ap1, s3))
                         (v2_turn_events env io thread turn n False docs (write_notes env docs s2)))))))"

definition v2_steer_request :: "'w app_env \<Rightarrow> string \<Rightarrow> string \<Rightarrow> string \<Rightarrow> 'w app_step" where
  "v2_steer_request env i turn body st =
     (case Option.bind (ae_decode env (length body) body) v2_steer_inputs_of of
        None \<Rightarrow> (Failed 400 InvalidJson, st)
      | Some is \<Rightarrow> with_session env i (\<lambda>key io (ap, s).
          case io_steer (ae_io env) io turn (v2_text is) s of
            (Inl e, s1) \<Rightarrow> (Failed 409 (SessionSays e), ap, s1)
          | (Inr t, s1) \<Rightarrow> (Replied 202 (DocText ''turnId'' t), ap, s1)) st)"

definition v2_interrupt_request :: "'w app_env \<Rightarrow> string \<Rightarrow> string \<Rightarrow> 'w app_step" where
  "v2_interrupt_request env i turn = with_session env i (\<lambda>key io (ap, s).
     case interrupt_turn (ae_io env) io turn s of
       (Some e, s1) \<Rightarrow> (Failed 409 (SessionSays e), ap, s1)
     | (None, s1) \<Rightarrow> (Replied 200 DocEmptyObject, ap, s1))"

subsection \<open>All requests\<close>

datatype app_request =
    Chat string                            \<comment> \<open>body\<close>
  | RespondApproval string string          \<comment> \<open>call, body\<close>
  | ListThreads
  | OpenThread string
  | RemoveThread string
  | ForkThread string string
  | InterruptThread string
  | SteerThread string string string       \<comment> \<open>thread, header, body\<close>
  | RefreshThread string
  | ThreadExtensions string
  | SetPlugin string string string
  | ListMarketplace string
  | InstallPlugin string string
  | UninstallPlugin string string
  | StartOAuth string string string bool   \<comment> \<open>thread, server, host, TLS\<close>
  | CompleteOAuth string string            \<comment> \<open>state, code\<close>
  | RespondElicitation string string
  | CleanTerminals string
  | ThreadHistory string
  | ThreadFlow string
  | SelectWorkspace
  | RemoveWorkspace string
  | V2ListThreads
  | V2StartThread string
  | V2ReadThread string string
  | V2Events string string
  | V2StartTurn string string
  | V2SteerTurn string string string
  | V2InterruptTurn string string

definition serve :: "'w app_env \<Rightarrow> nat \<Rightarrow> app_request \<Rightarrow> app_state \<times> 'w world \<Rightarrow> (app_reply \<times> app_state \<times> 'w world) option" where
  "serve env n r st =
     (case r of
        Chat body \<Rightarrow> chat_request env n body st
      | RespondApproval cid body \<Rightarrow> Some (approval_request_handler env cid body st)
      | ListThreads \<Rightarrow> Some (list_threads_request env st)
      | OpenThread body \<Rightarrow> Some (start_thread_request env body st)
      | RemoveThread i \<Rightarrow> Some (remove_thread_request env i st)
      | ForkThread i body \<Rightarrow> Some (fork_thread_request env i body st)
      | InterruptThread i \<Rightarrow> Some (interrupt_request env i st)
      | SteerThread i turn body \<Rightarrow> Some (steer_request env i turn body st)
      | RefreshThread i \<Rightarrow> Some (refresh_extensions_request env i st)
      | ThreadExtensions i \<Rightarrow> Some (inventory_request env i st)
      | SetPlugin i name body \<Rightarrow> Some (set_enabled_request env i name body st)
      | ListMarketplace i \<Rightarrow> Some (marketplace_request env i st)
      | InstallPlugin i body \<Rightarrow> install_request env i body st
      | UninstallPlugin i name \<Rightarrow> Some (uninstall_request env i name st)
      | StartOAuth i server host tls \<Rightarrow> Some (start_oauth_request env i server host tls st)
      | CompleteOAuth state code \<Rightarrow> Some (complete_oauth_request env state code st)
      | RespondElicitation eid body \<Rightarrow> Some (elicitation_request env eid body st)
      | CleanTerminals i \<Rightarrow> Some (clean_terminals_request env i st)
      | ThreadHistory i \<Rightarrow> Some (history_request env i st)
      | ThreadFlow i \<Rightarrow> Some (flow_request env i st)
      | SelectWorkspace \<Rightarrow> Some (select_workspace_request env st)
      | RemoveWorkspace body \<Rightarrow> Some (remove_workspace_request env body st)
      | V2ListThreads \<Rightarrow> Some (v2_list_request env st)
      | V2StartThread body \<Rightarrow> Some (v2_start_thread_request env body st)
      | V2ReadThread i q \<Rightarrow> Some (v2_read_request env i q st)
      | V2Events i from \<Rightarrow> Some (v2_events_request env i from st)
      | V2StartTurn i body \<Rightarrow> v2_start_turn_request env n i body st
      | V2SteerTurn i turn body \<Rightarrow> Some (v2_steer_request env i turn body st)
      | V2InterruptTurn i turn \<Rightarrow> Some (v2_interrupt_request env i turn st))"

end
