(* ===== verification/AppInvariants.thy ===== *)
theory AppInvariants
  imports AppServerV2
begin

section \<open>What every request keeps\<close>

text \<open>
  A contract that the requests share is a relation between the server's states before and after. The locale has what such a relation
  needs so that it holds of every request that neither creates nor removes threads nor starts or ends a login: it is reflexive, and
  starting the session of a thread that has none is in it. Two relations are of this kind: the threads stay with their running
  sessions, and the pending logins stay.
\<close>

lemma find_thread_Inr: "find_thread ap i = Inr (key, rt) \<Longrightarrow> map_of (ap_threads ap) key = Some rt"
  by (auto simp: find_thread_def Let_def split: option.splits)

lemma finish_op_state [simp]: "fst (snd (finish_op op io st)) = fst st"
  by (simp add: finish_op_def split: prod.splits option.splits)

fun quiet_request :: "app_request \<Rightarrow> bool" where
  "quiet_request ListThreads = False"
| "quiet_request (OpenThread b) = False"
| "quiet_request (V2StartThread b) = False"
| "quiet_request (ForkThread i b) = False"
| "quiet_request (RemoveThread i) = False"
| "quiet_request (RemoveWorkspace b) = False"
| "quiet_request (StartOAuth i s h t) = False"
| "quiet_request (CompleteOAuth s c) = False"
| "quiet_request _ = True"

locale request_relation =
  fixes R :: "app_state \<Rightarrow> app_state \<Rightarrow> bool"
  assumes same: "R ap ap"
    and started: "map_of (ap_threads ap) key = Some rt \<Longrightarrow> tr_io rt = None \<Longrightarrow> R ap (set_io key (Some io) ap)"
begin

lemma session_of_rel:
  "map_of (ap_threads (fst st)) key = Some rt \<Longrightarrow> R (fst st) (fst (snd (session_of env key rt st)))"
  by (cases st) (auto simp: session_of_def same started split: option.splits prod.splits sum.splits)

lemma with_thread_rel:
  assumes "\<And>key rt. map_of (ap_threads (fst st)) key = Some rt \<Longrightarrow> R (fst st) (fst (snd (f key rt st)))"
  shows "R (fst st) (fst (snd (with_thread i f st)))"
  using assms by (auto simp: with_thread_def same dest: find_thread_Inr split: sum.splits)

lemma then_session_rel:
  assumes "map_of (ap_threads (fst st)) key = Some rt" "\<And>io st. fst (snd (f io st)) = fst st" "\<And>e st. fst (snd (g e st)) = fst st"
  shows "R (fst st) (fst (snd (case session_of env key rt st of (Inl e, st1) \<Rightarrow> g e st1 | (Inr io, st1) \<Rightarrow> f io st1)))"
  using session_of_rel [OF assms(1), of env] assms(2,3) by (auto split: prod.splits sum.splits)

lemma with_session_rel:
  assumes "\<And>key io st. fst (snd (f key io st)) = fst st"
  shows "R (fst st) (fst (snd (with_session env i f st)))"
  unfolding with_session_def by (rule with_thread_rel, rule then_session_rel) (simp_all add: assms)

lemma refresh_rel:
  assumes "map_of (ap_threads (fst st)) key = Some rt"
  shows "R (fst st) (fst (snd (refresh_thread_extensions env key rt st)))"
  using session_of_rel [OF assms, of env]
  by (auto simp: refresh_thread_extensions_def split: prod.splits sum.splits)

lemma then_refresh_rel:
  assumes "map_of (ap_threads (fst st)) key = Some rt"
  shows "R (fst st) (fst (snd (case refresh_thread_extensions env key rt st of (Some e, st1) \<Rightarrow> (x e, st1) | (None, st1) \<Rightarrow> (y, st1))))"
  using refresh_rel [OF assms, of env] by (auto split: prod.splits option.splits)

lemma chat_rel:
  assumes "chat_request env n body st = Some (reply, st')"
  shows "R (fst st) (fst st')"
proof (cases "Option.bind (ae_decode env (20 * 1024 * 1024) body) chat_input_of")
  case None
  with assms show ?thesis by (simp add: chat_request_def same)
next
  case (Some input)
  obtain raw i urls where input: "input = (raw, i, urls)" by (metis surj_pair)
  obtain ap d w where st: "st = (ap, d, w)" by (metis surj_pair)
  show ?thesis
  proof (cases "find_thread ap i")
    case (Inl e)
    with assms Some show ?thesis by (auto simp: chat_request_def input st Let_def same split: option.splits if_splits)
  next
    case (Inr kr)
    obtain key rt where kr: "kr = (key, rt)" by fastforce
    obtain r ap1 s1 where s: "session_of env key rt (ap, unhide_thread (threads_dir ap) (tm_id (tr_metadata rt)) d, w) = (r, ap1, s1)"
      by (metis surj_pair)
    have "R ap ap1"
      using session_of_rel [of "(ap, unhide_thread (threads_dir ap) (tm_id (tr_metadata rt)) d, w)" key rt env]
        find_thread_Inr [OF Inr [unfolded kr]] s by simp
    with assms Some Inr s show ?thesis
      by (auto simp: chat_request_def input st kr Let_def same split: option.splits if_splits sum.splits prod.splits)
  qed
qed

lemma v2_turn_rel:
  assumes "v2_start_turn_request env n i body st = Some (reply, st')"
  shows "R (fst st) (fst st')"
proof (cases "find_thread (fst st) i")
  case (Inl e)
  with assms show ?thesis by (auto simp: v2_start_turn_request_def same split: option.splits if_splits)
next
  case (Inr kr)
  obtain key rt where kr: "kr = (key, rt)" by fastforce
  obtain r ap1 s1 where s: "session_of env key rt st = (r, ap1, s1)" by (metis surj_pair)
  have "R (fst st) ap1" using session_of_rel [OF find_thread_Inr [OF Inr [unfolded kr]], of env] s by simp
  with assms Inr s show ?thesis
    by (auto simp: v2_start_turn_request_def kr Let_def same split: option.splits if_splits sum.splits prod.splits)
qed

lemma install_rel:
  assumes "install_request env i body st = Some (reply, st')"
  shows "R (fst st) (fst st')"
proof (cases "find_thread (fst st) i")
  case (Inl e)
  with assms show ?thesis by (auto simp: install_request_def same split: option.splits)
next
  case (Inr kr)
  obtain key rt where kr: "kr = (key, rt)" by fastforce
  obtain ap d w where st: "st = (ap, d, w)" by (metis surj_pair)
  have "R ap (fst (snd (refresh_thread_extensions env key rt (ap, s))))" for s
    using refresh_rel [of "(ap, s)" key rt env] find_thread_Inr [OF Inr [unfolded kr]] by (simp add: st)
  then have "refresh_thread_extensions env key rt (ap, s) = (x, st1) \<Longrightarrow> R ap (fst st1)" for s x st1 by (metis snd_conv)
  with assms Inr show ?thesis
    by (auto simp: install_request_def kr st Let_def same split: option.splits if_splits sum.splits prod.splits)
qed

lemma steer_rel: "R (fst st) (fst (snd (steer_request env i expected body st)))"
proof -
  have "R (fst st) (fst (snd (with_session env i (\<lambda>key io (ap, s).
      if expected = [] then (Failed 400 TurnIdRequired, ap, s)
      else case io_steer (ae_io env) io expected p s of
          (Inl e, s1) \<Rightarrow> (Failed 409 (SessionSays e), ap, s1)
        | (Inr turn, s1) \<Rightarrow> (Replied 202 (DocText ''turn_id'' turn), ap, s1)) st)))" for p
    by (rule with_session_rel) (auto split: prod.splits sum.splits)
  then show ?thesis by (simp add: steer_request_def same split: option.splits)
qed

lemma approval_rel: "R (fst st) (fst (snd (approval_request_handler env cid body st)))"
  using with_session_rel [of "\<lambda>_. finish_op (\<lambda>io. respond_exec_approval (ae_io env) io r)" for r]
  by (simp add: approval_request_handler_def same split: option.splits prod.splits)

lemma elicitation_rel: "R (fst st) (fst (snd (elicitation_request env eid body st)))"
  using with_session_rel [of "\<lambda>_. finish_op (\<lambda>io. respond_elicitation (ae_io env) io r)" for r]
  by (simp add: elicitation_request_def same split: option.splits prod.splits)

lemma set_enabled_rel: "R (fst st) (fst (snd (set_enabled_request env i name body st)))"
proof -
  have "R (fst st) (fst (snd (with_thread i (\<lambda>key rt (ap, (d, w)).
      case set_plugin_enabled (ae_ext env) (ap_root ap) name enabled d of
        (Some e, d1) \<Rightarrow> (Failed 500 (ExtensionsFail e), ap, (d1, w))
      | (None, d1) \<Rightarrow>
          (case session_of env key rt (ap, (d1, w)) of
             (Inl e, st1) \<Rightarrow> (Failed 409 e, st1)
           | (Inr io, st1) \<Rightarrow> finish_op (io_refresh_extensions (ae_io env)) io st1)) st)))" for enabled
  proof (rule with_thread_rel)
    fix key rt
    assume m: "map_of (ap_threads (fst st)) key = Some rt"
    obtain ap d w where st: "st = (ap, d, w)" by (metis surj_pair)
    obtain x d1 where x: "set_plugin_enabled (ae_ext env) (ap_root ap) name enabled d = (x, d1)" by fastforce
    from m have "map_of (ap_threads (fst (ap, d1, w))) key = Some rt" by (simp add: st)
    from then_session_rel [OF this, where f = "finish_op (io_refresh_extensions (ae_io env))" and g = "\<lambda>e st1. (Failed 409 e, st1)" and env = env]
    show "R (fst st) (fst (snd ((\<lambda>(ap, (d, w)).
      case set_plugin_enabled (ae_ext env) (ap_root ap) name enabled d of
        (Some e, d1) \<Rightarrow> (Failed 500 (ExtensionsFail e), ap, (d1, w))
      | (None, d1) \<Rightarrow>
          (case session_of env key rt (ap, (d1, w)) of
             (Inl e, st1) \<Rightarrow> (Failed 409 e, st1)
           | (Inr io, st1) \<Rightarrow> finish_op (io_refresh_extensions (ae_io env)) io st1)) st)))"
      by (cases x) (simp_all add: st x same)
  qed
  then show ?thesis by (simp add: set_enabled_request_def same split: option.splits)
qed

lemma uninstall_rel: "R (fst st) (fst (snd (uninstall_request env i name st)))"
  unfolding uninstall_request_def
proof (rule with_thread_rel)
  fix key rt
  assume m: "map_of (ap_threads (fst st)) key = Some rt"
  obtain ap d w where st: "st = (ap, d, w)" by (metis surj_pair)
  obtain x d1 where x: "uninstall_plugin (ae_ext env) (ap_root ap) name d = (x, d1)" by fastforce
  from m have "map_of (ap_threads (fst (ap, d1, w))) key = Some rt" by (simp add: st)
  from then_refresh_rel [OF this, where env = env and x = "Failed 409" and y = "Replied 204 NoBody"]
  show "R (fst st) (fst (snd ((\<lambda>(ap, (d, w)).
     case uninstall_plugin (ae_ext env) (ap_root ap) name d of
       (Some e, d1) \<Rightarrow> (Failed 400 (ExtensionsFail e), ap, (d1, w))
     | (None, d1) \<Rightarrow>
         (case refresh_thread_extensions env key rt (ap, (d1, w)) of
            (Some e, st1) \<Rightarrow> (Failed 409 e, st1)
          | (None, st1) \<Rightarrow> (Replied 204 NoBody, st1))) st)))"
    by (cases x) (simp_all add: st x same)
qed

lemma v2_steer_rel: "R (fst st) (fst (snd (v2_steer_request env i turn body st)))"
proof -
  have "R (fst st) (fst (snd (with_session env i (\<lambda>key io (ap, s).
          case io_steer (ae_io env) io turn t s of
            (Inl e, s1) \<Rightarrow> (Failed 409 (SessionSays e), ap, s1)
          | (Inr t, s1) \<Rightarrow> (Replied 202 (DocText ''turnId'' t), ap, s1)) st)))" for t
    by (rule with_session_rel) (auto split: prod.splits sum.splits)
  then show ?thesis by (simp add: v2_steer_request_def same split: option.splits)
qed

lemma v2_interrupt_rel: "R (fst st) (fst (snd (v2_interrupt_request env i turn st)))"
  unfolding v2_interrupt_request_def by (rule with_session_rel) (auto split: prod.splits option.splits)

lemma inventory_rel: "R (fst st) (fst (snd (inventory_request env i st)))"
  unfolding inventory_request_def by (rule with_session_rel) simp

lemma session_ops_rel:
  "R (fst st) (fst (snd (refresh_extensions_request env i st)))" "R (fst st) (fst (snd (clean_terminals_request env i st)))"
  "R (fst st) (fst (snd (interrupt_request env i st)))"
  unfolding refresh_extensions_request_def clean_terminals_request_def interrupt_request_def
  by (rule with_session_rel; simp)+

lemma reading_rel:
  "R (fst st) (fst (snd (marketplace_request env i st)))" "R (fst st) (fst (snd (history_request env i st)))"
  "R (fst st) (fst (snd (flow_request env i st)))" "R (fst st) (fst (snd (select_workspace_request env st)))"
  "R (fst st) (fst (snd (v2_list_request env st)))" "R (fst st) (fst (snd (v2_read_request env i q st)))"
  "R (fst st) (fst (snd (v2_events_request env i from st)))"
  by (auto simp: marketplace_request_def history_request_def flow_request_def select_workspace_request_def v2_list_request_def
      v2_read_request_def v2_events_request_def same intro!: with_thread_rel split: prod.splits sum.splits option.splits)

lemma quiet_rel:
  assumes "serve env n r st = Some (reply, st')" "quiet_request r"
  shows "R (fst st) (fst st')"
proof -
  have some: "Some x = Some (reply, st') \<Longrightarrow> R (fst st) (fst (snd x)) \<Longrightarrow> R (fst st) (fst st')" for x by auto
  note rels = steer_rel approval_rel elicitation_rel set_enabled_rel uninstall_rel v2_steer_rel v2_interrupt_rel inventory_rel
    session_ops_rel reading_rel
  from assms(1) show ?thesis
    by (cases r) (use assms(2) in \<open>auto simp: serve_def dest: chat_rel v2_turn_rel install_rel intro: some rels\<close>)
qed

end
subsection \<open>The threads\<close>

text \<open>Threads are entered under their identifiers, once, and the default thread is always among them.\<close>

definition threads_ok :: "app_state \<Rightarrow> bool" where
  "threads_ok ap \<longleftrightarrow> distinct (map fst (ap_threads ap)) \<and> map_of (ap_threads ap) default_thread_id \<noteq> None \<and>
     (\<forall>k rt. map_of (ap_threads ap) k = Some rt \<longrightarrow> tm_id (tr_metadata rt) = k)"

text \<open>What may become of a thread that is not removed: its session is started.\<close>

definition later_runtime :: "thread_runtime \<Rightarrow> thread_runtime \<Rightarrow> bool" where
  "later_runtime rt rt' \<longleftrightarrow> rt' = rt \<or> (tr_io rt = None \<and> (\<exists>io. rt' = rt\<lparr>tr_io := Some io\<rparr>))"

definition threads_kept :: "(string \<Rightarrow> bool) \<Rightarrow> app_state \<Rightarrow> app_state \<Rightarrow> bool" where
  "threads_kept X ap ap' \<longleftrightarrow> (threads_ok ap \<longrightarrow> threads_ok ap') \<and>
     (\<forall>k rt. map_of (ap_threads ap) k = Some rt \<longrightarrow> \<not> X k \<longrightarrow>
        (\<exists>rt'. map_of (ap_threads ap') k = Some rt' \<and> later_runtime rt rt'))"

lemma later_runtime_refl [simp]: "later_runtime rt rt"
  by (simp add: later_runtime_def)

lemma later_runtime_trans: "later_runtime a b \<Longrightarrow> later_runtime b c \<Longrightarrow> later_runtime a c"
  by (auto simp: later_runtime_def)

lemma threads_kept_refl [simp]: "threads_kept X ap ap"
  by (simp add: threads_kept_def)

lemma threads_keptI:
  "(threads_ok a \<Longrightarrow> threads_ok b) \<Longrightarrow>
    (\<And>k rt. map_of (ap_threads a) k = Some rt \<Longrightarrow> \<not> X k \<Longrightarrow> \<exists>rt'. map_of (ap_threads b) k = Some rt' \<and> later_runtime rt rt') \<Longrightarrow>
    threads_kept X a b"
  unfolding threads_kept_def by blast

lemma threads_keptD:
  assumes "threads_kept X a b"
  shows "threads_ok a \<Longrightarrow> threads_ok b"
    "map_of (ap_threads a) k = Some rt \<Longrightarrow> \<not> X k \<Longrightarrow> \<exists>rt'. map_of (ap_threads b) k = Some rt' \<and> later_runtime rt rt'"
  using assms unfolding threads_kept_def by blast+

lemma threads_kept_trans:
  assumes "threads_kept X a b" "threads_kept X b c"
  shows "threads_kept X a c"
proof (rule threads_keptI)
  show "threads_ok a \<Longrightarrow> threads_ok c" using assms threads_keptD(1) by blast
  fix k rt
  assume "map_of (ap_threads a) k = Some rt" "\<not> X k"
  with threads_keptD(2) [OF assms(1)] obtain rt1 where "map_of (ap_threads b) k = Some rt1" "later_runtime rt rt1" by blast
  with threads_keptD(2) [OF assms(2), of k rt1] \<open>\<not> X k\<close> later_runtime_trans
  show "\<exists>rt'. map_of (ap_threads c) k = Some rt' \<and> later_runtime rt rt'" by blast
qed

lemma threads_kept_weaken: "threads_kept X a b \<Longrightarrow> (\<And>k. X k \<Longrightarrow> Y k) \<Longrightarrow> threads_kept Y a b"
  unfolding threads_kept_def by blast

lemma threads_logins [simp]:
  "threads_ok (ap\<lparr>ap_logins := l\<rparr>) \<longleftrightarrow> threads_ok ap"
  "threads_kept X a (b\<lparr>ap_logins := l\<rparr>) \<longleftrightarrow> threads_kept X a b" "threads_kept X (a\<lparr>ap_logins := l\<rparr>) b \<longleftrightarrow> threads_kept X a b"
  by (simp_all add: threads_ok_def threads_kept_def)

lemma map_of_set_io:
  "map_of (ap_threads (set_io key io ap)) k =
     (if k = key then map_option (\<lambda>rt. rt\<lparr>tr_io := io\<rparr>) (map_of (ap_threads ap) key) else map_of (ap_threads ap) k)"
  by (simp add: set_io_def map_of_map_entry split: option.splits)

lemma map_of_enter:
  "map_of (ap_threads (enter_thread m ap)) k = (if k = tm_id m then Some (new_thread m) else map_of (ap_threads ap) k)"
  by (simp add: enter_thread_def update_conv')

lemma keys_map_entry: "map fst (AList.map_entry k f al) = map fst al"
  by (induction al) auto

lemma threads_okD:
  assumes "threads_ok ap"
  shows "distinct (map fst (ap_threads ap))" "map_of (ap_threads ap) default_thread_id \<noteq> None"
    "map_of (ap_threads ap) k = Some rt \<Longrightarrow> tm_id (tr_metadata rt) = k"
  using assms unfolding threads_ok_def by blast+

lemma threads_ok_set_io:
  assumes "threads_ok ap"
  shows "threads_ok (set_io key io ap)"
  unfolding threads_ok_def
proof (intro conjI allI impI)
  show "distinct (map fst (ap_threads (set_io key io ap)))"
    using threads_okD(1) [OF assms] by (simp add: set_io_def keys_map_entry)
  show "map_of (ap_threads (set_io key io ap)) default_thread_id \<noteq> None"
    using threads_okD(2) [OF assms] unfolding map_of_set_io by auto
  fix k rt
  assume "map_of (ap_threads (set_io key io ap)) k = Some rt"
  then obtain rt0 where "map_of (ap_threads ap) k = Some rt0" "tr_metadata rt = tr_metadata rt0"
    unfolding map_of_set_io by (auto split: if_splits)
  with threads_okD(3) [OF assms] show "tm_id (tr_metadata rt) = k" by metis
qed

lemma threads_ok_enter:
  assumes "threads_ok ap"
  shows "threads_ok (enter_thread m ap)"
  unfolding threads_ok_def
proof (intro conjI allI impI)
  show "distinct (map fst (ap_threads (enter_thread m ap)))"
    using threads_okD(1) [OF assms] by (simp add: enter_thread_def distinct_update)
  show "map_of (ap_threads (enter_thread m ap)) default_thread_id \<noteq> None"
    using threads_okD(2) [OF assms] unfolding map_of_enter by auto
  fix k rt
  assume "map_of (ap_threads (enter_thread m ap)) k = Some rt"
  then show "tm_id (tr_metadata rt) = k"
    using threads_okD(3) [OF assms] unfolding map_of_enter by (auto simp: new_thread_def split: if_splits)
qed

lemma lookup_filtered:
  assumes "distinct (map fst threads)"
  shows "map_of (filter hit threads) key = Option.bind (map_of threads key) (\<lambda>rt. if hit (key, rt) then Some rt else None)"
  using assms
proof (induction threads)
  case (Cons t threads)
  then have "fst t \<notin> fst ` set (filter hit threads)" by auto
  then have "map_of (filter hit threads) (fst t) = None" unfolding map_of_eq_None_iff by simp
  with Cons show ?case by (cases t) auto
qed simp

lemma threads_kept_started:
  "map_of (ap_threads ap) key = Some rt \<Longrightarrow> tr_io rt = None \<Longrightarrow> threads_kept X ap (set_io key (Some io) ap)"
  by (auto simp: threads_kept_def threads_ok_set_io map_of_set_io later_runtime_def)

lemma threads_kept_enter: "map_of (ap_threads ap) (tm_id m) = None \<or> X (tm_id m) \<Longrightarrow> threads_kept X ap (enter_thread m ap)"
  by (auto simp: threads_kept_def threads_ok_enter map_of_enter)

lemma threads_kept_set_io: "X key \<Longrightarrow> threads_kept X ap (set_io key io ap)"
  by (auto simp: threads_kept_def threads_ok_set_io map_of_set_io)

lemma threads_kept_filter:
  assumes "\<And>k rt. map_of (ap_threads ap) k = Some rt \<Longrightarrow> \<not> P (k, rt) \<Longrightarrow> X k" "\<And>rt. P (default_thread_id, rt)" "threads_ok ap"
  shows "threads_kept X ap (ap\<lparr>ap_threads := filter P (ap_threads ap)\<rparr>)"
proof -
  note m = lookup_filtered [OF threads_okD(1) [OF assms(3)], of P]
  have "threads_ok (ap\<lparr>ap_threads := filter P (ap_threads ap)\<rparr>)"
    unfolding threads_ok_def
  proof (intro conjI allI impI)
    show "distinct (map fst (ap_threads (ap\<lparr>ap_threads := filter P (ap_threads ap)\<rparr>)))"
      using threads_okD(1) [OF assms(3)] by (simp add: distinct_map_filter)
    show "map_of (ap_threads (ap\<lparr>ap_threads := filter P (ap_threads ap)\<rparr>)) default_thread_id \<noteq> None"
      using threads_okD(2) [OF assms(3)] assms(2) by (auto simp: m)
    fix k rt
    assume "map_of (ap_threads (ap\<lparr>ap_threads := filter P (ap_threads ap)\<rparr>)) k = Some rt"
    then have "map_of (ap_threads ap) k = Some rt" by (auto simp: m bind_eq_Some_conv split: if_splits)
    then show "tm_id (tr_metadata rt) = k" by (rule threads_okD(3) [OF assms(3)])
  qed
  moreover have "map_of (ap_threads ap) k = Some rt \<Longrightarrow> \<not> X k \<Longrightarrow> map_of (filter P (ap_threads ap)) k = Some rt" for k rt
    using assms(1) by (auto simp: m)
  ultimately show ?thesis by (auto simp: threads_kept_def)
qed

interpretation kept: request_relation "threads_kept X" for X
  by unfold_locales (auto intro: threads_kept_started)

definition removes :: "'w app_env \<Rightarrow> app_request \<Rightarrow> app_state \<Rightarrow> string \<Rightarrow> bool" where
  "removes env r ap k =
     (case r of
        RemoveThread i \<Rightarrow> k = i
      | RemoveWorkspace body \<Rightarrow>
          (case (Option.bind (ae_decode env 16384 body) (string_field ''workspace_root''), map_of (ap_threads ap) k) of
             (Some t, Some rt) \<Rightarrow> same_workspace (tm_workspace_root (tr_metadata rt)) (trim_space t)
           | _ \<Rightarrow> False)
      | _ \<Rightarrow> False)"

definition new_id :: "app_reply \<Rightarrow> string option" where
  "new_id reply = (case reply of
       Replied c (DocMetadata m) \<Rightarrow> Some (tm_id m)
     | Replied c (DocV2Thread t) \<Rightarrow> if c = 201 then Some (vt_id t) else None
     | _ \<Rightarrow> None)"

lemma v2_object_id: "v2_thread_object env rt b st = Inr t \<Longrightarrow> vt_id t = tm_id (tr_metadata rt)"
  by (auto simp: v2_thread_object_def Let_def split: prod.splits if_splits sum.splits)

lemma list_kept: "threads_kept X (fst st) (fst (snd (list_threads_request env st)))"
proof -
  have "threads_kept X ap (fold (\<lambda>m ap. if map_of (ap_threads ap) (tm_id m) = None then enter_thread m ap else ap) ms ap)" for ms ap
  proof (induction ms arbitrary: ap)
    case (Cons m ms)
    have "threads_kept X ap (if map_of (ap_threads ap) (tm_id m) = None then enter_thread m ap else ap)"
      by (simp add: threads_kept_enter)
    from threads_kept_trans [OF this Cons.IH] show ?case by simp
  qed simp
  then show ?thesis by (cases st) (simp add: list_threads_request_def Let_def split: sum.splits)
qed

lemma start_kept:
  assumes "start_thread_request env body st = (reply, st')"
  shows "threads_kept (\<lambda>k. new_id reply = Some k) (fst st) (fst st')"
  using assms by (cases st)
    (auto simp: start_thread_request_def new_id_def intro!: threads_kept_enter split: option.splits prod.splits sum.splits)

lemma v2_start_kept:
  assumes "v2_start_thread_request env body st = (reply, st')"
  shows "threads_kept (\<lambda>k. new_id reply = Some k) (fst st) (fst st')"
proof -
  have "v2_thread_object env (new_thread m) False (ap, s) \<noteq> Inl e" for m ap s e
    by (simp add: v2_thread_object_def Let_def)
  with assms show ?thesis by (cases st)
    (auto simp: v2_start_thread_request_def new_id_def new_thread_def Let_def dest!: v2_object_id
      intro!: threads_kept_enter split: option.splits prod.splits sum.splits)
qed

lemma fork_kept:
  assumes "fork_thread_request env i body st = (reply, st')"
  shows "threads_kept (\<lambda>k. new_id reply = Some k) (fst st) (fst st')"
  using assms by (cases st)
    (auto simp: fork_thread_request_def with_thread_def new_id_def Let_def intro!: threads_kept_enter
      split: option.splits prod.splits sum.splits if_splits)

lemma remove_kept:
  assumes "remove_thread_request env i st = (reply, st')"
  shows "threads_kept (\<lambda>k. k = i) (fst st) (fst st')"
proof -
  have del: "AList.delete i xs = filter (\<lambda>t. fst t \<noteq> i) xs" for xs :: "(string \<times> thread_runtime) list"
    by (auto simp: AList.delete_eq intro!: filter_cong)
  have "threads_kept (\<lambda>k. k = i) ap (ap\<lparr>ap_threads := AList.delete i (ap_threads ap)\<rparr>)" if "i \<noteq> default_thread_id" for ap
  proof (cases "threads_ok ap")
    case True
    then show ?thesis unfolding del using that by (intro threads_kept_filter) auto
  next
    case False
    then show ?thesis by (auto simp: threads_kept_def delete_conv')
  qed
  with assms show ?thesis by (cases st)
    (auto simp: remove_thread_request_def Let_def intro!: threads_kept_set_io split: option.splits prod.splits if_splits)
qed

lemma remove_workspace_kept:
  assumes "remove_workspace_request env body st = (reply, st')" "threads_ok (fst st)"
  shows "threads_kept (removes env (RemoveWorkspace body) (fst st)) (fst st) (fst st')"
proof -
  obtain ap d w where st: "st = (ap, d, w)" by (metis surj_pair)
  show ?thesis
  proof (cases "Option.bind (ae_decode env 16384 body) (string_field ''workspace_root'')")
    case None
    with assms show ?thesis by (auto simp: remove_workspace_request_def st)
  next
    case (Some t)
    let ?X = "removes env (RemoveWorkspace body) ap"
    define hit where "hit = (\<lambda>(key :: string, rt :: thread_runtime). same_workspace (tm_workspace_root (tr_metadata rt)) (trim_space t))"
    define ap1 where "ap1 = ap\<lparr>ap_threads := filter (\<lambda>t. fst t = default_thread_id \<or> \<not> hit t) (ap_threads ap)\<rparr>"
    have gone: "?X k \<longleftrightarrow> (\<exists>rt. map_of (ap_threads ap) k = Some rt \<and> hit (k, rt))" for k
      by (auto simp: removes_def Some hit_def split: option.splits)
    have one: "threads_kept ?X ap ap1"
      unfolding ap1_def using assms(2) by (intro threads_kept_filter) (auto simp: gone st)
    have two: "threads_kept ?X ap (set_io default_thread_id io ap1)"
      if "list_ex (\<lambda>t. fst t = default_thread_id \<and> hit t) (ap_threads ap)" for io
    proof -
      from that obtain rt where "(default_thread_id, rt) \<in> set (ap_threads ap)" "hit (default_thread_id, rt)"
        by (auto simp: list_ex_iff)
      with threads_okD(1) [OF assms(2)] have "?X default_thread_id" by (auto simp: gone st)
      from threads_kept_trans [OF one threads_kept_set_io [where X = ?X and key = default_thread_id, OF this]] show ?thesis .
    qed
    from assms(1) show ?thesis
      unfolding remove_workspace_request_def Some st Let_def hit_def [symmetric] ap1_def [symmetric] option.case prod.case fst_conv
      using one two by (auto split: option.splits prod.splits if_splits)
  qed
qed

lemma start_oauth_kept: "threads_kept X (fst st) (fst (snd (start_oauth_request env i server host tls st)))"
  unfolding start_oauth_request_def
proof (rule kept.with_thread_rel)
  fix key rt
  assume m: "map_of (ap_threads (fst st)) key = Some rt"
  obtain r ap d w where s: "session_of env key rt st = (r, ap, d, w)" by (metis surj_pair)
  from kept.session_of_rel [OF m, where env = env and X = X] s have k: "threads_kept X (fst st) ap" by simp
  show "threads_kept X (fst st) (fst (snd (case session_of env key rt st of
       (Inl e, st1) \<Rightarrow> (Failed 409 e, st1)
     | (Inr io, (ap, (d, w))) \<Rightarrow>
       (let statuses = xs_statuses (ie_extensions (ae_io env) (io_handle io) (d, w));
            shown = (case map_of statuses server of None \<Rightarrow> [] | Some st \<Rightarrow> trim_space (st_source_path st))
        in case load_catalog (ae_ext env) d (ap_root ap) of
             (_, Some e) \<Rightarrow> (Failed 500 (ExtensionsFail e), ap, (d, w))
           | (ct, None) \<Rightarrow>
               (let url = (case find (\<lambda>c. ms_name c = server) (ct_servers ct) of None \<Rightarrow> shown | Some c \<Rightarrow> ms_url c) in
                if url = [] then (Failed 400 UrlRequired, ap, (d, w))
                else case begin_login (ae_web env) server url (ap_root ap) (callback_url host tls) w of
                    (Inl e, w1) \<Rightarrow> (Failed 502 (OAuthFails e), ap, (d, w1))
                  | (Inr lg, w1) \<Rightarrow>
                      (Replied 200 (DocLogin (lg_authorize_url lg) (lg_state lg)),
                       ap\<lparr>ap_logins := AList.update (lg_state lg) (lg, tm_id (tr_metadata rt)) (ap_logins ap)\<rparr>, (d, w1)))))))"
    unfolding s Let_def using k by (auto split: sum.splits prod.splits option.splits)
qed

lemma complete_oauth_kept: "threads_kept X (fst st) (fst (snd (complete_oauth_request env state code st)))"
proof -
  obtain ap s where st: "st = (ap, s)" by (cases st)
  have k: "threads_kept X ap (fst (snd (refresh_thread_extensions env key rt (ap\<lparr>ap_logins := l\<rparr>, s1))))"
    if "find_thread (ap\<lparr>ap_logins := l\<rparr>) i = Inr (key, rt)" for key rt l i s1
    using kept.refresh_rel [of "(ap\<lparr>ap_logins := l\<rparr>, s1)" key rt X env] find_thread_Inr [OF that] by simp
  then show ?thesis
    by (auto simp: complete_oauth_request_def st Let_def split: option.splits prod.splits sum.splits)
qed

lemma serve_threads_kept:
  assumes "serve env n r st = Some (reply, st')" "threads_ok (fst st)"
  shows "threads_kept (\<lambda>k. removes env r (fst st) k \<or> new_id reply = Some k) (fst st) (fst st')"
proof (cases "quiet_request r")
  case True
  with assms(1) show ?thesis by (rule kept.quiet_rel)
next
  case False
  have state: "threads_kept X (fst st) (fst (snd x)) \<Longrightarrow> x = (reply, st') \<Longrightarrow> threads_kept X (fst st) (fst st')" for X x by auto
  from assms(1) False show ?thesis
  proof (cases r)
    case (OpenThread b)
    with assms(1) show ?thesis by (auto simp: serve_def dest!: start_kept elim: threads_kept_weaken)
  next
    case (V2StartThread b)
    with assms(1) show ?thesis by (auto simp: serve_def dest!: v2_start_kept elim: threads_kept_weaken)
  next
    case (ForkThread i b)
    with assms(1) show ?thesis by (auto simp: serve_def dest!: fork_kept elim: threads_kept_weaken)
  next
    case (RemoveThread i)
    with assms(1) show ?thesis by (auto simp: serve_def removes_def dest!: remove_kept elim: threads_kept_weaken)
  next
    case (RemoveWorkspace b)
    with assms have "remove_workspace_request env b st = (reply, st')" by (simp add: serve_def)
    from remove_workspace_kept [OF this assms(2)] show ?thesis unfolding RemoveWorkspace by (rule threads_kept_weaken) simp
  qed (use assms(1) in \<open>auto simp: serve_def intro: state list_kept start_oauth_kept complete_oauth_kept\<close>)
qed

fun serve_all :: "'w app_env \<Rightarrow> (nat \<times> app_request) list \<Rightarrow> app_state \<times> 'w world \<Rightarrow> (app_reply list \<times> app_state \<times> 'w world) option" where
  "serve_all env [] st = Some ([], st)"
| "serve_all env ((n, r) # rs) st =
     (case serve env n r st of
        None \<Rightarrow> None
      | Some (reply, st1) \<Rightarrow> map_option (\<lambda>(replies, st2). (reply # replies, st2)) (serve_all env rs st1))"

lemma serve_all_ok: "serve_all env rs st = Some (replies, st') \<Longrightarrow> threads_ok (fst st) \<Longrightarrow> threads_ok (fst st')"
proof (induction env rs st arbitrary: replies rule: serve_all.induct)
  case (2 env n r rs st)
  then obtain reply st1 replies' where s: "serve env n r st = Some (reply, st1)" "serve_all env rs st1 = Some (replies', st')"
    by (auto split: option.splits prod.splits)
  from threads_keptD(1) [OF serve_threads_kept [OF s(1) "2.prems"(2)] "2.prems"(2)] have "threads_ok (fst st1)" .
  from "2.IH" [OF s(1) refl s(2) this] show ?case .
qed simp

lemma new_app_handler_ok: "new_app_handler env d = Some ap \<Longrightarrow> threads_ok ap"
proof -
  assume new: "new_app_handler env d = Some ap"
  have one: "threads_ok (enter_thread m \<lparr>ap_root = r, ap_threads = [], ap_logins = []\<rparr>)" if "tm_id m = default_thread_id" for m r
    using that by (simp add: threads_ok_def enter_thread_def new_thread_def)
  have all: "threads_ok ap0 \<Longrightarrow> threads_ok (fold enter_thread ms ap0)" for ms ap0
    by (induction ms arbitrary: ap0) (auto intro: threads_ok_enter)
  from new show ?thesis by (auto simp: new_app_handler_def Let_def intro!: all one split: sum.splits)
qed


subsection \<open>The logins\<close>

lemma frame_logins [simp]: "ap_logins (set_io key io ap) = ap_logins ap" "ap_logins (enter_thread m ap) = ap_logins ap"
  by (simp_all add: set_io_def enter_thread_def)

interpretation logins: request_relation "\<lambda>a b. ap_logins b = ap_logins a"
  by unfold_locales simp_all

lemma list_logins: "ap_logins (fst (snd (list_threads_request env st))) = ap_logins (fst st)"
proof -
  have "ap_logins (fold (\<lambda>m ap. if map_of (ap_threads ap) (tm_id m) = None then enter_thread m ap else ap) ms ap) = ap_logins ap" for ms ap
    by (induction ms arbitrary: ap) simp_all
  then show ?thesis by (cases st) (simp add: list_threads_request_def Let_def split: sum.splits)
qed

lemma creating_logins:
  "ap_logins (fst (snd (start_thread_request env body st))) = ap_logins (fst st)"
  "ap_logins (fst (snd (v2_start_thread_request env body st))) = ap_logins (fst st)"
  "ap_logins (fst (snd (fork_thread_request env i body st))) = ap_logins (fst st)"
  by (cases st; auto simp: start_thread_request_def v2_start_thread_request_def fork_thread_request_def with_thread_def Let_def
      split: option.splits prod.splits sum.splits if_splits)+

lemma removing_logins:
  "ap_logins (fst (snd (remove_thread_request env i st))) = ap_logins (fst st)"
  "ap_logins (fst (snd (remove_workspace_request env body st))) = ap_logins (fst st)"
  by (cases st; auto simp: remove_thread_request_def remove_workspace_request_def Let_def
      split: option.splits prod.splits sum.splits if_splits)+

lemma start_oauth_logins:
  assumes "start_oauth_request env i server host tls st = (reply, st')"
  shows "ap_logins (fst st') = ap_logins (fst st) \<or>
    (\<exists>url x. reply = Replied 200 (DocLogin url x) \<and>
      (\<forall>y. y \<noteq> x \<longrightarrow> map_of (ap_logins (fst st')) y = map_of (ap_logins (fst st)) y))"
proof (cases "find_thread (fst st) i")
  case (Inl e)
  with assms show ?thesis by (auto simp: start_oauth_request_def with_thread_def)
next
  case (Inr kr)
  obtain key rt where kr: "kr = (key, rt)" by fastforce
  obtain r ap d w where s: "session_of env key rt st = (r, ap, d, w)" by (metis surj_pair)
  from logins.session_of_rel [OF find_thread_Inr [OF Inr [unfolded kr]], of env] s have "ap_logins ap = ap_logins (fst st)" by simp
  then show ?thesis
    using assms unfolding start_oauth_request_def with_thread_def Inr kr sum.case prod.case s Let_def
    by (auto simp: update_conv' split: sum.splits prod.splits option.splits if_splits)
qed

lemma complete_oauth_logins:
  "ap_logins (fst (snd (complete_oauth_request env x code st))) = AList.delete x (ap_logins (fst st))"
proof -
  obtain ap s where st: "st = (ap, s)" by (cases st)
  have k: "ap_logins (fst (snd (refresh_thread_extensions env key rt (ap\<lparr>ap_logins := l\<rparr>, s1)))) = l"
    if "find_thread (ap\<lparr>ap_logins := l\<rparr>) i = Inr (key, rt)" for key rt l i s1
    using logins.refresh_rel [of "(ap\<lparr>ap_logins := l\<rparr>, s1)" key rt env] find_thread_Inr [OF that] by simp
  have "map_of (ap_logins ap) x = None \<Longrightarrow> AList.delete x (ap_logins ap) = ap_logins ap"
    by (simp add: delete_id map_of_eq_None_iff)
  with k show ?thesis
    by (auto simp: complete_oauth_request_def st Let_def split: option.splits prod.splits sum.splits)
qed

lemma serve_logins:
  assumes "serve env n r st = Some (reply, st')" "map_of (ap_logins (fst st)) x = None" "\<And>url. reply \<noteq> Replied 200 (DocLogin url x)"
  shows "map_of (ap_logins (fst st')) x = None"
proof (cases "quiet_request r")
  case True
  with assms(2) logins.quiet_rel [OF assms(1)] show ?thesis by simp
next
  case False
  have same: "ap_logins (fst (snd y)) = ap_logins (fst st) \<Longrightarrow> y = (reply, st') \<Longrightarrow> ?thesis" for y using assms(2) by auto
  show ?thesis
  proof (cases r)
    case (StartOAuth i server host tls)
    with assms(1) have "start_oauth_request env i server host tls st = (reply, st')" by (simp add: serve_def)
    from start_oauth_logins [OF this] assms(2,3) show ?thesis by metis
  next
    case (CompleteOAuth y code)
    with assms(1) complete_oauth_logins [of env y code st] assms(2) show ?thesis by (simp add: serve_def delete_conv')
  qed (use assms(1) False in \<open>auto simp: serve_def intro: same list_logins creating_logins removing_logins\<close>)
qed

lemma serve_all_logins:
  "serve_all env rs st = Some (replies, st') \<Longrightarrow> map_of (ap_logins (fst st)) x = None \<Longrightarrow>
    (\<And>url. Replied 200 (DocLogin url x) \<notin> set replies) \<Longrightarrow> map_of (ap_logins (fst st')) x = None"
proof (induction env rs st arbitrary: replies rule: serve_all.induct)
  case (2 env n r rs st)
  then obtain reply st1 replies' where s: "serve env n r st = Some (reply, st1)" "serve_all env rs st1 = Some (replies', st')"
    "replies = reply # replies'"
    by (auto split: option.splits prod.splits)
  have "map_of (ap_logins (fst st1)) x = None"
    by (rule serve_logins [OF s(1) "2.prems"(2)]) (use "2.prems"(3) s(3) in auto)
  with "2.IH" [OF s(1) refl s(2)] "2.prems"(3) s(3) show ?case by auto
qed simp

text \<open>
  Property C11. A login is used once: after the callback of the authorization server was served for a state, whatever its outcome, and
  any further requests, none of which starts a login with the same state, another callback for it is refused and changes nothing. In
  particular no second code is exchanged.
\<close>

theorem oauth_login_used_once:
  assumes "serve env n (CompleteOAuth x code) st = Some (first, st1)" "serve_all env rs st1 = Some (replies, st2)"
    and "\<And>url. Replied 200 (DocLogin url x) \<notin> set replies"
  shows "serve env k (CompleteOAuth x code') st2 = Some (Failed 400 UnknownLogin, st2)"
proof -
  have "map_of (ap_logins (fst st1)) x = None"
    using assms(1) complete_oauth_logins [of env x code st] by (simp add: serve_def delete_conv')
  from serve_all_logins [OF assms(2) this assms(3)] show ?thesis
    by (cases st2) (simp add: serve_def complete_oauth_request_def)
qed

subsection \<open>A small server\<close>

definition sample_io_env :: "unit io_env" where
  "sample_io_env = \<lparr>ie_session = sample_store_env, ie_spawn = (\<lambda>_ s. (0, s)), ie_offer = (\<lambda>_ _ _ s. (Taken, s)),
     ie_admission = (\<lambda>_ _ s. (WaitStopped, s)), ie_result = (\<lambda>_ _ s. (Inr None, s)), ie_event = (\<lambda>_ s. (Inr None, s)),
     ie_done = (\<lambda>_ s. (None, s)), ie_extensions = (\<lambda>_ _. sample_ext []), ie_active = (\<lambda>_ _. []), ie_now_text = (\<lambda>_. ''t'')\<rparr>"

definition sample_app_env :: "unit app_env" where
  "sample_app_env = \<lparr>ae_io = sample_io_env, ae_decode = (\<lambda>_ b. Some (JObj [])), ae_write = (\<lambda>_ s. (None, s)),
     ae_choose = (\<lambda>s. (Inr None, s)), ae_depth = 0\<rparr>"

definition sample_home :: app_state where
  "sample_home = \<lparr>ap_root = ''/w'', ap_threads = [(default_thread_id, new_thread \<lparr>tm_id = default_thread_id,
     tm_workspace_root = ''/w'', tm_working_directory = ''/w'', tm_created_at_ms = 0, tm_title = []\<rparr>)], ap_logins = []\<rparr>"

lemma sample_started: "new_app_handler sample_app_env sample_store = Some sample_home"
  by code_simp

lemma sample_fork_removed:
  "(case fork_thread_request sample_app_env [] [] (sample_home, sample_store, ()) of
     (reply, st) \<Rightarrow> (case remove_thread_request sample_app_env (tm_id sample_thread) st of
        (reply', ap, s) \<Rightarrow> reply = Replied 201 (DocMetadata sample_thread) \<and> reply' = Replied 204 NoBody \<and> ap = sample_home))"
  by code_simp


definition sample_pending :: app_state where
  "sample_pending = sample_home\<lparr>ap_logins := [(''s'', (\<lparr>lg_server_name = ''m'', lg_server_url = ''u'', lg_workspace = ''/w'', lg_state = ''s'', lg_verifier = [],
     lg_redirect = [], lg_authorize_url = ''u'', lg_token_url = [], lg_client_id = [], lg_client_secret = []\<rparr>, default_thread_id))]\<rparr>"

theorem oauth_login_used_once_witness:
  "serve sample_app_env 0 (CompleteOAuth ''s'' ''c'') (sample_home, sample_store, ()) = Some (Failed 400 UnknownLogin, sample_home, sample_store, ())"
proof -
  have "serve sample_app_env 0 (CompleteOAuth ''s'' []) (sample_pending, sample_store, ()) =
      Some (Failed 400 UnknownLogin, sample_home, sample_store, ())"
    by (simp add: serve_def complete_oauth_request_def sample_pending_def sample_home_def)
  from oauth_login_used_once [OF this, of "[]" "[]" _ 0 "''c''"] show ?thesis by simp
qed

end
