(* ===== verification/AppStreams.thy ===== *)
theory AppStreams
  imports AppInvariants
begin

section \<open>Turns as streams\<close>

text \<open>
  Both interfaces stream a turn: they submit the input and pass on the events that carry the identifier of the submission until the
  turn ends. The first part shows that this delivers the turn when the input starts one. The second part puts the streams beside the
  session's steps (theory Session): when the input joins a turn that is already running, no event ever carries its identifier.
\<close>

subsection \<open>A turn that starts\<close>

text \<open>The session delivers the events \<open>q s\<close> in order, and what is written arrives.\<close>

definition delivers :: "'w app_env \<Rightarrow> session_io \<Rightarrow> ('w world \<Rightarrow> (string \<times> event_msg) list) \<Rightarrow> bool" where
  "delivers env io q \<longleftrightarrow>
     (\<forall>s e es. q s = e # es \<longrightarrow> (\<exists>s'. next_event (ae_io env) io s = (Inr e, s') \<and> q s' = es)) \<and>
     (\<forall>doc s. \<exists>s'. ae_write env doc s = (None, s') \<and> q s' = q s)"

lemma delivers_read: "delivers env io q \<Longrightarrow> q s = e # es \<Longrightarrow> \<exists>s'. next_event (ae_io env) io s = (Inr e, s') \<and> q s' = es"
  unfolding delivers_def by blast

lemma delivers_write: "delivers env io q \<Longrightarrow> \<exists>s'. ae_write env doc s = (None, s') \<and> q s' = q s"
  unfolding delivers_def by blast

lemma delivers_notes: "delivers env io q \<Longrightarrow> q (write_notes env docs s) = q s"
proof (induction docs arbitrary: s)
  case (Cons doc docs)
  from delivers_write [OF Cons.prems, of doc s] Cons show ?case by (auto simp: write_notes_def)
qed (simp add: write_notes_def)

definition of_turn :: "string \<Rightarrow> (string \<times> event_msg) list \<Rightarrow> event_msg list" where
  "of_turn turn evs = map snd (filter (\<lambda>ev. fst ev = turn) evs)"

lemma of_turn_simps [simp]:
  "of_turn turn [] = []" "of_turn turn ((i, m) # evs) = (if i = turn then m # of_turn turn evs else of_turn turn evs)"
  by (simp_all add: of_turn_def)

lemma chat_end_no_event: "chat_end m = Some e \<Longrightarrow> chat_event m = None"
  by (cases m) (auto simp: chat_end_def chat_event_def)

lemma stream_events_delivered:
  assumes "delivers env io q" "q s = pre @ (turn, m) # post" "chat_end m = Some e" "list_all (\<lambda>m. chat_end m = None) (of_turn turn pre)"
    "length pre < n"
  shows "\<exists>s'. stream_events env io turn n docs s = Some ((docs @ List.map_filter chat_event (of_turn turn pre), e), s') \<and> q s' = post"
  using assms(2,4,5)
proof (induction pre arbitrary: s n docs)
  case Nil
  from Nil obtain l where n: "n = Suc l" by (cases n) auto
  from delivers_read [OF assms(1)] Nil obtain s' where r: "next_event (ae_io env) io s = (Inr (turn, m), s')" "q s' = post" by fastforce
  with chat_end_no_event [OF assms(3)] assms(3) show ?case by (simp add: n map_filter_simps)
next
  case (Cons ev pre)
  obtain i x where ev: "ev = (i, x)" by (cases ev)
  from Cons.prems obtain l where n: "n = Suc l" "length pre < l" by (cases n) auto
  from delivers_read [OF assms(1)] Cons.prems(1) obtain s1 where r: "next_event (ae_io env) io s = (Inr (i, x), s1)"
    "q s1 = pre @ (turn, m) # post" by (fastforce simp: ev)
  from delivers_write [OF assms(1)] r(2) obtain s2 where w: "ae_write env (the (chat_event x)) s1 = (None, s2)" "q s2 = pre @ (turn, m) # post"
    by metis
  have rest: "list_all (\<lambda>m. chat_end m = None) (of_turn turn pre)" using Cons.prems(2) by (simp add: ev split: if_splits)
  show ?case
  proof (cases "i = turn")
    case False
    with Cons.IH [OF r(2) rest n(2), of docs] r(1) show ?thesis by (simp add: n ev)
  next
    case True
    then have "chat_end x = None" using Cons.prems(2) by (simp add: ev)
    with True Cons.IH [OF r(2) rest n(2), of docs] Cons.IH [OF w(2) rest n(2), of "docs @ [the (chat_event x)]"] r(1) w(1)
    show ?thesis by (cases "chat_event x") (simp_all add: n ev map_filter_simps)
  qed
qed

text \<open>The last notification of a turn, by how the turn ends.\<close>

definition v2_completed :: "string \<Rightarrow> string \<Rightarrow> event_msg \<Rightarrow> json" where
  "v2_completed thread turn m = last (fst (v2_event thread turn False m))"

lemma v2_event_ends:
  assumes "v2_event thread turn started m = (docs, started', over)"
  shows "over \<longleftrightarrow> chat_end m \<noteq> None" "over \<Longrightarrow> docs \<noteq> [] \<and> last docs = v2_completed thread turn m"
  using assms by (cases m; auto simp: v2_event_def chat_end_def v2_completed_def Let_def)+

lemma v2_turn_delivered:
  assumes "delivers env io q" "q s = pre @ (turn, m) # post" "chat_end m \<noteq> None" "list_all (\<lambda>m. chat_end m = None) (of_turn turn pre)"
    "length pre < n"
  shows "\<exists>docs' s'. v2_turn_events env io thread turn n started docs s = Some (docs', s') \<and> q s' = post \<and>
    docs' \<noteq> [] \<and> last docs' = v2_completed thread turn m"
  using assms(2,4,5)
proof (induction pre arbitrary: s n docs started)
  case Nil
  from Nil obtain l where n: "n = Suc l" by (cases n) auto
  from delivers_read [OF assms(1)] Nil obtain s' where r: "next_event (ae_io env) io s = (Inr (turn, m), s')" "q s' = post" by fastforce
  obtain new started' over where v: "v2_event thread turn started m = (new, started', over)" by (metis surj_pair)
  with v2_event_ends [OF v] assms(3) r delivers_notes [OF assms(1)] show ?case by (simp add: n)
next
  case (Cons ev pre)
  obtain i x where ev: "ev = (i, x)" by (cases ev)
  from Cons.prems obtain l where n: "n = Suc l" "length pre < l" by (cases n) auto
  from delivers_read [OF assms(1)] Cons.prems(1) obtain s1 where r: "next_event (ae_io env) io s = (Inr (i, x), s1)"
    "q s1 = pre @ (turn, m) # post" by (fastforce simp: ev)
  have rest: "list_all (\<lambda>m. chat_end m = None) (of_turn turn pre)" using Cons.prems(2) by (simp add: ev split: if_splits)
  show ?case
  proof (cases "i = turn")
    case False
    with Cons.IH [OF r(2) rest n(2), of started docs] r(1) show ?thesis by (simp add: n ev)
  next
    case True
    obtain new started' over where v: "v2_event thread turn started x = (new, started', over)" by (metis surj_pair)
    from True Cons.prems(2) v2_event_ends(1) [OF v] have "\<not> over" by (simp add: ev)
    with True Cons.IH [of "write_notes env new s1" l started' "docs @ new"] rest n(2) r v delivers_notes [OF assms(1)]
    show ?thesis by (simp add: n ev)
  qed
qed


text \<open>A queue of events as the world.\<close>

definition sample_queue_session :: "(string \<times> event_msg) list session_env" where
  "sample_queue_session = \<lparr>se_ext = sample_ext_env,
     se_mcp = mcp_env_of (sample_web_with (\<lambda>_. None) (\<lambda>_ w. (Inl [], w))) (\<lambda>_ w. (CallReplied (None, None), w)),
     se_host = Linux, se_hook = (\<lambda>_ _ s. s)\<rparr>"

definition sample_queue_env :: "(string \<times> event_msg) list app_env" where
  "sample_queue_env = \<lparr>ae_io = \<lparr>ie_session = sample_queue_session, ie_spawn = (\<lambda>_ s. (0, s)), ie_offer = (\<lambda>_ _ _ s. (Taken, s)),
     ie_admission = (\<lambda>_ _ s. (WaitStopped, s)), ie_result = (\<lambda>_ _ s. (Inr None, s)),
     ie_event = (\<lambda>_ (d, evs). case evs of [] \<Rightarrow> (Inl ''cancelled'', (d, evs)) | e # es \<Rightarrow> (Inr (Some e), (d, es))),
     ie_done = (\<lambda>_ s. (None, s)), ie_extensions = (\<lambda>_ _. sample_ext []), ie_active = (\<lambda>_ _. []), ie_now_text = (\<lambda>_. ''t'')\<rparr>,
     ae_decode = (\<lambda>_ b. None), ae_write = (\<lambda>_ s. (None, s)), ae_choose = (\<lambda>s. (Inr None, s)), ae_depth = 0\<rparr>"

lemma sample_queue_delivers: "delivers sample_queue_env io snd"
  by (auto simp: delivers_def sample_queue_env_def next_event_def split: prod.splits)


subsection \<open>A turn that is joined\<close>

text \<open>The steps that carry an identifier from outside: submissions and the events of processes.\<close>

fun carries :: "string \<Rightarrow> session_event_label \<Rightarrow> bool" where
  "carries i (Submit j op) \<longleftrightarrow> j = i"
| "carries i (LateEvent b j m) \<longleftrightarrow> j = i"
| "carries i _ \<longleftrightarrow> False"

definition silent :: "string \<Rightarrow> session_state \<Rightarrow> bool" where
  "silent i s \<longleftrightarrow> i \<notin> fst ` set (ss_events s) \<and> (\<forall>k. ss_active s = Some k \<longrightarrow> rk_turn_id k \<noteq> i)"

lemma silent_event: "silent i s \<Longrightarrow> j \<noteq> i \<Longrightarrow> silent i (send_event_raw b j m s)"
  by (simp add: silent_def send_event_raw_def)

lemma silent_active_id: "silent i s \<Longrightarrow> i \<noteq> [] \<Longrightarrow> active_turn_id s \<noteq> i"
  by (simp add: silent_def active_turn_id_def split: option.splits)

lemma silent_abort: "silent i s \<Longrightarrow> silent i (abort_active r a b s)"
  by (simp add: silent_def abort_active_def rk_abort_def split: option.splits)

lemma silent_same: "silent i s \<Longrightarrow> ss_events s' = ss_events s \<Longrightarrow> ss_active s' = ss_active s \<Longrightarrow> silent i s'"
  by (simp add: silent_def)

lemma silent_turn_input: "silent i s \<Longrightarrow> j \<noteq> i \<Longrightarrow> silent i (snd (handle_turn_input j input expected s))"
  by (auto simp: handle_turn_input_def silent_event rk_enqueue_def split: option.splits) (auto simp: silent_def new_task_def)

lemma silent_submission: "silent i s \<Longrightarrow> j \<noteq> i \<Longrightarrow> silent i (handle_submission j op s)"
  by (cases op) (auto simp: handle_submission_def silent_turn_input silent_abort silent_event handle_exec_approval_def
      handle_elicitation_def intro: silent_same split: option.splits)

lemma silent_step:
  assumes "session_step s l s'" "\<not> carries i l" "i \<noteq> []" "silent i s"
  shows "silent i s'"
  using assms
proof (cases rule: session_step.cases)
  case (starts k at)
  with assms(4) show ?thesis by (auto simp: silent_def send_event_raw_def)
next
  case (takes k b)
  with assms(4) show ?thesis by (auto simp: silent_def rk_take_def)
next
  case (ends k tt r)
  with assms(4) show ?thesis by (auto simp: silent_def send_event_raw_def)
next
  case (gone k)
  with assms(4) show ?thesis by (auto simp: silent_def task_gone_def)
next
  case (asks k turn request cid cmd dir reason proposed at)
  with assms(4) silent_active_id [OF assms(4,3)] show ?thesis
    unfolding request_approval_def by (auto intro!: silent_event intro: silent_same)
next
  case (elicits b eid server message fds schema)
  with assms(4) silent_active_id [OF assms(4,3)] show ?thesis
    unfolding request_elicitation_def by (auto intro!: silent_event intro: silent_same)
next
  case (submit j op)
  with assms(2,4) show ?thesis by (simp add: silent_submission)
next
  case closed
  with assms(4) show ?thesis by (simp add: silent_abort)
next
  case (sends k m)
  with assms(4) show ?thesis by (auto simp: silent_def send_event_raw_def)
next
  case (late m b turn)
  with assms(2,4) show ?thesis by (simp add: silent_event)
qed (use assms(4) in \<open>simp_all add: silent_def\<close>)

lemma silent_steps: "session_steps s ls s' \<Longrightarrow> list_all (\<lambda>l. \<not> carries i l) ls \<Longrightarrow> i \<noteq> [] \<Longrightarrow> silent i s \<Longrightarrow> silent i s'"
  by (induction rule: session_steps.induct) (auto dest: silent_step)

lemma silent_run: "session_run ls s \<Longrightarrow> list_all (\<lambda>l. \<not> carries i l) ls \<Longrightarrow> i \<noteq> [] \<Longrightarrow> silent i s"
proof (induction rule: session_run.induct)
  case run_start
  show ?case by (simp add: silent_def new_session_state_def)
next
  case (run_step ls s l s')
  then show ?case by (auto dest: silent_step)
qed

lemma stream_of_others:
  assumes "\<And>w j m w'. next_event (ae_io env) io w = (Inr (j, m), w') \<Longrightarrow> j \<noteq> i"
  shows "stream_events env io i n docs w = Some ((docs', e), w') \<Longrightarrow> docs' = docs \<and> e \<noteq> None"
    and "v2_turn_events env io thread i n started docs w = Some (docs', w') \<Longrightarrow> docs' = docs"
  by (induction n arbitrary: w) (auto split: prod.splits sum.splits if_splits dest: assms)

text \<open>
  Property C9. Input that joins a running turn is never answered on its own stream: let a run of the session be at a point where it
  receives and a turn takes input, and let input be submitted under a new identifier. It is admitted to that turn, and in every
  continuation no event carries the identifier, so that neither interface's stream ever writes a line of the turn or
  reports its end, however many events it reads: it ends only with an error of reading, and as long as there is none it does not end.
\<close>

theorem steered_stream_waits:
  assumes run: "session_run ls s" "list_all (\<lambda>l. \<not> carries i l) ls" "i \<noteq> []"
    and joins: "ss_loop s = Receiving" "ss_active s = Some k" "rk_accepting_input k" "validate_turn_input input"
    and client: "\<And>w j m w'. next_event (ae_io env) io w = (Inr (j, m), w') \<Longrightarrow>
      \<exists>rest s'. session_steps (handle_submission i (OpTurnInput [input] []) s) rest s' \<and> list_all (\<lambda>l. \<not> carries i l) rest \<and>
        (j, m) \<in> set (ss_events s')"
  shows "fst (handle_turn_input i [input] [] s) = Steered (rk_turn_id k) \<and> rk_turn_id k \<noteq> i \<and>
    (stream_events env io i n [] w = Some ((docs, e), w') \<longrightarrow> docs = [] \<and> e \<noteq> None) \<and>
    (v2_turn_events env io thread i n False docs0 w = Some (docs1, w'') \<longrightarrow> docs1 = docs0) \<and>
    ((\<forall>v. \<exists>j m v'. next_event (ae_io env) io v = (Inr (j, m), v')) \<longrightarrow> stream_events env io i n [] w = None)"
proof -
  have before: "silent i s" by (rule silent_run [OF run])
  then have other: "rk_turn_id k \<noteq> i" using joins(2) by (simp add: silent_def)
  have joined: "handle_turn_input i [input] [] s = (Steered (rk_turn_id k), s\<lparr>ss_active := Some (k\<lparr>rk_pending_input := rk_pending_input k @ [input]\<rparr>)\<rparr>)"
    using joins by (simp add: handle_turn_input_def rk_enqueue_def)
  have silent: "silent i (handle_submission i (OpTurnInput [input] []) s)"
    using before other by (simp add: handle_submission_def joined silent_def)
  have foreign: "j \<noteq> i" if "next_event (ae_io env) io v = (Inr (j, m), v')" for v j m v'
  proof -
    from client [OF that] obtain rest s' where "session_steps (handle_submission i (OpTurnInput [input] []) s) rest s'"
      "list_all (\<lambda>l. \<not> carries i l) rest" "(j, m) \<in> set (ss_events s')" by blast
    moreover from silent_steps [OF this(1,2) run(3) silent] have "silent i s'" .
    ultimately show ?thesis by (force simp: silent_def)
  qed
  have endless: "stream_events env io i n' [] v = None" if "\<forall>v. \<exists>j m v'. next_event (ae_io env) io v = (Inr (j, m), v')" for n' v
  proof (induction n' arbitrary: v)
    case (Suc n')
    from that obtain j m v' where "next_event (ae_io env) io v = (Inr (j, m), v')" by metis
    with foreign [OF this] Suc show ?case by simp
  qed simp
  show ?thesis
    using joined other endless stream_of_others [of env io i, OF foreign] by auto
qed

definition sample_other_env :: "(string \<times> event_msg) list app_env" where
  "sample_other_env = sample_queue_env\<lparr>ae_io := (ae_io sample_queue_env)\<lparr>ie_event := (\<lambda>_ s. (Inr (Some (''t1'', TurnStarted ''t1'' 1)), s))\<rparr>\<rparr>"

theorem steered_stream_waits_witness:
  "fst (handle_turn_input ''t2'' [image_input] [] running_state) = Steered ''t1'' \<and>
   stream_events sample_other_env \<lparr>io_handle = 0, io_shut = False\<rparr> ''t2'' 1000 [] ([], []) = None"
proof -
  let ?k = "new_task ''t1''\<lparr>rk_phase := Running\<rparr>" and ?io = "\<lparr>io_handle = 0, io_shut = False\<rparr>"
  have next_is: "next_event (ae_io sample_other_env) ?io v = (Inr (''t1'', TurnStarted ''t1'' 1), v)" for v
    by (simp add: next_event_def sample_other_env_def)
  have valid: "validate_turn_input image_input" by (simp add: validate_turn_input_def image_input_def)
  have client: "\<exists>rest s'. session_steps (handle_submission ''t2'' (OpTurnInput [image_input] []) running_state) rest s' \<and>
      list_all (\<lambda>l. \<not> carries ''t2'' l) rest \<and> (j, m) \<in> set (ss_events s')"
    if "next_event (ae_io sample_other_env) ?io w = (Inr (j, m), w')"
    for w w' :: "(string \<times> event_msg) list world" and j :: string and m :: event_msg
  proof -
    have "(j, m) \<in> set (ss_events (handle_submission ''t2'' (OpTurnInput [image_input] []) running_state))"
      using that valid by (auto simp: next_is handle_submission_def handle_turn_input_def running_state_def rk_enqueue_def new_task_def)
    with session_steps.none show ?thesis by (metis list.pred_inject(1))
  qed
  have state: "list_all (\<lambda>l. \<not> carries ''t2'' l) [Submit ''t1'' (OpTurnInput [image_input] []), TaskStarts 1]" "''t2'' \<noteq> []"
    "ss_loop running_state = Receiving" "ss_active running_state = Some ?k" "rk_accepting_input ?k"
    by (simp_all add: running_state_def new_session_state_def new_task_def)
  from steered_stream_waits [where env = sample_other_env and io = ?io, OF running_run state valid client]
  show ?thesis by (simp add: next_is new_task_def)
qed

end
