(* ===== verification/AppFork.thy ===== *)
theory AppFork
  imports AppInvariants
begin

section \<open>Forking a thread\<close>

text \<open>
  A fork copies the first items of a conversation into the rollout of a new thread. The theory follows the request through the thread
  store and the recorder: what the new rollout reads back, and that no file that was there changes.
\<close>

definition keeps_nodes :: "apath set \<Rightarrow> fs \<Rightarrow> fs \<Rightarrow> bool" where
  "keeps_nodes S d d' \<longleftrightarrow> (\<forall>q x. node_at d q = Some x \<longrightarrow> q \<notin> S \<longrightarrow> node_at d' q = Some x)"

lemma keeps_nodes_refl [simp]: "keeps_nodes S d d"
  by (simp add: keeps_nodes_def)

lemma keeps_nodes_trans: "keeps_nodes S a b \<Longrightarrow> keeps_nodes S b c \<Longrightarrow> keeps_nodes S a c"
  by (simp add: keeps_nodes_def)

lemma keeps_nodes_steps:
  "mkdir_all p d = Inr d' \<Longrightarrow> keeps_nodes S d d'"
  "append_file p c d = Inr d' \<Longrightarrow> p \<in> S \<Longrightarrow> keeps_nodes S d d'"
  "write_file p c d = Inr d' \<Longrightarrow> p \<in> S \<Longrightarrow> keeps_nodes S d d'"
  "rename_file p q d = Inr d' \<Longrightarrow> p \<in> S \<Longrightarrow> q \<in> S \<Longrightarrow> keeps_nodes S d d'"
  by (auto simp: keeps_nodes_def mkdir_all_keeps write_file_frame) (metis append_file_frame, metis rename_file_frame)

lemma write_thread_keeps:
  assumes "write_thread ri dir m d = (e, d')"
  shows "keeps_nodes {apath_of (metadata_path dir (tm_id m)), apath_of (metadata_path dir (tm_id m) @ ''.tmp'')} d d'"
    (is "keeps_nodes ?S d d'")
proof (cases "mkdir_all (apath_of dir) d")
  case (Inr d1)
  note one = keeps_nodes_steps(1) [OF Inr, of ?S]
  let ?c = "ri (metadata_json m) @ [newline]" and ?t = "apath_of (metadata_path dir (tm_id m) @ ''.tmp'')"
  show ?thesis
  proof (cases "write_file ?t ?c d1")
    case (Inl x)
    with assms Inr one show ?thesis by (simp add: write_thread_def Let_def)
  next
    case wr: (Inr d2)
    from keeps_nodes_trans [OF one keeps_nodes_steps(3) [OF wr]] have two: "keeps_nodes ?S d d2" by simp
    show ?thesis
    proof (cases "rename_file ?t (apath_of (metadata_path dir (tm_id m))) d2")
      case (Inl x)
      with assms Inr wr two show ?thesis by (simp add: write_thread_def Let_def)
    next
      case rn: (Inr d3)
      from keeps_nodes_trans [OF two keeps_nodes_steps(4) [OF rn]] assms Inr wr rn show ?thesis
        by (simp add: write_thread_def Let_def)
    qed
  qed
qed (use assms in \<open>simp add: write_thread_def\<close>)

lemma record_item_keeps:
  assumes "record_item render now k p (rr, d) = (rr', d')"
  shows "keeps_nodes {apath_of (rr_path rr)} d d' \<and> rr_path rr' = rr_path rr"
  using assms by (auto simp: record_item_def Let_def split: if_splits sum.splits intro: keeps_nodes_steps(2))

lemma record_items_keep:
  "record_response_items render now items (rr, d) = (rr', d') \<Longrightarrow> keeps_nodes {apath_of (rr_path rr)} d d'"
proof (induction items arbitrary: rr d)
  case (Cons i "is")
  obtain rr1 d1 where s: "record_item render now ''response_item'' (item_json i) (rr, d) = (rr1, d1)" by fastforce
  with Cons.prems have "record_response_items render now is (rr1, d1) = (rr', d')" by (simp add: record_response_items_def)
  from Cons.IH [OF this] record_item_keeps [OF s] show ?case using keeps_nodes_trans by metis
qed (simp add: record_response_items_def)

lemma write_rollout_keeps:
  assumes "write_rollout render parse now path root items d = (e, d')"
  shows "keeps_nodes {apath_of path} d d'"
proof (cases "fst (open_rollout parse path d)")
  case (Inl x)
  with assms show ?thesis
    by (auto simp: write_rollout_def open_rollout_def split: sum.splits prod.splits intro: keeps_nodes_steps)
next
  case (Inr x)
  obtain rr existing where x: "x = (rr, existing)" by fastforce
  obtain d1 where o': "open_rollout parse path d = (Inr (rr, existing), d1)" using Inr by (cases "open_rollout parse path d") (simp add: x)
  then obtain d0 where "mkdir_all (apath_of (dir_name path)) d = Inr d0" "append_file (apath_of path) [] d0 = Inr d1" and p: "rr_path rr = path"
    by (auto simp: open_rollout_def split: sum.splits)
  then have one: "keeps_nodes {apath_of path} d d1" by (meson keeps_nodes_steps(1,2) keeps_nodes_trans singletonI)
  show ?thesis
  proof (cases "existing = []")
    case False
    with assms one show ?thesis by (simp add: write_rollout_def o')
  next
    case True
    obtain rr1 d2 where m: "record_session_meta render now root (rr, d1) = (rr1, d2)" by fastforce
    then have two: "keeps_nodes {apath_of path} d1 d2 \<and> rr_path rr1 = path"
      using record_item_keeps p by (fastforce simp: record_session_meta_def Let_def split: if_splits)
    obtain rr2 where "record_response_items render now items (rr1, d2) = (rr2, d')"
      using assms True by (auto simp: write_rollout_def o' m split: prod.splits)
    from record_items_keep [OF this] one two show ?thesis using keeps_nodes_trans by metis
  qed
qed

lemma stamp_take: "stamp now n (take k ps) = take k (stamp now n ps)"
  by (induction ps arbitrary: n k) (auto simp: take_Cons split: nat.splits)

lemma fork_lines_take: "fork_lines now path root (take k items) = take (Suc k) (fork_lines now path root items)"
  by (simp add: fork_lines_def stamp_take [symmetric] take_map)

lemma create_thread_steps:
  assumes "create_thread se dir workspace (d, w) = (Inr m, d', w')"
  shows "write_thread (wb_render_indent (mv_web (se_mcp se))) dir m d = (None, d')" "CHR ''/'' \<notin> set (tm_id m)"
proof -
  from assms obtain bytes where "tm_id m = hex_encode bytes"
    and w: "write_thread (wb_render_indent (mv_web (se_mcp se))) dir m d = (None, d')"
    by (auto simp: create_thread_def Let_def split: sum.splits prod.splits option.splits)
  with hex_encode_chars [of bytes] show "CHR ''/'' \<notin> set (tm_id m)" by auto
  show "write_thread (wb_render_indent (mv_web (se_mcp se))) dir m d = (None, d')" by (rule w)
qed

text \<open>
  Property C10. A fork has the conversation of its source up to the chosen item: if the request succeeds, then reading the rollout of the
  new thread restores the history of the first items of the source, as many as the request names or all of them and never more than there
  are; the thread is entered; and no file or directory that was there before, the source's rollout among them, has changed. The codec
  of JSON is asked to read back the lines that are written.
\<close>

theorem fork_reads_back:
  assumes fork: "fork_thread_request env i body (ap, d, w) = (Replied 201 (DocMetadata m), ap', d', w')"
    and source: "find_thread ap i = Inr (key, rt)"
      "read_rollout (wb_parse (ae_web env)) d (apath_of (thread_rollout ap (tm_id (tr_metadata rt)))) = Inr (items, n)"
    and root: "is_abs (threads_dir ap)"
    and fresh: "node_at d (apath_of (metadata_path (threads_dir ap) (tm_id m))) = None"
      "node_at d (apath_of (metadata_path (threads_dir ap) (tm_id m) @ ''.tmp'')) = None"
      "node_at d (apath_of (thread_rollout ap (tm_id m))) = None"
    and codec: "list_all (\<lambda>l. good_text (wb_render (ae_web env)) (wb_parse (ae_web env)) (line_json l))
      (fork_lines (ie_now_text (ae_io env) w') (thread_rollout ap (tm_id m)) (tm_workspace_root m) items)"
  shows "\<exists>c items' n'. Option.bind (ae_decode env 16384 body) (int_ptr_field ''item_count'') = Some c \<and>
    (case c of None \<Rightarrow> True | Some k \<Rightarrow> 0 \<le> k \<and> k \<le> int (length items)) \<and>
    read_rollout (wb_parse (ae_web env)) d' (apath_of (thread_rollout ap (tm_id m))) = Inr (items', n') \<and>
    restore items' [] = restore (case c of None \<Rightarrow> items | Some k \<Rightarrow> take (nat k) items) [] \<and>
    map_of (ap_threads ap') (tm_id m) = Some (new_thread m) \<and> keeps_nodes {} d d'"
proof -
  let ?se = "ie_session (ae_io env)" and ?path = "thread_rollout ap (tm_id m)"
  from fork source obtain c d1 k where c: "Option.bind (ae_decode env 16384 body) (int_ptr_field ''item_count'') = Some c"
    and k: "k = (case c of None \<Rightarrow> int (length items) | Some n \<Rightarrow> n)" "0 \<le> k" "k \<le> int (length items)"
    and cr: "create_thread ?se (threads_dir ap) (tm_workspace_root (tr_metadata rt)) (d, w) = (Inr m, d1, w')"
    and wr: "write_rollout (wb_render (ae_web env)) (wb_parse (ae_web env)) (ie_now_text (ae_io env) w') ?path (tm_workspace_root m)
      (take (nat k) items) d1 = (None, d')"
    and ap': "ap' = enter_thread m ap"
    unfolding fork_thread_request_def with_thread_def fst_conv source(1) sum.case prod.case source(2)
    by (auto simp: Let_def split: option.splits if_splits prod.splits sum.splits)
  note thread = create_thread_steps [OF cr]
  note effect = write_thread_effect [OF thread(1) root thread(2)]
  note paths = thread_paths [OF root thread(2)]
  have path: "apath_of ?path = GoDirs.child (apath_of (threads_dir ap)) (tm_id m @ ''.jsonl'')" by (simp add: thread_rollout_def paths)
  have none: "node_at d1 (apath_of ?path) = None"
    using effect(2) [of "apath_of ?path"] fresh(3) child_less less_le_not_le by (auto simp: path)
  moreover from effect(1) have "blocked d1 (apath_of ?path) = None" by (simp add: path blocked_None ancestors_iff less_child dirs_to_def)
  ultimately have missing: "read_file d1 (apath_of ?path) = Inl NotExist" by (simp add: read_file_def)
  have good: "list_all (\<lambda>l. good_text (wb_render (ae_web env)) (wb_parse (ae_web env)) (line_json l))
      (fork_lines (ie_now_text (ae_io env) w') ?path (tm_workspace_root m) (take (nat k) items))"
    using codec unfolding fork_lines_take list_all_iff by (blast dest: in_set_takeD)
  from write_rollout_reads [OF wr none good missing] obtain items' n' where
    r: "read_rollout (wb_parse (ae_web env)) d' (apath_of ?path) = Inr (items', n')" "restore items' [] = restore (take (nat k) items) []" by blast
  have "keeps_nodes {} d d'"
    unfolding keeps_nodes_def
  proof (intro allI impI)
    fix q x
    assume q: "node_at d q = Some x"
    with fresh have "q \<noteq> apath_of (metadata_path (threads_dir ap) (tm_id m))"
      "q \<noteq> apath_of (metadata_path (threads_dir ap) (tm_id m) @ ''.tmp'')" "q \<noteq> apath_of ?path" by auto
    with q write_thread_keeps [OF thread(1)] write_rollout_keeps [OF wr] show "node_at d' q = Some x" by (simp add: keeps_nodes_def)
  qed
  moreover have "map_of (ap_threads ap') (tm_id m) = Some (new_thread m)" by (simp add: ap' map_of_enter)
  moreover have "restore items' [] = restore (case c of None \<Rightarrow> items | Some k \<Rightarrow> take (nat k) items) []"
    using r(2) k(1) by (cases c) simp_all
  moreover have "case c of None \<Rightarrow> True | Some k \<Rightarrow> 0 \<le> k \<and> k \<le> int (length items)" using k by (cases c) simp_all
  ultimately show ?thesis using c r(1) by blast
qed

definition sample_meta_line :: rollout_line where
  "sample_meta_line = hd (fork_lines ''t'' (thread_rollout sample_home (tm_id sample_thread)) ''/w'' [])"

definition sample_fork_env :: "unit app_env" where
  "sample_fork_env = sample_app_env\<lparr>ae_io := sample_io_env\<lparr>ie_session := sample_session_env\<lparr>se_mcp :=
     mcp_env_of ((sample_web_with (\<lambda>_. Some (line_json sample_meta_line)) (\<lambda>_ w. (Inl [], w)))\<lparr>wb_render := (\<lambda>_. ''x'')\<rparr>)
       (\<lambda>_ w. (CallReplied (None, None), w))\<rparr>\<rparr>\<rparr>"

lemma sample_forks: "fst (fork_thread_request sample_fork_env [] [] (sample_home, sample_store, ())) = Replied 201 (DocMetadata sample_thread)"
  by code_simp

theorem fork_reads_back_witness:
  "keeps_nodes {} sample_store (fst (snd (snd (fork_thread_request sample_fork_env [] [] (sample_home, sample_store, ())))))"
proof -
  obtain ap' d' where f: "fork_thread_request sample_fork_env [] [] (sample_home, sample_store, ()) =
      (Replied 201 (DocMetadata sample_thread), ap', d', ())"
    using sample_forks by (cases "fork_thread_request sample_fork_env [] [] (sample_home, sample_store, ())") auto
  have found: "find_thread sample_home [] = Inr (default_thread_id, new_thread \<lparr>tm_id = default_thread_id,
     tm_workspace_root = ''/w'', tm_working_directory = ''/w'', tm_created_at_ms = 0, tm_title = []\<rparr>)"
    by (simp add: find_thread_def sample_home_def)
  have read: "read_rollout (wb_parse (ae_web sample_fork_env)) sample_store (apath_of (thread_rollout sample_home (tm_id (tr_metadata
     (new_thread \<lparr>tm_id = default_thread_id, tm_workspace_root = ''/w'', tm_working_directory = ''/w'', tm_created_at_ms = 0,
        tm_title = []\<rparr>))))) = Inr ([], 0)"
    by code_simp
  have root: "is_abs (threads_dir sample_home)" by code_simp
  have fresh: "node_at sample_store (apath_of (metadata_path (threads_dir sample_home) (tm_id sample_thread))) = None"
    "node_at sample_store (apath_of (metadata_path (threads_dir sample_home) (tm_id sample_thread) @ ''.tmp'')) = None"
    "node_at sample_store (apath_of (thread_rollout sample_home (tm_id sample_thread))) = None"
    by code_simp+
  have codec: "list_all (\<lambda>l. good_text (wb_render (ae_web sample_fork_env)) (wb_parse (ae_web sample_fork_env)) (line_json l))
      (fork_lines (ie_now_text (ae_io sample_fork_env) ()) (thread_rollout sample_home (tm_id sample_thread)) (tm_workspace_root sample_thread) [])"
    by (simp add: sample_fork_env_def sample_app_env_def sample_io_env_def ae_web_def io_web_def mcp_env_of_def sample_web_with_def
        good_text_def max_line_bytes_def newline_def fork_lines_def sample_meta_line_def session_meta_def sample_thread_def)
  from fork_reads_back [OF f found read root fresh codec] show ?thesis by (auto simp: f)
qed

end
